(* ===== verification/Prelude.thy ===== *)
theory Prelude
  imports Main "HOL-Library.Word"
begin

text \<open>
  Shared vocabulary of the development: the machine-integer types of the drivers, the
  value types of the Genode base library as the drivers use them, and the generic lemmas
  the component theories rest on.

  Conventions used throughout.
  \<^item> A \<^verbatim>\<open>Constructible<T>\<close> is an \<open>option\<close>: \<open>None\<close> is the destructed object.
  \<^item> A \<^verbatim>\<open>String<N>\<close> is a list of characters without the terminating zero, cut to
    \<open>N - 1\<close> characters wherever the code constructs it from longer data
    (\<open>genode_string\<close>). Where the code tells a never-assigned string (length 0) from an
    assigned empty one (length 1, the terminating zero), the model uses a \<open>string option\<close>
    and \<open>str_length\<close>.
  \<^item> A \<^verbatim>\<open>Registry\<close> or \<^verbatim>\<open>List_model\<close> is a list in iteration order.
  \<^item> \<^verbatim>\<open>unsigned\<close> counters are 32-bit words, so they wrap as the code's do.
\<close>

type_synonym u8 = "8 word"
type_synonym u16 = "16 word"
type_synonym u32 = "32 word"
type_synonym u64 = "64 word"

named_theorems frame_simps \<open>fields a step leaves unchanged\<close>
named_theorems step_defs \<open>definitions of the steps of a component\<close>

section \<open>Strings\<close>

text \<open>\<^verbatim>\<open>Cstring(ptr, len)\<close>: the bytes up to the first zero byte, at most \<open>len\<close> of them.\<close>

definition cstring :: "string \<Rightarrow> string" where
  "cstring s = takeWhile (\<lambda>c. c \<noteq> CHR 0x00) s"

definition genode_string :: "nat \<Rightarrow> string \<Rightarrow> string" where
  "genode_string n s = take (n - 1) s"

text \<open>\<^verbatim>\<open>String::length()\<close> counts the terminating zero; it is 0 for a never-assigned string.\<close>

definition str_length :: "string option \<Rightarrow> nat" where
  "str_length s = (case s of None \<Rightarrow> 0 | Some t \<Rightarrow> length t + 1)"

definition str_of :: "string option \<Rightarrow> string" where
  "str_of s = (case s of None \<Rightarrow> [] | Some t \<Rightarrow> t)"

definition has_prefix :: "string \<Rightarrow> string \<Rightarrow> bool" where
  "has_prefix p s \<longleftrightarrow> length p \<le> length s \<and> take (length p) s = p"

lemma length_genode_string [simp]: "length (genode_string n s) = min (length s) (n - 1)"
  by (simp add: genode_string_def)

lemma genode_string_short [simp]: "length s < n \<Longrightarrow> genode_string n s = s"
  by (simp add: genode_string_def)

lemma genode_string_idem [simp]: "genode_string n (genode_string n s) = genode_string n s"
  by (simp add: genode_string_def)

lemma genode_string_Nil [simp]: "genode_string n [] = []"
  by (simp add: genode_string_def)

lemma cstring_id: "CHR 0x00 \<notin> set s \<Longrightarrow> cstring s = s"
  unfolding cstring_def by (rule takeWhile_eq_all_conv [THEN iffD2]) auto

lemma str_length_simps [simp]:
  "str_length None = 0" "str_length (Some t) = length t + 1"
  by (simp_all add: str_length_def)

lemma str_of_simps [simp]: "str_of None = []" "str_of (Some t) = t"
  by (simp_all add: str_of_def)

lemma has_prefix_append [simp]: "has_prefix p (p @ s)"
  by (simp add: has_prefix_def)

lemma has_prefix_iff: "has_prefix p s \<longleftrightarrow> (\<exists>t. s = p @ t)"
proof
  assume "has_prefix p s"
  then have "s = p @ drop (length p) s"
    by (metis append_take_drop_id has_prefix_def)
  then show "\<exists>t. s = p @ t" ..
next
  assume "\<exists>t. s = p @ t"
  then show "has_prefix p s" by auto
qed

section \<open>Lists\<close>

text \<open>Update the first element that satisfies a predicate (\<open>for_each\<close> with a \<open>done\<close> flag).\<close>

fun update_first :: "('a \<Rightarrow> bool) \<Rightarrow> ('a \<Rightarrow> 'a) \<Rightarrow> 'a list \<Rightarrow> 'a list" where
  "update_first p f [] = []"
| "update_first p f (x # xs) = (if p x then f x # xs else x # update_first p f xs)"

lemma length_update_first [simp]: "length (update_first p f xs) = length xs"
  by (induction xs) auto

lemma update_first_none: "\<forall>x \<in> set xs. \<not> p x \<Longrightarrow> update_first p f xs = xs"
  by (induction xs) auto

lemma set_update_first: "set (update_first p f xs) \<subseteq> set xs \<union> f ` {x \<in> set xs. p x}"
  by (induction xs) auto

lemma map_update_first: "(\<And>x. g (f x) = g x) \<Longrightarrow> map g (update_first p f xs) = map g xs"
  by (induction xs) auto

lemma update_first_ex: "(\<exists>x \<in> set xs. p x) \<Longrightarrow> \<exists>y \<in> set (update_first p f xs). \<exists>x \<in> set xs. p x \<and> y = f x"
  by (induction xs) auto

lemma find_SomeD: "List.find p xs = Some x \<Longrightarrow> x \<in> set xs \<and> p x"
  by (induction xs) (auto split: if_splits)

lemma find_None_iff_all: "List.find p xs = None \<longleftrightarrow> (\<forall>x \<in> set xs. \<not> p x)"
  by (induction xs) auto

lemma takeWhile_length_less_iff:
  "length (takeWhile p xs) < length xs \<longleftrightarrow> (\<exists>x \<in> set xs. \<not> p x)"
  by (induction xs) auto

lemma length_dropWhile_drop_less:
  assumes "xs \<noteq> []" and "length (takeWhile (\<lambda>x. \<not> p x) xs) < length xs"
  shows "length (dropWhile p (drop (length (takeWhile (\<lambda>x. \<not> p x) xs)) xs)) < length xs"
proof -
  let ?n = "length (takeWhile (\<lambda>x. \<not> p x) xs)"
  have "p (xs ! ?n)" using nth_length_takeWhile [OF assms(2)] by simp
  moreover have "drop ?n xs = xs ! ?n # drop (Suc ?n) xs"
    using assms(2) by (simp add: Cons_nth_drop_Suc)
  ultimately have "dropWhile p (drop ?n xs) = dropWhile p (drop (Suc ?n) xs)" by simp
  then have "length (dropWhile p (drop ?n xs)) \<le> length (drop (Suc ?n) xs)"
    by (metis length_dropWhile_le)
  then show ?thesis using assms(2) by simp
qed

lemma has_prefix_shorter: "has_prefix (p @ q) l \<Longrightarrow> has_prefix p l"
  unfolding has_prefix_def
  by (auto simp: le_add1 [THEN order_trans] dest: arg_cong [where f = "take (length p)"])

end
