(* ===== verification/At_Types.thy ===== *)
theory At_Types
  imports Prelude
begin

text \<open>
  AT protocol, \<^verbatim>\<open>src/driver/modem/at_protocol/types.h\<close> and \<^verbatim>\<open>line.h\<close>: the fixed command
  strings, prefix tests on strings and lines, and the extraction of a comma-separated
  element. Splitting a string into tokens is \<^verbatim>\<open>Genode::Token\<close>'s business and not part of
  this repository: \<open>scan\<close> is a parameter (text to token sequence, the END token left out),
  and the locale \<open>at_scanner\<close> states the two facts about tokens the protocol relies on.
\<close>

section \<open>Command strings\<close>

definition AT_CHECK_READY :: string where "AT_CHECK_READY = ''AT''"
definition AT_REQUEST_CALL_LIST :: string where "AT_REQUEST_CALL_LIST = ''AT+CLCC''"
definition AT_HANG_UP :: string where "AT_HANG_UP = ''ATH''"
definition AT_ACCEPT_CALL :: string where "AT_ACCEPT_CALL = ''ATA''"
definition AT_POWER_DOWN :: string where "AT_POWER_DOWN = ''AT+QPOWD''"
definition AT_DISABLE_ECHO :: string where "AT_DISABLE_ECHO = ''ATE0''"
definition AT_QCFG_PREFIX :: string where "AT_QCFG_PREFIX = ''AT+QCFG=''"
definition AT_REBOOT :: string where "AT_REBOOT = ''AT+CFUN=1,1''"

lemmas at_command_defs = AT_CHECK_READY_def AT_REQUEST_CALL_LIST_def AT_HANG_UP_def
  AT_ACCEPT_CALL_def AT_POWER_DOWN_def AT_DISABLE_ECHO_def AT_QCFG_PREFIX_def AT_REBOOT_def

text \<open>\<^verbatim>\<open>using Command = String<256>\<close> and \<^verbatim>\<open>using Number = String<50>\<close>\<close>

abbreviation mk_command :: "string \<Rightarrow> string" where
  "mk_command s \<equiv> genode_string 256 s"

abbreviation mk_number :: "string \<Rightarrow> string" where
  "mk_number s \<equiv> genode_string 50 s"

section \<open>Prefix tests\<close>

text \<open>
  \<^verbatim>\<open>At_protocol::starts_with\<close>: the string's length (with the terminating zero) exceeds the
  prefix length and the first characters agree.
\<close>

definition starts_with :: "string \<Rightarrow> string \<Rightarrow> bool" where
  "starts_with s prefix \<longleftrightarrow>
     length prefix < str_length (Some s) \<and> take (length prefix) s = prefix"

text \<open>A \<open>Line\<close> is the byte range handed over by the read buffer.\<close>

type_synonym line = string

definition line_starts_with :: "line \<Rightarrow> string \<Rightarrow> bool" where
  "line_starts_with l s \<longleftrightarrow> length s \<le> length l \<and> take (length s) l = s"

definition line_eq :: "line \<Rightarrow> string \<Rightarrow> bool" where
  "line_eq l s \<longleftrightarrow> length l = length s \<and> take (length s) l = s"

text \<open>\<^verbatim>\<open>Line::with_value\<close>: what follows the prefix, as a \<^verbatim>\<open>Cstring\<close>.\<close>

definition line_value :: "line \<Rightarrow> string \<Rightarrow> string option" where
  "line_value l prefix =
     (if line_starts_with l prefix then Some (cstring (drop (length prefix) l)) else None)"

lemma starts_with_iff: "starts_with s p \<longleftrightarrow> has_prefix p s"
  by (auto simp: starts_with_def has_prefix_def)

lemma line_starts_with_iff: "line_starts_with l p \<longleftrightarrow> has_prefix p l"
  by (auto simp: line_starts_with_def has_prefix_def)

lemma line_eq_iff [simp]: "line_eq l s \<longleftrightarrow> l = s"
  by (auto simp: line_eq_def)

lemma line_value_append:
  "CHR 0x00 \<notin> set v \<Longrightarrow> line_value (p @ v) p = Some v"
  by (simp add: line_value_def line_starts_with_iff cstring_id)

section \<open>Comma-separated elements\<close>

datatype token_type = SINGLECHAR | IDENT | STRING | WHITESPACE | NUMBER

record token =
  tok_type :: token_type
  tok_text :: string

text \<open>
  The loop of \<^verbatim>\<open>comma_separated_element\<close>. \<open>None\<close> is the never-assigned \<^verbatim>\<open>String<N>()\<close>
  returned when the element is missing or neither a number nor a string.
\<close>

fun element_loop :: "nat \<Rightarrow> nat \<Rightarrow> token list \<Rightarrow> string option" where
  "element_loop idx commas [] = None"
| "element_loop idx commas (t # ts) =
     (if tok_type t = SINGLECHAR then
        element_loop idx (if take 1 (tok_text t) = '','' then commas + 1 else commas) ts
      else if idx \<noteq> commas then element_loop idx commas ts
      else if tok_type t = NUMBER then Some (cstring (tok_text t))
      else if tok_type t = STRING then
        Some (cstring (take (length (tok_text t) - 2) (drop 1 (tok_text t))))
      else element_loop idx commas ts)"

definition comma_separated_element ::
  "(string \<Rightarrow> token list) \<Rightarrow> nat \<Rightarrow> string \<Rightarrow> string option" where
  "comma_separated_element scan idx s = element_loop idx 0 (scan s)"

text \<open>The quotation mark and the comma as characters.\<close>

definition quoted :: "string \<Rightarrow> string" where
  "quoted s = CHR 0x22 # s @ [CHR 0x22]"

definition decimal_digit :: "char \<Rightarrow> bool" where
  "decimal_digit c \<longleftrightarrow> c \<in> set ''0123456789''"

definition digits_only :: "string \<Rightarrow> bool" where
  "digits_only s \<longleftrightarrow> s \<noteq> [] \<and> list_all decimal_digit s"

text \<open>A quoted text without quotation marks, backslashes and zero bytes.\<close>

definition plain_text :: "string \<Rightarrow> bool" where
  "plain_text s \<longleftrightarrow> CHR 0x22 \<notin> set s \<and> CHR 0x5C \<notin> set s \<and> CHR 0x00 \<notin> set s"

text \<open>A field of a comma-separated response: absent, a number or a quoted text.\<close>

datatype csv_field = Absent | Num string | Txt string

fun field_text :: "csv_field \<Rightarrow> string" where
  "field_text Absent = []"
| "field_text (Num n) = n"
| "field_text (Txt s) = quoted s"

fun field_value :: "csv_field \<Rightarrow> string option" where
  "field_value Absent = None"
| "field_value (Num n) = Some n"
| "field_value (Txt s) = Some s"

fun field_ok :: "csv_field \<Rightarrow> bool" where
  "field_ok Absent = True"
| "field_ok (Num n) = digits_only n"
| "field_ok (Txt s) = plain_text s"

fun csv_text :: "csv_field list \<Rightarrow> string" where
  "csv_text [] = []"
| "csv_text [f] = field_text f"
| "csv_text (f # fs) = field_text f @ '','' @ csv_text fs"

fun field_tokens :: "csv_field \<Rightarrow> token list" where
  "field_tokens Absent = []"
| "field_tokens (Num n) = [\<lparr>tok_type = NUMBER, tok_text = n\<rparr>]"
| "field_tokens (Txt s) = [\<lparr>tok_type = STRING, tok_text = quoted s\<rparr>]"

lemma decimal_digit_not_zero: "\<not> decimal_digit (CHR 0x00)"
  by (simp add: decimal_digit_def)

lemma digits_no_zero: "digits_only n \<Longrightarrow> CHR 0x00 \<notin> set n"
  using decimal_digit_not_zero unfolding digits_only_def list_all_iff by blast

lemma cstring_digits [simp]: "digits_only n \<Longrightarrow> cstring n = n"
  by (simp add: cstring_id digits_no_zero)

lemma cstring_plain [simp]: "plain_text s \<Longrightarrow> cstring s = s"
  by (simp add: cstring_id plain_text_def)

lemma element_loop_field_hit:
  "field_ok f \<Longrightarrow> f \<noteq> Absent \<Longrightarrow>
    element_loop k k (field_tokens f @ ts) = field_value f"
  by (cases f) (simp_all add: quoted_def)

lemma element_loop_field_skip:
  "k \<noteq> j \<Longrightarrow> element_loop k j (field_tokens f @ ts) = element_loop k j ts"
  by (cases f) auto

lemma element_loop_passed: "k < j \<Longrightarrow> element_loop k j ts = None"
  by (induction ts arbitrary: j) auto

text \<open>
  What the protocol relies on: a field followed by a comma (or by the end of the text) is
  scanned as its one token followed by the comma's, and the rest is scanned on its own.
\<close>

locale at_scanner =
  fixes scan :: "string \<Rightarrow> token list"
  assumes scan_last: "field_ok f \<Longrightarrow> scan (field_text f) = field_tokens f"
    and scan_comma: "field_ok f \<Longrightarrow> scan (field_text f @ CHR '','' # rest)
      = field_tokens f @ \<lparr>tok_type = SINGLECHAR, tok_text = '',''\<rparr> # scan rest"
begin

lemma element_loop_csv:
  assumes "list_all field_ok fs" and "j \<le> idx"
  shows "element_loop idx j (scan (csv_text fs)) =
    (if idx - j < length fs then field_value (fs ! (idx - j)) else None)"
  using assms
proof (induction fs arbitrary: j rule: csv_text.induct)
  case 1
  then show ?case using scan_last [of Absent] by simp
next
  case (2 f)
  then have "scan (csv_text [f]) = field_tokens f" by (simp add: scan_last)
  then show ?case
    using 2 element_loop_field_hit [of f idx "[]"] element_loop_field_skip [of idx j f "[]"]
    by (cases "idx = j"; cases f) auto
next
  case (3 f g fs)
  let ?comma = "\<lparr>tok_type = SINGLECHAR, tok_text = '',''\<rparr>"
  have toks: "scan (csv_text (f # g # fs)) = field_tokens f @ ?comma # scan (csv_text (g # fs))"
    using 3 scan_comma [of f "csv_text (g # fs)"] by simp
  show ?case
  proof (cases "idx = j")
    case True
    then have "element_loop idx (Suc j) ts = None" for ts by (simp add: element_loop_passed)
    then show ?thesis
      using True toks "3.prems" element_loop_field_hit [of f j "?comma # scan (csv_text (g # fs))"]
      by (cases f) auto
  next
    case False
    then have le: "Suc j \<le> idx" using "3.prems" by simp
    have "element_loop idx j (scan (csv_text (f # g # fs)))
        = element_loop idx (Suc j) (scan (csv_text (g # fs)))"
      using False toks by (simp add: element_loop_field_skip)
    also have "\<dots> = (if idx - Suc j < length (g # fs) then field_value ((g # fs) ! (idx - Suc j))
        else None)"
      using 3 le by simp
    finally show ?thesis using le by (auto simp: nth_Cons')
  qed
qed

lemma element_of_csv:
  "list_all field_ok fs \<Longrightarrow> comma_separated_element scan idx (csv_text fs) =
    (if idx < length fs then field_value (fs ! idx) else None)"
  by (simp add: comma_separated_element_def element_loop_csv)

end

text \<open>
  A concrete scanner: runs of digits, quoted texts, runs of letters and underlines, runs of
  blanks, and every other character on its own. It meets the two facts.
\<close>

definition ident_char :: "char \<Rightarrow> bool" where
  "ident_char c \<longleftrightarrow> c \<in> set ''abcdefghijklmnopqrstuvwxyzABCDEFGHIJKLMNOPQRSTUVWXYZ_''"

definition blank_char :: "char \<Rightarrow> bool" where
  "blank_char c \<longleftrightarrow> c \<in> {CHR '' '', CHR 0x09, CHR 0x0A, CHR 0x0D}"

definition mk_token :: "token_type \<Rightarrow> string \<Rightarrow> token" where
  "mk_token ty s = \<lparr>tok_type = ty, tok_text = s\<rparr>"

function token_scan :: "string \<Rightarrow> token list" where
  "token_scan [] = []"
| "token_scan (c # cs) =
     (if decimal_digit c then
        mk_token NUMBER (c # takeWhile decimal_digit cs) # token_scan (dropWhile decimal_digit cs)
      else if ident_char c then
        mk_token IDENT (c # takeWhile ident_char cs) # token_scan (dropWhile ident_char cs)
      else if blank_char c then
        mk_token WHITESPACE (c # takeWhile blank_char cs) # token_scan (dropWhile blank_char cs)
      else if c = CHR 0x22 \<and> CHR 0x22 \<in> set cs then
        mk_token STRING (quoted (takeWhile (\<lambda>x. x \<noteq> CHR 0x22) cs))
          # token_scan (drop 1 (dropWhile (\<lambda>x. x \<noteq> CHR 0x22) cs))
      else mk_token SINGLECHAR [c] # token_scan cs)"
  by pat_completeness auto
termination
  by (relation "measure length")
    (auto simp: less_Suc_eq_le length_dropWhile_le intro: le_trans [OF diff_le_self])

declare token_scan.simps(2) [simp del]

lemma token_scan_number:
  assumes "digits_only n" and "rest = [] \<or> \<not> decimal_digit (hd rest)"
  shows "token_scan (n @ rest) = mk_token NUMBER n # token_scan rest"
proof -
  obtain c cs where n: "n = c # cs" and c: "decimal_digit c" and cs: "list_all decimal_digit cs"
    using assms(1) by (cases n) (auto simp: digits_only_def)
  have "takeWhile decimal_digit (cs @ rest) = cs" "dropWhile decimal_digit (cs @ rest) = rest"
    using cs assms(2) by (cases rest; auto simp: list_all_iff takeWhile_append dropWhile_append)+
  then show ?thesis using n c by (simp add: token_scan.simps(2))
qed

lemma token_scan_quoted:
  assumes "plain_text s"
  shows "token_scan (quoted s @ rest) = mk_token STRING (quoted s) # token_scan rest"
proof -
  have "takeWhile (\<lambda>x. x \<noteq> CHR 0x22) (s @ CHR 0x22 # rest) = s"
    "dropWhile (\<lambda>x. x \<noteq> CHR 0x22) (s @ CHR 0x22 # rest) = CHR 0x22 # rest"
    using assms by (auto simp: plain_text_def takeWhile_append dropWhile_append)
  then show ?thesis
    by (simp add: quoted_def [of s] token_scan.simps(2) decimal_digit_def ident_char_def
        blank_char_def)
qed

lemma token_scan_comma:
  "token_scan (CHR '','' # rest) = mk_token SINGLECHAR '','' # token_scan rest"
  by (simp add: token_scan.simps(2) decimal_digit_def ident_char_def blank_char_def)

lemma token_scan_field:
  assumes "field_ok f" and "rest = [] \<or> \<not> decimal_digit (hd rest)"
  shows "token_scan (field_text f @ rest) = field_tokens f @ token_scan rest"
  using assms by (cases f) (simp_all add: token_scan_number token_scan_quoted mk_token_def)

interpretation scanner: at_scanner token_scan
proof unfold_locales
  fix f assume "field_ok f"
  then show "token_scan (field_text f) = field_tokens f"
    using token_scan_field [of f "[]"] by simp
next
  fix f rest assume "field_ok f"
  then show "token_scan (field_text f @ CHR '','' # rest)
      = field_tokens f @ \<lparr>tok_type = SINGLECHAR, tok_text = '',''\<rparr> # token_scan rest"
    using token_scan_field [of f "CHR '','' # rest"]
    by (simp add: token_scan_comma mk_token_def decimal_digit_def)
qed

end
