(* ===== verification/At_Read_Buffer.thy ===== *)
theory At_Read_Buffer
  imports At_Types
begin

text \<open>
  \<^verbatim>\<open>src/driver/modem/at_protocol/read_buffer.h\<close>: the buffer that cuts the modem's byte
  stream into lines. The model keeps the payload bytes (\<open>_buffer[0 .. payload_bytes)\<close>) as
  a list; \<open>mll\<close> is \<open>MAX_LINE_LEN\<close>, the capacity \<open>2 * mll\<close>. The modem's side is a list of
  segments, each the data one read finds; a read returns at most as many bytes as asked for
  and an empty segment ends a burst.

  Results: the loop of \<open>consume_lines\<close> hands every complete line to the callback and leaves
  an incomplete tail of at most \<open>mll\<close> bytes; the non-empty lines delivered depend on the
  bytes alone, not on how the stream is cut into segments.
\<close>

section \<open>The buffer\<close>

definition end_of_line :: "char \<Rightarrow> bool" where
  "end_of_line c \<longleftrightarrow> c = CHR 0x0D \<or> c = CHR 0x0A"

datatype fill_result = DATA | DONE

definition chan_read :: "nat \<Rightarrow> string list \<Rightarrow> string \<times> string list" where
  "chan_read n segs = (case segs of [] \<Rightarrow> ([], [])
     | c # cs \<Rightarrow> (take n c, if length c \<le> n then cs else drop n c # cs))"

definition fill :: "nat \<Rightarrow> string \<Rightarrow> string list \<Rightarrow> fill_result \<times> string \<times> string list" where
  "fill mll buf segs =
     (let remaining_capacity = 2 * mll - length buf;
          (appended, segs') = chan_read remaining_capacity segs
      in if length appended = 0 then (DONE, buf, segs') else (DATA, buf @ appended, segs'))"

lemma end_of_line_progress:
  assumes "length (takeWhile (\<lambda>c. \<not> end_of_line c) buf) < length buf"
  shows "0 < length (takeWhile end_of_line (drop (length (takeWhile (\<lambda>c. \<not> end_of_line c) buf)) buf))"
proof -
  let ?n = "length (takeWhile (\<lambda>c. \<not> end_of_line c) buf)"
  have "end_of_line (buf ! ?n)" using nth_length_takeWhile [OF assms] by simp
  moreover have "drop ?n buf = buf ! ?n # drop (Suc ?n) buf"
    using assms by (simp add: Cons_nth_drop_Suc)
  ultimately show ?thesis by simp
qed

function consume_lines :: "nat \<Rightarrow> (line \<Rightarrow> 's \<Rightarrow> 's) \<Rightarrow> string \<Rightarrow> 's \<Rightarrow> string \<times> 's" where
  "consume_lines mll fn buf s =
     (if buf = [] then (buf, s)
      else let line_len = length (takeWhile (\<lambda>c. \<not> end_of_line c) buf) in
        if \<not> line_len < length buf then (if mll < length buf then ([], s) else (buf, s))
        else let s' = fn (take line_len buf) s;
                 eol_chars = length (takeWhile end_of_line (drop line_len buf));
                 consumed_len = line_len + eol_chars
             in consume_lines mll fn (drop consumed_len buf) s')"
  by pat_completeness auto
termination
  by (relation "measure (\<lambda>(mll, fn, buf, s). length buf)")
    (use end_of_line_progress in auto)

declare consume_lines.simps [simp del]

text \<open>
  The receive loop of \<^verbatim>\<open>Driver::apply\<close> (\<^verbatim>\<open>driver.h\<close>): fill and consume until a read
  returns nothing.
\<close>

lemma chan_read_length:
  "chan_read n segs = (c, segs') \<Longrightarrow> length c \<le> n
     \<and> sum_list (map length segs') + length c = sum_list (map length segs)"
  by (auto simp: chan_read_def split: list.splits if_splits)

function receive ::
  "nat \<Rightarrow> (line \<Rightarrow> 's \<Rightarrow> 's) \<Rightarrow> string \<Rightarrow> 's \<Rightarrow> string list \<Rightarrow> string \<times> 's \<times> string list" where
  "receive mll fn buf s segs =
     (case fill mll buf segs of
        (DONE, buf', segs') \<Rightarrow> (buf', s, segs')
      | (DATA, buf', segs') \<Rightarrow>
          (case consume_lines mll fn buf' s of (buf'', s') \<Rightarrow> receive mll fn buf'' s' segs'))"
  by pat_completeness auto
termination
  by (relation "measure (\<lambda>(mll, fn, buf, s, segs). sum_list (map length segs))")
    (auto simp: fill_def Let_def split: prod.splits if_splits
        dest!: chan_read_length simp flip: length_greater_0_conv)

declare receive.simps [simp del]

section \<open>What a line is\<close>

text \<open>The lines of a byte stream, one byte at a time: delimiters end a non-empty line.\<close>

fun feed :: "string list \<times> string \<Rightarrow> char \<Rightarrow> string list \<times> string" where
  "feed (ls, cur) c =
     (if end_of_line c then (if cur = [] then (ls, []) else (ls @ [cur], []))
      else (ls, cur @ [c]))"

definition stream_lines :: "string list \<times> string \<Rightarrow> string \<Rightarrow> string list \<times> string" where
  "stream_lines st bytes = foldl feed st bytes"

definition nonempty :: "string list \<Rightarrow> string list" where
  "nonempty ls = filter (\<lambda>l. l \<noteq> []) ls"

definition collect :: "line \<Rightarrow> string list \<Rightarrow> string list" where
  "collect l ls = ls @ [l]"

lemma nonempty_simps [simp]:
  "nonempty [] = []" "nonempty (xs @ ys) = nonempty xs @ nonempty ys"
  "nonempty [l] = (if l = [] then [] else [l])"
  by (simp_all add: nonempty_def)

lemma stream_lines_append:
  "stream_lines st (xs @ ys) = stream_lines (stream_lines st xs) ys"
  by (simp add: stream_lines_def)

lemma stream_lines_Nil [simp]: "stream_lines st [] = st"
  by (simp add: stream_lines_def)

lemma stream_lines_text:
  "\<forall>c \<in> set xs. \<not> end_of_line c \<Longrightarrow> stream_lines (ls, cur) xs = (ls, cur @ xs)"
  unfolding stream_lines_def by (induction xs arbitrary: cur) auto

lemma stream_lines_ends_Nil:
  "\<forall>c \<in> set xs. end_of_line c \<Longrightarrow> stream_lines (ls, []) xs = (ls, [])"
  unfolding stream_lines_def by (induction xs) auto

lemma stream_lines_ends:
  "\<forall>c \<in> set xs. end_of_line c \<Longrightarrow> xs \<noteq> [] \<Longrightarrow>
    stream_lines (ls, cur) xs = (ls @ nonempty [cur], [])"
  using stream_lines_ends_Nil [of "tl xs"]
  by (cases xs) (auto simp: stream_lines_def)

section \<open>Consuming lines\<close>

text \<open>One round of the loop over a buffer that holds a complete line.\<close>

definition line_head :: "string \<Rightarrow> string" where
  "line_head buf = takeWhile (\<lambda>c. \<not> end_of_line c) buf"

definition line_rest :: "string \<Rightarrow> string" where
  "line_rest buf = dropWhile end_of_line (dropWhile (\<lambda>c. \<not> end_of_line c) buf)"

definition has_line :: "string \<Rightarrow> bool" where
  "has_line buf \<longleftrightarrow> (\<exists>c \<in> set buf. end_of_line c)"

lemma has_line_iff: "has_line buf \<longleftrightarrow> length (line_head buf) < length buf"
  by (auto simp: has_line_def line_head_def takeWhile_length_less_iff)

lemma line_rest_eq:
  "line_rest buf = drop (length (line_head buf)
     + length (takeWhile end_of_line (drop (length (line_head buf)) buf))) buf"
  by (simp add: line_rest_def line_head_def dropWhile_eq_drop add.commute)

lemma line_rest_shorter: "has_line buf \<Longrightarrow> length (line_rest buf) < length buf"
  using end_of_line_progress [of buf]
  by (simp add: has_line_iff line_rest_eq line_head_def del: length_greater_0_conv)

lemma line_parts:
  assumes "has_line buf"
  obtains eol where "buf = line_head buf @ eol @ line_rest buf" and "eol \<noteq> []"
    and "\<forall>c \<in> set eol. end_of_line c" and "\<forall>c \<in> set (line_head buf). \<not> end_of_line c"
proof (rule that)
  let ?d = "dropWhile (\<lambda>c. \<not> end_of_line c) buf"
  show "buf = line_head buf @ takeWhile end_of_line ?d @ line_rest buf"
    by (simp add: line_head_def line_rest_def)
  have "?d \<noteq> []" using assms by (auto simp: has_line_def dropWhile_eq_Nil_conv)
  then show "takeWhile end_of_line ?d \<noteq> []"
    using hd_dropWhile [of "\<lambda>c. \<not> end_of_line c" buf] by (cases ?d) auto
qed (auto simp: line_head_def dest: set_takeWhileD)

lemma consume_line:
  "has_line buf \<Longrightarrow> consume_lines mll fn buf s = consume_lines mll fn (line_rest buf) (fn (line_head buf) s)"
  by (subst consume_lines.simps)
    (auto simp: Let_def has_line_iff line_rest_eq, auto simp: line_head_def simp flip: takeWhile_eq_take)

lemma consume_partial:
  "\<not> has_line buf \<Longrightarrow> consume_lines mll fn buf s = (if mll < length buf then [] else buf, s)"
  by (subst consume_lines.simps) (auto simp: Let_def has_line_iff line_head_def)

text \<open>The loop is a fold of the callback over the lines it finds.\<close>

lemma consume_lines_fold:
  "fst (consume_lines mll fn buf s) = fst (consume_lines mll collect buf ls)
   \<and> (\<exists>ls'. snd (consume_lines mll collect buf ls) = ls @ ls'
        \<and> snd (consume_lines mll fn buf s) = fold fn ls' s)"
proof (induction "length buf" arbitrary: buf s ls rule: less_induct)
  case less
  show ?case
  proof (cases "has_line buf")
    case True
    from less [OF line_rest_shorter [OF True], of "fn (line_head buf) s" "collect (line_head buf) ls"]
    show ?thesis by (auto simp: consume_line [OF True] collect_def)
  next
    case False
    then show ?thesis by (simp add: consume_partial)
  qed
qed

text \<open>The lines are those of the byte stream, up to empty ones; a tail beyond the limit is dropped.\<close>

lemma consume_lines_stream:
  "case stream_lines (nonempty ls, []) buf of (nls, tail) \<Rightarrow>
     fst (consume_lines mll collect buf ls) = (if mll < length tail then [] else tail)
     \<and> nonempty (snd (consume_lines mll collect buf ls)) = nls"
proof (induction "length buf" arbitrary: buf ls rule: less_induct)
  case less
  show ?case
  proof (cases "has_line buf")
    case True
    obtain eol where shape: "buf = line_head buf @ eol @ line_rest buf" "eol \<noteq> []"
      "\<forall>c \<in> set eol. end_of_line c" "\<forall>c \<in> set (line_head buf). \<not> end_of_line c"
      using line_parts [OF True] by blast
    have "stream_lines (nonempty ls, []) buf
        = stream_lines (nonempty (collect (line_head buf) ls), []) (line_rest buf)"
      by (subst shape(1), simp add: stream_lines_append stream_lines_text [OF shape(4)]
          stream_lines_ends [OF shape(3,2)] collect_def)
    with less [OF line_rest_shorter [OF True], of "collect (line_head buf) ls"]
    show ?thesis by (simp add: consume_line [OF True])
  next
    case False
    then show ?thesis by (simp add: consume_partial has_line_def stream_lines_text)
  qed
qed

lemma consume_lines_rest:
  assumes "consume_lines mll fn buf s = (rest, s')"
  shows "length rest \<le> mll" and "\<not> has_line rest"
proof -
  have "length rest \<le> mll \<and> \<not> has_line rest" using assms
  proof (induction "length buf" arbitrary: buf s rule: less_induct)
    case less
    show ?case
    proof (cases "has_line buf")
      case True
      then show ?thesis
        using less.hyps [OF line_rest_shorter [OF True]] less.prems by (simp add: consume_line)
    next
      case False
      then show ?thesis
        using less.prems by (simp add: consume_partial has_line_def split: if_splits)
    qed
  qed
  then show "length rest \<le> mll" and "\<not> has_line rest" by auto
qed

section \<open>Receiving\<close>

definition within_limit :: "nat \<Rightarrow> string list \<times> string \<Rightarrow> bool" where
  "within_limit mll st \<longleftrightarrow>
     list_all (\<lambda>l. length l \<le> mll) (fst st) \<and> length (snd st) \<le> mll"

lemma within_limit_prefix:
  "within_limit mll (stream_lines st xs) \<Longrightarrow> within_limit mll st"
proof (induction xs arbitrary: st)
  case Nil
  then show ?case by simp
next
  case (Cons c xs)
  then have "within_limit mll (feed st c)" by (simp add: stream_lines_def)
  then show ?case by (cases st) (auto simp: within_limit_def split: if_splits)
qed

lemma chan_read_nonempty:
  assumes "chan_read n segs = (c, segs')" and "[] \<notin> set segs"
  shows "c @ concat segs' = concat segs" and "[] \<notin> set segs'"
    and "0 < n \<Longrightarrow> c = [] \<Longrightarrow> segs = []"
  using assms by (auto simp: chan_read_def split: list.splits if_splits)

lemma receive_stream:
  assumes "0 < mll" and "[] \<notin> set segs" and "\<not> has_line buf"
    and "stream_lines (nonempty acc, []) (buf @ concat segs) = (nls, tail)"
    and "within_limit mll (nls, tail)"
  shows "\<exists>acc'. receive mll collect buf acc segs = (tail, acc', []) \<and> nonempty acc' = nls"
  using assms
proof (induction "sum_list (map length segs)" arbitrary: buf acc segs rule: less_induct)
  case less
  let ?n = "2 * mll - length buf"
  obtain c segs' where read: "chan_read ?n segs = (c, segs')" by fastforce
  note cat = chan_read_nonempty [OF read less.prems(2)]
  have buf: "stream_lines (ls, []) buf = (ls, buf)" for ls
    using less.prems(3) by (simp add: has_line_def stream_lines_text)
  have "within_limit mll (nonempty acc, buf)"
    using less.prems(4,5) within_limit_prefix [of mll "(nonempty acc, buf)" "concat segs"]
    by (simp add: stream_lines_append buf)
  then have cap: "0 < ?n" using less.prems(1) by (simp add: within_limit_def)
  show ?case
  proof (cases "c = []")
    case True
    then have "segs = []" using cat(3) cap by blast
    then show ?thesis
      using less.prems(4) by (simp add: receive.simps [of mll] fill_def chan_read_def buf)
  next
    case False
    obtain nls1 tail1 where spec: "stream_lines (nonempty acc, []) (buf @ c) = (nls1, tail1)"
      by fastforce
    then have rest: "stream_lines (nls1, tail1) (concat segs') = (nls, tail)"
      using less.prems(4) stream_lines_append [of _ "buf @ c" "concat segs'"]
      by (simp add: cat(1))
    then have "length tail1 \<le> mll"
      using within_limit_prefix [of mll "(nls1, tail1)" "concat segs'"] less.prems(5)
      by (simp add: within_limit_def)
    then obtain acc1 where cons: "consume_lines mll collect (buf @ c) acc = (tail1, acc1)"
      "nonempty acc1 = nls1"
      using consume_lines_stream [where mll = mll and buf = "buf @ c" and ls = acc] spec
      by (cases "consume_lines mll collect (buf @ c) acc") auto
    have fill: "fill mll buf segs = (DATA, buf @ c, segs')"
      using read False by (simp add: fill_def)
    have nol: "\<not> has_line tail1" using consume_lines_rest(2) [OF cons(1)] .
    have "stream_lines (nonempty acc1, []) (tail1 @ concat segs') = (nls, tail)"
      using rest nol cons(2) by (simp add: stream_lines_append has_line_def stream_lines_text)
    moreover have "sum_list (map length segs') < sum_list (map length segs)"
      using chan_read_length [OF read] False by (auto simp flip: length_greater_0_conv)
    ultimately have "\<exists>acc'. receive mll collect tail1 acc1 segs' = (tail, acc', []) \<and> nonempty acc' = nls"
      using less.hyps less.prems(1,5) cat(2) nol by blast
    then show ?thesis by (subst receive.simps) (simp add: fill cons(1))
  qed
qed

text \<open>What the callback sees of a reception, whatever its state.\<close>

lemma receive_fold:
  "fst (receive mll fn buf s segs) = fst (receive mll collect buf ls segs)
   \<and> snd (snd (receive mll fn buf s segs)) = snd (snd (receive mll collect buf ls segs))
   \<and> (\<exists>ls'. fst (snd (receive mll collect buf ls segs)) = ls @ ls'
        \<and> fst (snd (receive mll fn buf s segs)) = fold fn ls' s)"
proof (induction "sum_list (map length segs)" arbitrary: buf s ls segs rule: less_induct)
  case less
  obtain r buf1 segs1 where fill: "fill mll buf segs = (r, buf1, segs1)"
    by (cases "fill mll buf segs") auto
  show ?case
  proof (cases r)
    case DONE
    then show ?thesis
      by (simp add: receive.simps [of mll fn buf s] receive.simps [of mll collect buf ls] fill)
  next
    case DATA
    then have shorter: "sum_list (map length segs1) < sum_list (map length segs)"
      using fill by (auto simp: fill_def Let_def split: prod.splits if_splits
          dest!: chan_read_length simp flip: length_greater_0_conv)
    obtain b2 s2 where c1: "consume_lines mll fn buf1 s = (b2, s2)" by fastforce
    obtain b3 ls3 where c2: "consume_lines mll collect buf1 ls = (b3, ls3)" by fastforce
    from consume_lines_fold [of mll fn buf1 s ls] c1 c2
    obtain ls' where ls': "b3 = b2" "ls3 = ls @ ls'" "s2 = fold fn ls' s" by auto
    have "receive mll fn buf s segs = receive mll fn b2 s2 segs1"
      "receive mll collect buf ls segs = receive mll collect b2 (ls @ ls') segs1"
      using fill DATA c1 c2 ls' by (simp_all add: receive.simps [of mll _ buf])
    with less.hyps [OF shorter, of b2 s2 "ls @ ls'"] ls'(3) show ?thesis by auto
  qed
qed

end
