(* ===== verification/At_Qcfg.thy ===== *)
theory At_Qcfg
  imports At_Types
begin

text \<open>
  \<^verbatim>\<open>src/driver/modem/at_protocol/qcfg.h\<close>: the registry of modem settings (QCFG) the driver
  relies on, each with the state of its negotiation. The registry is a list in iteration
  order; \<open>with_entry\<close> and \<open>with_any_entry_in_state\<close> visit the first match only (the
  \<open>done\<close> flag of the code's loops).
\<close>

datatype qcfg_state = UNKNOWN | CONFIRMED | MISMATCH | MODIFIED

record qcfg_entry =
  q_name :: string
  q_value :: string
  q_state :: qcfg_state

type_synonym qcfg = "qcfg_entry list"

text \<open>\<^verbatim>\<open>Entry::Entry\<close>: a registered entry starts in state \<open>UNKNOWN\<close>.\<close>

definition mk_entry :: "string \<Rightarrow> string \<Rightarrow> qcfg_entry" where
  "mk_entry name value = \<lparr>q_name = genode_string 32 name, q_value = genode_string 32 value,
     q_state = UNKNOWN\<rparr>"

definition with_any_entry_in_state :: "qcfg_state \<Rightarrow> qcfg \<Rightarrow> qcfg_entry option" where
  "with_any_entry_in_state st q = List.find (\<lambda>e. q_state e = st) q"

definition with_any_unknown_entry :: "qcfg \<Rightarrow> qcfg_entry option" where
  "with_any_unknown_entry q = with_any_entry_in_state UNKNOWN q"

definition with_any_mismatching_entry :: "qcfg \<Rightarrow> qcfg_entry option" where
  "with_any_mismatching_entry q = with_any_entry_in_state MISMATCH q"

text \<open>
  \<^verbatim>\<open>with_entry(name, fn)\<close>. The flag tells whether \<open>fn\<close> was called, since the callers also
  count a status change there.
\<close>

definition with_entry :: "string \<Rightarrow> (qcfg_entry \<Rightarrow> qcfg_entry) \<Rightarrow> qcfg \<Rightarrow> qcfg \<times> bool" where
  "with_entry name fn q =
     (update_first (\<lambda>e. q_name e = name) fn q, list_ex (\<lambda>e. q_name e = name) q)"

definition reboot_needed :: "qcfg \<Rightarrow> bool" where
  "reboot_needed q =
     (let any_unknown = list_ex (\<lambda>e. q_state e = UNKNOWN) q;
          any_mismatch = list_ex (\<lambda>e. q_state e = MISMATCH) q;
          any_modified = list_ex (\<lambda>e. q_state e = MODIFIED) q
      in if any_unknown \<or> any_mismatch then False else any_modified)"

definition invalidate_after_reboot :: "qcfg \<Rightarrow> qcfg" where
  "invalidate_after_reboot q = map (\<lambda>e. e\<lparr>q_state := UNKNOWN\<rparr>) q"

text \<open>
  What is left to negotiate: two steps for an unknown entry (query, assign), one for a
  mismatching one, none for an entry that is confirmed or modified.
\<close>

fun entry_todo :: "qcfg_state \<Rightarrow> nat" where
  "entry_todo UNKNOWN = 2" | "entry_todo MISMATCH = 1"
| "entry_todo CONFIRMED = 0" | "entry_todo MODIFIED = 0"

definition qcfg_todo :: "qcfg \<Rightarrow> nat" where
  "qcfg_todo q = sum_list (map (\<lambda>e. entry_todo (q_state e)) q)"

definition keys :: "qcfg \<Rightarrow> (string \<times> string) list" where
  "keys q = map (\<lambda>e. (q_name e, q_value e)) q"

lemma unknown_entry_SomeD:
  "with_any_unknown_entry q = Some e \<Longrightarrow> e \<in> set q \<and> q_state e = UNKNOWN"
  unfolding with_any_unknown_entry_def with_any_entry_in_state_def by (rule find_SomeD)

lemma mismatching_entry_SomeD:
  "with_any_mismatching_entry q = Some e \<Longrightarrow> e \<in> set q \<and> q_state e = MISMATCH"
  unfolding with_any_mismatching_entry_def with_any_entry_in_state_def by (rule find_SomeD)

lemma reboot_needed_iff:
  "reboot_needed q \<longleftrightarrow> with_any_unknown_entry q = None \<and> with_any_mismatching_entry q = None
     \<and> (\<exists>e \<in> set q. q_state e = MODIFIED)"
  by (auto simp: reboot_needed_def with_any_unknown_entry_def with_any_mismatching_entry_def
      with_any_entry_in_state_def find_None_iff_all list_ex_iff Let_def)

lemma todo_zero_iff:
  "qcfg_todo q = 0 \<longleftrightarrow> with_any_unknown_entry q = None \<and> with_any_mismatching_entry q = None"
proof -
  have "entry_todo st = 0 \<longleftrightarrow> st \<noteq> UNKNOWN \<and> st \<noteq> MISMATCH" for st by (cases st) auto
  then show ?thesis
    by (auto simp: qcfg_todo_def with_any_unknown_entry_def with_any_mismatching_entry_def
        with_any_entry_in_state_def find_None_iff_all)
qed

lemma keys_with_entry [simp]:
  assumes "\<And>e. q_name (fn e) = q_name e" and "\<And>e. q_value (fn e) = q_value e"
  shows "keys (fst (with_entry name fn q)) = keys q"
  using assms by (simp add: keys_def with_entry_def map_update_first)

lemma keys_invalidate [simp]: "keys (invalidate_after_reboot q) = keys q"
  by (simp add: keys_def invalidate_after_reboot_def)

lemma invalidate_all_unknown: "e \<in> set (invalidate_after_reboot q) \<Longrightarrow> q_state e = UNKNOWN"
  by (auto simp: invalidate_after_reboot_def)

lemma no_reboot_after_invalidate [simp]: "\<not> reboot_needed (invalidate_after_reboot q)"
  by (cases q) (auto simp: reboot_needed_def invalidate_after_reboot_def)

end
