(* ===== verification/At_Status.thy ===== *)
theory At_Status
  imports At_Read_Buffer At_Qcfg
begin

text \<open>
  \<^verbatim>\<open>src/driver/modem/at_protocol/status.h\<close>: what the driver knows of the modem, updated by
  every line received and by every command submitted or cancelled. The class holds a
  reference to the registry of \<^verbatim>\<open>qcfg.h\<close>; the model carries the registry in the state
  (\<open>st_qcfg\<close>). \<open>apply_line\<close> is the composition of the code's sub steps in the code's order.
\<close>

section \<open>State\<close>

datatype call_stat = UNSUPPORTED | ACTIVE | DIALING | INCOMING | ALERTING

record current_call =
  cc_number :: string
  cc_stat :: call_stat

definition call_active :: "current_call \<Rightarrow> bool" where
  "call_active c \<longleftrightarrow> cc_stat c = ACTIVE"
definition call_outbound :: "current_call \<Rightarrow> bool" where
  "call_outbound c \<longleftrightarrow> cc_stat c = DIALING"
definition call_alerting :: "current_call \<Rightarrow> bool" where
  "call_alerting c \<longleftrightarrow> cc_stat c = ALERTING"
definition call_incoming :: "current_call \<Rightarrow> bool" where
  "call_incoming c \<longleftrightarrow> cc_stat c = INCOMING"

record status =
  version :: u32
  pending_command :: "string option"
  at_ok :: bool
  echo_disabled :: bool
  powered_down :: bool
  ok :: bool
  rdy :: bool
  st_error :: bool
  clcc_up_to_date :: bool
  ring_count :: u32
  incorrect_password_count :: u32
  no_carrier_count :: u32
  busy_count :: u32
  cpin :: "string option"
  cme_error :: "string option"
  sim_pin_count :: "string option"
  cur_call :: "current_call option"
  st_qcfg :: qcfg

definition init_status :: "qcfg \<Rightarrow> status" where
  "init_status q = \<lparr>version = 0, pending_command = None, at_ok = False, echo_disabled = False,
     powered_down = False, ok = False, rdy = True, st_error = False, clcc_up_to_date = False,
     ring_count = 0, incorrect_password_count = 0, no_carrier_count = 0, busy_count = 0,
     cpin = None, cme_error = None, sim_pin_count = None, cur_call = None, st_qcfg = q\<rparr>"

section \<open>Helpers of the class\<close>

definition status_changed :: "status \<Rightarrow> status" where
  "status_changed s = s\<lparr>version := version s + 1\<rparr>"

text \<open>\<^verbatim>\<open>_apply_attr_value\<close> for an attribute with value type \<^verbatim>\<open>String<16>\<close>\<close>

definition apply_attr_value ::
  "((string option \<Rightarrow> string option) \<Rightarrow> status \<Rightarrow> status) \<Rightarrow> string \<Rightarrow> line \<Rightarrow> status \<Rightarrow> status" where
  "apply_attr_value upd prefix l s =
     (case line_value l prefix of None \<Rightarrow> s
      | Some v \<Rightarrow> upd (\<lambda>_. Some (genode_string 16 v)) (status_changed s))"

definition apply_boolean ::
  "line \<Rightarrow> string \<Rightarrow> ((bool \<Rightarrow> bool) \<Rightarrow> status \<Rightarrow> status) \<Rightarrow> bool \<Rightarrow> status \<Rightarrow> status" where
  "apply_boolean l str upd value s =
     (if line_eq l str then upd (\<lambda>_. value) (status_changed s) else s)"

definition enable_boolean ::
  "line \<Rightarrow> string \<Rightarrow> ((bool \<Rightarrow> bool) \<Rightarrow> status \<Rightarrow> status) \<Rightarrow> status \<Rightarrow> status" where
  "enable_boolean l str upd s = apply_boolean l str upd True s"

definition increment ::
  "line \<Rightarrow> string \<Rightarrow> ((u32 \<Rightarrow> u32) \<Rightarrow> status \<Rightarrow> status) \<Rightarrow> status \<Rightarrow> status" where
  "increment l str upd s =
     (if line_eq l str then upd (\<lambda>n. n + 1) (status_changed s) else s)"

definition clcc_out_of_date :: "status \<Rightarrow> status" where
  "clcc_out_of_date s = s\<lparr>clcc_up_to_date := False, cur_call := None\<rparr>"

definition reset_command :: "status \<Rightarrow> status" where
  "reset_command s = status_changed
     (s\<lparr>pending_command := None, ok := False, st_error := False, cme_error := None\<rparr>)"

section \<open>Responses\<close>

text \<open>\<^verbatim>\<open>Current_call::with_match\<close>\<close>

definition stat_from_value :: "(string \<Rightarrow> token list) \<Rightarrow> string \<Rightarrow> call_stat" where
  "stat_from_value scan v =
     (let field = comma_separated_element scan 2 v in
      if field = Some ''0'' then ACTIVE
      else if field = Some ''2'' then DIALING
      else if field = Some ''3'' then ALERTING
      else if field = Some ''4'' then INCOMING
      else UNSUPPORTED)"

definition call_match :: "(string \<Rightarrow> token list) \<Rightarrow> line \<Rightarrow> current_call option" where
  "call_match scan l =
     (case line_value l ''+CLCC: '' of None \<Rightarrow> None
      | Some v0 \<Rightarrow>
          (let value = genode_string 100 v0;
               voice = (comma_separated_element scan 3 value = Some ''0'');
               stat = stat_from_value scan value;
               number = mk_number (str_of (comma_separated_element scan 5 value))
           in if voice \<and> stat \<noteq> UNSUPPORTED
              then Some \<lparr>cc_number = number, cc_stat = stat\<rparr> else None))"

text \<open>
  \<^verbatim>\<open>_apply_qcfg_response\<close>. A missing name has length 0 and matches no entry but one with an
  empty name. \<open>name.length()\<close> counts the terminating zero, so the skipped prefix is the
  quoted name and the comma.
\<close>

definition qcfg_query_response :: "(string \<Rightarrow> token list) \<Rightarrow> line \<Rightarrow> status \<Rightarrow> status" where
  "qcfg_query_response scan l s =
     (case line_value l ''+QCFG: '' of None \<Rightarrow> s
      | Some v0 \<Rightarrow>
          (let response = genode_string 100 v0;
               name = map_option (genode_string 32) (comma_separated_element scan 0 response);
               skip = str_length name + 2
           in if str_length (Some response) < skip then s
              else let value = genode_string 32 (cstring (drop skip response));
                       (q, found) = with_entry (str_of name)
                         (\<lambda>e. e\<lparr>q_state := (if q_value e = value then CONFIRMED else MISMATCH)\<rparr>)
                         (st_qcfg s)
                   in if found then status_changed (s\<lparr>st_qcfg := q\<rparr>) else s))"

definition qcfg_assign_response :: "(string \<Rightarrow> token list) \<Rightarrow> line \<Rightarrow> status \<Rightarrow> status" where
  "qcfg_assign_response scan l s =
     (if line_eq l ''OK'' then
        (case pending_command s of None \<Rightarrow> s
         | Some command \<Rightarrow>
             if \<not> starts_with command AT_QCFG_PREFIX then s
             else let attr = genode_string 100 (cstring (drop (length AT_QCFG_PREFIX) command));
                      value = map_option (genode_string 32) (comma_separated_element scan 1 attr)
                  in if str_length value \<le> 1 then s
                     else let name = map_option (genode_string 32) (comma_separated_element scan 0 attr);
                              (q, found) = with_entry (str_of name)
                                (\<lambda>e. e\<lparr>q_state := MODIFIED\<rparr>) (st_qcfg s)
                          in if found then status_changed (s\<lparr>st_qcfg := q\<rparr>) else s)
      else s)"

definition apply_qcfg_response :: "(string \<Rightarrow> token list) \<Rightarrow> line \<Rightarrow> status \<Rightarrow> status" where
  "apply_qcfg_response scan l s = qcfg_assign_response scan l (qcfg_query_response scan l s)"

section \<open>Applying a line\<close>

text \<open>\<^verbatim>\<open>apply_line\<close>, cut at the code's comments; the sub steps in the order of the code.\<close>

definition apply_attributes :: "line \<Rightarrow> status \<Rightarrow> status" where
  "apply_attributes l s =
     apply_attr_value sim_pin_count_update (''+QPINC: '' @ quoted ''SC'' @ '','') l
       (apply_attr_value cme_error_update ''+CME ERROR: '' l
         (apply_attr_value cpin_update ''+CPIN: '' l s))"

definition apply_call_match :: "(string \<Rightarrow> token list) \<Rightarrow> line \<Rightarrow> status \<Rightarrow> status" where
  "apply_call_match scan l s =
     (case call_match scan l of None \<Rightarrow> s
      | Some c \<Rightarrow> status_changed (s\<lparr>cur_call := Some c\<rparr>))"

definition apply_flags :: "line \<Rightarrow> status \<Rightarrow> status" where
  "apply_flags l s =
     enable_boolean l ''RDY'' rdy_update
       (enable_boolean l ''ERROR'' st_error_update
         (enable_boolean l ''OK'' ok_update
           (enable_boolean l ''POWERED DOWN'' powered_down_update s)))"

definition apply_counters :: "line \<Rightarrow> status \<Rightarrow> status" where
  "apply_counters l s =
     increment l ''ERROR'' busy_count_update
       (increment l ''+CME ERROR: 14'' busy_count_update
         (increment l ''+CME ERROR: 10'' busy_count_update
           (increment l ''NO CARRIER'' no_carrier_count_update
             (increment l ''RING'' ring_count_update s))))"

definition discard_outdated :: "line \<Rightarrow> status \<Rightarrow> status" where
  "discard_outdated l s =
     (let s1 = (if line_eq l ''+CME ERROR: 16'' then s\<lparr>cpin := None\<rparr> else s)
      in if line_eq l ''NO CARRIER'' \<or> line_eq l ''RING'' then clcc_out_of_date s1 else s1)"

text \<open>Gather the result of \<open>Check_ready\<close> and \<open>Disable_echo\<close>.\<close>

definition gather_handshake :: "line \<Rightarrow> status \<Rightarrow> status" where
  "gather_handshake l s =
     (case pending_command s of None \<Rightarrow> s
      | Some command \<Rightarrow>
          (let s1 = (if command = AT_CHECK_READY then enable_boolean l ''OK'' at_ok_update s else s)
           in if command = AT_DISABLE_ECHO then enable_boolean l ''OK'' echo_disabled_update s1 else s1))"

definition accept_call_list :: "status \<Rightarrow> status" where
  "accept_call_list s = (if cur_call s \<noteq> None then s\<lparr>clcc_up_to_date := True\<rparr> else s)"

text \<open>The effects of the confirmed command, on a line "OK".\<close>

definition confirm_reboot :: "status \<Rightarrow> status" where
  "confirm_reboot s =
     (let s1 = clcc_out_of_date (s\<lparr>at_ok := False, echo_disabled := False, rdy := False,
                 cpin := None, cme_error := None, sim_pin_count := None\<rparr>)
      in s1\<lparr>st_qcfg := invalidate_after_reboot (st_qcfg s1)\<rparr>)"

definition confirm_command :: "line \<Rightarrow> status \<Rightarrow> status" where
  "confirm_command l s =
     (if line_eq l ''OK'' then
        (case pending_command s of None \<Rightarrow> s
         | Some command \<Rightarrow>
            (let s1 = (if command = AT_REBOOT then confirm_reboot s else s);
                 s2 = (if command = AT_REQUEST_CALL_LIST then s1\<lparr>clcc_up_to_date := True\<rparr> else s1);
                 clcc_invalidated = (starts_with command ''ATD'' \<or> command = AT_HANG_UP
                                     \<or> command = AT_ACCEPT_CALL)
             in if clcc_invalidated then clcc_out_of_date s2 else s2))
      else s)"

definition complete_command :: "line \<Rightarrow> status \<Rightarrow> status" where
  "complete_command l s =
     (if line_eq l ''OK'' \<or> line_eq l ''ERROR'' \<or> line_starts_with l ''+CME ERROR:''
      then s\<lparr>pending_command := None\<rparr> else s)"

definition apply_line :: "(string \<Rightarrow> token list) \<Rightarrow> line \<Rightarrow> status \<Rightarrow> status" where
  "apply_line scan l s =
     (let s1 = s\<lparr>powered_down := False\<rparr>;
          s2 = apply_attributes l s1;
          s3 = apply_qcfg_response scan l s2;
          s4 = apply_call_match scan l s3;
          s5 = apply_flags l s4;
          s6 = apply_counters l s5;
          s7 = discard_outdated l s6;
          s8 = gather_handshake l s7;
          s9 = accept_call_list s8;
          s10 = confirm_command l s9
      in complete_command l s10)"

definition command_submitted :: "string \<Rightarrow> status \<Rightarrow> status" where
  "command_submitted command s =
     (let s1 = (reset_command s)\<lparr>pending_command := Some command\<rparr>
      in if command = AT_REQUEST_CALL_LIST then clcc_out_of_date s1 else s1)"

definition command_canceled :: "status \<Rightarrow> status" where
  "command_canceled s = reset_command s"

section \<open>Frame and effect of the sub steps\<close>

lemmas line_helper_defs = apply_attr_value_def apply_boolean_def enable_boolean_def
  increment_def status_changed_def

lemma qcfg_response_frame [frame_simps]:
  "pending_command (apply_qcfg_response scan l s) = pending_command s"
  "at_ok (apply_qcfg_response scan l s) = at_ok s"
  "echo_disabled (apply_qcfg_response scan l s) = echo_disabled s"
  "powered_down (apply_qcfg_response scan l s) = powered_down s"
  "ok (apply_qcfg_response scan l s) = ok s"
  "rdy (apply_qcfg_response scan l s) = rdy s"
  "st_error (apply_qcfg_response scan l s) = st_error s"
  "clcc_up_to_date (apply_qcfg_response scan l s) = clcc_up_to_date s"
  "ring_count (apply_qcfg_response scan l s) = ring_count s"
  "no_carrier_count (apply_qcfg_response scan l s) = no_carrier_count s"
  "busy_count (apply_qcfg_response scan l s) = busy_count s"
  "cpin (apply_qcfg_response scan l s) = cpin s"
  "cme_error (apply_qcfg_response scan l s) = cme_error s"
  "sim_pin_count (apply_qcfg_response scan l s) = sim_pin_count s"
  "cur_call (apply_qcfg_response scan l s) = cur_call s"
  by (simp_all add: apply_qcfg_response_def qcfg_assign_response_def qcfg_query_response_def
      status_changed_def Let_def with_entry_def split: option.split)

lemma attributes_frame [frame_simps]:
  "pending_command (apply_attributes l s) = pending_command s"
  "at_ok (apply_attributes l s) = at_ok s"
  "echo_disabled (apply_attributes l s) = echo_disabled s"
  "powered_down (apply_attributes l s) = powered_down s"
  "ok (apply_attributes l s) = ok s"
  "rdy (apply_attributes l s) = rdy s"
  "st_error (apply_attributes l s) = st_error s"
  "clcc_up_to_date (apply_attributes l s) = clcc_up_to_date s"
  "ring_count (apply_attributes l s) = ring_count s"
  "no_carrier_count (apply_attributes l s) = no_carrier_count s"
  "busy_count (apply_attributes l s) = busy_count s"
  "cur_call (apply_attributes l s) = cur_call s"
  "st_qcfg (apply_attributes l s) = st_qcfg s"
  by (simp_all add: apply_attributes_def line_helper_defs split: option.split)

lemma call_match_frame [frame_simps]:
  "pending_command (apply_call_match scan l s) = pending_command s"
  "at_ok (apply_call_match scan l s) = at_ok s"
  "echo_disabled (apply_call_match scan l s) = echo_disabled s"
  "powered_down (apply_call_match scan l s) = powered_down s"
  "ok (apply_call_match scan l s) = ok s"
  "rdy (apply_call_match scan l s) = rdy s"
  "st_error (apply_call_match scan l s) = st_error s"
  "clcc_up_to_date (apply_call_match scan l s) = clcc_up_to_date s"
  "ring_count (apply_call_match scan l s) = ring_count s"
  "no_carrier_count (apply_call_match scan l s) = no_carrier_count s"
  "busy_count (apply_call_match scan l s) = busy_count s"
  "cpin (apply_call_match scan l s) = cpin s"
  "cme_error (apply_call_match scan l s) = cme_error s"
  "sim_pin_count (apply_call_match scan l s) = sim_pin_count s"
  "st_qcfg (apply_call_match scan l s) = st_qcfg s"
  by (simp_all add: apply_call_match_def status_changed_def split: option.split)

lemma flags_frame [frame_simps]:
  "pending_command (apply_flags l s) = pending_command s"
  "at_ok (apply_flags l s) = at_ok s"
  "echo_disabled (apply_flags l s) = echo_disabled s"
  "clcc_up_to_date (apply_flags l s) = clcc_up_to_date s"
  "ring_count (apply_flags l s) = ring_count s"
  "no_carrier_count (apply_flags l s) = no_carrier_count s"
  "busy_count (apply_flags l s) = busy_count s"
  "cpin (apply_flags l s) = cpin s"
  "cme_error (apply_flags l s) = cme_error s"
  "sim_pin_count (apply_flags l s) = sim_pin_count s"
  "cur_call (apply_flags l s) = cur_call s"
  "st_qcfg (apply_flags l s) = st_qcfg s"
  "ok (apply_flags l s) \<longleftrightarrow> ok s \<or> l = ''OK''"
  "st_error (apply_flags l s) \<longleftrightarrow> st_error s \<or> l = ''ERROR''"
  "rdy (apply_flags l s) \<longleftrightarrow> rdy s \<or> l = ''RDY''"
  "powered_down (apply_flags l s) \<longleftrightarrow> powered_down s \<or> l = ''POWERED DOWN''"
  by (simp_all add: apply_flags_def line_helper_defs)

lemma counters_frame [frame_simps]:
  "pending_command (apply_counters l s) = pending_command s"
  "at_ok (apply_counters l s) = at_ok s"
  "echo_disabled (apply_counters l s) = echo_disabled s"
  "powered_down (apply_counters l s) = powered_down s"
  "ok (apply_counters l s) = ok s"
  "rdy (apply_counters l s) = rdy s"
  "st_error (apply_counters l s) = st_error s"
  "clcc_up_to_date (apply_counters l s) = clcc_up_to_date s"
  "cpin (apply_counters l s) = cpin s"
  "cme_error (apply_counters l s) = cme_error s"
  "sim_pin_count (apply_counters l s) = sim_pin_count s"
  "cur_call (apply_counters l s) = cur_call s"
  "st_qcfg (apply_counters l s) = st_qcfg s"
  "ring_count (apply_counters l s) = ring_count s + (if l = ''RING'' then 1 else 0)"
  "no_carrier_count (apply_counters l s) = no_carrier_count s + (if l = ''NO CARRIER'' then 1 else 0)"
  "busy_count (apply_counters l s) = busy_count s
     + (if l = ''ERROR'' \<or> l = ''+CME ERROR: 10'' \<or> l = ''+CME ERROR: 14'' then 1 else 0)"
  by (simp_all add: apply_counters_def line_helper_defs)

lemma discard_frame [frame_simps]:
  "pending_command (discard_outdated l s) = pending_command s"
  "at_ok (discard_outdated l s) = at_ok s"
  "echo_disabled (discard_outdated l s) = echo_disabled s"
  "powered_down (discard_outdated l s) = powered_down s"
  "ok (discard_outdated l s) = ok s"
  "rdy (discard_outdated l s) = rdy s"
  "st_error (discard_outdated l s) = st_error s"
  "ring_count (discard_outdated l s) = ring_count s"
  "no_carrier_count (discard_outdated l s) = no_carrier_count s"
  "busy_count (discard_outdated l s) = busy_count s"
  "cme_error (discard_outdated l s) = cme_error s"
  "sim_pin_count (discard_outdated l s) = sim_pin_count s"
  "st_qcfg (discard_outdated l s) = st_qcfg s"
  "cpin (discard_outdated l s) = (if l = ''+CME ERROR: 16'' then None else cpin s)"
  "clcc_up_to_date (discard_outdated l s) \<longleftrightarrow>
     clcc_up_to_date s \<and> l \<noteq> ''NO CARRIER'' \<and> l \<noteq> ''RING''"
  "cur_call (discard_outdated l s) =
     (if l = ''NO CARRIER'' \<or> l = ''RING'' then None else cur_call s)"
  by (simp_all add: discard_outdated_def clcc_out_of_date_def Let_def)

lemma gather_frame [frame_simps]:
  "pending_command (gather_handshake l s) = pending_command s"
  "powered_down (gather_handshake l s) = powered_down s"
  "ok (gather_handshake l s) = ok s"
  "rdy (gather_handshake l s) = rdy s"
  "st_error (gather_handshake l s) = st_error s"
  "clcc_up_to_date (gather_handshake l s) = clcc_up_to_date s"
  "ring_count (gather_handshake l s) = ring_count s"
  "no_carrier_count (gather_handshake l s) = no_carrier_count s"
  "busy_count (gather_handshake l s) = busy_count s"
  "cpin (gather_handshake l s) = cpin s"
  "cme_error (gather_handshake l s) = cme_error s"
  "sim_pin_count (gather_handshake l s) = sim_pin_count s"
  "cur_call (gather_handshake l s) = cur_call s"
  "st_qcfg (gather_handshake l s) = st_qcfg s"
  "at_ok (gather_handshake l s) \<longleftrightarrow>
     at_ok s \<or> (l = ''OK'' \<and> pending_command s = Some AT_CHECK_READY)"
  "echo_disabled (gather_handshake l s) \<longleftrightarrow>
     echo_disabled s \<or> (l = ''OK'' \<and> pending_command s = Some AT_DISABLE_ECHO)"
  by (auto simp: gather_handshake_def line_helper_defs Let_def split: option.split)

lemma accept_frame [frame_simps]:
  "pending_command (accept_call_list s) = pending_command s"
  "at_ok (accept_call_list s) = at_ok s"
  "echo_disabled (accept_call_list s) = echo_disabled s"
  "powered_down (accept_call_list s) = powered_down s"
  "ok (accept_call_list s) = ok s"
  "rdy (accept_call_list s) = rdy s"
  "st_error (accept_call_list s) = st_error s"
  "ring_count (accept_call_list s) = ring_count s"
  "no_carrier_count (accept_call_list s) = no_carrier_count s"
  "busy_count (accept_call_list s) = busy_count s"
  "cpin (accept_call_list s) = cpin s"
  "cme_error (accept_call_list s) = cme_error s"
  "sim_pin_count (accept_call_list s) = sim_pin_count s"
  "cur_call (accept_call_list s) = cur_call s"
  "st_qcfg (accept_call_list s) = st_qcfg s"
  "clcc_up_to_date (accept_call_list s) \<longleftrightarrow> clcc_up_to_date s \<or> cur_call s \<noteq> None"
  by (simp_all add: accept_call_list_def)

text \<open>The confirmation of a command, told by the command and the line.\<close>

definition confirmed :: "string \<Rightarrow> line \<Rightarrow> status \<Rightarrow> bool" where
  "confirmed c l s \<longleftrightarrow> l = ''OK'' \<and> pending_command s = Some c"

definition call_list_invalidated :: "line \<Rightarrow> status \<Rightarrow> bool" where
  "call_list_invalidated l s \<longleftrightarrow> l = ''OK'' \<and> (\<exists>c. pending_command s = Some c \<and>
     (starts_with c ''ATD'' \<or> c = AT_HANG_UP \<or> c = AT_ACCEPT_CALL))"

lemma confirm_frame [frame_simps]:
  "pending_command (confirm_command l s) = pending_command s"
  "powered_down (confirm_command l s) = powered_down s"
  "ok (confirm_command l s) = ok s"
  "st_error (confirm_command l s) = st_error s"
  "ring_count (confirm_command l s) = ring_count s"
  "no_carrier_count (confirm_command l s) = no_carrier_count s"
  "busy_count (confirm_command l s) = busy_count s"
  "at_ok (confirm_command l s) \<longleftrightarrow> at_ok s \<and> \<not> confirmed AT_REBOOT l s"
  "echo_disabled (confirm_command l s) \<longleftrightarrow> echo_disabled s \<and> \<not> confirmed AT_REBOOT l s"
  "rdy (confirm_command l s) \<longleftrightarrow> rdy s \<and> \<not> confirmed AT_REBOOT l s"
  "cpin (confirm_command l s) = (if confirmed AT_REBOOT l s then None else cpin s)"
  "cme_error (confirm_command l s) = (if confirmed AT_REBOOT l s then None else cme_error s)"
  "sim_pin_count (confirm_command l s) = (if confirmed AT_REBOOT l s then None else sim_pin_count s)"
  "st_qcfg (confirm_command l s) =
     (if confirmed AT_REBOOT l s then invalidate_after_reboot (st_qcfg s) else st_qcfg s)"
  "cur_call (confirm_command l s) =
     (if confirmed AT_REBOOT l s \<or> call_list_invalidated l s then None else cur_call s)"
  "clcc_up_to_date (confirm_command l s) \<longleftrightarrow>
     (clcc_up_to_date s \<or> confirmed AT_REQUEST_CALL_LIST l s)
     \<and> \<not> confirmed AT_REBOOT l s \<and> \<not> call_list_invalidated l s"
  by (auto simp: confirm_command_def confirm_reboot_def clcc_out_of_date_def confirmed_def
      call_list_invalidated_def Let_def at_command_defs starts_with_def split: option.split)

lemma complete_frame [frame_simps]:
  "at_ok (complete_command l s) = at_ok s"
  "echo_disabled (complete_command l s) = echo_disabled s"
  "powered_down (complete_command l s) = powered_down s"
  "ok (complete_command l s) = ok s"
  "rdy (complete_command l s) = rdy s"
  "st_error (complete_command l s) = st_error s"
  "clcc_up_to_date (complete_command l s) = clcc_up_to_date s"
  "ring_count (complete_command l s) = ring_count s"
  "no_carrier_count (complete_command l s) = no_carrier_count s"
  "busy_count (complete_command l s) = busy_count s"
  "cpin (complete_command l s) = cpin s"
  "cme_error (complete_command l s) = cme_error s"
  "sim_pin_count (complete_command l s) = sim_pin_count s"
  "cur_call (complete_command l s) = cur_call s"
  "st_qcfg (complete_command l s) = st_qcfg s"
  "pending_command (complete_command l s) =
     (if l = ''OK'' \<or> l = ''ERROR'' \<or> has_prefix ''+CME ERROR:'' l then None else pending_command s)"
  by (simp_all add: complete_command_def line_starts_with_iff)

section \<open>The effect of a line, field by field\<close>

lemma confirmed_cong:
  "pending_command s = pending_command t \<Longrightarrow> confirmed c l s = confirmed c l t"
  "pending_command s = pending_command t \<Longrightarrow> call_list_invalidated l s = call_list_invalidated l t"
  by (simp_all add: confirmed_def call_list_invalidated_def)

lemma apply_line_fields [frame_simps]:
  "pending_command (apply_line scan l s) =
     (if l = ''OK'' \<or> l = ''ERROR'' \<or> has_prefix ''+CME ERROR:'' l then None else pending_command s)"
  "ok (apply_line scan l s) \<longleftrightarrow> ok s \<or> l = ''OK''"
  "st_error (apply_line scan l s) \<longleftrightarrow> st_error s \<or> l = ''ERROR''"
  "powered_down (apply_line scan l s) \<longleftrightarrow> l = ''POWERED DOWN''"
  "rdy (apply_line scan l s) \<longleftrightarrow> (rdy s \<or> l = ''RDY'') \<and> \<not> confirmed AT_REBOOT l s"
  "at_ok (apply_line scan l s) \<longleftrightarrow>
     (at_ok s \<or> confirmed AT_CHECK_READY l s) \<and> \<not> confirmed AT_REBOOT l s"
  "echo_disabled (apply_line scan l s) \<longleftrightarrow>
     (echo_disabled s \<or> confirmed AT_DISABLE_ECHO l s) \<and> \<not> confirmed AT_REBOOT l s"
  "ring_count (apply_line scan l s) = ring_count s + (if l = ''RING'' then 1 else 0)"
  "no_carrier_count (apply_line scan l s) =
     no_carrier_count s + (if l = ''NO CARRIER'' then 1 else 0)"
  "busy_count (apply_line scan l s) = busy_count s
     + (if l = ''ERROR'' \<or> l = ''+CME ERROR: 10'' \<or> l = ''+CME ERROR: 14'' then 1 else 0)"
  "st_qcfg (apply_line scan l s) =
     (let q = st_qcfg (apply_qcfg_response scan l (apply_attributes l (s\<lparr>powered_down := False\<rparr>)))
      in if confirmed AT_REBOOT l s then invalidate_after_reboot q else q)"
  "cme_error (apply_line scan l s) =
     (if confirmed AT_REBOOT l s then None else cme_error (apply_attributes l s))"
  by (auto simp: apply_line_def Let_def frame_simps confirmed_def apply_attributes_def
      line_helper_defs split: option.split)

lemma cpin_apply_line [frame_simps]:
  "cpin (apply_line scan l s) =
     (if confirmed AT_REBOOT l s \<or> l = ''+CME ERROR: 16'' then None
      else case line_value l ''+CPIN: '' of None \<Rightarrow> cpin s | Some v \<Rightarrow> Some (genode_string 16 v))"
  by (auto simp: apply_line_def Let_def frame_simps confirmed_def apply_attributes_def
      line_helper_defs split: option.split)

lemma cur_call_apply_line [frame_simps]:
  "cur_call (apply_line scan l s) =
     (if confirmed AT_REBOOT l s \<or> call_list_invalidated l s \<or> l = ''NO CARRIER'' \<or> l = ''RING''
      then None
      else case call_match scan l of None \<Rightarrow> cur_call s | Some c \<Rightarrow> Some c)"
  by (auto simp: apply_line_def Let_def frame_simps confirmed_def call_list_invalidated_def
      apply_call_match_def status_changed_def split: option.split)

lemma clcc_apply_line [frame_simps]:
  "clcc_up_to_date (apply_line scan l s) \<longleftrightarrow>
     (cur_call (apply_line scan l s) \<noteq> None \<or> (clcc_up_to_date s \<and> l \<noteq> ''NO CARRIER'' \<and> l \<noteq> ''RING'')
      \<or> confirmed AT_REQUEST_CALL_LIST l s)
     \<and> \<not> confirmed AT_REBOOT l s \<and> \<not> call_list_invalidated l s"
  by (auto simp: apply_line_def Let_def frame_simps confirmed_def call_list_invalidated_def
      split: option.split)

lemma command_submitted_fields [frame_simps]:
  "pending_command (command_submitted c s) = Some c"
  "\<not> ok (command_submitted c s)"
  "\<not> st_error (command_submitted c s)"
  "cme_error (command_submitted c s) = None"
  "at_ok (command_submitted c s) = at_ok s"
  "echo_disabled (command_submitted c s) = echo_disabled s"
  "powered_down (command_submitted c s) = powered_down s"
  "rdy (command_submitted c s) = rdy s"
  "ring_count (command_submitted c s) = ring_count s"
  "no_carrier_count (command_submitted c s) = no_carrier_count s"
  "busy_count (command_submitted c s) = busy_count s"
  "cpin (command_submitted c s) = cpin s"
  "sim_pin_count (command_submitted c s) = sim_pin_count s"
  "st_qcfg (command_submitted c s) = st_qcfg s"
  "clcc_up_to_date (command_submitted c s) \<longleftrightarrow> clcc_up_to_date s \<and> c \<noteq> AT_REQUEST_CALL_LIST"
  "cur_call (command_submitted c s) = (if c = AT_REQUEST_CALL_LIST then None else cur_call s)"
  by (simp_all add: command_submitted_def reset_command_def status_changed_def
      clcc_out_of_date_def Let_def)

end
