(* ===== verification/Config_Node.thy ===== *)
theory Config_Node
  imports Prelude
begin

text \<open>
  Configuration nodes as the drivers see them: a typed node with attributes, quoted content
  and sub nodes. Parsing a configuration is \<^verbatim>\<open>Genode::Node\<close>'s business and not part of
  this repository; a driver gets the parsed node. The conversion of an attribute's text to
  a number or a truth value is likewise Genode's, and is a parameter of the definitions
  that use it (\<open>num_of\<close>, \<open>bool_of\<close>): \<open>None\<close> is a text the conversion does not accept,
  for which the attribute's default value is taken.
\<close>

datatype node =
  Node (node_type: string) (node_attrs: "(string \<times> string) list")
       (node_content: string) (node_subs: "node list")

definition has_type :: "string \<Rightarrow> node \<Rightarrow> bool" where
  "has_type t n \<longleftrightarrow> node_type n = t"

definition attribute :: "node \<Rightarrow> string \<Rightarrow> string option" where
  "attribute n a = map_of (node_attrs n) a"

definition has_attribute :: "node \<Rightarrow> string \<Rightarrow> bool" where
  "has_attribute n a \<longleftrightarrow> attribute n a \<noteq> None"

text \<open>\<^verbatim>\<open>attribute_value(a, String<cap>(dflt))\<close>\<close>

definition attribute_string :: "nat \<Rightarrow> node \<Rightarrow> string \<Rightarrow> string \<Rightarrow> string" where
  "attribute_string cap n a dflt =
     (case attribute n a of None \<Rightarrow> dflt | Some v \<Rightarrow> genode_string cap v)"

text \<open>\<^verbatim>\<open>attribute_value(a, dflt)\<close> for a value type converted by \<open>conv\<close>\<close>

definition attribute_as :: "(string \<Rightarrow> 'v option) \<Rightarrow> node \<Rightarrow> string \<Rightarrow> 'v \<Rightarrow> 'v" where
  "attribute_as conv n a dflt =
     (case Option.bind (attribute n a) conv of None \<Rightarrow> dflt | Some v \<Rightarrow> v)"

text \<open>\<^verbatim>\<open>with_optional_sub_node\<close> and \<^verbatim>\<open>has_sub_node\<close>: the first sub node of a type.\<close>

definition sub_node :: "string \<Rightarrow> node \<Rightarrow> node option" where
  "sub_node t n = List.find (has_type t) (node_subs n)"

definition has_sub_node :: "string \<Rightarrow> node \<Rightarrow> bool" where
  "has_sub_node t n \<longleftrightarrow> sub_node t n \<noteq> None"

lemma attribute_string_default [simp]:
  "attribute n a = None \<Longrightarrow> attribute_string cap n a dflt = dflt"
  by (simp add: attribute_string_def)

lemma attribute_as_default [simp]:
  "attribute n a = None \<Longrightarrow> attribute_as conv n a dflt = dflt"
  by (simp add: attribute_as_def)

end
