(* ===== verification/At_Control.thy ===== *)
theory At_Control
  imports At_Status Config_Node
begin

text \<open>
  \<^verbatim>\<open>src/driver/modem/at_protocol/control.h\<close>: the part of the AT driver that decides which
  command to issue. The class has one \<^verbatim>\<open>Constructible\<close> member per kind of operation; the
  model has a map from \<open>slot\<close> (the kind) to the operation. An operation's members are
  constant once it is constructed, so the text of its virtual \<open>command()\<close> is stored with it
  (\<open>op_command\<close>). \<open>op_order\<close> is the order in which \<open>_apply_to_operations\<close> visits the
  members. \<open>status\<close> is the referenced \<^verbatim>\<open>Status\<close> object, passed explicitly; logging is
  left out.
\<close>

section \<open>Operations\<close>

datatype op_state = PENDING | SUBMITTED | TIMED_OUT

record operation =
  op_state :: op_state
  op_command :: string

datatype slot = Check_ready | Disable_echo | Power_down | Ring | Set_pin | Request_pin_state
  | Request_pin_count | Reboot | Query_qcfg | Assign_qcfg | Hang_up | Request_call_list
  | Initiate_call | Accept_call

definition op_order :: "slot list" where
  "op_order = [Check_ready, Disable_echo, Power_down, Ring, Set_pin, Request_pin_state,
     Request_pin_count, Reboot, Query_qcfg, Assign_qcfg, Hang_up, Request_call_list,
     Initiate_call, Accept_call]"

text \<open>The kinds are finitely many, so control states can be compared by evaluation.\<close>

instantiation slot :: enum
begin

definition enum_slot :: "slot list" where
  "enum_slot = op_order"

definition enum_all_slot :: "(slot \<Rightarrow> bool) \<Rightarrow> bool" where
  "enum_all_slot P = list_all P op_order"

definition enum_ex_slot :: "(slot \<Rightarrow> bool) \<Rightarrow> bool" where
  "enum_ex_slot P = list_ex P op_order"

instance
proof
  have mem: "x \<in> set op_order" for x by (cases x) (simp_all add: op_order_def)
  then show univ: "(UNIV :: slot set) = set enum_class.enum" by (auto simp: enum_slot_def)
  show "distinct (enum_class.enum :: slot list)" by (simp add: enum_slot_def op_order_def)
  show "enum_class.enum_all P = Ball UNIV P" for P :: "slot \<Rightarrow> bool"
    using mem by (auto simp: enum_all_slot_def list_all_iff)
  show "enum_class.enum_ex P = Bex UNIV P" for P :: "slot \<Rightarrow> bool"
    using mem by (auto simp: enum_ex_slot_def list_ex_iff)
qed

end

type_synonym slots = "slot \<Rightarrow> operation option"

text \<open>The commands of the operations (the overridden \<open>command()\<close> methods).\<close>

definition check_ready_command :: string where "check_ready_command = mk_command AT_CHECK_READY"
definition disable_echo_command :: string where "disable_echo_command = mk_command ''ATE0''"
definition request_pin_state_command :: string where
  "request_pin_state_command = mk_command ''AT+CPIN?''"
definition set_pin_command :: "string \<Rightarrow> string" where
  "set_pin_command pin = mk_command (''AT+CPIN='' @ pin)"
definition request_pin_count_command :: string where
  "request_pin_count_command = mk_command ''AT+QPINC?''"
definition request_call_list_command :: string where
  "request_call_list_command = mk_command AT_REQUEST_CALL_LIST"
definition initiate_call_command :: "string \<Rightarrow> string" where
  "initiate_call_command number = mk_command (''ATD'' @ number @ '';'')"
definition accept_call_command :: string where
  "accept_call_command = mk_command AT_ACCEPT_CALL"
definition hang_up_command :: string where "hang_up_command = mk_command AT_HANG_UP"
definition power_down_command :: string where "power_down_command = mk_command AT_POWER_DOWN"
definition reboot_command :: string where "reboot_command = mk_command ''AT+CFUN=1,1''"
definition query_qcfg_command :: "string \<Rightarrow> string" where
  "query_qcfg_command name = mk_command (AT_QCFG_PREFIX @ quoted name)"
definition assign_qcfg_command :: "string \<Rightarrow> string \<Rightarrow> string" where
  "assign_qcfg_command name value = mk_command (AT_QCFG_PREFIX @ quoted name @ '','' @ value)"

lemmas op_command_defs = check_ready_command_def disable_echo_command_def
  request_pin_state_command_def set_pin_command_def request_pin_count_command_def
  request_call_list_command_def initiate_call_command_def accept_call_command_def
  hang_up_command_def power_down_command_def reboot_command_def query_qcfg_command_def
  assign_qcfg_command_def

section \<open>State\<close>

record outbound_info =
  ob_call :: current_call
  ob_no_carrier_count :: u32

record control =
  slots :: slots
  current_pin :: string
  current_ring_count :: u32
  outbound_info :: "outbound_info option"

definition init_control :: control where
  "init_control = \<lparr>slots = (\<lambda>_. None), current_pin = [], current_ring_count = 0,
     outbound_info = None\<rparr>"

definition constructed :: "control \<Rightarrow> slot \<Rightarrow> bool" where
  "constructed c x \<longleftrightarrow> slots c x \<noteq> None"

definition construct :: "slot \<Rightarrow> string \<Rightarrow> control \<Rightarrow> control" where
  "construct x cmd c = c\<lparr>slots := (slots c)(x \<mapsto> \<lparr>op_state = PENDING, op_command = cmd\<rparr>)\<rparr>"

definition destruct :: "slot \<Rightarrow> control \<Rightarrow> control" where
  "destruct x c = c\<lparr>slots := (slots c)(x := None)\<rparr>"

text \<open>\<^verbatim>\<open>Constructible::conditional\<close>: constructed if and only if the condition holds.\<close>

definition conditional :: "bool \<Rightarrow> slot \<Rightarrow> string \<Rightarrow> control \<Rightarrow> control" where
  "conditional cond x cmd c =
     (if cond then (if constructed c x then c else construct x cmd c) else destruct x c)"

definition submitted :: "control \<Rightarrow> slot \<Rightarrow> bool" where
  "submitted c x \<longleftrightarrow> (case slots c x of None \<Rightarrow> False | Some o1 \<Rightarrow> op_state o1 = SUBMITTED)"

definition op_pending :: "control \<Rightarrow> slot \<Rightarrow> bool" where
  "op_pending c x \<longleftrightarrow> (case slots c x of None \<Rightarrow> False | Some o1 \<Rightarrow> op_state o1 = PENDING)"

section \<open>Operations in flight\<close>

definition cancel_all_operations :: "control \<Rightarrow> control" where
  "cancel_all_operations c = fold destruct op_order c"

definition any_operation_in_flight :: "control \<Rightarrow> bool" where
  "any_operation_in_flight c = list_ex (submitted c) op_order"

text \<open>
  \<^verbatim>\<open>_submit_one_pending_operation\<close>: the first pending operation in order is sent; the
  command goes through the driver's command filter, so the caller gets it back.
\<close>

definition submit_one_pending_operation :: "control \<Rightarrow> control \<times> string option" where
  "submit_one_pending_operation c =
     (case List.find (op_pending c) op_order of
        None \<Rightarrow> (c, None)
      | Some x \<Rightarrow> (case slots c x of
            None \<Rightarrow> (c, None)
          | Some o1 \<Rightarrow> (c\<lparr>slots := (slots c)(x \<mapsto> o1\<lparr>op_state := SUBMITTED\<rparr>)\<rparr>,
                        Some (op_command o1))))"

definition complete_operation :: "status \<Rightarrow> control \<Rightarrow> control" where
  "complete_operation s c =
     (if \<not> ok s then c
      else case List.find (submitted c) op_order of None \<Rightarrow> c | Some x \<Rightarrow> destruct x c)"

definition cancel_command :: "control \<Rightarrow> control" where
  "cancel_command c = fold (\<lambda>x c. if submitted c x then destruct x c else c) op_order c"

section \<open>Outbound calls\<close>

definition outbound_to :: "control \<Rightarrow> string \<Rightarrow> bool" where
  "outbound_to c number \<longleftrightarrow> (case outbound_info c of None \<Rightarrow> False
     | Some i \<Rightarrow> cc_number (ob_call i) = number)"

definition rejected :: "status \<Rightarrow> control \<Rightarrow> string \<Rightarrow> bool" where
  "rejected s c number \<longleftrightarrow> (case outbound_info c of None \<Rightarrow> False
     | Some i \<Rightarrow> cc_number (ob_call i) = number \<and> ob_no_carrier_count i \<noteq> no_carrier_count s)"

definition ready_for_telephony :: "status \<Rightarrow> bool" where
  "ready_for_telephony s \<longleftrightarrow> (case cpin s of None \<Rightarrow> False | Some v \<Rightarrow> v = ''READY'')"

definition call_has_state :: "node \<Rightarrow> string \<Rightarrow> bool" where
  "call_has_state call expected \<longleftrightarrow> attribute_string 32 call ''state'' [] = expected"

definition call_node_rejected :: "node \<Rightarrow> bool" where
  "call_node_rejected config = (case sub_node ''call'' config of None \<Rightarrow> False
     | Some call \<Rightarrow> call_has_state call ''rejected'')"

section \<open>Applying the configuration\<close>

text \<open>\<^verbatim>\<open>_apply_pin\<close>: never the same PIN twice in a row, and no PIN after a rejected one.\<close>

definition apply_pin :: "status \<Rightarrow> string \<Rightarrow> control \<Rightarrow> control" where
  "apply_pin s pin c =
     (let failed = (\<lambda>x c. submitted c x \<and> cme_error s \<noteq> None);
          c1 = (if failed Request_pin_state c then destruct Request_pin_state c else c)
      in if failed Set_pin c1 then
           (let c2 = destruct Set_pin c1
            in if constructed c2 Request_pin_count then c2
               else construct Request_pin_count request_pin_count_command c2)
         else case cpin s of
           None \<Rightarrow> (if constructed c1 Request_pin_state then c1
                    else construct Request_pin_state request_pin_state_command c1)
         | Some v \<Rightarrow>
             if v \<noteq> ''SIM PIN'' then c1
             else if str_length (Some pin) \<le> 1 then c1
             else if pin = current_pin c1 then c1
             else construct Set_pin (set_pin_command pin) (c1\<lparr>current_pin := pin\<rparr>))"

definition keep_call_list_up_to_date :: "status \<Rightarrow> control \<Rightarrow> control" where
  "keep_call_list_up_to_date s c =
     (if \<not> ready_for_telephony s then c
      else if clcc_up_to_date s then destruct Request_call_list c
      else if constructed c Request_call_list then c
      else construct Request_call_list request_call_list_command c)"

definition apply_hang_up :: "status \<Rightarrow> node \<Rightarrow> control \<Rightarrow> control" where
  "apply_hang_up s config c =
     (if constructed c Hang_up then c
      else let c1 = (if outbound_info c \<noteq> None
                        \<and> (\<not> has_sub_node ''call'' config \<or> call_node_rejected config)
                     then construct Hang_up hang_up_command (c\<lparr>outbound_info := None\<rparr>) else c)
           in case cur_call s of None \<Rightarrow> c1
              | Some cc \<Rightarrow> if call_node_rejected config \<and> (call_incoming cc \<or> call_active cc)
                          then construct Hang_up hang_up_command c1 else c1)"

definition apply_call :: "status \<Rightarrow> node \<Rightarrow> control \<Rightarrow> control" where
  "apply_call s call c =
     (if \<not> ready_for_telephony s then c
      else if \<not> clcc_up_to_date s then c
      else let number = attribute_string 50 call ''number'' [];
               accepted = (\<not> has_attribute call ''state'' \<or> call_has_state call ''accepted'');
               c1 = (case cur_call s of None \<Rightarrow> c
                     | Some cc \<Rightarrow>
                        (let c2 = (case outbound_info c of None \<Rightarrow> c
                               | Some i \<Rightarrow> c\<lparr>outbound_info := Some (i\<lparr>ob_call := cc\<rparr>)\<rparr>)
                         in if call_incoming cc \<and> accepted \<and> \<not> constructed c2 Accept_call
                            then construct Accept_call accept_call_command c2 else c2));
               c3 = (case outbound_info c1 of None \<Rightarrow> c1
                     | Some i \<Rightarrow> if cc_number (ob_call i) \<noteq> number
                                then c1\<lparr>outbound_info := None\<rparr> else c1);
               idle = (cur_call s = None)
           in if idle \<and> accepted \<and> \<not> rejected s c3 number \<and> \<not> outbound_to c3 number
                 \<and> \<not> constructed c3 Initiate_call
              then (construct Initiate_call (initiate_call_command number) c3)
                     \<lparr>outbound_info := Some \<lparr>ob_call = \<lparr>cc_number = number, cc_stat = DIALING\<rparr>,
                        ob_no_carrier_count = no_carrier_count s\<rparr>\<rparr>
              else c3)"

definition apply_power :: "status \<Rightarrow> string \<Rightarrow> control \<Rightarrow> control" where
  "apply_power s pwr c =
     (let power_down_failed = (submitted c Power_down \<and> st_error s);
          c1 = (if power_down_failed then destruct Power_down c else c)
      in if pwr = ''off'' \<and> \<not> powered_down s \<and> \<not> constructed c1 Power_down
         then construct Power_down power_down_command c1 else c1)"

definition apply_ring :: "status \<Rightarrow> node \<Rightarrow> control \<Rightarrow> control" where
  "apply_ring s ring c =
     (if current_ring_count c \<noteq> ring_count s
      then construct Ring (mk_command (node_content ring)) (c\<lparr>current_ring_count := ring_count s\<rparr>)
      else c)"

definition apply_qcfg :: "status \<Rightarrow> control \<Rightarrow> control" where
  "apply_qcfg s c =
     (let failed = (submitted c Query_qcfg \<and> st_error s);
          c1 = (if failed then destruct Query_qcfg c else c);
          c2 = (if constructed c1 Query_qcfg then c1
                else case with_any_unknown_entry (st_qcfg s) of None \<Rightarrow> c1
                  | Some e \<Rightarrow> construct Query_qcfg (query_qcfg_command (q_name e)) c1);
          c3 = (if constructed c2 Assign_qcfg then c2
                else case with_any_mismatching_entry (st_qcfg s) of None \<Rightarrow> c2
                  | Some e \<Rightarrow> construct Assign_qcfg (assign_qcfg_command (q_name e) (q_value e)) c2)
      in if \<not> constructed c3 Reboot \<and> reboot_needed (st_qcfg s)
         then (construct Reboot reboot_command (cancel_all_operations c3))\<lparr>current_pin := []\<rparr>
         else c3)"

text \<open>\<^verbatim>\<open>_apply_config\<close>\<close>

definition apply_config_ops :: "status \<Rightarrow> node \<Rightarrow> control \<Rightarrow> control" where
  "apply_config_ops s config c =
     (if constructed c Reboot \<or> \<not> rdy s then c
      else let c1 = conditional (\<not> echo_disabled s \<and> at_ok s) Disable_echo disable_echo_command c
           in if \<not> echo_disabled s then c1
              else let c2 = apply_qcfg s c1;
                       c3 = apply_pin s (attribute_string 8 config ''pin'' []) c2;
                       c4 = apply_power s (attribute_string 16 config ''power'' []) c3;
                       c5 = apply_hang_up s config c4;
                       c6 = keep_call_list_up_to_date s c5;
                       c7 = (case sub_node ''call'' config of None \<Rightarrow> c6
                             | Some call \<Rightarrow> apply_call s call c6)
                   in case sub_node ''ring'' config of None \<Rightarrow> c7
                      | Some ring \<Rightarrow> apply_ring s ring c7)"

text \<open>\<^verbatim>\<open>apply_config\<close>, with the command that is sent, if any.\<close>

definition apply_config :: "status \<Rightarrow> node \<Rightarrow> control \<Rightarrow> control \<times> string option" where
  "apply_config s config c =
     (let c1 = complete_operation s c;
          c2 = conditional (\<not> at_ok s) Check_ready check_ready_command c1;
          c3 = apply_config_ops s config c2
      in if any_operation_in_flight c3 then (c3, None) else submit_one_pending_operation c3)"

definition command_timeout_ms :: "control \<Rightarrow> nat" where
  "command_timeout_ms c = (if submitted c Hang_up then 90 * 1000 else 600)"

definition outbound :: "control \<Rightarrow> bool" where
  "outbound c \<longleftrightarrow> outbound_info c \<noteq> None"

definition power_down_scheduled :: "control \<Rightarrow> bool" where
  "power_down_scheduled c \<longleftrightarrow> constructed c Power_down"

text \<open>The attributes of a generated report node.\<close>

definition gen_state_attr :: "outbound_info \<Rightarrow> (string \<times> string) list" where
  "gen_state_attr i =
     (if call_active (ob_call i) then [(''state'', ''active'')]
      else if call_alerting (ob_call i) then [(''state'', ''alerting'')]
      else if call_outbound (ob_call i) then [(''state'', ''outbound'')] else [])"

definition gen_outbound_call :: "status \<Rightarrow> control \<Rightarrow> (string \<times> string) list option" where
  "gen_outbound_call s c =
     (case outbound_info c of None \<Rightarrow> None
      | Some i \<Rightarrow> Some ((''number'', cc_number (ob_call i)) #
           (if rejected s c (cc_number (ob_call i)) then [(''state'', ''rejected'')]
            else gen_state_attr i)))"

end
