(* ===== verification/At_Driver.thy ===== *)
theory At_Driver
  imports At_Control
begin

text \<open>
  \<^verbatim>\<open>src/driver/modem/at_protocol/driver.h\<close>: the AT-protocol driver. It owns the status, the
  read buffer and the control part; \<open>drv_apply\<close> is one call of \<open>apply\<close>: receive what the
  modem sent, let the control part pick at most one command, and keep the current-call
  information. The \<open>verbose\<close> logging is left out. \<open>mll\<close> is the template parameter
  \<open>MAX_LINE_LEN\<close>, \<open>scan\<close> the tokenizer.
\<close>

record driver =
  drv_status :: status
  read_buffer :: string
  drv_control :: control
  current_call :: "current_call option"

definition init_driver :: "qcfg \<Rightarrow> driver" where
  "init_driver q = \<lparr>drv_status = init_status q, read_buffer = [], drv_control = init_control,
     current_call = None\<rparr>"

text \<open>
  \<^verbatim>\<open>Command_filter::send_command_to_modem\<close>: the command goes to the channel (the model
  returns it) and is registered at the status.
\<close>

definition filter_command :: "string option \<Rightarrow> status \<Rightarrow> status" where
  "filter_command cmd s = (case cmd of None \<Rightarrow> s | Some c \<Rightarrow> command_submitted c s)"

definition update_current_call ::
  "u32 \<Rightarrow> status \<Rightarrow> current_call option \<Rightarrow> current_call option" where
  "update_current_call orig_no_carrier_count s cc =
     (let cc1 = (if orig_no_carrier_count \<noteq> no_carrier_count s then None else cc)
      in if clcc_up_to_date s then cur_call s else cc1)"

definition drv_apply :: "(string \<Rightarrow> token list) \<Rightarrow> nat \<Rightarrow> node \<Rightarrow> string list \<Rightarrow> driver
    \<Rightarrow> driver \<times> string option \<times> string list" where
  "drv_apply scan mll config segs d =
     (let orig_no_carrier_count = no_carrier_count (drv_status d);
          (buf, s1, segs') = receive mll (apply_line scan) (read_buffer d) (drv_status d) segs;
          (ctl, cmd) = apply_config s1 config (drv_control d);
          s2 = filter_command cmd s1
      in (\<lparr>drv_status = s2, read_buffer = buf, drv_control = ctl,
           current_call = update_current_call orig_no_carrier_count s2 (current_call d)\<rparr>,
          cmd, segs'))"

text \<open>\<^verbatim>\<open>send_command_to_modem\<close>, used by the test only\<close>

definition drv_send_command :: "string \<Rightarrow> driver \<Rightarrow> driver" where
  "drv_send_command cmd d = d\<lparr>drv_status := filter_command (Some cmd) (drv_status d)\<rparr>"

definition drv_outbound :: "driver \<Rightarrow> bool" where
  "drv_outbound d \<longleftrightarrow> outbound (drv_control d)"

definition invalidate_call_list :: "driver \<Rightarrow> driver" where
  "invalidate_call_list d = d\<lparr>drv_status := (drv_status d)\<lparr>clcc_up_to_date := False\<rparr>\<rparr>"

definition drv_cancel_command :: "driver \<Rightarrow> driver" where
  "drv_cancel_command d =
     (let d1 = (case pending_command (drv_status d) of None \<Rightarrow> d
            | Some c \<Rightarrow> d\<lparr>drv_control := cancel_command (drv_control d),
                         drv_status := command_canceled (drv_status d)\<rparr>)
      in d1\<lparr>drv_status := (drv_status d1)\<lparr>at_ok := False\<rparr>\<rparr>)"

definition drv_command_timeout_ms :: "driver \<Rightarrow> nat" where
  "drv_command_timeout_ms d = command_timeout_ms (drv_control d)"

definition response_outstanding :: "driver \<Rightarrow> bool" where
  "response_outstanding d \<longleftrightarrow> pending_command (drv_status d) \<noteq> None"

definition powering_down :: "driver \<Rightarrow> bool" where
  "powering_down d \<longleftrightarrow> power_down_scheduled (drv_control d) \<and> \<not> powered_down (drv_status d)"

definition drv_powered_down :: "driver \<Rightarrow> bool" where
  "drv_powered_down d \<longleftrightarrow> powered_down (drv_status d)"

definition drv_busy_count :: "driver \<Rightarrow> u32" where
  "drv_busy_count d = busy_count (drv_status d)"

section \<open>The report\<close>

datatype report_item = Attr_num string u32 | Attr_str string string
  | Call_node "(string \<times> string) list"

fun state_name :: "call_stat \<Rightarrow> string" where
  "state_name ACTIVE = ''active''"
| "state_name DIALING = ''outbound''"
| "state_name INCOMING = ''incoming''"
| "state_name ALERTING = ''alerting''"
| "state_name UNSUPPORTED = ''unsupported''"

definition gen_current_call :: "driver \<Rightarrow> report_item list" where
  "gen_current_call d = (case current_call d of None \<Rightarrow> []
     | Some c \<Rightarrow> if cc_stat c = UNSUPPORTED then []
                else [Call_node [(''number'', cc_number c), (''state'', state_name (cc_stat c))]])"

definition gen_pin :: "status \<Rightarrow> report_item list" where
  "gen_pin s = (case cpin s of None \<Rightarrow> []
     | Some v \<Rightarrow> Attr_str ''sim'' ''yes'' #
         (if v = ''READY'' then [Attr_str ''pin'' ''ok'']
          else if v = ''SIM PIN'' then Attr_str ''pin'' ''required'' #
            (case sim_pin_count s of None \<Rightarrow> []
             | Some n \<Rightarrow> [Attr_str ''pin_remaining_attempts'' n])
          else []))"

definition generate_report :: "driver \<Rightarrow> report_item list" where
  "generate_report d =
     (let s = drv_status d; c = drv_control d in
        (if 0 < ring_count s then [Attr_num ''ring_count'' (ring_count s)] else [])
      @ (if 0 < no_carrier_count s then [Attr_num ''no_carrier_count'' (no_carrier_count s)] else [])
      @ gen_pin s
      @ (if outbound c then (case gen_outbound_call s c of None \<Rightarrow> [] | Some as \<Rightarrow> [Call_node as])
         else gen_current_call d))"

section \<open>Steps\<close>

text \<open>The calls the modem driver makes, each with the command it sends.\<close>

inductive drv_step ::
  "(string \<Rightarrow> token list) \<Rightarrow> nat \<Rightarrow> driver \<Rightarrow> string option \<Rightarrow> driver \<Rightarrow> bool" for scan mll where
  drive: "drv_apply scan mll config segs d = (d', cmd, segs') \<Longrightarrow> drv_step scan mll d cmd d'"
| invalidate: "drv_step scan mll d None (invalidate_call_list d)"
| cancel: "drv_step scan mll d None (drv_cancel_command d)"

inductive drv_reach :: "(string \<Rightarrow> token list) \<Rightarrow> nat \<Rightarrow> qcfg \<Rightarrow> driver \<Rightarrow> bool" for scan mll q where
  init: "drv_reach scan mll q (init_driver q)"
| step: "drv_reach scan mll q d \<Longrightarrow> drv_step scan mll d cmd d' \<Longrightarrow> drv_reach scan mll q d'"

end
