(* ===== verification/At_Control_Inv.thy ===== *)
theory At_Control_Inv
  imports At_Driver
begin

text \<open>
  Facts about the control part and the driver built on it: how each operation of
  \<^verbatim>\<open>control.h\<close> changes the slots, which operation a call of \<open>apply_config\<close> submits, and the
  invariant that at most one operation is in flight.
\<close>

section \<open>Slots\<close>

lemma set_op_order [simp]: "set op_order = UNIV"
proof -
  have "x \<in> set op_order" for x by (cases x) (simp_all add: op_order_def)
  then show ?thesis by auto
qed

lemma any_in_flight_iff: "any_operation_in_flight c \<longleftrightarrow> (\<exists>x. submitted c x)"
  by (simp add: any_operation_in_flight_def list_ex_iff)

lemma slots_construct [simp]:
  "slots (construct x cmd c) = (slots c)(x \<mapsto> \<lparr>op_state = PENDING, op_command = cmd\<rparr>)"
  "current_pin (construct x cmd c) = current_pin c"
  "current_ring_count (construct x cmd c) = current_ring_count c"
  "outbound_info (construct x cmd c) = outbound_info c"
  by (simp_all add: construct_def)

lemma slots_destruct [simp]:
  "slots (destruct x c) = (slots c)(x := None)"
  "current_pin (destruct x c) = current_pin c"
  "current_ring_count (destruct x c) = current_ring_count c"
  "outbound_info (destruct x c) = outbound_info c"
  by (simp_all add: destruct_def)

lemma submitted_simps [simp]:
  "submitted (construct x cmd c) y \<longleftrightarrow> x \<noteq> y \<and> submitted c y"
  "submitted (destruct x c) y \<longleftrightarrow> x \<noteq> y \<and> submitted c y"
  "submitted (c\<lparr>current_pin := p\<rparr>) y \<longleftrightarrow> submitted c y"
  "submitted (c\<lparr>outbound_info := i\<rparr>) y \<longleftrightarrow> submitted c y"
  "submitted (c\<lparr>current_ring_count := n\<rparr>) y \<longleftrightarrow> submitted c y"
  by (simp_all add: submitted_def)

lemma constructed_simps [simp]:
  "constructed (construct x cmd c) y \<longleftrightarrow> x = y \<or> constructed c y"
  "constructed (destruct x c) y \<longleftrightarrow> x \<noteq> y \<and> constructed c y"
  "constructed (c\<lparr>current_pin := p\<rparr>) y \<longleftrightarrow> constructed c y"
  "constructed (c\<lparr>outbound_info := i\<rparr>) y \<longleftrightarrow> constructed c y"
  "constructed (c\<lparr>current_ring_count := n\<rparr>) y \<longleftrightarrow> constructed c y"
  by (auto simp: constructed_def)

lemma op_pending_simps [simp]:
  "op_pending (construct x cmd c) y \<longleftrightarrow> x = y \<or> op_pending c y"
  "op_pending (destruct x c) y \<longleftrightarrow> x \<noteq> y \<and> op_pending c y"
  "op_pending (c\<lparr>current_pin := p\<rparr>) y \<longleftrightarrow> op_pending c y"
  "op_pending (c\<lparr>outbound_info := i\<rparr>) y \<longleftrightarrow> op_pending c y"
  "op_pending (c\<lparr>current_ring_count := n\<rparr>) y \<longleftrightarrow> op_pending c y"
  by (auto simp: op_pending_def)

lemma fold_destruct_slots:
  "slots (fold destruct xs c) = (\<lambda>x. if x \<in> set xs then None else slots c x)"
  by (induction xs arbitrary: c) (auto simp: fun_eq_iff)

lemma fold_destruct_frame [simp]:
  "current_pin (fold destruct xs c) = current_pin c"
  "current_ring_count (fold destruct xs c) = current_ring_count c"
  "outbound_info (fold destruct xs c) = outbound_info c"
  by (induction xs arbitrary: c) auto

lemma cancel_all_slots [simp]:
  "slots (cancel_all_operations c) = (\<lambda>_. None)"
  "current_pin (cancel_all_operations c) = current_pin c"
  "current_ring_count (cancel_all_operations c) = current_ring_count c"
  "outbound_info (cancel_all_operations c) = outbound_info c"
  by (simp_all add: cancel_all_operations_def fold_destruct_slots)

lemma submitted_cancel_all [simp]:
  "\<not> submitted (cancel_all_operations c) x"
  "\<not> constructed (cancel_all_operations c) x"
  by (simp_all add: submitted_def constructed_def)

lemma conditional_slots:
  "slots (conditional b x cmd c) =
     (if b then (if constructed c x then slots c
                 else (slots c)(x \<mapsto> \<lparr>op_state = PENDING, op_command = cmd\<rparr>))
      else (slots c)(x := None))"
  by (simp add: conditional_def)

lemma conditional_frame [simp]:
  "current_pin (conditional b x cmd c) = current_pin c"
  "current_ring_count (conditional b x cmd c) = current_ring_count c"
  "outbound_info (conditional b x cmd c) = outbound_info c"
  by (simp_all add: conditional_def)

lemma constructed_conditional [simp]:
  "constructed (conditional b x cmd c) y \<longleftrightarrow> (if x = y then b else constructed c y)"
  by (auto simp: conditional_def)

section \<open>No operation is submitted on the side\<close>

text \<open>\<open>settles c c'\<close>: going from \<open>c\<close> to \<open>c'\<close>, no operation became submitted.\<close>

definition settles :: "control \<Rightarrow> control \<Rightarrow> bool" where
  "settles c c' \<longleftrightarrow> (\<forall>x. submitted c' x \<longrightarrow> submitted c x)"

lemma settles_refl [simp]: "settles c c"
  by (simp add: settles_def)

lemma settles_trans: "settles a b \<Longrightarrow> settles b c \<Longrightarrow> settles a c"
  by (auto simp: settles_def)

named_theorems settling \<open>steps that submit no operation\<close>

lemma settles_conditional [settling]: "settles c (conditional b x cmd c)"
  by (simp add: settles_def conditional_def)

lemma settles_complete [settling]: "settles c (complete_operation s c)"
  by (auto simp: settles_def complete_operation_def split: option.split)

lemma settles_apply_pin [settling]: "settles c (apply_pin s pin c)"
  by (auto simp: settles_def apply_pin_def Let_def split: option.split)

lemma settles_keep_call_list [settling]: "settles c (keep_call_list_up_to_date s c)"
  by (simp add: settles_def keep_call_list_up_to_date_def)

lemma settles_apply_hang_up [settling]: "settles c (apply_hang_up s config c)"
  by (auto simp: settles_def apply_hang_up_def Let_def split: option.split)

lemma settles_apply_power [settling]: "settles c (apply_power s p c)"
  by (auto simp: settles_def apply_power_def Let_def)

lemma settles_apply_ring [settling]: "settles c (apply_ring s r c)"
  by (auto simp: settles_def apply_ring_def)

lemma settles_apply_qcfg [settling]: "settles c (apply_qcfg s c)"
  by (auto simp: settles_def apply_qcfg_def Let_def split: option.split)

lemma settles_apply_call [settling]: "settles c (apply_call s call c)"
  by (auto simp: settles_def apply_call_def Let_def split: option.split)

text \<open>What every step of \<open>apply_config_ops\<close> keeps, the whole keeps.\<close>

lemma apply_config_ops_keeps:
  assumes "P c"
    and "\<And>c. P c \<Longrightarrow> P (conditional (\<not> echo_disabled s \<and> at_ok s) Disable_echo disable_echo_command c)"
    and "\<And>c. P c \<Longrightarrow> P (apply_qcfg s c)"
    and "\<And>c. P c \<Longrightarrow> P (apply_pin s (attribute_string 8 config ''pin'' []) c)"
    and "\<And>c. P c \<Longrightarrow> P (apply_power s (attribute_string 16 config ''power'' []) c)"
    and "\<And>c. P c \<Longrightarrow> P (apply_hang_up s config c)"
    and "\<And>c. P c \<Longrightarrow> P (keep_call_list_up_to_date s c)"
    and "\<And>c call. sub_node ''call'' config = Some call \<Longrightarrow> P c \<Longrightarrow> P (apply_call s call c)"
    and "\<And>c ring. sub_node ''ring'' config = Some ring \<Longrightarrow> P c \<Longrightarrow> P (apply_ring s ring c)"
  shows "P (apply_config_ops s config c)"
  unfolding apply_config_ops_def Let_def
  by (auto simp only: split: if_split option.split intro!: assms)

lemma settles_apply_config_ops: "settles c (apply_config_ops s config c)"
  by (rule apply_config_ops_keeps [where P = "settles c"])
    (auto intro: settling elim!: settles_trans)

section \<open>Which operation is submitted\<close>

lemma submit_one_None:
  "submit_one_pending_operation c = (c', None) \<longleftrightarrow> c' = c \<and> (\<forall>x. \<not> op_pending c x)"
proof (cases "List.find (op_pending c) op_order")
  case None
  then have "\<forall>x. \<not> op_pending c x" by (simp add: find_None_iff_all)
  with None show ?thesis by (auto simp: submit_one_pending_operation_def)
next
  case (Some x)
  then have "op_pending c x" by (rule find_SomeD [THEN conjunct2])
  then show ?thesis
    using Some by (auto simp: submit_one_pending_operation_def op_pending_def split: option.splits)
qed

lemma submit_one_Some:
  assumes "submit_one_pending_operation c = (c', Some cmd)"
  obtains x where "List.find (op_pending c) op_order = Some x" and "op_pending c x"
    and "map_option op_command (slots c x) = Some cmd"
    and "submitted c' x" and "\<And>y. y \<noteq> x \<Longrightarrow> slots c' y = slots c y"
    and "\<And>y. y \<noteq> x \<Longrightarrow> submitted c' y = submitted c y"
    and "current_pin c' = current_pin c" and "outbound_info c' = outbound_info c"
    and "current_ring_count c' = current_ring_count c"
proof -
  obtain x where x: "List.find (op_pending c) op_order = Some x"
    using assms by (auto simp: submit_one_pending_operation_def split: option.splits)
  moreover have "op_pending c x" using x by (rule find_SomeD [THEN conjunct2])
  ultimately show thesis
    using assms by (intro that [of x])
      (auto simp: submit_one_pending_operation_def submitted_def split: option.splits)
qed

definition at_most_one_submitted :: "control \<Rightarrow> bool" where
  "at_most_one_submitted c \<longleftrightarrow> (\<forall>x y. submitted c x \<longrightarrow> submitted c y \<longrightarrow> x = y)"

lemma at_most_one_settles:
  "at_most_one_submitted c \<Longrightarrow> settles c c' \<Longrightarrow> at_most_one_submitted c'"
  by (auto simp: at_most_one_submitted_def settles_def)

text \<open>The control part right before the choice of the next command.\<close>

definition prepared :: "status \<Rightarrow> node \<Rightarrow> control \<Rightarrow> control" where
  "prepared s config c = apply_config_ops s config
     (conditional (\<not> at_ok s) Check_ready check_ready_command (complete_operation s c))"

lemma apply_config_prepared:
  "apply_config s config c =
     (if any_operation_in_flight (prepared s config c) then (prepared s config c, None)
      else submit_one_pending_operation (prepared s config c))"
  by (simp add: apply_config_def prepared_def Let_def)

lemma settles_prepared: "settles c (prepared s config c)"
  unfolding prepared_def
  by (blast intro: settles_trans settles_complete settles_conditional settles_apply_config_ops)

lemma apply_config_Some:
  assumes "apply_config s config c = (c', Some cmd)"
  shows "\<And>x. \<not> submitted (prepared s config c) x"
    and "submit_one_pending_operation (prepared s config c) = (c', Some cmd)"
  using assms by (auto simp: apply_config_prepared any_in_flight_iff split: if_splits)

lemma apply_config_None:
  "apply_config s config c = (c', None) \<Longrightarrow> c' = prepared s config c"
  by (auto simp: apply_config_prepared submit_one_None split: if_splits)

lemma at_most_one_apply_config:
  assumes "at_most_one_submitted c" and "apply_config s config c = (c', cmd)"
  shows "at_most_one_submitted c'"
proof (cases cmd)
  case None
  then show ?thesis
    using assms at_most_one_settles [OF _ settles_prepared] apply_config_None by blast
next
  case (Some a)
  note p = apply_config_Some [OF assms(2) [unfolded Some]]
  obtain x where "\<And>y. y \<noteq> x \<Longrightarrow> submitted c' y = submitted (prepared s config c) y"
    using p(2) by (elim submit_one_Some) blast
  with p(1) show ?thesis unfolding at_most_one_submitted_def by metis
qed

lemma submitted_cancel_command: "\<not> submitted (cancel_command c) x"
proof -
  have "submitted (fold (\<lambda>x c. if submitted c x then destruct x c else c) xs c) x
      \<longleftrightarrow> submitted c x \<and> x \<notin> set xs" for xs
    by (induction xs arbitrary: c) auto
  then show ?thesis by (simp add: cancel_command_def)
qed

section \<open>Driver steps\<close>

lemma drv_apply_parts:
  assumes "drv_apply scan mll config segs d = (d', cmd, segs')"
  obtains buf s1 ctl where
    "receive mll (apply_line scan) (read_buffer d) (drv_status d) segs = (buf, s1, segs')"
    and "apply_config s1 config (drv_control d) = (ctl, cmd)"
    and "drv_status d' = filter_command cmd s1" and "drv_control d' = ctl"
    and "read_buffer d' = buf"
    and "current_call d' = update_current_call (no_carrier_count (drv_status d))
           (filter_command cmd s1) (current_call d)"
  using assms by (auto simp: drv_apply_def Let_def split: prod.splits)

text \<open>The status after a reception is the status run over lines.\<close>

lemma receive_status:
  assumes "receive mll (apply_line scan) buf s segs = (buf', s1, segs')"
  obtains ls where "s1 = fold (apply_line scan) ls s"
  using receive_fold [of mll "apply_line scan" buf s segs "[]"] assms by auto

lemma fold_lines_keeps:
  assumes "P s" and "\<And>l s. P s \<Longrightarrow> P (apply_line scan l s)"
  shows "P (fold (apply_line scan) ls s)"
  using assms by (induction ls arbitrary: s) auto

lemma drv_cancel_control:
  "drv_control (drv_cancel_command d) =
     (if pending_command (drv_status d) = None then drv_control d
      else cancel_command (drv_control d))"
  by (auto simp: drv_cancel_command_def Let_def split: option.split)

lemma at_most_one_drv_step:
  assumes "drv_step scan mll d cmd d'" and "at_most_one_submitted (drv_control d)"
  shows "at_most_one_submitted (drv_control d')"
  using assms
proof (cases rule: drv_step.cases)
  case (drive config segs segs')
  then show ?thesis
    using assms(2) at_most_one_apply_config by (elim drv_apply_parts) blast
next
  case cancel
  then show ?thesis
    using assms(2) by (auto simp: drv_cancel_control at_most_one_submitted_def submitted_cancel_command)
qed (use assms(2) in \<open>auto simp: invalidate_call_list_def\<close>)

lemma at_most_one_reach: "drv_reach scan mll q d \<Longrightarrow> at_most_one_submitted (drv_control d)"
proof (induction rule: drv_reach.induct)
  case init
  show ?case by (simp add: init_driver_def init_control_def at_most_one_submitted_def submitted_def)
next
  case (step d cmd d')
  then show ?case by (blast intro: at_most_one_drv_step)
qed

end
