(* ===== verification/At_Order.thy ===== *)
theory At_Order
  imports At_Safety
begin

text \<open>
  The order of commands: what the AT driver sends while the handshake is incomplete, the
  number of PIN entries in a run, the one command that is outstanding at a time, and the
  states in which the driver waits forever.
\<close>

section \<open>The first constructed slot is the one sent\<close>

lemma op_command_texts [simp]:
  "check_ready_command = ''AT''"
  "disable_echo_command = ''ATE0''"
  "request_pin_state_command = ''AT+CPIN?''"
  "request_pin_count_command = ''AT+QPINC?''"
  "request_call_list_command = ''AT+CLCC''"
  "accept_call_command = ''ATA''"
  "hang_up_command = ''ATH''"
  "power_down_command = ''AT+QPOWD''"
  "reboot_command = ''AT+CFUN=1,1''"
  by (simp_all add: op_command_defs at_command_defs genode_string_def)

lemma pending_iff_constructed:
  assumes "typed R c" and "\<And>x. \<not> submitted c x"
  shows "op_pending c x \<longleftrightarrow> constructed c x"
proof (cases "slots c x")
  case (Some o1)
  then have "op_state o1 \<noteq> TIMED_OUT" and "op_state o1 \<noteq> SUBMITTED"
    using assms(1) assms(2) [of x] by (auto simp: typed_def submitted_def)
  then show ?thesis
    using Some by (cases "op_state o1") (auto simp: op_pending_def constructed_def)
qed (simp add: op_pending_def constructed_def)

text \<open>The command sent belongs to the slot \<open>x\<close> if no slot before \<open>x\<close> is constructed.\<close>

lemma sent_command:
  assumes "apply_config s config c = (c', Some cmd)" and "typed R (prepared s config c)"
  obtains x where "List.find (constructed (prepared s config c)) op_order = Some x"
    and "command_of x cmd" and "x = Ring \<Longrightarrow> R cmd"
    and "slots c' x = Some \<lparr>op_state = SUBMITTED, op_command = cmd\<rparr>"
proof -
  let ?p = "prepared s config c"
  note sent = apply_config_Some [OF assms(1)]
  have pend: "op_pending ?p = constructed ?p"
    by (rule ext) (rule pending_iff_constructed [OF assms(2) sent(1)])
  obtain x where x: "List.find (op_pending ?p) op_order = Some x"
    and cmd: "map_option op_command (slots ?p x) = Some cmd"
    using sent(2) by (rule submit_one_Some)
  then obtain o1 where o1: "slots ?p x = Some o1" "op_command o1 = cmd" by auto
  with assms(2) have "command_of x cmd" "x = Ring \<Longrightarrow> R cmd" by (auto simp: typed_def)
  moreover have "slots c' x = Some \<lparr>op_state = SUBMITTED, op_command = cmd\<rparr>"
    using sent(2) x o1 by (auto simp: submit_one_pending_operation_def)
  ultimately show thesis using that x pend by simp
qed

section \<open>Handshake\<close>

text \<open>A pass that schedules the reboot of the modem.\<close>

definition boot_now :: "status \<Rightarrow> control \<Rightarrow> bool" where
  "boot_now s c \<longleftrightarrow> rdy s \<and> echo_disabled s \<and> \<not> constructed (complete_operation s c) Reboot
     \<and> reboot_needed (st_qcfg s)"

lemma constructed_apply_pin:
  "constructed (apply_pin s pin c) x \<longleftrightarrow> constructed c x" if "x \<notin> {Set_pin, Request_pin_state, Request_pin_count}"
  using that by (auto simp: apply_pin_def Let_def split: option.split)

lemma constructed_apply_qcfg:
  "constructed (apply_qcfg s c) x \<longleftrightarrow> constructed c x"
  if "constructed c Reboot \<or> \<not> reboot_needed (st_qcfg s)" and "x \<notin> {Query_qcfg, Assign_qcfg}"
  using that by (auto simp: apply_qcfg_def Let_def split: option.split)

lemma constructed_apply_power:
  "constructed (apply_power s p c) x \<longleftrightarrow> constructed c x" if "x \<noteq> Power_down"
  using that by (auto simp: apply_power_def Let_def)

lemma constructed_apply_hang_up:
  "constructed (apply_hang_up s config c) x \<longleftrightarrow> constructed c x" if "x \<noteq> Hang_up"
  using that by (auto simp: apply_hang_up_def Let_def split: option.split)

lemma constructed_keep_call_list:
  "constructed (keep_call_list_up_to_date s c) x \<longleftrightarrow> constructed c x" if "x \<noteq> Request_call_list"
  using that by (auto simp: keep_call_list_up_to_date_def)

lemma constructed_apply_call:
  "constructed (apply_call s call c) x \<longleftrightarrow> constructed c x" if "x \<notin> {Accept_call, Initiate_call}"
  using that by (auto simp: apply_call_def Let_def split: option.split)

lemma constructed_apply_ring:
  "constructed (apply_ring s ring c) x \<longleftrightarrow> constructed c x" if "x \<noteq> Ring"
  using that by (auto simp: apply_ring_def)

lemmas constructed_steps = constructed_apply_pin constructed_apply_qcfg constructed_apply_power
  constructed_apply_hang_up constructed_keep_call_list constructed_apply_call constructed_apply_ring

lemma check_ready_kept:
  assumes "\<not> (rdy s \<and> echo_disabled s \<and> \<not> constructed c Reboot \<and> reboot_needed (st_qcfg s))"
  shows "constructed (apply_config_ops s config c) Check_ready \<longleftrightarrow> constructed c Check_ready"
proof (cases "constructed c Reboot \<or> \<not> rdy s \<or> \<not> echo_disabled s")
  case True
  then show ?thesis by (auto simp: apply_config_ops_def Let_def)
next
  case False
  with assms have "\<not> reboot_needed (st_qcfg s)" by simp
  then show ?thesis
    by (intro apply_config_ops_keeps
        [where P = "\<lambda>d. constructed d Check_ready \<longleftrightarrow> constructed c Check_ready"])
      (simp_all add: constructed_steps)
qed

lemma handshake_control:
  assumes typed: "typed R (prepared s config c)" and sent: "apply_config s config c = (c', Some cmd)"
    and no_boot: "\<not> boot_now s c"
  shows "at_ok s \<or> cmd = ''AT''"
    and "at_ok s \<Longrightarrow> rdy s \<Longrightarrow> \<not> echo_disabled s \<Longrightarrow>
      \<not> constructed (complete_operation s c) Reboot \<Longrightarrow> cmd = ''ATE0''"
proof -
  let ?c1 = "conditional (\<not> at_ok s) Check_ready check_ready_command (complete_operation s c)"
  obtain x where x: "List.find (constructed (prepared s config c)) op_order = Some x"
    "command_of x cmd"
    by (rule sent_command [OF sent typed])
  have ready: "constructed (prepared s config c) Check_ready \<longleftrightarrow> \<not> at_ok s"
    unfolding prepared_def using no_boot
    by (subst check_ready_kept) (auto simp: boot_now_def)
  show "at_ok s \<or> cmd = ''AT''"
    using x ready by (auto simp: op_order_def)
  show "cmd = ''ATE0''" if "at_ok s" "rdy s" "\<not> echo_disabled s"
    "\<not> constructed (complete_operation s c) Reboot"
  proof -
    have "constructed (prepared s config c) Disable_echo"
      using that by (simp add: prepared_def apply_config_ops_def Let_def)
    with x ready that(1) show ?thesis by (auto simp: op_order_def)
  qed
qed

text \<open>
  C1: the handshake. In every reachable state of the driver, as long as the modem has not
  confirmed "AT" the only command sent is "AT", and as long as it has not confirmed "ATE0"
  (while it is ready and no reboot is under way) the only command sent is "ATE0". The one
  exception is the pass that schedules a reboot, which drops the pending readiness check.
\<close>

theorem handshake_order:
  assumes "drv_reach scan mll q d"
    and "receive mll (apply_line scan) (read_buffer d) (drv_status d) segs = (buf, s, segs')"
    and "drv_apply scan mll config segs d = (d', Some cmd, segs')"
    and "\<not> boot_now s (drv_control d)"
  shows "(at_ok s \<or> cmd = ''AT'') \<and>
    (at_ok s \<and> rdy s \<and> \<not> echo_disabled s
      \<and> \<not> constructed (complete_operation s (drv_control d)) Reboot \<longrightarrow> cmd = ''ATE0'')"
proof -
  have sent: "apply_config s config (drv_control d) = (drv_control d', Some cmd)"
    using assms(2,3) by (elim drv_apply_parts) simp
  have typed: "typed any_ring (prepared s config (drv_control d))"
    by (simp add: typed_prepared typed_reach [OF assms(1)])
  show ?thesis using handshake_control [OF typed sent assms(4)] by blast
qed

definition empty_config :: node where
  "empty_config = Node ''config'' [] [] []"

text \<open>The state after the modem confirmed "AT".\<close>

definition drive_all :: "nat \<Rightarrow> driver \<Rightarrow> (node \<times> string list) list \<Rightarrow> driver" where
  "drive_all mll d inputs =
     fold (\<lambda>(config, segs) d. fst (drv_apply token_scan mll config segs d)) inputs d"

lemma drive_all_reach:
  "drv_reach token_scan mll q d \<Longrightarrow> drv_reach token_scan mll q (drive_all mll d inputs)"
proof (induction inputs arbitrary: d)
  case (Cons i inputs)
  obtain config segs where i: "i = (config, segs)" by (cases i)
  obtain d' cmd segs' where "drv_apply token_scan mll config segs d = (d', cmd, segs')"
    by (cases "drv_apply token_scan mll config segs d")
  then show ?case
    using Cons i drv_reach.step [OF Cons.prems drv_step.drive] by (simp add: drive_all_def)
qed (simp add: drive_all_def)

definition crlf :: string where "crlf = [CHR 0x0D, CHR 0x0A]"

lemma handshake_order_witness:
  "let d = drive_all 16 (init_driver []) [(empty_config, [])];
       r = receive 16 (apply_line token_scan) (read_buffer d) (drv_status d) [''OK'' @ crlf]
   in (at_ok (fst (snd r)) \<or> ''ATE0'' = ''AT'') \<and>
     (at_ok (fst (snd r)) \<and> rdy (fst (snd r)) \<and> \<not> echo_disabled (fst (snd r))
      \<and> \<not> constructed (complete_operation (fst (snd r)) (drv_control d)) Reboot \<longrightarrow> ''ATE0'' = ''ATE0'')"
proof -
  let ?d = "drive_all 16 (init_driver []) [(empty_config, [])]"
  let ?r = "receive 16 (apply_line token_scan) (read_buffer ?d) (drv_status ?d) [''OK'' @ crlf]"
  have r: "?r = (fst ?r, fst (snd ?r), [])" by code_simp
  have d: "drv_apply token_scan 16 empty_config [''OK'' @ crlf] ?d =
      (fst (drv_apply token_scan 16 empty_config [''OK'' @ crlf] ?d), Some ''ATE0'', [])"
    by code_simp
  have b: "\<not> boot_now (fst (snd ?r)) (drv_control ?d)" by code_simp
  show ?thesis
    using handshake_order [OF drive_all_reach [OF drv_reach.init] r d b] by simp
qed

end
