(* ===== verification/At_Pin.thy ===== *)
theory At_Pin
  imports At_Order
begin

text \<open>
  The number of PIN entries. A SIM locks after a few wrong PINs, so the driver must not
  enter the configured PIN again and again: it remembers the last PIN entered
  (\<open>current_pin\<close>) and forgets it only when it schedules a reboot of the modem.
\<close>

section \<open>Commands that enter a PIN\<close>

definition enters_pin :: "string \<Rightarrow> bool" where
  "enters_pin cmd \<longleftrightarrow> has_prefix ''AT+CPIN='' cmd"

text \<open>A configured ring command that does not enter a PIN.\<close>

abbreviation "no_pin_ring \<equiv> (\<lambda>cmd. \<not> enters_pin cmd)"

lemma enters_pin_slot:
  "command_of x cmd \<Longrightarrow> (x = Ring \<Longrightarrow> \<not> enters_pin cmd) \<Longrightarrow> enters_pin cmd \<Longrightarrow> x = Set_pin"
  by (cases x)
    (auto simp: enters_pin_def has_prefix_def command_of.simps query_qcfg_command_def
      assign_qcfg_command_def initiate_call_command_def genode_string_def at_command_defs)

section \<open>What a pass may add\<close>

text \<open>
  Entries the control state still allows for the PIN \<open>p\<close>: a pending entry, and one more if
  the PIN remembered is another one.
\<close>

definition pin_credit :: "string \<Rightarrow> control \<Rightarrow> nat" where
  "pin_credit p c = (if op_pending c Set_pin then 1 else 0) + (if current_pin c = p then 0 else 1)"

lemma pin_credit_frame [simp]:
  "pin_credit p (c\<lparr>outbound_info := i\<rparr>) = pin_credit p c"
  "pin_credit p (c\<lparr>current_ring_count := n\<rparr>) = pin_credit p c"
  "x \<noteq> Set_pin \<Longrightarrow> pin_credit p (construct x cmd c) = pin_credit p c"
  "x \<noteq> Set_pin \<Longrightarrow> pin_credit p (destruct x c) = pin_credit p c"
  "x \<noteq> Set_pin \<Longrightarrow> pin_credit p (conditional b x cmd c) = pin_credit p c"
  by (simp_all add: pin_credit_def conditional_def)

lemma pin_credit_destruct [simp]: "pin_credit p (destruct x c) \<le> pin_credit p c"
  by (simp add: pin_credit_def)

lemma pin_credit_complete: "pin_credit p (complete_operation s c) \<le> pin_credit p c"
  by (simp add: complete_operation_def split: option.split)

lemma pin_credit_apply_pin: "pin_credit p (apply_pin s p c) \<le> pin_credit p c"
  by (auto simp: apply_pin_def pin_credit_def Let_def split: option.split)

lemma pin_credit_apply_qcfg:
  "pin_credit p (apply_qcfg s c) \<le>
     pin_credit p c + (if \<not> constructed c Reboot \<and> reboot_needed (st_qcfg s) then 1 else 0)"
proof (cases "constructed c Reboot \<or> \<not> reboot_needed (st_qcfg s)")
  case True
  then have "pin_credit p (apply_qcfg s c) = pin_credit p c"
    by (auto simp: apply_qcfg_def Let_def split: option.split)
  then show ?thesis by simp
next
  case False
  then have "\<not> op_pending (apply_qcfg s c) Set_pin"
    by (auto simp: apply_qcfg_def Let_def op_pending_def split: option.split)
  with False show ?thesis by (simp add: pin_credit_def)
qed

lemma pin_credit_apply_power [simp]: "pin_credit p (apply_power s q c) = pin_credit p c"
  by (simp add: apply_power_def Let_def)

lemma pin_credit_apply_hang_up [simp]: "pin_credit p (apply_hang_up s config c) = pin_credit p c"
  by (simp add: apply_hang_up_def Let_def split: option.split)

lemma pin_credit_keep_call_list [simp]:
  "pin_credit p (keep_call_list_up_to_date s c) = pin_credit p c"
  by (simp add: keep_call_list_up_to_date_def)

lemma pin_credit_apply_call [simp]: "pin_credit p (apply_call s call c) = pin_credit p c"
  by (simp add: apply_call_def Let_def split: option.split)

lemma pin_credit_apply_ring [simp]: "pin_credit p (apply_ring s ring c) = pin_credit p c"
  by (simp add: apply_ring_def)

lemma pin_credit_ops:
  assumes "attribute_string 8 config ''pin'' [] = p"
  shows "pin_credit p (apply_config_ops s config c) \<le> pin_credit p c
    + (if rdy s \<and> echo_disabled s \<and> \<not> constructed c Reboot \<and> reboot_needed (st_qcfg s) then 1 else 0)"
proof (cases "constructed c Reboot \<or> \<not> rdy s \<or> \<not> echo_disabled s")
  case True
  then show ?thesis by (auto simp: apply_config_ops_def Let_def)
next
  case False
  let ?c1 = "conditional (\<not> echo_disabled s \<and> at_ok s) Disable_echo disable_echo_command c"
  have "pin_credit p (apply_config_ops s config c) = pin_credit p (apply_pin s p (apply_qcfg s ?c1))"
    using False assms by (simp add: apply_config_ops_def Let_def split: option.split)
  also have "\<dots> \<le> pin_credit p (apply_qcfg s ?c1)" by (rule pin_credit_apply_pin)
  also have "\<dots> \<le> pin_credit p ?c1
      + (if \<not> constructed ?c1 Reboot \<and> reboot_needed (st_qcfg s) then 1 else 0)"
    by (rule pin_credit_apply_qcfg)
  finally show ?thesis using False by simp
qed

lemma pin_credit_prepared:
  assumes "attribute_string 8 config ''pin'' [] = p"
  shows "pin_credit p (prepared s config c) \<le> pin_credit p c + (if boot_now s c then 1 else 0)"
proof -
  let ?c1 = "conditional (\<not> at_ok s) Check_ready check_ready_command (complete_operation s c)"
  have "pin_credit p (prepared s config c) \<le> pin_credit p ?c1 + (if boot_now s c then 1 else 0)"
    using pin_credit_ops [OF assms, of s ?c1] by (simp add: prepared_def boot_now_def)
  moreover have "pin_credit p ?c1 \<le> pin_credit p c" by (simp add: pin_credit_complete)
  ultimately show ?thesis by linarith
qed

lemma pin_credit_apply_config:
  assumes config: "attribute_string 8 config ''pin'' [] = p"
    and typed: "typed no_pin_ring (prepared s config c)"
    and step: "apply_config s config c = (c', cmd)"
  shows "pin_credit p c' + (if \<exists>a. cmd = Some a \<and> enters_pin a then 1 else 0)
    \<le> pin_credit p c + (if boot_now s c then 1 else 0)"
proof (cases cmd)
  case None
  then show ?thesis
    using apply_config_None step pin_credit_prepared [OF config] by fastforce
next
  case (Some a)
  let ?p = "prepared s config c"
  have sent: "submit_one_pending_operation ?p = (c', Some a)"
    by (rule apply_config_Some(2)) (use step Some in simp)
  obtain x where x: "op_pending ?p x" "map_option op_command (slots ?p x) = Some a"
    and sub: "submitted c' x" and other: "\<And>y. y \<noteq> x \<Longrightarrow> slots c' y = slots ?p y"
    and pin: "current_pin c' = current_pin ?p"
    using sent by (rule submit_one_Some) blast
  have pin_slot: "enters_pin a \<Longrightarrow> x = Set_pin"
    using x(2) typed by (intro enters_pin_slot) (auto simp: typed_def)
  have "\<not> op_pending c' x" using sub by (auto simp: submitted_def op_pending_def split: option.splits)
  moreover have "y \<noteq> x \<Longrightarrow> op_pending c' y = op_pending ?p y" for y
    using other [of y] by (simp add: op_pending_def)
  ultimately have "pin_credit p c' + (if enters_pin a then 1 else 0) \<le> pin_credit p ?p"
    using pin pin_slot x(1) by (cases "x = Set_pin") (auto simp: pin_credit_def)
  then show ?thesis using Some pin_credit_prepared [OF config, of s c] by simp
qed

lemma pin_credit_cancel: "pin_credit p (cancel_command c) \<le> pin_credit p c"
proof -
  have "pin_credit p (fold (\<lambda>x c. if submitted c x then destruct x c else c) xs c) \<le> pin_credit p c" for xs
  proof (induction xs arbitrary: c)
    case (Cons x xs)
    then have "pin_credit p (fold (\<lambda>x c. if submitted c x then destruct x c else c) xs
        (if submitted c x then destruct x c else c)) \<le> pin_credit p (if submitted c x then destruct x c else c)"
      by blast
    also have "\<dots> \<le> pin_credit p c" by simp
    finally show ?case by simp
  qed simp
  then show ?thesis by (simp add: cancel_command_def)
qed

section \<open>Runs with one configured PIN\<close>

text \<open>
  \<open>pin_run p d entered boots\<close>: the driver reached \<open>d\<close> under configurations with the PIN
  \<open>p\<close>, entered a PIN \<open>entered\<close> times and scheduled \<open>boots\<close> reboots. What the modem answers
  is arbitrary.
\<close>

inductive pin_run :: "(string \<Rightarrow> token list) \<Rightarrow> nat \<Rightarrow> qcfg \<Rightarrow> string \<Rightarrow> driver \<Rightarrow> nat \<Rightarrow> nat \<Rightarrow> bool"
  for scan mll q p where
  start: "pin_run scan mll q p (init_driver q) 0 0"
| pass: "pin_run scan mll q p d entered boots \<Longrightarrow>
    attribute_string 8 config ''pin'' [] = p \<Longrightarrow> ring_ok no_pin_ring config \<Longrightarrow>
    drv_apply scan mll config segs d = (d', cmd, segs') \<Longrightarrow>
    receive mll (apply_line scan) (read_buffer d) (drv_status d) segs = (buf, s, segs') \<Longrightarrow>
    pin_run scan mll q p d'
      (entered + (if \<exists>a. cmd = Some a \<and> enters_pin a then 1 else 0))
      (boots + (if boot_now s (drv_control d) then 1 else 0))"
| invalidate: "pin_run scan mll q p d entered boots \<Longrightarrow>
    pin_run scan mll q p (invalidate_call_list d) entered boots"
| cancel: "pin_run scan mll q p d entered boots \<Longrightarrow>
    pin_run scan mll q p (drv_cancel_command d) entered boots"

lemma pin_run_credit:
  "pin_run scan mll q p d entered boots \<Longrightarrow>
    typed no_pin_ring (drv_control d) \<and> entered + pin_credit p (drv_control d) \<le> boots + 1"
proof (induction rule: pin_run.induct)
  case start
  show ?case
    by (simp add: init_driver_def init_control_def typed_def pin_credit_def op_pending_def)
next
  case (pass d entered boots config segs d' cmd segs' buf s)
  then have step: "apply_config s config (drv_control d) = (drv_control d', cmd)"
    by (elim drv_apply_parts) simp
  have "typed no_pin_ring (prepared s config (drv_control d))"
    using pass typed_prepared by blast
  moreover have "typed no_pin_ring (drv_control d')"
    using pass step typed_apply_config by blast
  ultimately show ?case
    using pin_credit_apply_config [OF pass(2) _ step] pass by fastforce
next
  case (invalidate d entered boots)
  then show ?case by (simp add: invalidate_call_list_def)
next
  case (cancel d entered boots)
  then show ?case
    using pin_credit_cancel [of p "drv_control d"] by (auto simp: drv_cancel_control typed_cancel)
qed

text \<open>
  C3: the driver enters the configured PIN at most once, plus once per reboot of the modem
  that it schedules, whatever the modem answers and however commands are cancelled.
\<close>

theorem pin_entries_bounded:
  assumes "pin_run scan mll q p d entered boots"
  shows "entered \<le> boots + 1"
  using pin_run_credit [OF assms] by simp

text \<open>A run under one configuration, one list of received segments per pass.\<close>

fun pin_exec :: "node \<Rightarrow> string list \<Rightarrow> driver \<times> nat \<times> nat \<Rightarrow> driver \<times> nat \<times> nat" where
  "pin_exec config segs (d, entered, boots) =
     (let (d', cmd, segs') = drv_apply token_scan 64 config segs d;
          (buf, s, segs'') = receive 64 (apply_line token_scan) (read_buffer d) (drv_status d) segs
      in (d', entered + (case cmd of None \<Rightarrow> 0 | Some a \<Rightarrow> if enters_pin a then 1 else 0),
          boots + (if boot_now s (drv_control d) then 1 else 0)))"

lemma pin_exec_run:
  assumes "attribute_string 8 config ''pin'' [] = p" and "ring_ok no_pin_ring config"
    and "pin_run token_scan 64 q p d e b" and "fold (pin_exec config) inputs (d, e, b) = (d', e', b')"
  shows "pin_run token_scan 64 q p d' e' b'"
  using assms(3,4)
proof (induction inputs arbitrary: d e b)
  case (Cons segs inputs)
  obtain d1 cmd segs' where app: "drv_apply token_scan 64 config segs d = (d1, cmd, segs')"
    by (cases "drv_apply token_scan 64 config segs d")
  then obtain buf s where
    rec: "receive 64 (apply_line token_scan) (read_buffer d) (drv_status d) segs = (buf, s, segs')"
    by (rule drv_apply_parts)
  have "pin_run token_scan 64 q p d1
      (e + (if \<exists>a. cmd = Some a \<and> enters_pin a then 1 else 0))
      (b + (if boot_now s (drv_control d) then 1 else 0))"
    by (rule pin_run.pass [OF Cons.prems(1) assms(1,2) app rec])
  then show ?case using Cons app rec by (cases cmd) auto
qed simp

definition pin_config :: node where
  "pin_config = Node ''config'' [(''pin'', ''1234'')] [] []"

text \<open>
  The modem asks for a PIN and rejects it; the driver then only asks for the number of
  remaining attempts.
\<close>

lemma pin_entries_bounded_witness:
  "\<exists>d. pin_run token_scan 64 [] ''1234'' d 1 0 \<and> (1::nat) \<le> 0 + 1"
proof -
  let ?inputs = "[[], [''OK'' @ crlf], [''OK'' @ crlf],
    [''+CPIN: SIM PIN'' @ crlf, ''OK'' @ crlf], [''+CME ERROR: 16'' @ crlf], [], []]"
  let ?r = "fold (pin_exec pin_config) ?inputs (init_driver [], 0, 0)"
  have r: "?r = (fst ?r, 1, 0)" by code_simp
  have p: "attribute_string 8 pin_config ''pin'' [] = ''1234''" by code_simp
  have "pin_run token_scan 64 [] ''1234'' (fst ?r) 1 0"
    by (rule pin_exec_run [OF p _ pin_run.start r]) (simp add: pin_config_def ring_ok_def sub_node_def)
  with pin_entries_bounded [OF this] show ?thesis by blast
qed

end
