(* ===== verification/At_Outstanding.thy ===== *)
theory At_Outstanding
  imports At_Order
begin

text \<open>
  One outstanding command at a time: the AT protocol has no tags, so a response is taken
  for the command sent last. A further command goes out only when the operation of the
  outstanding one was dropped, for the reasons stated here, and the driver never gives up
  waiting for a command that failed and whose failure no operation handles.
\<close>

section \<open>While a command stays pending\<close>

lemma pending_line:
  assumes "pending_command (apply_line scan l s) = Some c"
  shows "pending_command s = Some c" and "ok (apply_line scan l s) = ok s"
    and "st_error (apply_line scan l s) = st_error s"
    and "cme_error s = None \<Longrightarrow> cme_error (apply_line scan l s) = None"
    and "at_ok (apply_line scan l s) = at_ok s"
    and "echo_disabled (apply_line scan l s) = echo_disabled s"
proof -
  have l: "l \<noteq> ''OK''" "l \<noteq> ''ERROR''" "\<not> has_prefix ''+CME ERROR:'' l"
    and p: "pending_command s = Some c"
    using assms by (simp_all add: frame_simps split: if_splits)
  show "pending_command s = Some c" by (rule p)
  show "ok (apply_line scan l s) = ok s" "st_error (apply_line scan l s) = st_error s"
    "at_ok (apply_line scan l s) = at_ok s" "echo_disabled (apply_line scan l s) = echo_disabled s"
    using l by (simp_all add: frame_simps confirmed_def)
  have "\<not> has_prefix ''+CME ERROR: '' l" using l(3) has_prefix_shorter [of "''+CME ERROR:''" "'' ''" l] by auto
  then show "cme_error s = None \<Longrightarrow> cme_error (apply_line scan l s) = None"
    by (simp add: frame_simps confirmed_def apply_attributes_def line_helper_defs line_value_def
        line_starts_with_iff split: option.split)
qed

text \<open>Nothing is confirmed or failed while the command \<open>c\<close> is pending.\<close>

definition quiet :: "string \<Rightarrow> status \<Rightarrow> bool" where
  "quiet c s \<longleftrightarrow> pending_command s = Some c \<and> \<not> ok s \<and> \<not> st_error s \<and> cme_error s = None"

lemma quiet_lines:
  assumes "pending_command (fold (apply_line scan) ls s) = Some c"
  shows "pending_command s = Some c" and "at_ok (fold (apply_line scan) ls s) = at_ok s"
    and "echo_disabled (fold (apply_line scan) ls s) = echo_disabled s"
    and "quiet c s \<Longrightarrow> quiet c (fold (apply_line scan) ls s)"
proof -
  have "pending_command s = Some c \<and> at_ok (fold (apply_line scan) ls s) = at_ok s
    \<and> echo_disabled (fold (apply_line scan) ls s) = echo_disabled s
    \<and> (quiet c s \<longrightarrow> quiet c (fold (apply_line scan) ls s))"
    using assms
  proof (induction ls arbitrary: s)
    case (Cons l ls)
    then have "pending_command (apply_line scan l s) = Some c" by simp
    note one = pending_line [OF this]
    have "quiet c s \<Longrightarrow> quiet c (apply_line scan l s)"
      using one \<open>pending_command (apply_line scan l s) = Some c\<close> by (simp add: quiet_def)
    then show ?case using Cons.IH [of "apply_line scan l s"] Cons.prems one by simp
  qed simp
  then show "pending_command s = Some c" "at_ok (fold (apply_line scan) ls s) = at_ok s"
    "echo_disabled (fold (apply_line scan) ls s) = echo_disabled s"
    "quiet c s \<Longrightarrow> quiet c (fold (apply_line scan) ls s)" by simp_all
qed

section \<open>The slot of the pending command\<close>

definition in_flight :: "string \<Rightarrow> slot \<Rightarrow> control \<Rightarrow> bool" where
  "in_flight c x ctl \<longleftrightarrow> slots ctl x = Some \<lparr>op_state = SUBMITTED, op_command = c\<rparr>"

text \<open>
  The pending command \<open>c\<close> belongs to a submitted slot, or it is the request of the call
  list, whose slot is gone and no other slot is submitted. A step of the handshake is due
  while it is in flight.
\<close>

definition due :: "slot \<Rightarrow> status \<Rightarrow> bool" where
  "due x s \<longleftrightarrow> (x = Check_ready \<longrightarrow> \<not> at_ok s) \<and> (x = Disable_echo \<longrightarrow> at_ok s \<and> \<not> echo_disabled s)"

definition tracks :: "driver \<Rightarrow> bool" where
  "tracks d \<longleftrightarrow> (\<forall>c. pending_command (drv_status d) = Some c \<longrightarrow> quiet c (drv_status d) \<and>
     (c = ''AT+CLCC'' \<and> (\<forall>x. \<not> submitted (drv_control d) x)
      \<or> (\<exists>x. in_flight c x (drv_control d) \<and> due x (drv_status d))))"

text \<open>
  The reasons for which a pass drops the operation \<open>x\<close> in flight: the modem is to be rebooted
  for its settings, the configured PIN is new and the card asks for one, the phone rang again, or
  the list of calls is taken for complete before the "OK" that ends it.
\<close>

definition drops :: "slot \<Rightarrow> status \<Rightarrow> node \<Rightarrow> control \<Rightarrow> bool" where
  "drops x s config ctl \<longleftrightarrow> boot_now s ctl
     \<or> x = Set_pin \<and> cpin s = Some ''SIM PIN''
       \<and> attribute_string 8 config ''pin'' [] \<notin> {[], current_pin ctl}
     \<or> x = Ring \<and> has_sub_node ''ring'' config \<and> current_ring_count ctl \<noteq> ring_count s
     \<or> x = Request_call_list \<and> clcc_up_to_date s"

lemma in_flight_conditional:
  "in_flight c x ctl \<Longrightarrow> x = y \<longrightarrow> b \<Longrightarrow> in_flight c x (conditional b y cmd ctl)"
  by (auto simp: in_flight_def conditional_slots constructed_def)

lemma in_flight_frame [simp]:
  "in_flight c x (ctl\<lparr>outbound_info := i\<rparr>) = in_flight c x ctl"
  "in_flight c x (ctl\<lparr>current_ring_count := n\<rparr>) = in_flight c x ctl"
  "in_flight c x (ctl\<lparr>current_pin := p\<rparr>) = in_flight c x ctl"
  "x \<noteq> y \<Longrightarrow> in_flight c x (construct y cmd ctl) = in_flight c x ctl"
  "x \<noteq> y \<Longrightarrow> in_flight c x (destruct y ctl) = in_flight c x ctl"
  by (simp_all add: in_flight_def)

lemma in_flight_constructed: "in_flight c x ctl \<Longrightarrow> constructed ctl x"
  by (simp add: in_flight_def constructed_def)

lemma in_flight_submitted: "in_flight c x ctl \<Longrightarrow> submitted ctl x"
  by (simp add: in_flight_def submitted_def)

lemma in_flight_construct:
  "in_flight c x ctl \<Longrightarrow> \<not> constructed ctl y \<Longrightarrow> in_flight c x (construct y cmd ctl)"
  by (cases "x = y") (auto dest: in_flight_constructed)

lemma in_flight_apply_pin:
  assumes "in_flight c x ctl" and "cme_error s = None"
    and "x = Set_pin \<Longrightarrow> cpin s = Some ''SIM PIN'' \<Longrightarrow> pin \<in> {[], current_pin ctl}"
  shows "in_flight c x (apply_pin s pin ctl)"
  using assms in_flight_constructed [OF assms(1)]
  by (cases "x = Set_pin"; cases "x = Request_pin_state")
    (auto simp: apply_pin_def str_length_def Let_def split: option.split)

lemma in_flight_apply_qcfg:
  assumes "in_flight c x ctl" and "\<not> st_error s"
    and "\<not> reboot_needed (st_qcfg s) \<or> constructed ctl Reboot"
  shows "in_flight c x (apply_qcfg s ctl)"
  using assms in_flight_constructed [OF assms(1)]
  by (cases "x = Query_qcfg"; cases "x = Assign_qcfg")
    (auto simp: apply_qcfg_def Let_def split: option.split)

lemma in_flight_apply_power:
  "in_flight c x ctl \<Longrightarrow> \<not> st_error s \<Longrightarrow> in_flight c x (apply_power s p ctl)"
  by (simp add: apply_power_def Let_def in_flight_construct)

lemma in_flight_apply_hang_up:
  assumes "in_flight c x ctl"
  shows "in_flight c x (apply_hang_up s config ctl)"
proof (cases "x = Hang_up")
  case True
  then show ?thesis using assms in_flight_constructed by (fastforce simp: apply_hang_up_def)
next
  case False
  then show ?thesis
    using assms by (simp add: apply_hang_up_def Let_def split: option.split)
qed

lemma in_flight_keep_call_list:
  "in_flight c x ctl \<Longrightarrow> x = Request_call_list \<longrightarrow> \<not> clcc_up_to_date s
    \<Longrightarrow> in_flight c x (keep_call_list_up_to_date s ctl)"
  by (cases "x = Request_call_list") (auto simp: keep_call_list_up_to_date_def dest: in_flight_constructed)

lemma in_flight_apply_call:
  assumes "in_flight c x ctl"
  shows "in_flight c x (apply_call s call ctl)"
  using assms in_flight_constructed [OF assms]
  by (cases "x = Accept_call"; cases "x = Initiate_call")
    (auto simp: apply_call_def Let_def split: option.split)

lemma in_flight_apply_ring:
  "in_flight c x ctl \<Longrightarrow> x = Ring \<longrightarrow> current_ring_count ctl = ring_count s
    \<Longrightarrow> in_flight c x (apply_ring s ring ctl)"
  by (auto simp: apply_ring_def)

lemma pin_steps:
  "pin \<in> {[], current_pin d} \<Longrightarrow> current_pin (apply_pin s pin d) = current_pin d"
  "cpin s \<noteq> Some ''SIM PIN'' \<Longrightarrow> current_pin (apply_pin s pin d) = current_pin d"
  "\<not> reboot_needed (st_qcfg s) \<Longrightarrow> current_pin (apply_qcfg s d) = current_pin d"
  "current_pin (apply_power s p d) = current_pin d"
  "current_pin (apply_hang_up s config d) = current_pin d"
  "current_pin (keep_call_list_up_to_date s d) = current_pin d"
  "current_pin (apply_call s call d) = current_pin d"
  "current_pin (apply_ring s ring d) = current_pin d"
  by (auto simp: apply_pin_def apply_qcfg_def apply_power_def apply_hang_up_def str_length_def
      keep_call_list_up_to_date_def apply_call_def apply_ring_def Let_def split: option.split)

lemma ring_steps:
  "current_ring_count (apply_pin s p d) = current_ring_count d"
  "current_ring_count (apply_qcfg s d) = current_ring_count d"
  "current_ring_count (apply_power s p d) = current_ring_count d"
  "current_ring_count (apply_hang_up s config d) = current_ring_count d"
  "current_ring_count (keep_call_list_up_to_date s d) = current_ring_count d"
  "current_ring_count (apply_call s call d) = current_ring_count d"
  by (auto simp: apply_pin_def apply_qcfg_def apply_power_def apply_hang_up_def
      keep_call_list_up_to_date_def apply_call_def Let_def split: option.split)

lemma in_flight_command:
  assumes "in_flight c x ctl" and "typed R ctl"
  shows "command_of x c"
  using assms(2) [unfolded typed_def, rule_format, of x "\<lparr>op_state = SUBMITTED, op_command = c\<rparr>"]
    assms(1) by (simp add: in_flight_def)

text \<open>An operation in flight survives the preparation unless there is a reason to drop it.\<close>

lemma in_flight_prepared:
  assumes fl: "in_flight c x ctl" and q: "quiet c s"
    and ready: "due x s"
    and keep: "\<not> drops x s config ctl"
  shows "in_flight c x (prepared s config ctl)"
proof -
  let ?c1 = "conditional (\<not> at_ok s) Check_ready check_ready_command (complete_operation s ctl)"
  have c: "complete_operation s ctl = ctl" using q by (simp add: quiet_def complete_operation_def)
  then have start: "in_flight c x ?c1" using fl ready by (auto simp: due_def intro: in_flight_conditional)
  have echo: "in_flight c x d \<Longrightarrow>
      in_flight c x (conditional (\<not> echo_disabled s \<and> at_ok s) Disable_echo disable_echo_command d)" for d
    using ready by (auto simp: due_def intro: in_flight_conditional)
  show ?thesis
  proof (cases "constructed ctl Reboot \<or> \<not> rdy s \<or> \<not> echo_disabled s")
    case True
    then show ?thesis using start echo by (auto simp: prepared_def apply_config_ops_def Let_def c)
  next
    case False
    then have boot: "\<not> reboot_needed (st_qcfg s)" using keep c by (simp add: drops_def boot_now_def)
    have "in_flight c x (prepared s config ctl) \<and> (x = Set_pin \<longrightarrow> current_pin (prepared s config ctl) = current_pin ctl)
        \<and> (x = Ring \<longrightarrow> current_ring_count (prepared s config ctl) = current_ring_count ctl)"
      unfolding prepared_def
    proof (rule apply_config_ops_keeps [where P = "\<lambda>d. in_flight c x d
          \<and> (x = Set_pin \<longrightarrow> current_pin d = current_pin ctl)
          \<and> (x = Ring \<longrightarrow> current_ring_count d = current_ring_count ctl)"], goal_cases)
      case 1
      then show ?case using start c by simp
    next
      case (2 d)
      then show ?case using echo [of d] by (simp del: op_command_texts)
    next
      case (3 d)
      then show ?case using q boot by (simp add: in_flight_apply_qcfg quiet_def pin_steps ring_steps)
    next
      case (4 d)
      then show ?case
        using q keep by (auto simp: quiet_def drops_def pin_steps ring_steps intro!: in_flight_apply_pin)
    next
      case (5 d)
      then show ?case using q by (simp add: in_flight_apply_power quiet_def pin_steps ring_steps)
    next
      case (6 d)
      then show ?case by (simp add: in_flight_apply_hang_up pin_steps ring_steps)
    next
      case (7 d)
      then show ?case
        using keep by (auto simp: drops_def pin_steps ring_steps intro: in_flight_keep_call_list)
    next
      case (8 d call)
      then show ?case by (simp add: in_flight_apply_call pin_steps ring_steps)
    next
      case (9 d ring)
      then have "x = Ring \<longrightarrow> current_ring_count d = ring_count s"
        using keep by (auto simp: drops_def has_sub_node_def)
      with 9 show ?case by (auto simp: apply_ring_def)
    qed
    then show ?thesis by simp
  qed
qed

text \<open>A slot that is submitted after the preparation was so before, with the same command.\<close>

definition submits_nothing :: "control \<Rightarrow> control \<Rightarrow> bool" where
  "submits_nothing c d \<longleftrightarrow> (\<forall>a x. in_flight a x d \<longrightarrow> in_flight a x c)"

lemma submits_nothing_prepared: "submits_nothing c (prepared s config c)"
  unfolding prepared_def
proof (rule apply_config_ops_keeps [where P = "submits_nothing c"])
qed (auto simp: submits_nothing_def in_flight_def conditional_def complete_operation_def
  apply_qcfg_def apply_pin_def apply_power_def apply_hang_up_def keep_call_list_up_to_date_def
  apply_call_def apply_ring_def Let_def split: option.splits if_splits)

text \<open>An operation that is dropped leaves another one behind, except for the call list.\<close>

lemma slot_or_reboot:
  assumes "constructed ctl x" and "quiet c s" and "x \<noteq> Request_call_list" and "due x s"
  shows "constructed (prepared s config ctl) x \<or> constructed (prepared s config ctl) Reboot"
  unfolding prepared_def
proof (rule apply_config_ops_keeps [where P = "\<lambda>d. constructed d x \<or> constructed d Reboot"], goal_cases)
  case 1
  then show ?case using assms by (auto simp: quiet_def due_def complete_operation_def)
qed (use assms in \<open>auto simp: quiet_def due_def apply_qcfg_def apply_pin_def apply_power_def
  apply_hang_up_def keep_call_list_up_to_date_def apply_call_def apply_ring_def Let_def
  split: option.splits\<close>)

section \<open>The invariant\<close>

lemma check_ready_not_constructed:
  assumes "at_ok s"
  shows "\<not> constructed (prepared s config c) Check_ready"
  unfolding prepared_def
  by (rule apply_config_ops_keeps [where P = "\<lambda>d. \<not> constructed d Check_ready"])
    (use assms in \<open>auto simp: constructed_steps apply_qcfg_def Let_def split: option.split\<close>)

text \<open>A pass that sends nothing does not lose the slot in flight.\<close>

lemma in_flight_idle_pass:
  assumes fl: "in_flight c x ctl" and one: "at_most_one_submitted ctl" and typed: "typed R ctl"
    and ring: "ring_ok R config" and "quiet c s" and "due x s" and "x \<noteq> Request_call_list"
    and step: "apply_config s config ctl = (ctl', None)"
  shows "in_flight c x ctl'"
proof -
  let ?p = "prepared s config ctl"
  have p: "ctl' = ?p" by (rule apply_config_None [OF step])
  have "\<exists>y. constructed ?p y"
    using slot_or_reboot [OF in_flight_constructed [OF fl]] assms(5-7) by blast
  moreover have "typed R ?p" by (rule typed_prepared [OF typed ring])
  ultimately have "\<exists>y. submitted ?p y"
    using step pending_iff_constructed
    by (auto simp: apply_config_prepared any_in_flight_iff submit_one_None split: if_splits)
  then obtain y a where y: "in_flight a y ?p"
    by (auto simp: submitted_def in_flight_def split: option.splits) (metis operation.surjective old.unit.exhaust)
  then have ctl: "in_flight a y ctl"
    using submits_nothing_prepared by (auto simp: submits_nothing_def)
  then have "y = x" using fl one by (auto simp: at_most_one_submitted_def dest: in_flight_submitted)
  with y ctl fl p show ?thesis by (simp add: in_flight_def)
qed

text \<open>
  The slot that disables the echo: it is there only while the echo is on, or the next pass
  looks at it.
\<close>

definition echo_slot :: "status \<Rightarrow> control \<Rightarrow> bool" where
  "echo_slot s ctl \<longleftrightarrow> (constructed ctl Disable_echo \<longrightarrow>
     (rdy s \<and> \<not> constructed ctl Reboot)
     \<or> (\<not> echo_disabled s \<and> (pending_command s = Some ''ATE0'' \<longrightarrow> submitted ctl Disable_echo))
     \<or> (submitted ctl Disable_echo \<and> ok s))"

lemma echo_slot_line: "echo_slot s ctl \<Longrightarrow> echo_slot (apply_line scan l s) ctl"
  by (auto simp: echo_slot_def frame_simps confirmed_def at_command_defs)

lemma echo_slot_lines: "echo_slot s ctl \<Longrightarrow> echo_slot (fold (apply_line scan) ls s) ctl"
  by (rule fold_lines_keeps) (auto intro: echo_slot_line)

lemma complete_removes:
  assumes "at_most_one_submitted ctl" and "ok s" and "submitted ctl x"
  shows "\<not> constructed (complete_operation s ctl) x"
proof -
  have "List.find (submitted ctl) op_order \<noteq> None" using assms(3) by (auto simp: find_None_iff)
  then obtain y where y: "List.find (submitted ctl) op_order = Some y" by blast
  then have "submitted ctl y" using find_SomeD [OF y] by blast
  then have "y = x" using assms(1,3) unfolding at_most_one_submitted_def by blast
  then show ?thesis using y assms(2) by (simp add: complete_operation_def)
qed

lemma complete_slots: "constructed (complete_operation s ctl) x \<Longrightarrow> slots (complete_operation s ctl) x = slots ctl x"
  by (auto simp: complete_operation_def split: option.splits)

lemma no_echo_slot:
  assumes "echo_disabled s" and "\<not> constructed c Reboot" and "rdy s"
  shows "\<not> constructed (apply_config_ops s config c) Disable_echo"
proof -
  have "\<not> constructed (apply_config_ops s config
      (conditional (\<not> echo_disabled s \<and> at_ok s) Disable_echo disable_echo_command c)) Disable_echo"
    by (rule apply_config_ops_keeps [where P = "\<lambda>d. \<not> constructed d Disable_echo"])
      (use assms(1) in \<open>auto simp: constructed_steps apply_qcfg_def Let_def split: option.split\<close>)
  moreover have twice: "destruct Disable_echo (destruct Disable_echo c) = destruct Disable_echo c"
    by (simp add: destruct_def)
  moreover have "apply_config_ops s config
      (conditional (\<not> echo_disabled s \<and> at_ok s) Disable_echo disable_echo_command c) = apply_config_ops s config c"
    using assms by (simp add: apply_config_ops_def Let_def conditional_def twice)
  ultimately show ?thesis by simp
qed

lemma echo_slot_prepared:
  assumes "echo_slot s ctl" and one: "at_most_one_submitted ctl"
    and there: "constructed (prepared s config ctl) Disable_echo"
  shows "\<not> echo_disabled s" and "at_ok s \<or> constructed (prepared s config ctl) Check_ready"
    and "(rdy s \<and> \<not> constructed (prepared s config ctl) Reboot)
      \<or> (pending_command s = Some ''ATE0'' \<longrightarrow> submitted (prepared s config ctl) Disable_echo)"
proof -
  let ?c = "complete_operation s ctl"
  let ?c1 = "conditional (\<not> at_ok s) Check_ready check_ready_command ?c"
  have "\<not> echo_disabled s \<and> (at_ok s \<or> constructed (prepared s config ctl) Check_ready)
    \<and> ((rdy s \<and> \<not> constructed (prepared s config ctl) Reboot)
      \<or> (pending_command s = Some ''ATE0'' \<longrightarrow> submitted (prepared s config ctl) Disable_echo))"
  proof (cases "constructed ?c Reboot \<or> \<not> rdy s")
    case True
    then have p: "prepared s config ctl = ?c1" by (auto simp: prepared_def apply_config_ops_def Let_def)
    then have c: "constructed ?c Disable_echo" using there by simp
    then have "constructed ctl Disable_echo" "submitted ?c Disable_echo = submitted ctl Disable_echo"
      using complete_slots [OF c] by (simp_all add: constructed_def submitted_def)
    moreover have "\<not> (rdy s \<and> \<not> constructed ctl Reboot)"
      using True complete_slots [of s ctl Reboot] unfolding constructed_def by metis
    moreover have "\<not> (submitted ctl Disable_echo \<and> ok s)"
      using complete_removes [OF one, of s Disable_echo] c by blast
    ultimately show ?thesis
      using assms(1) p by (auto simp: echo_slot_def submitted_def conditional_slots)
  next
    case False
    have echo: "\<not> echo_disabled s"
    proof
      assume "echo_disabled s"
      then have "\<not> constructed (apply_config_ops s config ?c1) Disable_echo"
        using False by (intro no_echo_slot) auto
      then show False using there by (simp add: prepared_def)
    qed
    then show ?thesis using False there by (auto simp: prepared_def apply_config_ops_def Let_def)
  qed
  then show "\<not> echo_disabled s" "at_ok s \<or> constructed (prepared s config ctl) Check_ready"
    "(rdy s \<and> \<not> constructed (prepared s config ctl) Reboot)
      \<or> (pending_command s = Some ''ATE0'' \<longrightarrow> submitted (prepared s config ctl) Disable_echo)"
    by blast+
qed

lemma echo_drive:
  assumes "echo_slot s ctl" and one: "at_most_one_submitted ctl" and typed: "typed R ctl"
    and ring: "ring_ok R config" and step: "apply_config s config ctl = (ctl', cmd)"
  shows "echo_slot (filter_command cmd s) ctl'"
proof (cases cmd)
  case None
  then have "ctl' = prepared s config ctl" using step by (auto intro: apply_config_None)
  then show ?thesis
    using echo_slot_prepared [OF assms(1) one] None by (auto simp: echo_slot_def filter_command_def)
next
  case (Some a)
  let ?p = "prepared s config ctl"
  have p: "typed R ?p" by (rule typed_prepared [OF typed ring])
  obtain x where x: "List.find (constructed ?p) op_order = Some x" "command_of x a"
    and fl: "slots ctl' x = Some \<lparr>op_state = SUBMITTED, op_command = a\<rparr>"
    by (rule sent_command [OF step [unfolded Some] p])
  have same: "constructed ctl' Disable_echo \<Longrightarrow> constructed ?p Disable_echo"
    using apply_config_Some(2) [OF step [unfolded Some]]
    by (auto simp: submit_one_pending_operation_def constructed_def split: option.splits if_splits)
  have "\<not> echo_disabled s" and "x = Check_ready \<or> x = Disable_echo" if "constructed ctl' Disable_echo"
    using echo_slot_prepared(1) [OF assms(1) one same [OF that]] x(1) same [OF that]
    by (auto simp: op_order_def split: if_splits)
  moreover have "submitted ctl' x" using fl by (simp add: submitted_def)
  ultimately show ?thesis
    using Some x(2) by (auto simp: echo_slot_def filter_command_def frame_simps)
qed

lemma echo_slot_reach: "drv_reach scan mll q d \<Longrightarrow> echo_slot (drv_status d) (drv_control d)"
proof (induction rule: drv_reach.induct)
  case init
  show ?case by (simp add: echo_slot_def init_driver_def init_control_def constructed_def)
next
  case (step d cmd d')
  from step(2) show ?case
  proof (cases rule: drv_step.cases)
    case (drive config segs segs')
    obtain buf s where rec:
      "receive mll (apply_line scan) (read_buffer d) (drv_status d) segs = (buf, s, segs')"
      and ctl: "apply_config s config (drv_control d) = (drv_control d', cmd)"
      and st: "drv_status d' = filter_command cmd s"
      using drive by (rule drv_apply_parts) blast
    obtain ls where "s = fold (apply_line scan) ls (drv_status d)" using rec by (rule receive_status)
    then have "echo_slot s (drv_control d)" using echo_slot_lines [OF step(3)] by simp
    then show ?thesis
      unfolding st by (rule echo_drive [OF _ at_most_one_reach [OF step(1)] typed_reach [OF step(1)] ring_ok_any ctl])
  next
    case invalidate
    then show ?thesis using step(3) by (simp add: echo_slot_def invalidate_call_list_def)
  next
    case cancel
    have same: "slots (cancel_command (drv_control d)) y \<in> {None, slots (drv_control d) y}" for y
      by (rule cancel_command_sub)
    show ?thesis
      using step(3) same [of Disable_echo] same [of Reboot]
        submitted_cancel_command [of "drv_control d" Disable_echo] unfolding cancel
      by (auto simp: echo_slot_def drv_cancel_command_def command_canceled_def reset_command_def
          status_changed_def constructed_def submitted_def Let_def split: option.splits)
  qed
qed

text \<open>A pass with an outstanding command: the command it sends, and the slots in flight after it.\<close>

lemma tracks_drive:
  assumes "tracks d" and one: "at_most_one_submitted (drv_control d)"
    and echo: "echo_slot (drv_status d) (drv_control d)"
    and typed: "typed R (drv_control d)" and ring: "ring_ok R config"
    and "drv_apply scan mll config segs d = (d', cmd, segs')"
    and "receive mll (apply_line scan) (read_buffer d) (drv_status d) segs = (buf, s, segs')"
  shows "pending_command s = Some c \<Longrightarrow> cmd = Some a \<Longrightarrow>
      (c = ''AT+CLCC'' \<and> (\<forall>x. \<not> submitted (drv_control d) x))
      \<or> (\<exists>x. in_flight c x (drv_control d) \<and> drops x s config (drv_control d))"
    and "tracks d'"
proof -
  have step: "apply_config s config (drv_control d) = (drv_control d', cmd)"
    and st: "drv_status d' = filter_command cmd s"
    using assms(6,7) by (auto elim!: drv_apply_parts)
  obtain ls where ls: "s = fold (apply_line scan) ls (drv_status d)"
    using assms(7) by (rule receive_status)
  have q: "quiet c s" and fl: "(c = ''AT+CLCC'' \<and> (\<forall>x. \<not> submitted (drv_control d) x))
      \<or> (\<exists>x. in_flight c x (drv_control d) \<and> due x s)"
    if "pending_command s = Some c" for c
    using quiet_lines [of scan ls "drv_status d" c] that ls assms(1) by (auto simp: tracks_def due_def)
  show "(c = ''AT+CLCC'' \<and> (\<forall>x. \<not> submitted (drv_control d) x))
      \<or> (\<exists>x. in_flight c x (drv_control d) \<and> drops x s config (drv_control d))"
    if pend: "pending_command s = Some c" and sent: "cmd = Some a"
  proof -
    have "drops x s config (drv_control d)" if "in_flight c x (drv_control d)" "due x s" for x
      using in_flight_prepared [OF that(1) q [OF pend] that(2)]
        apply_config_Some(1) [OF step [unfolded sent]] by (auto dest: in_flight_submitted)
    then show ?thesis using fl [OF pend] by blast
  qed
  show "tracks d'"
  proof (cases cmd)
    case None
    then have s: "drv_status d' = s" and p: "drv_control d' = prepared s config (drv_control d)"
      using st step by (auto simp: filter_command_def intro: apply_config_None)
    have "(c = ''AT+CLCC'' \<and> (\<forall>x. \<not> submitted (drv_control d') x))
      \<or> (\<exists>x. in_flight c x (drv_control d') \<and> due x s)" if pend: "pending_command s = Some c" for c
    proof (cases "\<exists>x. in_flight c x (drv_control d) \<and> due x s \<and> x \<noteq> Request_call_list")
      case True
      then show ?thesis
        using in_flight_idle_pass [OF _ one typed ring q [OF pend]] step None by blast
    next
      case False
      then consider "c = ''AT+CLCC''" "\<And>x. \<not> submitted (drv_control d) x"
        | "in_flight c Request_call_list (drv_control d)" using fl [OF pend] by blast
      then show ?thesis
      proof cases
        case 1
        then show ?thesis using settles_prepared [of "drv_control d" s config] p by (auto simp: settles_def)
      next
        case 2
        have c: "c = ''AT+CLCC''" using in_flight_command [OF 2 typed] by simp
        show ?thesis
        proof (cases "\<exists>y. submitted (drv_control d') y")
          case True
          then obtain y a where y: "in_flight a y (drv_control d')"
            by (auto simp: submitted_def in_flight_def split: option.splits) (metis operation.surjective old.unit.exhaust)
          then have ctl: "in_flight a y (drv_control d)"
            using submits_nothing_prepared p by (auto simp: submits_nothing_def)
          then have "y = Request_call_list"
            using 2 one by (auto simp: at_most_one_submitted_def dest: in_flight_submitted)
          with y ctl 2 show ?thesis by (auto simp: in_flight_def due_def)
        qed (use c in blast)
      qed
    qed
    then show ?thesis using q s by (simp add: tracks_def)
  next
    case (Some a)
    let ?p = "prepared s config (drv_control d)"
    have p: "typed R ?p" by (rule typed_prepared [OF typed ring])
    obtain x where x: "List.find (constructed ?p) op_order = Some x"
      and "slots (drv_control d') x = Some \<lparr>op_state = SUBMITTED, op_command = a\<rparr>"
      by (rule sent_command [OF step [unfolded Some] p])
    moreover have "due x s"
    proof -
      have there: "constructed ?p x" using find_SomeD [OF x] by simp
      have "\<not> constructed ?p Check_ready" if "x = Disable_echo"
        using x that by (auto simp: op_order_def split: if_splits)
      then show ?thesis
        using there check_ready_not_constructed ls echo_slot_lines [OF echo]
          echo_slot_prepared(1,2) [OF _ one, of s config] by (auto simp: due_def)
    qed
    ultimately show ?thesis
      using Some st by (auto simp: tracks_def quiet_def due_def filter_command_def frame_simps in_flight_def)
  qed
qed

lemma tracks_reach: "drv_reach scan mll q d \<Longrightarrow> tracks d"
proof (induction rule: drv_reach.induct)
  case init
  show ?case by (simp add: tracks_def init_driver_def init_status_def)
next
  case (step d cmd d')
  have one: "at_most_one_submitted (drv_control d)" by (rule at_most_one_reach [OF step(1)])
  have typed: "typed any_ring (drv_control d)" by (rule typed_reach [OF step(1)])
  from step(2) show ?case
  proof (cases rule: drv_step.cases)
    case (drive config segs segs')
    obtain buf s where
      "receive mll (apply_line scan) (read_buffer d) (drv_status d) segs = (buf, s, segs')"
      using drive by (rule drv_apply_parts)
    then show ?thesis using tracks_drive(2) [OF step(3) one echo_slot_reach [OF step(1)] typed ring_ok_any drive] by blast
  next
    case invalidate
    then show ?thesis using step(3) by (simp add: tracks_def invalidate_call_list_def quiet_def due_def)
  next
    case cancel
    have "pending_command (drv_status d') = None"
      unfolding cancel by (auto simp: drv_cancel_command_def command_canceled_def reset_command_def
          status_changed_def Let_def split: option.split)
    then show ?thesis by (simp add: tracks_def)
  qed
qed

text \<open>
  C11: one outstanding command at a time. When a reachable driver sends a command, it waits
  for the response to that command and only that command's operation is in flight. If the
  response to an earlier command \<open>c\<close> was still outstanding, then its operation \<open>x\<close> was in flight
  and is dropped by this pass, for one of the reasons: a reboot that has become due, a new PIN,
  a further ring, or the call list being complete; or \<open>c\<close> is the request of the call list and
  its operation was dropped by an earlier pass. (The two cases of the call list come from taking
  the list for complete before its "OK" arrives.)
\<close>

theorem one_outstanding_command:
  assumes "drv_reach scan mll q d"
    and "receive mll (apply_line scan) (read_buffer d) (drv_status d) segs = (buf, s, segs')"
    and "drv_apply scan mll config segs d = (d', Some cmd, segs')"
  shows "pending_command (drv_status d') = Some cmd
    \<and> (\<exists>x. in_flight cmd x (drv_control d') \<and> (\<forall>y. submitted (drv_control d') y \<longrightarrow> y = x))
    \<and> (case pending_command s of None \<Rightarrow> True
       | Some c \<Rightarrow> (c = ''AT+CLCC'' \<and> (\<forall>x. \<not> submitted (drv_control d) x))
           \<or> (\<exists>x. in_flight c x (drv_control d) \<and> \<not> in_flight c x (prepared s config (drv_control d))
                \<and> drops x s config (drv_control d)))"
proof -
  have step: "apply_config s config (drv_control d) = (drv_control d', Some cmd)"
    and st: "drv_status d' = filter_command (Some cmd) s"
    using assms(2,3) by (auto elim!: drv_apply_parts)
  have p: "typed any_ring (prepared s config (drv_control d))"
    by (simp add: typed_prepared typed_reach [OF assms(1)])
  obtain x where "in_flight cmd x (drv_control d')"
    by (rule sent_command [OF step p]) (simp add: in_flight_def)
  moreover have "at_most_one_submitted (drv_control d')"
    by (rule at_most_one_apply_config [OF at_most_one_reach [OF assms(1)] step])
  moreover have "\<not> in_flight c y (prepared s config (drv_control d))" for c y
    using apply_config_Some(1) [OF step] by (auto dest: in_flight_submitted)
  ultimately show ?thesis
    using tracks_drive(1) [OF tracks_reach [OF assms(1)] at_most_one_reach [OF assms(1)]
        echo_slot_reach [OF assms(1)] typed_reach [OF assms(1)] ring_ok_any assms(3,2)] st
    by (auto simp: filter_command_def frame_simps at_most_one_submitted_def dest: in_flight_submitted
        split: option.split)
qed

text \<open>A run up to the request of the call list, with an accepted call in the configuration.\<close>

definition call_config :: node where
  "call_config = Node ''config'' [] [] [Node ''call'' [(''state'', ''accepted'')] [] []]"

definition call_list_requested :: driver where
  "call_list_requested = drive_all 64 (init_driver [])
     [(call_config, []), (call_config, [''OK'' @ crlf]), (call_config, [''OK'' @ crlf]),
      (call_config, [''+CPIN: READY'' @ crlf @ ''OK'' @ crlf])]"

text \<open>The list with one incoming call, without the final "OK".\<close>

definition incoming_call :: string where
  "incoming_call = ''+CLCC: 2,1,4,0,0,'' @ quoted ''123'' @ '',129'' @ crlf"

lemma one_outstanding_command_witness:
  "let s = fst (snd (receive 64 (apply_line token_scan) (read_buffer call_list_requested)
         (drv_status call_list_requested) [incoming_call]));
       ctl = drv_control call_list_requested
   in \<exists>x. in_flight ''AT+CLCC'' x ctl \<and> \<not> in_flight ''AT+CLCC'' x (prepared s call_config ctl)
        \<and> drops x s call_config ctl"
proof -
  let ?d = "call_list_requested"
  let ?r = "receive 64 (apply_line token_scan) (read_buffer ?d) (drv_status ?d) [incoming_call]"
  have d: "drv_reach token_scan 64 [] ?d"
    unfolding call_list_requested_def by (rule drive_all_reach [OF drv_reach.init])
  have r: "?r = (fst ?r, fst (snd ?r), [])" by code_simp
  have a: "drv_apply token_scan 64 call_config [incoming_call] ?d =
      (fst (drv_apply token_scan 64 call_config [incoming_call] ?d), Some ''ATA'', [])"
    by code_simp
  have "pending_command (fst (snd ?r)) = Some ''AT+CLCC''" by code_simp
  moreover have "submitted (drv_control ?d) Request_call_list" by code_simp
  ultimately show ?thesis using one_outstanding_command [OF d r a] by (auto simp: Let_def)
qed

text \<open>
  The exception for the call list, at work. The list of calls arrives before the "OK"
  that ends it; the driver takes the list as the response, sends "ATA" at once, and then
  takes the "OK" of the list for the confirmation of "ATA": the operation is complete
  although the modem has not answered it.
\<close>

theorem late_ok_confirms_next_command:
  "let (d1, cmd1, _) = drv_apply token_scan 64 call_config [incoming_call] call_list_requested;
       (d2, cmd2, _) = drv_apply token_scan 64 call_config [''OK'' @ crlf] d1
   in pending_command (drv_status call_list_requested) = Some ''AT+CLCC'' \<and> cmd1 = Some ''ATA''
      \<and> pending_command (drv_status d1) = Some ''ATA'' \<and> constructed (drv_control d1) Accept_call
      \<and> \<not> constructed (drv_control d2) Accept_call \<and> cmd2 = Some ''AT+CLCC''"
  by code_simp

section \<open>Waiting forever\<close>

text \<open>
  Operations whose failure the control part does not handle: once submitted, they are
  removed only by "OK" or by a cancellation, and the driver cancels only while a response is
  outstanding.
\<close>

definition unhandled :: "slot set" where
  "unhandled = {Request_pin_count, Assign_qcfg, Hang_up, Initiate_call, Accept_call}"

definition stuck :: "driver \<Rightarrow> bool" where
  "stuck d \<longleftrightarrow> pending_command (drv_status d) = None \<and> \<not> ok (drv_status d)
     \<and> (\<forall>e \<in> set (st_qcfg (drv_status d)). q_state e \<noteq> MODIFIED)
     \<and> (\<exists>x \<in> unhandled. submitted (drv_control d) x)"

definition unmodified :: "status \<Rightarrow> bool" where
  "unmodified s \<longleftrightarrow> (\<forall>e \<in> set (st_qcfg s). q_state e \<noteq> MODIFIED)"

lemma unmodified_attributes [simp]: "unmodified (apply_attributes l s) = unmodified s"
  by (simp add: unmodified_def frame_simps)

lemma unmodified_query:
  assumes "unmodified s"
  shows "unmodified (qcfg_query_response scan l s)"
proof -
  have "e \<in> set (update_first p (\<lambda>e. e\<lparr>q_state := (if b e then CONFIRMED else MISMATCH)\<rparr>) q)
      \<Longrightarrow> \<forall>e \<in> set q. q_state e \<noteq> MODIFIED \<Longrightarrow> q_state e \<noteq> MODIFIED" for p b q and e :: qcfg_entry
    by (induction q) (auto split: if_splits)
  then show ?thesis
    using assms by (auto simp: unmodified_def qcfg_query_response_def with_entry_def
        status_changed_def Let_def split: option.split)
qed

lemma unmodified_line:
  assumes "unmodified s" and "pending_command s = None"
  shows "unmodified (apply_line scan l s)" and "pending_command (apply_line scan l s) = None"
proof -
  have "qcfg_assign_response scan l t = t" if "pending_command t = None" for t
    using that by (simp add: qcfg_assign_response_def)
  moreover have "pending_command (qcfg_query_response scan l t) = pending_command t" for t
    by (simp add: qcfg_query_response_def status_changed_def Let_def with_entry_def split: option.split)
  ultimately have "st_qcfg (apply_line scan l s) =
      st_qcfg (qcfg_query_response scan l (apply_attributes l (s\<lparr>powered_down := False\<rparr>)))"
    using assms(2) by (simp add: frame_simps confirmed_def apply_qcfg_response_def)
  then show "unmodified (apply_line scan l s)"
    using unmodified_query [of "apply_attributes l (s\<lparr>powered_down := False\<rparr>)" scan l] assms(1)
    by (simp add: unmodified_def frame_simps)
  show "pending_command (apply_line scan l s) = None"
    using assms(2) by (simp add: frame_simps)
qed

lemma unmodified_lines:
  assumes "unmodified s" and "pending_command s = None"
  shows "unmodified (fold (apply_line scan) ls s) \<and> pending_command (fold (apply_line scan) ls s) = None"
  by (rule fold_lines_keeps) (use assms in \<open>auto intro: unmodified_line\<close>)

lemma unhandled_kept:
  assumes "submitted ctl x" and "x \<in> unhandled" and "\<not> ok s" and "unmodified s"
  shows "submitted (prepared s config ctl) x"
proof -
  have "\<not> reboot_needed (st_qcfg s)"
    using assms(4) by (auto simp: reboot_needed_iff unmodified_def)
  moreover have "x \<noteq> Check_ready" "x \<noteq> Disable_echo" "x \<noteq> Ring" "x \<noteq> Set_pin"
    "x \<noteq> Request_pin_state" "x \<noteq> Query_qcfg" "x \<noteq> Power_down" "x \<noteq> Request_call_list"
    using assms(2) by (auto simp: unhandled_def)
  moreover have "submitted d x \<Longrightarrow> \<not> constructed d y \<Longrightarrow> x \<noteq> y" for d y
    by (auto simp: submitted_def constructed_def)
  ultimately show ?thesis
    unfolding prepared_def using assms(1,3)
    by (intro apply_config_ops_keeps [where P = "\<lambda>d. submitted d x"])
      (auto simp: complete_operation_def conditional_def apply_qcfg_def apply_pin_def apply_power_def
        apply_hang_up_def keep_call_list_up_to_date_def apply_call_def apply_ring_def Let_def
        split: option.split)
qed

text \<open>
  Once the modem answers "ERROR" (or "+CME ERROR") to a dial, accept, hang-up,
  PIN-count or settings command, the driver sends nothing any more, whatever it receives,
  however it is configured and however often the timer fires, until the modem happens to
  send a line "OK".
\<close>

theorem stuck_until_ok:
  assumes "stuck d" and "drv_step scan mll d cmd d'"
  shows "(cmd = None \<and> stuck d') \<or> (\<exists>segs buf s segs'. ok s \<and>
    receive mll (apply_line scan) (read_buffer d) (drv_status d) segs = (buf, s, segs'))"
  using assms(2)
proof (cases rule: drv_step.cases)
  case (drive config segs segs')
  from assms(1) obtain x where x: "x \<in> unhandled" "submitted (drv_control d) x"
    and s: "unmodified (drv_status d)" "pending_command (drv_status d) = None"
    by (auto simp: stuck_def unmodified_def)
  obtain buf s1 where
    rec: "receive mll (apply_line scan) (read_buffer d) (drv_status d) segs = (buf, s1, segs')"
    and step: "apply_config s1 config (drv_control d) = (drv_control d', cmd)"
    and st: "drv_status d' = filter_command cmd s1"
    using drive by (rule drv_apply_parts) blast
  obtain ls where "s1 = fold (apply_line scan) ls (drv_status d)"
    using rec by (rule receive_status)
  then have s1: "unmodified s1" "pending_command s1 = None"
    using unmodified_lines [OF s] by simp_all
  show ?thesis
  proof (cases "ok s1")
    case True
    then show ?thesis using rec by blast
  next
    case False
    then have "submitted (prepared s1 config (drv_control d)) x"
      by (intro unhandled_kept x s1)
    then have "cmd = None" "submitted (drv_control d') x"
      using step by (auto simp: apply_config_prepared any_in_flight_iff split: if_splits)
    then show ?thesis
      using st s1 x False by (auto simp: stuck_def unmodified_def filter_command_def)
  qed
next
  case invalidate
  then show ?thesis using assms(1) by (simp add: stuck_def invalidate_call_list_def)
next
  case cancel
  then show ?thesis using assms(1) by (auto simp: stuck_def drv_cancel_command_def Let_def)
qed

text \<open>A dial that the modem refuses.\<close>

definition dial_config :: node where
  "dial_config = Node ''config'' [] []
     [Node ''call'' [(''number'', ''123''), (''state'', ''accepted'')] [] []]"

definition dial_refused :: driver where
  "dial_refused = drive_all 64 (init_driver [])
     [(dial_config, []), (dial_config, [''OK'' @ crlf]), (dial_config, [''OK'' @ crlf]),
      (dial_config, [''+CPIN: READY'' @ crlf @ ''OK'' @ crlf]), (dial_config, [''OK'' @ crlf]),
      (dial_config, [''ERROR'' @ crlf])]"

lemma dial_refused_reach: "drv_reach token_scan 64 [] dial_refused"
  unfolding dial_refused_def by (rule drive_all_reach [OF drv_reach.init])

lemma stuck_until_ok_witness:
  "stuck dial_refused \<and>
    ((None = (None :: string option) \<and> stuck (drv_cancel_command dial_refused)) \<or> (\<exists>segs buf s segs'. ok s \<and>
      receive 64 (apply_line token_scan) (read_buffer dial_refused) (drv_status dial_refused) segs
        = (buf, s, segs')))"
proof -
  have s: "stuck dial_refused"
    unfolding stuck_def unhandled_def by code_simp
  show ?thesis
    using s stuck_until_ok [OF s drv_step.cancel [of token_scan 64]] by blast
qed

end
