(* ===== verification/At_Reception.thy ===== *)
theory At_Reception
  imports At_Order
begin

text \<open>
  Properties of the reception of lines and of the responses to settings and call-list
  requests, and the recovery after a cancelled command.
\<close>

section \<open>Segmentation\<close>

text \<open>
  The terminal session cuts the byte stream into reads at arbitrary places. A line end whose
  two characters arrive in different reads yields an additional empty line. Its effect on the
  status:
\<close>

definition blank :: "status \<Rightarrow> status" where
  "blank s = s\<lparr>powered_down := False, clcc_up_to_date := clcc_up_to_date s \<or> cur_call s \<noteq> None\<rparr>"

lemma blank_line: "apply_line scan [] s = blank s"
  by (simp add: blank_def apply_line_def apply_attributes_def apply_qcfg_response_def
      qcfg_query_response_def qcfg_assign_response_def apply_call_match_def call_match_def
      apply_flags_def apply_counters_def line_helper_defs discard_outdated_def
      gather_handshake_def accept_call_list_def confirm_command_def complete_command_def
      line_value_def line_starts_with_def line_eq_def starts_with_def Let_def split: option.split)

lemma blank_blank: "blank (blank s) = blank s"
  by (simp add: blank_def)

text \<open>The sub steps before the call list is discarded do not look at its flag.\<close>

lemma clcc_version:
  "s\<lparr>clcc_up_to_date := b, version := n\<rparr> = s\<lparr>version := n, clcc_up_to_date := b\<rparr>" for s :: status
  by simp

lemma clcc_attr_value:
  assumes "\<And>f s. upd f (s\<lparr>clcc_up_to_date := b\<rparr>) = (upd f s)\<lparr>clcc_up_to_date := b\<rparr>"
  shows "apply_attr_value upd p l (s\<lparr>clcc_up_to_date := b\<rparr>) = (apply_attr_value upd p l s)\<lparr>clcc_up_to_date := b\<rparr>"
  by (simp add: apply_attr_value_def status_changed_def clcc_version assms split: option.split)

lemma clcc_boolean:
  assumes "\<And>f s. upd f (s\<lparr>clcc_up_to_date := b\<rparr>) = (upd f s)\<lparr>clcc_up_to_date := b\<rparr>"
  shows "enable_boolean l str upd (s\<lparr>clcc_up_to_date := b\<rparr>) = (enable_boolean l str upd s)\<lparr>clcc_up_to_date := b\<rparr>"
  by (simp add: enable_boolean_def apply_boolean_def status_changed_def clcc_version assms)

lemma clcc_increment:
  assumes "\<And>f s. upd f (s\<lparr>clcc_up_to_date := b\<rparr>) = (upd f s)\<lparr>clcc_up_to_date := b\<rparr>"
  shows "increment l str upd (s\<lparr>clcc_up_to_date := b\<rparr>) = (increment l str upd s)\<lparr>clcc_up_to_date := b\<rparr>"
  by (simp add: increment_def status_changed_def clcc_version assms)

lemma clcc_qcfg:
  "qcfg_query_response scan l (s\<lparr>clcc_up_to_date := b\<rparr>) = (qcfg_query_response scan l s)\<lparr>clcc_up_to_date := b\<rparr>"
  "qcfg_assign_response scan l (s\<lparr>clcc_up_to_date := b\<rparr>) = (qcfg_assign_response scan l s)\<lparr>clcc_up_to_date := b\<rparr>"
  by (simp_all add: qcfg_query_response_def qcfg_assign_response_def status_changed_def Let_def
      split: option.split prod.split)

lemma clcc_commutes:
  "apply_attributes l (s\<lparr>clcc_up_to_date := b\<rparr>) = (apply_attributes l s)\<lparr>clcc_up_to_date := b\<rparr>"
  "apply_qcfg_response scan l (s\<lparr>clcc_up_to_date := b\<rparr>) = (apply_qcfg_response scan l s)\<lparr>clcc_up_to_date := b\<rparr>"
  "apply_call_match scan l (s\<lparr>clcc_up_to_date := b\<rparr>) = (apply_call_match scan l s)\<lparr>clcc_up_to_date := b\<rparr>"
  "apply_flags l (s\<lparr>clcc_up_to_date := b\<rparr>) = (apply_flags l s)\<lparr>clcc_up_to_date := b\<rparr>"
  "apply_counters l (s\<lparr>clcc_up_to_date := b\<rparr>) = (apply_counters l s)\<lparr>clcc_up_to_date := b\<rparr>"
  "gather_handshake l (s\<lparr>clcc_up_to_date := b\<rparr>) = (gather_handshake l s)\<lparr>clcc_up_to_date := b\<rparr>"
  by (simp_all add: apply_attributes_def apply_qcfg_response_def apply_flags_def apply_counters_def
      clcc_attr_value clcc_boolean clcc_increment clcc_qcfg)
    (simp_all add: apply_call_match_def gather_handshake_def status_changed_def clcc_boolean Let_def
      split: option.split)

lemma call_match_keeps_call:
  "cur_call s \<noteq> None \<Longrightarrow> cur_call (apply_call_match scan l s) \<noteq> None"
  by (simp add: apply_call_match_def status_changed_def split: option.split)

lemma accept_after_discard:
  assumes "cur_call s \<noteq> None"
  shows "accept_call_list (gather_handshake l (discard_outdated l (s\<lparr>clcc_up_to_date := True\<rparr>)))
    = accept_call_list (gather_handshake l (discard_outdated l s))"
proof (cases "line_eq l ''NO CARRIER'' \<or> line_eq l ''RING''")
  case True
  then show ?thesis by (simp add: discard_outdated_def clcc_out_of_date_def Let_def)
next
  case False
  then have "discard_outdated l (s\<lparr>clcc_up_to_date := True\<rparr>) = (discard_outdated l s)\<lparr>clcc_up_to_date := True\<rparr>"
    by (simp add: discard_outdated_def Let_def)
  moreover have "cur_call (gather_handshake l (discard_outdated l s)) \<noteq> None"
    using False assms by (simp add: discard_outdated_def Let_def frame_simps)
  ultimately show ?thesis by (simp add: clcc_commutes accept_call_list_def)
qed

lemma line_after_blank: "apply_line scan l (blank s) = apply_line scan l s"
proof (cases "cur_call s = None")
  case True
  then show ?thesis by (simp add: blank_def apply_line_def)
next
  case False
  let ?t = "s\<lparr>powered_down := False\<rparr>"
  have "(blank s)\<lparr>powered_down := False\<rparr> = ?t\<lparr>clcc_up_to_date := True\<rparr>"
    using False by (simp add: blank_def)
  moreover have "cur_call (apply_counters l (apply_flags l (apply_call_match scan l
      (apply_qcfg_response scan l (apply_attributes l ?t))))) \<noteq> None"
    using False by (simp add: frame_simps call_match_keeps_call)
  ultimately show ?thesis
    by (simp add: apply_line_def Let_def clcc_commutes accept_after_discard)
qed

lemma call_list_after_line:
  "cur_call (apply_line scan l s) \<noteq> None \<Longrightarrow> clcc_up_to_date (apply_line scan l s)"
  by (auto simp: clcc_apply_line cur_call_apply_line split: if_splits)

text \<open>So only the empty lines after the last proper line count, and these as one.\<close>

lemma fold_nonempty:
  "let t = fold (apply_line scan) (nonempty ls) s
   in fold (apply_line scan) ls s = t \<or> fold (apply_line scan) ls s = blank t"
proof (induction ls rule: rev_induct)
  case (snoc l ls)
  then show ?case
    by (cases "l = []") (auto simp: Let_def blank_line blank_blank line_after_blank)
qed simp

lemma fold_lines_status:
  assumes "lines \<noteq> []"
  shows "(blank (fold (apply_line scan) lines s))\<lparr>powered_down := p\<rparr>
    = (fold (apply_line scan) lines s)\<lparr>powered_down := p\<rparr>"
proof -
  obtain ls l where "lines = ls @ [l]" using assms by (cases lines rule: rev_cases) simp_all
  then show ?thesis
    using call_list_after_line [of scan l "fold (apply_line scan) ls s"]
    by (auto simp: blank_def intro!: status.equality)
qed

section \<open>The read buffer\<close>

lemma receive_rest:
  assumes "receive mll fn buf s segs = (buf', s', segs')"
    and "length buf \<le> mll" and "\<not> has_line buf"
  shows "length buf' \<le> mll \<and> \<not> has_line buf'"
  using assms
proof (induction "sum_list (map length segs)" arbitrary: buf s segs rule: less_induct)
  case less
  obtain r b1 segs1 where fill: "fill mll buf segs = (r, b1, segs1)"
    by (cases "fill mll buf segs") auto
  show ?case
  proof (cases r)
    case DONE
    then have "b1 = buf" using fill by (simp add: fill_def Let_def split: prod.splits if_splits)
    then show ?thesis using less.prems fill DONE by (simp add: receive.simps [of mll fn buf])
  next
    case DATA
    then have "sum_list (map length segs1) < sum_list (map length segs)"
      using fill by (auto simp: fill_def Let_def split: prod.splits if_splits
          dest!: chan_read_length simp flip: length_greater_0_conv)
    moreover obtain b2 s2 where c: "consume_lines mll fn b1 s = (b2, s2)" by fastforce
    moreover have "receive mll fn b2 s2 segs1 = (buf', s', segs')"
      using less.prems(1) fill DATA c by (simp add: receive.simps [of mll fn buf])
    ultimately show ?thesis using less.hyps consume_lines_rest [OF c] by blast
  qed
qed

lemma read_buffer_reach:
  assumes "drv_reach scan mll q d"
  shows "length (read_buffer d) \<le> mll \<and> \<not> has_line (read_buffer d)"
  using assms
proof (induction rule: drv_reach.induct)
  case init
  show ?case by (simp add: init_driver_def has_line_def)
next
  case (step d cmd d')
  from step(2) show ?case
  proof (cases rule: drv_step.cases)
    case (drive config segs segs')
    then obtain s1 where
      "receive mll (apply_line scan) (read_buffer d) (drv_status d) segs = (read_buffer d', s1, segs')"
      by (rule drv_apply_parts) simp
    then show ?thesis using step(3) by (intro receive_rest) auto
  next
    case invalidate
    then show ?thesis using step(3) by (simp add: invalidate_call_list_def)
  next
    case cancel
    then show ?thesis
      using step(3) by (simp add: drv_cancel_command_def Let_def split: option.split)
  qed
qed

text \<open>
  In every reachable state the read buffer holds at most the line limit of bytes and no
  complete line. So the next read has at least half of the buffer, and a read never goes
  beyond the capacity of twice the limit.
\<close>

theorem read_buffer_bounded:
  assumes "drv_reach scan mll q d"
  shows "length (read_buffer d) \<le> mll \<and> \<not> has_line (read_buffer d)
    \<and> length (fst (snd (fill mll (read_buffer d) segs))) \<le> 2 * mll"
proof -
  obtain c segs' where read: "chan_read (2 * mll - length (read_buffer d)) segs = (c, segs')"
    by fastforce
  then have "length c \<le> 2 * mll - length (read_buffer d)" using chan_read_length by blast
  with read_buffer_reach [OF assms] read show ?thesis by (auto simp: fill_def)
qed

lemma read_buffer_bounded_witness:
  "length (read_buffer (drive_all 4 (init_driver []) [(empty_config, [''OKRD''])])) \<le> 4
    \<and> \<not> has_line (read_buffer (drive_all 4 (init_driver []) [(empty_config, [''OKRD''])]))
    \<and> length (fst (snd (fill 4 (read_buffer (drive_all 4 (init_driver []) [(empty_config, [''OKRD''])]))
        [''Y is longer'']))) \<le> 2 * 4"
  by (rule read_buffer_bounded [OF drive_all_reach [OF drv_reach.init]])

section \<open>Reception by the driver\<close>

text \<open>
  C10: however the terminal session cuts the byte stream into reads, a reception of the
  reachable driver consumes all reads, keeps the incomplete line of the stream, and the status
  is that of the stream's complete lines, applied one by one, as long as no line is longer
  than the limit. Only the flag \<open>powered_down\<close> depends on the cut: an empty line from a line
  end cut in two resets it. (Without any complete line an empty line also takes an invalidated
  call list with a current call for up to date.)
\<close>

theorem receive_segmentation:
  assumes "drv_reach scan mll q d" and "0 < mll" and "[] \<notin> set segs"
    and "stream_lines ([], []) (read_buffer d @ concat segs) = (lines, tail)"
    and "within_limit mll (lines, tail)"
    and "receive mll (apply_line scan) (read_buffer d) (drv_status d) segs = (buf, s, rest)"
    and "t = fold (apply_line scan) lines (drv_status d)"
  shows "buf = tail \<and> rest = []
    \<and> (s = t \<or> s = t\<lparr>powered_down := False, clcc_up_to_date := clcc_up_to_date t \<or> cur_call t \<noteq> None\<rparr>)
    \<and> (lines \<noteq> [] \<longrightarrow> s\<lparr>powered_down := powered_down t\<rparr> = t)"
proof -
  obtain ls where c: "receive mll collect (read_buffer d) [] segs = (tail, ls, [])"
    and ls: "nonempty ls = lines"
    using receive_stream [of mll segs "read_buffer d" "[]"] assms(2-5) read_buffer_reach [OF assms(1)]
    by auto
  then have s: "s = fold (apply_line scan) ls (drv_status d)" and "buf = tail" "rest = []"
    using receive_fold [of mll "apply_line scan" "read_buffer d" "drv_status d" segs "[]"] assms(6)
    by auto
  moreover have "s = t \<or> s = blank t"
    using fold_nonempty [where scan = scan and ls = ls and s = "drv_status d"] ls s assms(7) by (simp add: Let_def)
  moreover have "(blank t)\<lparr>powered_down := powered_down t\<rparr> = t" if "lines \<noteq> []"
    using fold_lines_status [OF that, where scan = scan and s = "drv_status d" and p = "powered_down t"] assms(7) by simp
  ultimately show ?thesis unfolding blank_def by auto
qed

lemma receive_segmentation_witness:
  "let d = drive_all 8 (init_driver []) [(empty_config, [''O''])];
       s = fst (snd (receive 8 (apply_line token_scan) (read_buffer d) (drv_status d) [''K'' @ [CHR 0x0D], [CHR 0x0A] @ ''RDY'']))
   in s\<lparr>powered_down := False\<rparr> = apply_line token_scan ''OK'' (drv_status d)"
proof -
  let ?d = "drive_all 8 (init_driver []) [(empty_config, [''O''])]"
  let ?segs = "[''K'' @ [CHR 0x0D], [CHR 0x0A] @ ''RDY'']"
  let ?r = "receive 8 (apply_line token_scan) (read_buffer ?d) (drv_status ?d) ?segs"
  have "stream_lines ([], []) (read_buffer ?d @ concat ?segs) = ([''OK''], ''RDY'')" by code_simp
  moreover have "?r = (fst ?r, fst (snd ?r), snd (snd ?r))" by simp
  ultimately show ?thesis
    using receive_segmentation [OF drive_all_reach [OF drv_reach.init], of 8 ?segs "[]" "[(empty_config, [''O''])]"
        "[''OK'']" "''RDY''" "fst ?r" "fst (snd ?r)" "snd (snd ?r)"]
    by (simp add: within_limit_def Let_def apply_line_fields)
qed

text \<open>
  The dependence matters. The message "POWERED DOWN" puts the driver into the
  state that ends the shutdown; when the carriage return and the line feed come in one read
  the state stays, when they come in two reads the line feed alone is taken for a further
  line and resets it.
\<close>

theorem powered_down_lost_by_split:
  "let s = init_status [] in
     powered_down (fst (snd (receive 64 (apply_line token_scan) [] s [''POWERED DOWN'' @ crlf])))
   \<and> \<not> powered_down (fst (snd (receive 64 (apply_line token_scan) [] s
        [''POWERED DOWN'' @ [CHR 0x0D], [CHR 0x0A]])))"
  by code_simp

section \<open>Recovery after a cancelled command\<close>

text \<open>
  When the response to a command does not arrive and the command is cancelled, no
  operation is in flight any more, and the next pass, unless it schedules a reboot, starts
  the handshake again with "AT".
\<close>

theorem cancel_restarts_handshake:
  assumes "drv_reach scan mll q d" and "response_outstanding d"
    and "\<not> boot_now (drv_status (drv_cancel_command d)) (drv_control (drv_cancel_command d))"
  shows "\<not> any_operation_in_flight (drv_control (drv_cancel_command d))
    \<and> \<not> response_outstanding (drv_cancel_command d)
    \<and> fst (snd (drv_apply scan mll config [] (drv_cancel_command d))) = Some ''AT''"
proof -
  let ?d = "drv_cancel_command d"
  have st: "pending_command (drv_status ?d) = None" "\<not> at_ok (drv_status ?d)"
    using assms(2) by (auto simp: drv_cancel_command_def response_outstanding_def Let_def
        command_canceled_def reset_command_def status_changed_def split: option.split)
  have ctl: "drv_control ?d = cancel_command (drv_control d)"
    unfolding drv_cancel_control by (rule if_not_P) (use assms(2) in \<open>simp add: response_outstanding_def\<close>)
  then have idle: "\<not> any_operation_in_flight (drv_control ?d)"
    by (simp add: any_in_flight_iff submitted_cancel_command)
  have reach: "drv_reach scan mll q ?d" by (rule drv_reach.step [OF assms(1) drv_step.cancel])
  let ?p = "prepared (drv_status ?d) config (drv_control ?d)"
  have typed: "typed any_ring ?p" by (simp add: typed_prepared typed_reach [OF reach])
  have ready: "constructed ?p Check_ready"
    unfolding prepared_def using assms(3) st(2)
    by (subst check_ready_kept) (auto simp: boot_now_def)
  have free: "\<not> submitted ?p x" for x
    using idle settles_prepared [of "drv_control ?d" "drv_status ?d" config]
    by (auto simp: any_in_flight_iff settles_def)
  obtain c' cmd where step: "apply_config (drv_status ?d) config (drv_control ?d) = (c', cmd)"
    by fastforce
  then have "submit_one_pending_operation ?p = (c', cmd)"
    using free by (auto simp: apply_config_prepared any_in_flight_iff split: if_splits)
  moreover have "op_pending ?p Check_ready"
    using ready pending_iff_constructed [OF typed free] by simp
  ultimately have "cmd \<noteq> None" using submit_one_None [of ?p c'] by auto
  then have "cmd = Some ''AT''"
    using handshake_control(1) [OF typed _ assms(3)] step st(2) by auto
  moreover have "receive mll (apply_line scan) (read_buffer ?d) (drv_status ?d) []
      = (read_buffer ?d, drv_status ?d, [])"
    by (simp add: receive.simps [of mll] fill_def chan_read_def)
  ultimately show ?thesis
    using idle st step by (simp add: drv_apply_def Let_def response_outstanding_def)
qed

lemma cancel_restarts_handshake_witness:
  "\<not> any_operation_in_flight (drv_control (drv_cancel_command (drive_all 16 (init_driver []) [(empty_config, [])])))
    \<and> \<not> response_outstanding (drv_cancel_command (drive_all 16 (init_driver []) [(empty_config, [])]))
    \<and> fst (snd (drv_apply token_scan 16 empty_config []
        (drv_cancel_command (drive_all 16 (init_driver []) [(empty_config, [])])))) = Some ''AT''"
proof -
  let ?d = "drive_all 16 (init_driver []) [(empty_config, [])]"
  have "response_outstanding ?d" by code_simp
  moreover have "\<not> boot_now (drv_status (drv_cancel_command ?d)) (drv_control (drv_cancel_command ?d))"
    by code_simp
  ultimately show ?thesis
    by (rule cancel_restarts_handshake [OF drive_all_reach [OF drv_reach.init]])
qed

section \<open>Settings\<close>

text \<open>The entry found by its name gets the state \<open>st\<close>, no other entry changes.\<close>

lemma with_entry_state:
  assumes "distinct (map q_name q)" and "e \<in> set q"
  shows "fst (with_entry (q_name e) (\<lambda>e. e\<lparr>q_state := f e\<rparr>) q)
      = map (\<lambda>x. if q_name x = q_name e then x\<lparr>q_state := f x\<rparr> else x) q"
    and "snd (with_entry (q_name e) fn q)"
proof -
  show "snd (with_entry (q_name e) fn q)" using assms(2) by (auto simp: with_entry_def list_ex_iff)
  show "fst (with_entry (q_name e) (\<lambda>e. e\<lparr>q_state := f e\<rparr>) q)
      = map (\<lambda>x. if q_name x = q_name e then x\<lparr>q_state := f x\<rparr> else x) q"
    unfolding with_entry_def using assms
  proof (induction q)
    case (Cons a q)
    have "map (\<lambda>x. if q_name x = n then g x else x) xs = xs" if "n \<notin> q_name ` set xs" for n g xs
      using that by (induction xs) auto
    with Cons show ?case by auto
  qed simp
qed

text \<open>The line \<open>+QCFG: "name",value\<close>.\<close>

definition qcfg_line :: "string \<Rightarrow> string \<Rightarrow> line" where
  "qcfg_line name value = ''+QCFG: '' @ quoted name @ CHR '','' # value"

text \<open>
  The response to a settings query marks the entry of that name as confirmed if its
  value is the wanted one and as mismatching otherwise, and leaves the other entries as they
  were, for every tokenizer that scans a quoted name followed by a comma as such.
\<close>

theorem qcfg_response_settles_entry:
  assumes scan: "at_scanner scan" and q: "distinct (map q_name (st_qcfg s))" "e \<in> set (st_qcfg s)"
    and plain: "plain_text (q_name e)" "CHR 0x00 \<notin> set value"
    and len: "length (q_name e) < 32" "length value < 32"
  shows "st_qcfg (qcfg_query_response scan (qcfg_line (q_name e) value) s) =
    map (\<lambda>x. if q_name x = q_name e
             then x\<lparr>q_state := (if q_value x = value then CONFIRMED else MISMATCH)\<rparr> else x) (st_qcfg s)"
proof -
  let ?r = "quoted (q_name e) @ CHR '','' # value"
  have zero: "CHR 0x00 \<notin> set ?r" using plain by (simp add: quoted_def plain_text_def)
  have v: "line_value (qcfg_line (q_name e) value) ''+QCFG: '' = Some ?r"
    unfolding qcfg_line_def using line_value_append [OF zero, of "''+QCFG: ''"] by simp
  have short: "genode_string 100 ?r = ?r" using len by (intro genode_string_short) (simp add: quoted_def)
  have "scan (field_text (Txt (q_name e)) @ CHR '','' # value)
      = field_tokens (Txt (q_name e)) @ \<lparr>tok_type = SINGLECHAR, tok_text = '',''\<rparr> # scan value"
    by (rule at_scanner.scan_comma [OF scan]) (simp add: plain)
  then have name: "comma_separated_element scan 0 ?r = Some (q_name e)"
    using plain by (simp add: comma_separated_element_def quoted_def)
  have n32: "genode_string 32 (q_name e) = q_name e" "genode_string 32 value = value"
    using len by (simp_all add: genode_string_short)
  have skip: "cstring (drop (str_length (Some (q_name e)) + 2) ?r) = value"
    using plain(2) by (simp add: quoted_def str_length_def cstring_id)
  let ?f = "\<lambda>x. if q_value x = value then CONFIRMED else MISMATCH"
  have q': "with_entry (q_name e) (\<lambda>x. x\<lparr>q_state := ?f x\<rparr>) (st_qcfg s) =
      (map (\<lambda>x. if q_name x = q_name e then x\<lparr>q_state := ?f x\<rparr> else x) (st_qcfg s), True)"
    by (rule prod_eqI) (simp_all only: with_entry_state [OF q] fst_conv snd_conv)
  have fits: "\<not> str_length (Some ?r) < str_length (Some (q_name e)) + 2"
    by (simp add: quoted_def str_length_def)
  show ?thesis
    unfolding qcfg_query_response_def v option.case short Let_def name option.map n32(1) skip n32(2)
      str_of_def q' prod.case using fits by (simp add: status_changed_def)
qed

lemma qcfg_response_settles_entry_witness:
  "st_qcfg (qcfg_query_response token_scan (qcfg_line ''usbnet'' ''0'') (init_status [mk_entry ''usbnet'' ''1'']))
    = [\<lparr>q_name = ''usbnet'', q_value = ''1'', q_state = MISMATCH\<rparr>]"
  using qcfg_response_settles_entry [OF scanner.at_scanner_axioms,
      of "init_status [mk_entry ''usbnet'' ''1'']" "mk_entry ''usbnet'' ''1''" "''0''"]
  by (simp add: init_status_def mk_entry_def plain_text_def)

section \<open>The call list\<close>

text \<open>The direction and state of a call in the list, as digits.\<close>

fun stat_text :: "call_stat \<Rightarrow> string" where
  "stat_text ACTIVE = ''0''" | "stat_text DIALING = ''2''" | "stat_text ALERTING = ''3''"
| "stat_text INCOMING = ''4''" | "stat_text UNSUPPORTED = ''5''"

text \<open>One entry of the list: index, direction, state, mode (0 is voice), party, number, type.\<close>

definition clcc_fields :: "call_stat \<Rightarrow> string \<Rightarrow> string \<Rightarrow> csv_field list" where
  "clcc_fields st mode number =
     [Num ''2'', Num ''1'', Num (stat_text st), Num mode, Num ''0'', Txt number, Num ''129'']"

definition clcc_line :: "call_stat \<Rightarrow> string \<Rightarrow> string \<Rightarrow> line" where
  "clcc_line st mode number = ''+CLCC: '' @ csv_text (clcc_fields st mode number)"

text \<open>
  An entry of the call list is taken for the current call, with its number and state,
  exactly if it is a voice call in a state the driver supports, whatever tokenizer meets the
  contract.
\<close>

theorem call_list_entry_parsed:
  assumes scan: "at_scanner scan" and mode: "digits_only mode" and number: "plain_text number"
    and len: "length number < 50" "length mode \<le> 20"
  shows "call_match scan (clcc_line st mode number) =
    (if mode = ''0'' \<and> st \<noteq> UNSUPPORTED then Some \<lparr>cc_number = number, cc_stat = st\<rparr> else None)"
proof -
  let ?fs = "clcc_fields st mode number"
  have digit: "digits_only (stat_text st)" "digits_only ''2''" "digits_only ''1''" "digits_only ''0''"
    "digits_only ''129''"
    by (cases st) (simp_all add: digits_only_def decimal_digit_def)
  have ok: "list_all field_ok ?fs" using digit mode number by (simp add: clcc_fields_def)
  have field: "comma_separated_element scan i (csv_text ?fs) = field_value (?fs ! i)" if "i < 7" for i
    using at_scanner.element_of_csv [OF scan ok] that by (simp add: clcc_fields_def)
  have zero: "CHR 0x00 \<notin> set (csv_text ?fs)"
    using digit mode number by (simp add: clcc_fields_def quoted_def digits_no_zero plain_text_def)
  then have v: "line_value (clcc_line st mode number) ''+CLCC: '' = Some (csv_text ?fs)"
    unfolding clcc_line_def by (rule line_value_append)
  have "length (stat_text st) = 1" by (cases st) simp_all
  then have short: "genode_string 100 (csv_text ?fs) = csv_text ?fs"
    using len by (intro genode_string_short) (simp add: clcc_fields_def quoted_def)
  have f: "comma_separated_element scan 2 (csv_text ?fs) = Some (stat_text st)"
    "comma_separated_element scan 3 (csv_text ?fs) = Some mode"
    "comma_separated_element scan 5 (csv_text ?fs) = Some number"
    using field [of 2] field [of 3] field [of 5] by (simp_all add: clcc_fields_def)
  have st: "stat_from_value scan (csv_text ?fs) = st"
    unfolding stat_from_value_def f(1) Let_def by (cases st) simp_all
  have "genode_string 50 number = number" using len(1) by (rule genode_string_short)
  then show ?thesis
    unfolding call_match_def v option.case short Let_def f st by (auto simp: str_of_def)
qed

lemma call_list_entry_parsed_witness:
  "call_match token_scan (clcc_line INCOMING ''0'' ''+49351'')
    = Some \<lparr>cc_number = ''+49351'', cc_stat = INCOMING\<rparr>"
  using call_list_entry_parsed [OF scanner.at_scanner_axioms, of "''0''" "''+49351''" INCOMING]
  by (simp add: digits_only_def decimal_digit_def plain_text_def)

end
