(* ===== verification/Mmio.thy ===== *)
theory Mmio
  imports Prelude
begin

text \<open>
  The register interface the drivers write through. The classes \<^verbatim>\<open>Genode::Mmio\<close>,
  \<^verbatim>\<open>Register\<close>, \<^verbatim>\<open>Bitfield\<close> and \<^verbatim>\<open>Register_array\<close> are not part of this repository: the
  drivers' models only name the bit fields they access (\<open>field\<close>) and take the read and
  write operations as parameters. The locale \<open>register_set\<close> states what the drivers rely
  on: a bit-field write makes the field read back as the written value cut to the field's
  width, and leaves every disjoint field alone. The locale is interpreted on register files
  of 32-bit words with the read-modify-write of a bit field written out bit by bit.
\<close>

unbundle bit_operations_syntax

section \<open>Bit fields\<close>

text \<open>A bit field: offset of its register, position of its lowest bit, number of bits.\<close>

datatype field = Fld (f_reg: nat) (f_shift: nat) (f_width: nat)

definition wf_field :: "field \<Rightarrow> bool" where
  "wf_field f \<longleftrightarrow> 0 < f_width f \<and> f_shift f + f_width f \<le> 32"

definition disjoint_fields :: "field \<Rightarrow> field \<Rightarrow> bool" where
  "disjoint_fields f g \<longleftrightarrow> f_reg f \<noteq> f_reg g
     \<or> f_shift f + f_width f \<le> f_shift g \<or> f_shift g + f_width g \<le> f_shift f"

text \<open>A whole 32-bit register, and item \<open>i\<close> of an array of \<open>w\<close>-bit items (\<open>w\<close> divides 32).\<close>

definition whole_reg :: "nat \<Rightarrow> field" where
  "whole_reg off = Fld off 0 32"

definition array_item :: "nat \<Rightarrow> nat \<Rightarrow> nat \<Rightarrow> field" where
  "array_item off w i = Fld (off + 4 * (i * w div 32)) (i * w mod 32) w"

lemma disjoint_fields_sym: "disjoint_fields f g \<longleftrightarrow> disjoint_fields g f"
  by (auto simp: disjoint_fields_def)

lemma wf_whole_reg [simp]: "wf_field (whole_reg off)"
  by (simp add: wf_field_def whole_reg_def)

lemma wf_array_item:
  assumes "w \<in> {1::nat, 2, 4, 8, 16, 32}"
  shows "wf_field (array_item off w i)"
proof -
  have "i * w mod 32 + w \<le> 32"
    using assms by (elim insertE) (simp; presburger)+
  then show ?thesis using assms by (auto simp: wf_field_def array_item_def)
qed

lemma array_item_slots:
  assumes "w \<in> {1::nat, 2, 4, 8, 16, 32}"
  shows "i * w div 32 = i div (32 div w)" and "i * w mod 32 = w * (i mod (32 div w))"
proof -
  obtain k where k: "32 = w * k" and w: "0 < w"
    using assms by (elim insertE) (auto intro: that)
  have div: "32 div w = k" using w by (subst k) simp
  show "i * w div 32 = i div (32 div w)"
    unfolding div using w by (subst k) (simp add: mult.commute)
  show "i * w mod 32 = w * (i mod (32 div w))"
    unfolding div k using mult_mod_right [of w i k] by (simp add: mult.commute)
qed

lemma disjoint_array_items:
  assumes "w \<in> {1, 2, 4, 8, 16, 32}" and "i \<noteq> j"
  shows "disjoint_fields (array_item off w i) (array_item off w j)"
proof (cases "i div (32 div w) = j div (32 div w)")
  case True
  then have "i mod (32 div w) \<noteq> j mod (32 div w)"
    using assms(2) by (metis mult_div_mod_eq)
  then have "w * Suc (i mod (32 div w)) \<le> w * (j mod (32 div w))
      \<or> w * Suc (j mod (32 div w)) \<le> w * (i mod (32 div w))"
    by (metis Suc_leI mult_le_mono2 nat_neq_iff)
  then show ?thesis
    by (auto simp: disjoint_fields_def array_item_def array_item_slots [OF assms(1)])
next
  case False
  then show ?thesis
    by (simp add: disjoint_fields_def array_item_def array_item_slots [OF assms(1)])
qed

section \<open>Programs of bit-field writes\<close>

text \<open>The straight-line register programs of the drivers: writes in program order.\<close>

type_synonym reg_program = "(field \<times> u32) list"

definition run_writes :: "('m \<Rightarrow> field \<Rightarrow> u32 \<Rightarrow> 'm) \<Rightarrow> reg_program \<Rightarrow> 'm \<Rightarrow> 'm" where
  "run_writes wr prog m = foldl (\<lambda>m (f, v). wr m f v) m prog"

text \<open>The value the last write to a field of a program has.\<close>

fun last_write :: "reg_program \<Rightarrow> field \<Rightarrow> u32 option" where
  "last_write [] f = None"
| "last_write ((g, v) # prog) f =
     (case last_write prog f of Some w \<Rightarrow> Some w | None \<Rightarrow> (if g = f then Some v else None))"

text \<open>No write of the program touches a field partly: it hits all of the field or nothing.\<close>

definition separates :: "reg_program \<Rightarrow> field \<Rightarrow> bool" where
  "separates prog f \<longleftrightarrow> list_all (\<lambda>(g, v). wf_field g \<and> (g = f \<or> disjoint_fields g f)) prog"

text \<open>A program with well-formed, pairwise equal-or-disjoint fields whose values fit.\<close>

definition clean_program :: "reg_program \<Rightarrow> bool" where
  "clean_program prog \<longleftrightarrow> list_all (\<lambda>(f, v). separates prog f \<and> take_bit (f_width f) v = v) prog"

lemma run_writes_Nil [simp]: "run_writes wr [] m = m"
  by (simp add: run_writes_def)

lemma run_writes_Cons [simp]:
  "run_writes wr ((f, v) # prog) m = run_writes wr prog (wr m f v)"
  by (simp add: run_writes_def)

lemma run_writes_append:
  "run_writes wr (p @ q) m = run_writes wr q (run_writes wr p m)"
  by (simp add: run_writes_def)

lemma last_write_append:
  "last_write (p @ q) f = (case last_write q f of Some v \<Rightarrow> Some v | None \<Rightarrow> last_write p f)"
  by (induction p) (auto split: option.splits)

lemma last_write_None_iff: "last_write prog f = None \<longleftrightarrow> f \<notin> fst ` set prog"
  by (induction prog) (auto split: option.splits)

lemma last_write_in: "last_write prog f = Some v \<Longrightarrow> (f, v) \<in> set prog"
  by (induction prog) (auto split: option.splits if_splits)

lemma last_write_distinct:
  "distinct (map fst prog) \<Longrightarrow> (f, v) \<in> set prog \<Longrightarrow> last_write prog f = Some v"
proof (induction prog)
  case (Cons x prog)
  then show ?case
    using last_write_None_iff [of prog f] by (cases x) (auto simp: image_iff split: option.split)
qed simp

lemma separates_take: "separates prog f \<Longrightarrow> separates (take i prog) f"
  unfolding separates_def list_all_iff by (meson in_set_takeD)

section \<open>The interface\<close>

locale register_set =
  fixes rd :: "'m \<Rightarrow> field \<Rightarrow> u32"
    and wr :: "'m \<Rightarrow> field \<Rightarrow> u32 \<Rightarrow> 'm"
  assumes rd_wr_same: "wf_field f \<Longrightarrow> rd (wr m f v) f = take_bit (f_width f) v"
    and rd_wr_other: "wf_field f \<Longrightarrow> disjoint_fields f g \<Longrightarrow> rd (wr m f v) g = rd m g"
begin

lemma rd_run_writes:
  assumes "separates prog f" and "wf_field f"
  shows "rd (run_writes wr prog m) f =
    (case last_write prog f of Some v \<Rightarrow> take_bit (f_width f) v | None \<Rightarrow> rd m f)"
  using assms
proof (induction prog arbitrary: m)
  case Nil
  then show ?case by simp
next
  case (Cons x prog)
  obtain g v where x: "x = (g, v)" by (cases x)
  from Cons.prems x have "separates prog f" and g: "wf_field g" "g = f \<or> disjoint_fields g f"
    by (auto simp: separates_def)
  then have IH: "rd (run_writes wr prog (wr m g v)) f =
      (case last_write prog f of Some v \<Rightarrow> take_bit (f_width f) v | None \<Rightarrow> rd (wr m g v) f)"
    using Cons.IH Cons.prems(2) by blast
  have "rd (wr m g v) f = (if g = f then take_bit (f_width f) v else rd m f)"
    using g rd_wr_same rd_wr_other by auto
  with IH x show ?case by (auto split: option.splits)
qed

lemma rd_last_write:
  assumes "separates prog f" and "wf_field f" and "last_write prog f = Some v"
  shows "rd (run_writes wr prog m) f = take_bit (f_width f) v"
  using rd_run_writes [OF assms(1,2)] assms(3) by simp

lemma rd_clean_program:
  assumes "clean_program prog" and "last_write prog f = Some v"
  shows "rd (run_writes wr prog m) f = v"
proof -
  have "(f, v) \<in> set prog" using assms(2) by (rule last_write_in)
  with assms(1) have sep: "separates prog f" and fit: "take_bit (f_width f) v = v"
    by (auto simp: clean_program_def list_all_iff)
  from sep \<open>(f, v) \<in> set prog\<close> have "wf_field f"
    by (auto simp: separates_def list_all_iff)
  with sep assms(2) fit show ?thesis by (simp add: rd_run_writes)
qed

lemma rd_untouched:
  assumes "\<forall>(g, v) \<in> set prog. wf_field g \<and> disjoint_fields g f"
  shows "rd (run_writes wr prog m) f = rd m f"
  using assms
proof (induction prog arbitrary: m)
  case Nil
  then show ?case by simp
next
  case (Cons x prog)
  then show ?case by (cases x) (auto simp: rd_wr_other)
qed

end

section \<open>Register files of 32-bit words\<close>

type_synonym regs = "nat \<Rightarrow> u32"

definition reg_rd :: "regs \<Rightarrow> field \<Rightarrow> u32" where
  "reg_rd m f = take_bit (f_width f) (drop_bit (f_shift f) (m (f_reg f)))"

definition reg_wr :: "regs \<Rightarrow> field \<Rightarrow> u32 \<Rightarrow> regs" where
  "reg_wr m f v = m(f_reg f :=
     (m (f_reg f) AND NOT (push_bit (f_shift f) (mask (f_width f))))
     OR push_bit (f_shift f) (take_bit (f_width f) v))"

lemma bit_reg_wr:
  "bit (reg_wr m f v r) n \<longleftrightarrow> n < 32 \<and>
     (if r = f_reg f \<and> f_shift f \<le> n \<and> n < f_shift f + f_width f
      then bit v (n - f_shift f) else bit (m r) n)"
  by (auto simp: reg_wr_def bit_simps dest: bit_imp_le_length)

lemma bit_reg_rd:
  "bit (reg_rd m f) n \<longleftrightarrow> n < f_width f \<and> bit (m (f_reg f)) (f_shift f + n)"
  by (auto simp: reg_rd_def bit_simps)

interpretation reg_file: register_set reg_rd reg_wr
proof unfold_locales
  fix f v and m :: regs
  assume wf: "wf_field f"
  show "reg_rd (reg_wr m f v) f = take_bit (f_width f) v"
    by (rule bit_eqI)
      (use wf in \<open>auto simp: bit_reg_rd bit_reg_wr bit_take_bit_iff wf_field_def\<close>)
next
  fix f g v and m :: regs
  assume "wf_field f" and dis: "disjoint_fields f g"
  show "reg_rd (reg_wr m f v) g = reg_rd m g"
    by (rule bit_eqI)
      (use dis in \<open>auto simp: bit_reg_rd bit_reg_wr disjoint_fields_def dest: bit_imp_le_length\<close>)
qed

section \<open>Status registers\<close>

text \<open>A write to a register of \<open>W\<close> clears the bits that are one in the word written.\<close>

definition w1c_wr :: "nat set \<Rightarrow> regs \<Rightarrow> field \<Rightarrow> u32 \<Rightarrow> regs" where
  "w1c_wr W m f v =
     (if f_reg f \<in> W then m(f_reg f := m (f_reg f) AND NOT (reg_wr m f v (f_reg f)))
      else reg_wr m f v)"

lemma w1c_wr_other: "r \<noteq> f_reg f \<Longrightarrow> w1c_wr W m f v r = m r"
  by (simp add: w1c_wr_def reg_wr_def)

lemma w1c_wr_plain: "f_reg f \<notin> W \<Longrightarrow> w1c_wr W m f v = reg_wr m f v"
  by (simp add: w1c_wr_def)

lemma reg_wr_whole [simp]: "reg_wr m (whole_reg r) v = m(r := v)"
proof -
  have "NOT (mask 32) = (0 :: u32)" by (simp add: mask_eq_exp_minus_1)
  then show ?thesis by (simp add: reg_wr_def whole_reg_def take_bit_word_eq_self)
qed

lemma reg_rd_whole [simp]: "reg_rd m (whole_reg r) = m r"
  by (simp add: reg_rd_def whole_reg_def take_bit_word_eq_self)

lemma f_reg_whole [simp]: "f_reg (whole_reg r) = r"
  by (simp add: whole_reg_def)

lemma w1c_wr_ack: "r \<in> W \<Longrightarrow> w1c_wr W m (whole_reg r) v = m(r := m r AND NOT v)"
  by (simp add: w1c_wr_def)

end
