(* ===== verification/Scp.thy ===== *)
theory Scp
  imports Mmio
begin

text \<open>
  \<^verbatim>\<open>src/driver/platform/a64/scp.h\<close> and \<^verbatim>\<open>include/scp_session\<close>: the driver of the
  system-control processor (SCP). Clients put a Forth program into a buffer they share with
  the driver and request its execution; the driver hands one request at a time to the SCP
  through an SRAM buffer and a mailbox, and returns the response to the session whose request
  it was. The registry of sessions is a list in iteration order; every session has an
  identity. Quota accounting, capabilities, log output and the creation of the session
  object are left out. A signal to a client is recorded in the session (\<open>signals\<close>).
\<close>

section \<open>Mailbox\<close>

definition Reception_mq0 :: field where "Reception_mq0 = Fld 0x0 0 1"
definition Transmit_mq0 :: field where "Transmit_mq0 = Fld 0x0 4 1"
definition Reception_mq1 :: field where "Reception_mq1 = Fld 0x0 8 1"
definition Transmit_mq1 :: field where "Transmit_mq1 = Fld 0x0 12 1"
definition Irq_en_receive_mq1 :: field where "Irq_en_receive_mq1 = Fld 0x60 2 1"
definition Irq_status_receive_mq1 :: field where "Irq_status_receive_mq1 = Fld 0x70 2 1"
definition Queue_mq0 :: field where "Queue_mq0 = whole_reg 0x180"
definition Queue_mq1 :: field where "Queue_mq1 = whole_reg 0x184"

lemmas mbox_field_defs = Reception_mq0_def Transmit_mq0_def Reception_mq1_def Transmit_mq1_def
  Irq_en_receive_mq1_def Irq_status_receive_mq1_def Queue_mq0_def Queue_mq1_def

definition USER_SCP :: u32 where "USER_SCP = 0"
definition USER_ARM :: u32 where "USER_ARM = 1"

definition clear_status :: reg_program where
  "clear_status = [(Irq_status_receive_mq1, 1)]"

definition value_to_scp :: "u32 \<Rightarrow> reg_program" where
  "value_to_scp v = [(Queue_mq0, v)]"

text \<open>The constructor of \<^verbatim>\<open>Mbox_mmio\<close>: channel 0 is ARM to SCP, channel 1 is SCP to ARM.\<close>

definition mbox_init :: reg_program where
  "mbox_init = [(Reception_mq0, USER_SCP), (Transmit_mq0, USER_ARM), (Reception_mq1, USER_ARM),
     (Transmit_mq1, USER_SCP), (Irq_en_receive_mq1, 1)] @ clear_status"

section \<open>Shared buffers\<close>

definition CAPACITY :: nat where "CAPACITY = 1020"
definition MAX_REQUEST_LEN :: nat where "MAX_REQUEST_LEN = 1000"
definition MAX_RESPONSE_LEN :: nat where "MAX_RESPONSE_LEN = 1000"

record shared_buffer =
  sb_count :: u32
  sb_chars :: string

definition swizzled_index :: "u32 \<Rightarrow> u32" where
  "swizzled_index i = i + 3 - 2 * (i AND 3)"

text \<open>The index used for byte \<open>i\<close> of a buffer.\<close>

definition swz :: "nat \<Rightarrow> nat" where
  "swz i = unat (swizzled_index (of_nat i))"

section \<open>Sessions\<close>

datatype response_error = UNKNOWN | TOO_LARGE
datatype response_result = Response nat | Response_error response_error

record session =
  ses_id :: nat
  ds :: string
  request_len :: nat
  response_result :: response_result
  response_count :: u32
  response_sigh :: bool
  signals :: nat
  exec_id :: "u32 option"

definition new_session :: "nat \<Rightarrow> session" where
  "new_session i = \<lparr>ses_id = i, ds = replicate 4096 (CHR 0x00), request_len = 0,
     response_result = Response_error UNKNOWN, response_count = 0, response_sigh = False,
     signals = 0, exec_id = None\<rparr>"

definition matches :: "u32 \<Rightarrow> session \<Rightarrow> bool" where
  "matches n s \<longleftrightarrow> (case exec_id s of None \<Rightarrow> False | Some m \<Rightarrow> m = n)"

text \<open>
  \<^verbatim>\<open>deliver_response\<close>: \<open>fn\<close> fills the shared buffer and tells the result.
\<close>

definition deliver_response :: "(string \<Rightarrow> nat \<Rightarrow> response_result \<times> string) \<Rightarrow> session \<Rightarrow> session" where
  "deliver_response fn s =
     (let (result, ds') = fn (ds s) MAX_RESPONSE_LEN
      in s\<lparr>ds := ds', response_result := result, response_count := response_count s + 1,
           signals := signals s + (if response_sigh s then 1 else 0), exec_id := None\<rparr>)"

section \<open>The driver\<close>

datatype scp_state = IDLE | BUSY

record scp_hw =
  scp_st :: scp_state
  last_submit :: u32
  last_response :: u32
  mib :: shared_buffer
  mob :: shared_buffer
  mbox_sent :: "u32 list"

datatype submit_error = SUBMIT_BUSY | SUBMIT_CAPACITY
datatype retrieve_error = RETRIEVE_CAPACITY

text \<open>The copy loops, byte by byte in index order.\<close>

definition copy_to_mib :: "string \<Rightarrow> nat \<Rightarrow> string \<Rightarrow> string" where
  "copy_to_mib str len chars = fold (\<lambda>i cs. cs[swz i := str ! i]) [0..<len] chars"

definition copy_from_mob :: "string \<Rightarrow> nat \<Rightarrow> string \<Rightarrow> string" where
  "copy_from_mob chars len dst = fold (\<lambda>i d. d[i := chars ! swz i]) [0..<len] dst"

definition submit_to_scp :: "string \<Rightarrow> nat \<Rightarrow> scp_hw \<Rightarrow> (submit_error + u32) \<times> scp_hw" where
  "submit_to_scp str len hw =
     (if scp_st hw \<noteq> IDLE then (Inl SUBMIT_BUSY, hw)
      else if CAPACITY < len then (Inl SUBMIT_CAPACITY, hw)
      else let n = last_submit hw + 1
           in (Inr n, hw\<lparr>mib := \<lparr>sb_count = of_nat len AND 0x3ff,
                                  sb_chars = copy_to_mib str len (sb_chars (mib hw))\<rparr>,
                        last_submit := n, mbox_sent := mbox_sent hw @ [n], scp_st := BUSY\<rparr>))"

definition retrieve_from_scp :: "shared_buffer \<Rightarrow> string \<Rightarrow> nat \<Rightarrow> (retrieve_error + nat) \<times> string" where
  "retrieve_from_scp b dst dst_size =
     (let len = unat (sb_count b); mob_saturated = (1000 \<le> len)
      in if mob_saturated \<or> dst_size < len then (Inl RETRIEVE_CAPACITY, dst)
         else (Inr len, copy_from_mob (sb_chars b) len dst))"

text \<open>\<^verbatim>\<open>with_pending_request\<close> with the scheduler's function\<close>

definition with_pending_request :: "session \<Rightarrow> scp_hw \<Rightarrow> session \<times> scp_hw" where
  "with_pending_request s hw =
     (if request_len s = 0 then (s, hw)
      else let (result, hw') = submit_to_scp (ds s) (request_len s) hw
           in (s\<lparr>exec_id := (case result of Inl _ \<Rightarrow> None | Inr n \<Rightarrow> Some n), request_len := 0\<rparr>, hw'))"

fun schedule :: "session list \<Rightarrow> scp_hw \<Rightarrow> session list \<times> scp_hw" where
  "schedule [] hw = ([], hw)"
| "schedule (s # ss) hw =
     (let (s', hw1) = (if scp_st hw \<noteq> IDLE then (s, hw) else with_pending_request s hw);
          (ss', hw2) = schedule ss hw1
      in (s' # ss', hw2))"

record scp =
  sessions :: "session list"
  hw :: scp_hw

definition scp_schedule :: "scp \<Rightarrow> scp" where
  "scp_schedule d = (let (ss, h) = schedule (sessions d) (hw d) in \<lparr>sessions = ss, hw = h\<rparr>)"

text \<open>The function \<open>deliver_response\<close> gets from \<^verbatim>\<open>_handle_irq\<close>\<close>

definition retrieve_result :: "shared_buffer \<Rightarrow> string \<Rightarrow> nat \<Rightarrow> response_result \<times> string" where
  "retrieve_result b dst dst_size =
     (case retrieve_from_scp b dst dst_size of
        (Inl _, dst') \<Rightarrow> (Response_error TOO_LARGE, dst')
      | (Inr len, dst') \<Rightarrow> (Response len, dst'))"

text \<open>\<^verbatim>\<open>_handle_irq\<close>: the argument is the value in the mailbox, if there is one.\<close>

definition handle_irq :: "u32 option \<Rightarrow> scp \<Rightarrow> scp" where
  "handle_irq v d = scp_schedule
     (case v of None \<Rightarrow> d
      | Some n \<Rightarrow> d\<lparr>sessions := map (\<lambda>s. if matches n s
                        then deliver_response (retrieve_result (mob (hw d))) s else s) (sessions d),
                    hw := (hw d)\<lparr>last_response := n, scp_st := IDLE\<rparr>\<rparr>)"

section \<open>Operations of the clients\<close>

datatype request_error = REQUEST_TOO_LARGE

text \<open>\<open>on_session i f\<close>: an operation of the session with identity \<open>i\<close>.\<close>

definition on_session :: "nat \<Rightarrow> (session \<Rightarrow> session) \<Rightarrow> scp \<Rightarrow> scp" where
  "on_session i f d = d\<lparr>sessions := map (\<lambda>s. if ses_id s = i then f s else s) (sessions d)\<rparr>"

definition request :: "nat \<Rightarrow> nat \<Rightarrow> scp \<Rightarrow> (request_error + unit) \<times> scp" where
  "request i len d =
     (if MAX_REQUEST_LEN < len then (Inl REQUEST_TOO_LARGE, d)
      else (Inr (), scp_schedule (on_session i
              (\<lambda>s. s\<lparr>request_len := len, response_result := Response_error UNKNOWN\<rparr>) d)))"

definition sigh :: "nat \<Rightarrow> scp \<Rightarrow> scp" where
  "sigh i d = on_session i (\<lambda>s. s\<lparr>response_sigh := True\<rparr>) d"

definition write_ds :: "nat \<Rightarrow> string \<Rightarrow> scp \<Rightarrow> scp" where
  "write_ds i bytes d = on_session i (\<lambda>s. s\<lparr>ds := bytes @ drop (length bytes) (ds s)\<rparr>) d"

text \<open>
  The driver starts with the session of its local connection. What the two SRAM buffers hold
  at that time is not known.
\<close>

definition init_hw :: "shared_buffer \<Rightarrow> shared_buffer \<Rightarrow> scp_hw" where
  "init_hw a b = \<lparr>scp_st = IDLE, last_submit = 0, last_response = 0, mib = a, mob = b,
     mbox_sent = []\<rparr>"

definition init_scp :: "shared_buffer \<Rightarrow> shared_buffer \<Rightarrow> u32 option \<Rightarrow> scp" where
  "init_scp a b v = handle_irq v \<lparr>sessions = [new_session 0], hw = init_hw a b\<rparr>"

section \<open>Executing a program\<close>

datatype execute_error = EXEC_REQUEST_TOO_LARGE | EXEC_RESPONSE_TOO_LARGE

text \<open>
  \<^verbatim>\<open>Session::_execute\<close> after the request was accepted: what the client finds at each
  response signal, in order. \<open>None\<close> stands for a client that still waits.
\<close>

fun execute_wait :: "response_result list \<Rightarrow> (execute_error + nat) option" where
  "execute_wait [] = None"
| "execute_wait (Response n # rs) = Some (Inr n)"
| "execute_wait (Response_error UNKNOWN # rs) = execute_wait rs"
| "execute_wait (Response_error TOO_LARGE # rs) = Some (Inl EXEC_RESPONSE_TOO_LARGE)"

text \<open>
  \<^verbatim>\<open>Local_connection::execute\<close>: what the request function leaves in the buffer and the
  length it returns. \<^verbatim>\<open>copy_cstring\<close> copies at most one byte less than the buffer size and
  terminates the copy with a zero byte.
\<close>

definition copy_cstring :: "string \<Rightarrow> nat \<Rightarrow> string" where
  "copy_cstring s n = (if n = 0 then [] else take (n - 1) (cstring s) @ [CHR 0x00])"

definition local_request :: "string \<Rightarrow> string \<times> nat" where
  "local_request command =
     (if MAX_REQUEST_LEN < length command then ([], 0)
      else (copy_cstring command MAX_REQUEST_LEN, length command))"

definition local_execute :: "nat \<Rightarrow> string \<Rightarrow> scp \<Rightarrow> (request_error + unit) \<times> scp" where
  "local_execute i command d =
     (let (bytes, len) = local_request command in request i len (write_ds i bytes d))"

section \<open>Steps\<close>

text \<open>
  Who acts: the SCP (its interrupts and what it writes to the buffer) or a client. \<open>ok\<close>
  restricts what the SCP may report in which state.
\<close>

datatype actor = Scp_side | Client nat

inductive scp_step :: "(u32 option \<Rightarrow> scp \<Rightarrow> bool) \<Rightarrow> actor \<Rightarrow> scp \<Rightarrow> scp \<Rightarrow> bool" for ok where
  irq: "ok v d \<Longrightarrow> scp_step ok Scp_side d (handle_irq v d)"
| scp_writes: "length (sb_chars b) = CAPACITY \<Longrightarrow>
    scp_step ok Scp_side d (d\<lparr>hw := (hw d)\<lparr>mob := b\<rparr>\<rparr>)"
| client_request: "request i len d = (r, d') \<Longrightarrow> scp_step ok (Client i) d d'"
| client_sigh: "scp_step ok (Client i) d (sigh i d)"
| client_write: "length bytes \<le> 4096 \<Longrightarrow> scp_step ok (Client i) d (write_ds i bytes d)"
| open_session: "i \<notin> ses_id ` set (sessions d) \<Longrightarrow> sessions d = xs @ ys \<Longrightarrow>
    scp_step ok (Client i) d (d\<lparr>sessions := xs @ new_session i # ys\<rparr>)"
| close_session:
    "scp_step ok (Client i) d (d\<lparr>sessions := filter (\<lambda>s. ses_id s \<noteq> i) (sessions d)\<rparr>)"

inductive scp_reach :: "(u32 option \<Rightarrow> scp \<Rightarrow> bool) \<Rightarrow> scp \<Rightarrow> bool" for ok where
  start: "length (sb_chars a) = CAPACITY \<Longrightarrow> length (sb_chars b) = CAPACITY \<Longrightarrow>
    scp_reach ok (init_scp a b v)"
| move: "scp_reach ok d \<Longrightarrow> scp_step ok a d d' \<Longrightarrow> scp_reach ok d'"

inductive_cases scp_stepE: "scp_step ok a d d'"

end
