(* ===== verification/Scp_Props.thy ===== *)
theory Scp_Props
  imports Scp
begin

text \<open>
  The SCP driver: byte order in the shared buffers, the scheduler, and the way a response
  finds its session.
\<close>

section \<open>Copying through a permuted index\<close>

text \<open>
  What the copy loops rely on: within the capacity the index function is injective and stays
  within the capacity.
\<close>

locale buffer_index =
  fixes idx :: "nat \<Rightarrow> nat" and cap :: nat
  assumes idx_inj: "i < cap \<Longrightarrow> j < cap \<Longrightarrow> idx i = idx j \<Longrightarrow> i = j"
    and idx_bound: "i < cap \<Longrightarrow> idx i < cap"
begin

lemma length_copy_in:
  "length (fold (\<lambda>i cs. cs[idx i := str ! i]) is chars) = length chars"
  by (induction "is" arbitrary: chars) simp_all

lemma copy_in_nth:
  assumes "len \<le> cap" and "cap \<le> length chars" and "i < len"
  shows "fold (\<lambda>i cs. cs[idx i := str ! i]) [0..<len] chars ! idx i = str ! i"
  using assms
proof (induction len)
  case (Suc len)
  show ?case
  proof (cases "i = len")
    case True
    then show ?thesis using Suc.prems idx_bound [of i] by (simp add: length_copy_in)
  next
    case False
    then have "idx len \<noteq> idx i" using Suc.prems idx_inj [of len i] by auto
    then show ?thesis using Suc False by simp
  qed
qed simp

lemma copy_in_view:
  assumes "len \<le> cap" and "cap \<le> length chars" and "len \<le> length str"
  shows "map (\<lambda>i. fold (\<lambda>i cs. cs[idx i := str ! i]) [0..<len] chars ! idx i) [0..<len] = take len str"
  by (rule nth_equalityI) (use assms copy_in_nth [OF assms(1,2)] in auto)

end

lemma copy_out:
  "len \<le> length dst \<Longrightarrow> fold (\<lambda>i d. d[i := f i]) [0..<len] dst = map f [0..<len] @ drop len dst"
proof (induction len)
  case (Suc len)
  then show ?case
    by (simp add: list_update_append Cons_nth_drop_Suc [of len dst, symmetric])
qed simp

section \<open>The swizzled index\<close>

lemma and_3_mod: "(of_nat i :: u32) AND 3 = of_nat (i mod 4)"
proof -
  have "(of_nat i :: u32) AND 3 = take_bit 2 (of_nat i)"
    by (simp add: take_bit_eq_mask mask_eq_exp_minus_1)
  also have "\<dots> = of_nat (take_bit 2 i)" by (simp add: of_nat_take_bit)
  finally show ?thesis by (simp add: take_bit_eq_mod)
qed

lemma invert_low_bits:
  "i = 4 * a + r \<Longrightarrow> r < 4 \<Longrightarrow> i + 3 - 2 * r = 4 * a + (3 - r)" for i a r :: nat
  by arith

lemma swz_eq:
  assumes "i < CAPACITY"
  shows "swz i = 4 * (i div 4) + (3 - i mod 4)"
proof -
  have "swizzled_index (of_nat i) = of_nat (i + 3) - of_nat (2 * (i mod 4))"
    unfolding swizzled_index_def and_3_mod by simp
  also have "\<dots> = of_nat (i + 3 - 2 * (i mod 4))"
    by (rule of_nat_diff [symmetric]) presburger
  finally have "swz i = unat (of_nat (i + 3 - 2 * (i mod 4)) :: u32)"
    unfolding swz_def by (simp only:)
  also have "\<dots> = i + 3 - 2 * (i mod 4)"
    unfolding unat_of_nat by (rule mod_less) (use assms in \<open>simp add: CAPACITY_def\<close>)
  also have "\<dots> = 4 * (i div 4) + (3 - i mod 4)"
    by (rule invert_low_bits) simp_all
  finally show ?thesis .
qed

lemma four_digits:
  "4 * a + (3 - r) = 4 * b + (3 - s) \<Longrightarrow> r < 4 \<Longrightarrow> s < 4 \<Longrightarrow> a = b \<and> r = s" for a b r s :: nat
  by presburger

interpretation swizzled: buffer_index swz CAPACITY
proof unfold_locales
  fix i j assume "i < CAPACITY" "j < CAPACITY" "swz i = swz j"
  then have "4 * (i div 4) + (3 - i mod 4) = 4 * (j div 4) + (3 - j mod 4)" by (simp add: swz_eq)
  then have "i div 4 = j div 4 \<and> i mod 4 = j mod 4" by (rule four_digits) simp_all
  then show "i = j" by (metis mult_div_mod_eq)
next
  fix i assume i: "i < CAPACITY"
  then have "i div 4 < 255" by (simp add: CAPACITY_def less_mult_imp_div_less)
  then show "swz i < CAPACITY" using i by (simp add: swz_eq) (simp add: CAPACITY_def)
qed

text \<open>
  How the SCP sees a buffer, independent of the driver: it is a big-endian processor on a bus
  of 32-bit words, so the bytes of each word come in the opposite order (\<open>rev\<close>).
\<close>

definition scp_byte :: "string \<Rightarrow> nat \<Rightarrow> char" where
  "scp_byte chars i = rev (take 4 (drop (4 * (i div 4)) chars)) ! (i mod 4)"

definition scp_view :: "shared_buffer \<Rightarrow> string" where
  "scp_view b = map (scp_byte (sb_chars b)) [0..<unat (sb_count b)]"

lemma scp_byte_swz:
  assumes "length chars = CAPACITY" and "i < CAPACITY"
  shows "scp_byte chars i = chars ! swz i"
proof -
  have "i div 4 < 255" using assms(2) by (simp add: CAPACITY_def less_mult_imp_div_less)
  then have "4 * (i div 4) + 4 \<le> length chars" using assms(1) by (simp add: CAPACITY_def)
  then have "length (take 4 (drop (4 * (i div 4)) chars)) = 4" by simp
  then have "scp_byte chars i = take 4 (drop (4 * (i div 4)) chars) ! (3 - i mod 4)"
    by (simp add: scp_byte_def rev_nth)
  also have "\<dots> = chars ! (4 * (i div 4) + (3 - i mod 4))"
    using \<open>4 * (i div 4) + 4 \<le> length chars\<close> by simp
  finally show ?thesis by (simp add: swz_eq [OF assms(2)])
qed

lemma scp_bytes_swz:
  assumes "length chars = CAPACITY" and "n \<le> CAPACITY"
  shows "map (scp_byte chars) [0..<n] = map (\<lambda>i. chars ! swz i) [0..<n]"
  using assms by (simp add: scp_byte_swz)

lemma submitted_view:
  assumes "scp_st h = IDLE" and "len \<le> MAX_REQUEST_LEN" and "len \<le> length str"
    and "length (sb_chars (mib h)) = CAPACITY"
  shows "fst (submit_to_scp str len h) = Inr (last_submit h + 1)
    \<and> scp_view (mib (snd (submit_to_scp str len h))) = take len str
    \<and> scp_st (snd (submit_to_scp str len h)) = BUSY
    \<and> mbox_sent (snd (submit_to_scp str len h)) = mbox_sent h @ [last_submit h + 1]
    \<and> length (sb_chars (mib (snd (submit_to_scp str len h)))) = CAPACITY"
proof -
  have cap: "len \<le> CAPACITY" using assms(2) by (simp add: CAPACITY_def MAX_REQUEST_LEN_def)
  have "(of_nat len :: u32) AND 0x3ff = take_bit 10 (of_nat len)"
    by (simp add: take_bit_eq_mask mask_eq_exp_minus_1)
  also have "\<dots> = of_nat (take_bit 10 len)" by (simp add: of_nat_take_bit)
  also have "take_bit 10 len = len"
    using assms(2) by (simp add: take_bit_eq_mod MAX_REQUEST_LEN_def)
  finally have count: "unat ((of_nat len :: u32) AND 0x3ff) = len"
    using assms(2) by (simp add: MAX_REQUEST_LEN_def unat_of_nat)
  have length: "length (copy_to_mib str len (sb_chars (mib h))) = CAPACITY"
    using assms(4) swizzled.length_copy_in [of str "[0..<len]" "sb_chars (mib h)"] by (simp add: copy_to_mib_def)
  have "map (scp_byte (copy_to_mib str len (sb_chars (mib h)))) [0..<len] = take len str"
    using swizzled.copy_in_view [OF cap, of "sb_chars (mib h)" str] assms(3,4)
    unfolding scp_bytes_swz [OF length cap] by (simp add: copy_to_mib_def)
  then show ?thesis
    using assms cap length by (simp add: submit_to_scp_def Let_def scp_view_def count)
qed

text \<open>
  C2: a request of any admissible length that is submitted to the idle SCP arrives: the
  big-endian SCP, which finds the bytes of every word in the opposite order, sees exactly the
  bytes of the request, in order, and their number; the driver is busy and the mailbox got the
  new sequence number. No byte is written outside the buffer.
\<close>

theorem submit_arrives:
  assumes "scp_st h = IDLE" and "len \<le> MAX_REQUEST_LEN" and "len \<le> length str"
    and "length (sb_chars (mib h)) = CAPACITY"
  shows "fst (submit_to_scp str len h) = Inr (last_submit h + 1)
    \<and> scp_view (mib (snd (submit_to_scp str len h))) = take len str
    \<and> scp_st (snd (submit_to_scp str len h)) = BUSY
    \<and> mbox_sent (snd (submit_to_scp str len h)) = mbox_sent h @ [last_submit h + 1]
    \<and> length (sb_chars (mib (snd (submit_to_scp str len h)))) = CAPACITY"
  by (rule submitted_view [OF assms])

text \<open>
  C15: a response is retrieved completely and in order, or refused: with fewer than 1000
  bytes that fit the destination, the destination starts with the bytes as the big-endian SCP
  wrote them and keeps its rest; otherwise the capacity error is reported and the destination
  is untouched.
\<close>

theorem retrieve_exact:
  assumes "dst_size \<le> length dst" and "length (sb_chars b) = CAPACITY"
  shows "retrieve_from_scp b dst dst_size =
    (if unat (sb_count b) < 1000 \<and> unat (sb_count b) \<le> dst_size
     then (Inr (unat (sb_count b)), scp_view b @ drop (unat (sb_count b)) dst)
     else (Inl RETRIEVE_CAPACITY, dst))"
proof -
  have "scp_view b = map (\<lambda>i. sb_chars b ! swz i) [0..<unat (sb_count b)]" if "unat (sb_count b) < 1000"
    unfolding scp_view_def by (rule scp_bytes_swz [OF assms(2)]) (use that in \<open>simp add: CAPACITY_def\<close>)
  then show ?thesis
    using assms copy_out [of "unat (sb_count b)" dst]
    by (auto simp: retrieve_from_scp_def Let_def copy_from_mob_def)
qed

section \<open>The scheduler\<close>

definition bounded_requests :: "session list \<Rightarrow> bool" where
  "bounded_requests ss \<longleftrightarrow> (\<forall>s \<in> set ss. request_len s \<le> MAX_REQUEST_LEN)"

lemma schedule_busy: "scp_st h \<noteq> IDLE \<Longrightarrow> schedule ss h = (ss, h)"
  by (induction ss) auto

lemma with_pending_busy:
  "scp_st h = IDLE \<Longrightarrow> request_len s \<noteq> 0 \<Longrightarrow> request_len s \<le> MAX_REQUEST_LEN \<Longrightarrow>
    with_pending_request s h = (s\<lparr>exec_id := Some (last_submit h + 1), request_len := 0\<rparr>,
      snd (submit_to_scp (ds s) (request_len s) h))
    \<and> scp_st (snd (submit_to_scp (ds s) (request_len s) h)) = BUSY
    \<and> last_submit (snd (submit_to_scp (ds s) (request_len s) h)) = last_submit h + 1"
  by (simp add: with_pending_request_def submit_to_scp_def CAPACITY_def MAX_REQUEST_LEN_def Let_def)

text \<open>The first pending request in registry order is submitted, if the SCP is idle.\<close>

lemma schedule_idle:
  assumes "bounded_requests ss" and "scp_st h = IDLE"
  shows "schedule ss h =
    (case List.extract (\<lambda>s. request_len s \<noteq> 0) ss of
       None \<Rightarrow> (ss, h)
     | Some (xs, s, ys) \<Rightarrow> (xs @ s\<lparr>exec_id := Some (last_submit h + 1), request_len := 0\<rparr> # ys,
                            snd (submit_to_scp (ds s) (request_len s) h)))"
  using assms
proof (induction ss)
  case (Cons s ss)
  show ?case
  proof (cases "request_len s = 0")
    case True
    then show ?thesis
      using Cons by (auto simp: with_pending_request_def bounded_requests_def extract_Cons_code
          split: option.split prod.split)
  next
    case False
    with Cons.prems with_pending_busy [of h s] show ?thesis
      by (simp add: bounded_requests_def schedule_busy extract_Cons_code)
  qed
qed (simp add: extract_Nil_code)

lemma schedule_cases:
  assumes "bounded_requests ss" and "scp_st h = IDLE" and "schedule ss h = (ss', h')"
  obtains "ss' = ss" and "h' = h" and "\<forall>s \<in> set ss. request_len s = 0"
  | xs s ys where "ss = xs @ s # ys" and "request_len s \<noteq> 0"
    and "\<forall>t \<in> set xs. request_len t = 0"
    and "ss' = xs @ s\<lparr>exec_id := Some (last_submit h + 1), request_len := 0\<rparr> # ys"
    and "h' = snd (submit_to_scp (ds s) (request_len s) h)"
    and "scp_st h' = BUSY" and "last_submit h' = last_submit h + 1"
proof (cases "List.extract (\<lambda>s. request_len s \<noteq> 0) ss")
  case None
  then have "schedule ss h = (ss, h)"
    using schedule_idle [OF assms(1,2)] unfolding None by simp
  moreover have "\<forall>s \<in> set ss. request_len s = 0"
    using None by (auto simp: extract_None_iff)
  ultimately show thesis using assms(3) that(1) by simp
next
  case (Some r)
  then obtain xs s ys where r: "r = (xs, s, ys)" by (cases r)
  then have "ss = xs @ s # ys" "request_len s \<noteq> 0" "\<forall>t \<in> set xs. request_len t = 0"
    using Some by (auto simp: extract_Some_iff)
  moreover from this have "request_len s \<le> MAX_REQUEST_LEN"
    using assms(1) by (simp add: bounded_requests_def)
  ultimately show thesis
    using that(2) [of xs s ys] schedule_idle [OF assms(1,2)] assms(2,3) Some r with_pending_busy [of h s]
    by simp
qed

text \<open>Scheduling does not touch what a client sees of its session.\<close>

definition client_view :: "session \<Rightarrow> nat \<times> string \<times> response_result \<times> u32" where
  "client_view s = (ses_id s, ds s, response_result s, response_count s)"

lemma pending_client_view: "client_view (fst (with_pending_request s h)) = client_view s"
  by (simp add: with_pending_request_def client_view_def Let_def split: prod.split)

lemma schedule_client_view: "map client_view (fst (schedule ss h)) = map client_view ss"
  by (induction ss arbitrary: h)
    (simp_all add: case_prod_beta Let_def pending_client_view)

text \<open>The invariant that holds whatever the SCP reports.\<close>

definition scp_inv :: "scp \<Rightarrow> bool" where
  "scp_inv d \<longleftrightarrow> bounded_requests (sessions d) \<and> distinct (map ses_id (sessions d))
     \<and> (\<forall>s \<in> set (sessions d). length (ds s) = 4096)
     \<and> length (sb_chars (mib (hw d))) = CAPACITY \<and> length (sb_chars (mob (hw d))) = CAPACITY"

definition no_waiting :: "scp \<Rightarrow> bool" where
  "no_waiting d \<longleftrightarrow> (scp_st (hw d) = IDLE \<longrightarrow> (\<forall>s \<in> set (sessions d). request_len s = 0))"

lemma scp_schedule_hw:
  "mob (hw (scp_schedule d)) = mob (hw d)"
  "length (sb_chars (mib (hw (scp_schedule d)))) = length (sb_chars (mib (hw d)))"
proof -
  have "mob (snd (schedule ss h)) = mob h
      \<and> length (sb_chars (mib (snd (schedule ss h)))) = length (sb_chars (mib h))" for ss h
  proof (induction ss arbitrary: h)
    case (Cons s ss)
    have "length (copy_to_mib str n cs) = length cs" for str n cs
      unfolding copy_to_mib_def by (rule swizzled.length_copy_in)
    with Cons show ?case
      by (auto simp: case_prod_beta Let_def with_pending_request_def submit_to_scp_def)
  qed simp
  then show "mob (hw (scp_schedule d)) = mob (hw d)"
    "length (sb_chars (mib (hw (scp_schedule d)))) = length (sb_chars (mib (hw d)))"
    by (simp_all add: scp_schedule_def case_prod_beta)
qed

lemma map_view_parts:
  assumes "map client_view ss = map client_view ts"
  shows "map ses_id ss = map ses_id ts" and "map ds ss = map ds ts"
    and "map response_result ss = map response_result ts"
    and "map response_count ss = map response_count ts"
  using arg_cong [OF assms, of "map fst"] arg_cong [OF assms, of "map (fst \<circ> snd)"]
    arg_cong [OF assms, of "map (fst \<circ> snd \<circ> snd)"] arg_cong [OF assms, of "map (snd \<circ> snd \<circ> snd)"]
  by (simp_all add: client_view_def comp_def)

lemma all_via_map: "map f xs = map f ys \<Longrightarrow> (\<forall>x \<in> set xs. P (f x)) \<longleftrightarrow> (\<forall>x \<in> set ys. P (f x))"
  by (metis (no_types, lifting) image_iff list.set_map)

lemma schedule_bounded: "bounded_requests ss \<Longrightarrow> bounded_requests (fst (schedule ss h))"
  by (induction ss arbitrary: h)
    (auto simp: case_prod_beta Let_def bounded_requests_def with_pending_request_def)

lemma scp_schedule_inv:
  assumes "scp_inv d"
  shows "scp_inv (scp_schedule d)" and "no_waiting (scp_schedule d)"
proof -
  let ?r = "schedule (sessions d) (hw d)"
  have r: "sessions (scp_schedule d) = fst ?r" "hw (scp_schedule d) = snd ?r"
    by (simp_all add: scp_schedule_def case_prod_beta)
  have v: "map client_view (fst ?r) = map client_view (sessions d)" by (rule schedule_client_view)
  have b: "bounded_requests (sessions d)" using assms by (simp add: scp_inv_def)
  show "scp_inv (scp_schedule d)"
    using assms schedule_bounded [OF b] map_view_parts(1) [OF v]
      all_via_map [OF map_view_parts(2) [OF v], of "\<lambda>x. length x = 4096"] scp_schedule_hw [of d]
    unfolding scp_inv_def r by simp
  show "no_waiting (scp_schedule d)"
  proof (cases "scp_st (hw d) = IDLE")
    case True
    show ?thesis
      unfolding no_waiting_def r
      by (rule schedule_cases [OF b True, of "fst ?r" "snd ?r"]) simp_all
  next
    case False
    then show ?thesis by (simp add: no_waiting_def r schedule_busy)
  qed
qed

section \<open>No request waits for an idle SCP\<close>

lemma retrieve_keeps_length: "length (snd (retrieve_result b dst n)) = length dst"
proof -
  have "length (fold (\<lambda>i d. d[i := f i]) is dst) = length dst" for f :: "nat \<Rightarrow> char" and "is"
    by (induction "is" arbitrary: dst) simp_all
  then show ?thesis
    by (simp add: retrieve_result_def retrieve_from_scp_def copy_from_mob_def Let_def)
qed

lemma deliver_fields [simp]:
  "ses_id (deliver_response fn s) = ses_id s"
  "request_len (deliver_response fn s) = request_len s"
  "exec_id (deliver_response fn s) = None"
  "ds (deliver_response fn s) = snd (fn (ds s) MAX_RESPONSE_LEN)"
  "response_result (deliver_response fn s) = fst (fn (ds s) MAX_RESPONSE_LEN)"
  "response_count (deliver_response fn s) = response_count s + 1"
  by (simp_all add: deliver_response_def case_prod_beta Let_def)

text \<open>The state after the response is delivered, before the next request is scheduled.\<close>

definition delivered :: "u32 option \<Rightarrow> scp \<Rightarrow> scp" where
  "delivered v d = (case v of None \<Rightarrow> d
     | Some n \<Rightarrow> d\<lparr>sessions := map (\<lambda>s. if matches n s
                       then deliver_response (retrieve_result (mob (hw d))) s else s) (sessions d),
                   hw := (hw d)\<lparr>last_response := n, scp_st := IDLE\<rparr>\<rparr>)"

lemma handle_irq_delivered: "handle_irq v d = scp_schedule (delivered v d)"
  by (simp add: handle_irq_def delivered_def)

lemma delivered_inv: "scp_inv d \<Longrightarrow> scp_inv (delivered v d)"
  by (cases v) (auto simp: delivered_def scp_inv_def bounded_requests_def retrieve_keeps_length
      comp_def if_distrib [of ses_id] cong: if_cong)

lemma on_session_inv:
  assumes "scp_inv d" and "\<And>s. ses_id (f s) = ses_id s"
    and "\<And>s. length (ds s) = 4096 \<Longrightarrow> length (ds (f s)) = 4096"
    and "\<And>s. request_len s \<le> MAX_REQUEST_LEN \<Longrightarrow> request_len (f s) \<le> MAX_REQUEST_LEN"
  shows "scp_inv (on_session i f d)"
  using assms by (auto simp: scp_inv_def on_session_def bounded_requests_def comp_def
      if_distrib [of ses_id] cong: if_cong)

lemma init_raw_inv:
  "length (sb_chars a) = CAPACITY \<Longrightarrow> length (sb_chars b) = CAPACITY \<Longrightarrow>
    scp_inv \<lparr>sessions = [new_session 0], hw = init_hw a b\<rparr>"
  by (simp add: scp_inv_def bounded_requests_def new_session_def init_hw_def)

lemma scp_step_inv:
  assumes "scp_step ok a d d'" and "scp_inv d" and "no_waiting d"
  shows "scp_inv d' \<and> no_waiting d'"
  using assms(1)
proof (cases rule: scp_step.cases)
  case (irq v)
  then show ?thesis
    using scp_schedule_inv [OF delivered_inv [OF assms(2)]] by (simp add: handle_irq_delivered)
next
  case (client_request i len r)
  have "scp_inv (on_session i (\<lambda>s. s\<lparr>request_len := len, response_result := Response_error UNKNOWN\<rparr>) d)"
    if "len \<le> MAX_REQUEST_LEN"
    by (rule on_session_inv [OF assms(2)]) (simp_all add: that)
  then show ?thesis
    using client_request assms(2,3) scp_schedule_inv by (auto simp: request_def split: if_splits)
next
  case (client_sigh i)
  have "scp_inv d'" unfolding client_sigh sigh_def by (rule on_session_inv [OF assms(2)]) simp_all
  then show ?thesis
    using client_sigh assms(3) by (auto simp: no_waiting_def sigh_def on_session_def)
next
  case (client_write bytes i)
  have "scp_inv d'" unfolding client_write write_ds_def
    by (rule on_session_inv [OF assms(2)]) (use client_write in simp_all)
  then show ?thesis
    using client_write assms(3) by (auto simp: no_waiting_def write_ds_def on_session_def)
next
  case (open_session i xs ys)
  then show ?thesis
    using assms(2,3) by (auto simp: scp_inv_def no_waiting_def bounded_requests_def new_session_def)
next
  case (close_session i)
  then show ?thesis
    using assms(2,3) by (auto simp: scp_inv_def no_waiting_def bounded_requests_def distinct_map_filter)
next
  case (scp_writes b)
  then show ?thesis using assms(2,3) by (simp add: scp_inv_def no_waiting_def)
qed

lemma scp_reach_inv: "scp_reach ok d \<Longrightarrow> scp_inv d \<and> no_waiting d"
proof (induction rule: scp_reach.induct)
  case (start a b v)
  then show ?case
    unfolding init_scp_def handle_irq_delivered
    using scp_schedule_inv [OF delivered_inv [OF init_raw_inv]] by blast
next
  case (move d a d')
  then show ?case using scp_step_inv by blast
qed

text \<open>
  C13: no lost wake-up: in every reachable state, whatever clients do and whatever the SCP
  reports, the driver is idle only if no session has a request that waits, and every waiting
  request fits the shared buffer.
\<close>

theorem no_request_waits_for_idle_scp:
  assumes "scp_reach ok d" and "scp_st (hw d) = IDLE" and "s \<in> set (sessions d)"
  shows "request_len s = 0 \<and> length (ds s) = 4096"
  using scp_reach_inv [OF assms(1)] assms(2,3) by (auto simp: no_waiting_def scp_inv_def)

section \<open>Which session a response belongs to\<close>

text \<open>The SCP answers a request with the sequence number of that request.\<close>

definition honest :: "u32 option \<Rightarrow> scp \<Rightarrow> bool" where
  "honest v d \<longleftrightarrow> scp_st (hw d) = IDLE \<or> v = None \<or> v = Some (last_submit (hw d))"

text \<open>Only the request submitted last executes, for at most one session.\<close>

definition executing :: "scp \<Rightarrow> session set" where
  "executing d = {s \<in> set (sessions d). exec_id s \<noteq> None}"

definition exec_inv :: "scp \<Rightarrow> bool" where
  "exec_inv d \<longleftrightarrow> (\<forall>s \<in> executing d. scp_st (hw d) = BUSY \<and> exec_id s = Some (last_submit (hw d)))
     \<and> (\<forall>s \<in> executing d. \<forall>t \<in> executing d. s = t)"

lemma exec_inv_none: "\<forall>s \<in> set (sessions d). exec_id s = None \<Longrightarrow> exec_inv d"
  by (auto simp: exec_inv_def executing_def)

lemma exec_inv_idle:
  "exec_inv d \<Longrightarrow> scp_st (hw d) = IDLE \<Longrightarrow> s \<in> set (sessions d) \<Longrightarrow> exec_id s = None"
  by (cases "exec_id s") (auto simp: exec_inv_def executing_def)

lemma scp_schedule_exec:
  assumes "scp_inv d" and "exec_inv d"
  shows "exec_inv (scp_schedule d)"
proof (cases "scp_st (hw d) = IDLE")
  case False
  then have "scp_schedule d = d" by (simp add: scp_schedule_def schedule_busy)
  then show ?thesis using assms(2) by simp
next
  case True
  have none: "\<forall>s \<in> set (sessions d). exec_id s = None" using exec_inv_idle [OF assms(2) True] by blast
  have b: "bounded_requests (sessions d)" using assms(1) by (simp add: scp_inv_def)
  obtain ss h where sch: "schedule (sessions d) (hw d) = (ss, h)" by fastforce
  then have d: "scp_schedule d = \<lparr>sessions = ss, hw = h\<rparr>" by (simp add: scp_schedule_def)
  show ?thesis
    using b True sch
  proof (cases rule: schedule_cases)
    case 1
    then show ?thesis using none d by (simp add: exec_inv_none)
  next
    case (2 xs s ys)
    then show ?thesis using none unfolding d exec_inv_def executing_def by auto
  qed
qed

lemma matches_iff: "matches n s \<longleftrightarrow> exec_id s = Some n"
  by (auto simp: matches_def split: option.split)

lemma delivered_exec:
  assumes "exec_inv d" and "honest v d"
  shows "exec_inv (delivered v d)"
proof (cases v)
  case None
  then show ?thesis using assms(1) by (simp add: delivered_def)
next
  case (Some n)
  have "exec_id s = None" if "s \<in> set (sessions d)" "\<not> matches n s" for s
  proof (cases "exec_id s")
    case (Some m)
    then have "scp_st (hw d) = BUSY" "m = last_submit (hw d)"
      using assms(1) that(1) by (auto simp: exec_inv_def executing_def)
    then show ?thesis
      using that(2) Some \<open>v = Some n\<close> assms(2) by (auto simp: honest_def matches_iff)
  qed
  then show ?thesis using Some by (intro exec_inv_none) (auto simp: delivered_def)
qed

lemma image_keep:
  "(\<And>s. e (g s) = e s) \<Longrightarrow> {s \<in> g ` A. e s \<noteq> None} = g ` {s \<in> A. e s \<noteq> None}"
  by auto

lemma on_session_exec:
  assumes "exec_inv d" and "\<And>s. exec_id (f s) = exec_id s"
  shows "exec_inv (on_session i f d)"
proof -
  let ?g = "\<lambda>s. if ses_id s = i then f s else s"
  have ex: "exec_id (?g s) = exec_id s" for s using assms(2) by simp
  have img: "executing (on_session i f d) = ?g ` executing d"
    using image_keep [of exec_id ?g "set (sessions d)", OF ex] by (simp add: executing_def on_session_def)
  have hw: "hw (on_session i f d) = hw d" by (simp add: on_session_def)
  note one = assms(1) [unfolded exec_inv_def, THEN conjunct2, rule_format]
    and busy = assms(1) [unfolded exec_inv_def, THEN conjunct1, rule_format]
  show ?thesis
    unfolding exec_inv_def hw
  proof (intro conjI ballI)
    fix s assume "s \<in> executing (on_session i f d)"
    then obtain x where x: "s = ?g x" "x \<in> executing d" unfolding img by (rule imageE)
    show "scp_st (hw d) = BUSY" "exec_id s = Some (last_submit (hw d))"
      using busy [OF x(2)] ex [of x] x(1) by simp_all
    fix t assume "t \<in> executing (on_session i f d)"
    then obtain y where "t = ?g y" "y \<in> executing d" unfolding img by (rule imageE)
    then show "s = t" using one [OF x(2), of y] x(1) by simp
  qed
qed

lemma exec_inv_more:
  assumes "exec_inv d" and "set ss \<subseteq> insert (new_session i) (set (sessions d))"
  shows "exec_inv (d\<lparr>sessions := ss\<rparr>)"
proof -
  have "executing (d\<lparr>sessions := ss\<rparr>) \<subseteq> executing d"
    using assms(2) by (auto simp: executing_def new_session_def)
  moreover have "hw (d\<lparr>sessions := ss\<rparr>) = hw d" by simp
  ultimately show ?thesis using assms(1) unfolding exec_inv_def by (simp only: subset_iff) blast
qed

lemma honest_step_exec:
  assumes "scp_step honest a d d'" and "scp_inv d" and "exec_inv d"
  shows "exec_inv d'"
  using assms(1)
proof (cases rule: scp_step.cases)
  case (irq v)
  then show ?thesis
    using assms(2,3) scp_schedule_exec [OF delivered_inv delivered_exec] by (simp add: handle_irq_delivered)
next
  case (client_request i len r)
  let ?f = "\<lambda>s. s\<lparr>request_len := len, response_result := Response_error UNKNOWN\<rparr>"
  have "scp_inv (on_session i ?f d)" if "len \<le> MAX_REQUEST_LEN"
    by (rule on_session_inv [OF assms(2)]) (simp_all add: that)
  moreover have "exec_inv (on_session i ?f d)" by (rule on_session_exec [OF assms(3)]) simp
  ultimately show ?thesis
    using client_request assms(3) scp_schedule_exec by (auto simp: request_def split: if_splits)
next
  case (client_sigh i)
  show ?thesis unfolding client_sigh sigh_def by (rule on_session_exec [OF assms(3)]) simp
next
  case (client_write bytes i)
  show ?thesis unfolding client_write write_ds_def by (rule on_session_exec [OF assms(3)]) simp
next
  case (open_session i xs ys)
  show ?thesis unfolding open_session by (rule exec_inv_more [OF assms(3)]) (use open_session in auto)
next
  case (close_session i)
  show ?thesis unfolding close_session by (rule exec_inv_more [OF assms(3)]) auto
next
  case (scp_writes b)
  then show ?thesis using assms(3) by (simp add: exec_inv_def executing_def)
qed

lemma honest_reach_exec: "scp_reach honest d \<Longrightarrow> exec_inv d"
proof (induction rule: scp_reach.induct)
  case (start a b v)
  let ?d = "\<lparr>sessions = [new_session 0], hw = init_hw a b\<rparr>"
  have "exec_inv ?d" "honest v ?d"
    by (simp_all add: exec_inv_none honest_def new_session_def init_hw_def)
  then show ?case
    unfolding init_scp_def handle_irq_delivered
    using scp_schedule_exec [OF delivered_inv [OF init_raw_inv [OF start]] delivered_exec] by blast
next
  case (move d a d')
  then show ?case using honest_step_exec scp_reach_inv by blast
qed

text \<open>
  C5: a response goes to the session whose program the SCP executed, and to no other. When
  the SCP reports the completion of the request submitted last, that session gets the
  content of the response buffer, its result and a further response; what every other
  session sees of its buffer and its result is unchanged.
\<close>

theorem response_reaches_its_session:
  assumes "scp_reach honest d" and "s \<in> set (sessions d)" and "exec_id s = Some n"
  shows "map client_view (sessions (handle_irq (Some n) d)) =
    map (\<lambda>t. if ses_id t = ses_id s
             then (ses_id s, snd (retrieve_result (mob (hw d)) (ds s) MAX_RESPONSE_LEN),
                   fst (retrieve_result (mob (hw d)) (ds s) MAX_RESPONSE_LEN), response_count s + 1)
             else client_view t) (sessions d)"
proof -
  have inv: "exec_inv d" "distinct (map ses_id (sessions d))"
    using honest_reach_exec [OF assms(1)] scp_reach_inv [OF assms(1)] by (simp_all add: scp_inv_def)
  have only: "matches n t \<longleftrightarrow> t = s" if "t \<in> set (sessions d)" for t
    using inv(1) that assms(2,3) by (auto simp: exec_inv_def executing_def matches_iff)
  have same: "ses_id t = ses_id s \<longleftrightarrow> t = s" if "t \<in> set (sessions d)" for t
    using inv(2) that assms(2) by (auto simp: distinct_map inj_on_def)
  have "map client_view (sessions (handle_irq (Some n) d)) = map client_view (sessions (delivered (Some n) d))"
    by (simp add: handle_irq_delivered scp_schedule_def case_prod_beta schedule_client_view)
  also have "\<dots> = map (\<lambda>t. if matches n t
      then client_view (deliver_response (retrieve_result (mob (hw d))) t) else client_view t) (sessions d)"
    by (simp add: delivered_def comp_def if_distrib [of client_view] cong: if_cong)
  finally show ?thesis using only same by (auto simp: client_view_def cong: if_cong)
qed

section \<open>Witnesses\<close>

definition blank_buffer :: shared_buffer where
  "blank_buffer = \<lparr>sb_count = 0, sb_chars = replicate CAPACITY (CHR 0x00)\<rparr>"

lemma submit_arrives_witness:
  "fst (submit_to_scp ''1 2 +'' 5 (init_hw blank_buffer blank_buffer)) = Inr 1
    \<and> scp_view (mib (snd (submit_to_scp ''1 2 +'' 5 (init_hw blank_buffer blank_buffer)))) = ''1 2 +''
    \<and> scp_st (snd (submit_to_scp ''1 2 +'' 5 (init_hw blank_buffer blank_buffer))) = BUSY"
  using submit_arrives [of "init_hw blank_buffer blank_buffer" 5 "''1 2 +''"]
  by (simp add: init_hw_def blank_buffer_def MAX_REQUEST_LEN_def)

lemma retrieve_exact_witness:
  "retrieve_from_scp \<lparr>sb_count = 3, sb_chars = ''-cba'' @ replicate 1016 (CHR ''x'')\<rparr> ''wxyz'' 4 = (Inr 3, ''abcz'')"
proof -
  let ?b = "\<lparr>sb_count = 3, sb_chars = ''-cba'' @ replicate 1016 (CHR ''x'')\<rparr>"
  have "scp_view ?b = ''abc''" by (simp add: scp_view_def scp_byte_def upt_rec)
  then show ?thesis
    using retrieve_exact [of 4 "''wxyz''" ?b] by (simp add: CAPACITY_def)
qed

text \<open>The local session (identity 0) has its program executed.\<close>

definition one_executing :: scp where
  "one_executing = snd (request 0 5 (init_scp blank_buffer blank_buffer None))"

lemma blank_length [simp]: "length (sb_chars blank_buffer) = CAPACITY"
  by (simp add: blank_buffer_def)

lemma init_reach: "scp_reach ok (init_scp blank_buffer blank_buffer v)"
  by (rule scp_reach.start) simp_all

lemma one_executing_reach: "scp_reach ok one_executing"
  unfolding one_executing_def
  by (rule scp_reach.move [OF init_reach scp_step.client_request]) (rule prod.collapse [symmetric])

lemma init_idle: "init_scp a b None = \<lparr>sessions = [new_session 0], hw = init_hw a b\<rparr>"
  by (simp add: init_scp_def handle_irq_def scp_schedule_def with_pending_request_def new_session_def
      init_hw_def)

lemma one_executing_session:
  "sessions one_executing = [(new_session 0)\<lparr>exec_id := Some 1\<rparr>] \<and> scp_st (hw one_executing) = BUSY"
  by (simp add: one_executing_def init_idle request_def on_session_def scp_schedule_def
      with_pending_request_def submit_to_scp_def new_session_def init_hw_def Let_def
      MAX_REQUEST_LEN_def CAPACITY_def)

lemma response_reaches_its_session_witness:
  "map client_view (sessions (handle_irq (Some 1) one_executing)) =
    [(0, snd (retrieve_result (mob (hw one_executing)) (ds (new_session 0)) MAX_RESPONSE_LEN),
      fst (retrieve_result (mob (hw one_executing)) (ds (new_session 0)) MAX_RESPONSE_LEN), 1)]"
  using response_reaches_its_session [OF one_executing_reach, of "(new_session 0)\<lparr>exec_id := Some 1\<rparr>" 1]
  by (simp add: one_executing_session new_session_def)

lemma no_request_waits_for_idle_scp_witness:
  "request_len (new_session 0) = 0 \<and> length (ds (new_session 0)) = 4096"
  by (rule no_request_waits_for_idle_scp
      [OF init_reach [where v = None and ok = honest]])
    (simp_all add: init_idle init_hw_def)

section \<open>Boundary cases of the local connection\<close>

text \<open>A session that waits for a response although nothing of it is pending or executing.\<close>

definition forgotten :: "nat \<Rightarrow> u32 \<Rightarrow> scp \<Rightarrow> bool" where
  "forgotten i c d \<longleftrightarrow> (\<exists>s \<in> set (sessions d). ses_id s = i \<and> request_len s = 0 \<and> exec_id s = None
     \<and> response_result s = Response_error UNKNOWN \<and> response_count s = c)"

lemma forgotten_schedule:
  assumes "forgotten i c d"
  shows "forgotten i c (scp_schedule d)"
proof -
  have "\<exists>t \<in> set (fst (schedule ss h)). t = s" if "s \<in> set ss" "request_len s = 0" for s ss h
    using that
    by (induction ss arbitrary: h) (auto simp: case_prod_beta Let_def with_pending_request_def)
  then show ?thesis
    using assms by (auto simp: forgotten_def scp_schedule_def case_prod_beta)
qed

lemma forgotten_other: "forgotten i c d \<Longrightarrow> i \<noteq> j \<Longrightarrow> forgotten i c (on_session j f d)"
  by (auto simp: forgotten_def on_session_def)

lemma forgotten_step:
  assumes "scp_step ok a d d'" and "a \<noteq> Client i" and "forgotten i c d"
  shows "forgotten i c d'"
  using assms(1)
proof (cases rule: scp_step.cases)
  case (irq v)
  have "forgotten i c (delivered v d)"
    using assms(3) by (cases v) (auto simp: forgotten_def delivered_def matches_iff)
  then show ?thesis using irq forgotten_schedule by (simp add: handle_irq_delivered)
next
  case (client_request j len r)
  then show ?thesis
    using assms(2,3) forgotten_other forgotten_schedule by (auto simp: request_def split: if_splits)
qed (use assms(2,3) forgotten_other in
  \<open>auto simp: sigh_def write_ds_def forgotten_def\<close>)

text \<open>
  A program of more than 1000 bytes executed over the local connection is never
  answered. The request function reports the error and returns the length 0, which the
  session takes for a request; no request is pending then, so the result stays unknown and
  the count of responses, for whose change the caller blocks, stays the same in every later
  state, whatever the SCP and the other clients do.
\<close>

theorem oversized_local_program_hangs:
  assumes "s \<in> set (sessions d)" and "ses_id s = i" and "exec_id s = None"
    and "MAX_REQUEST_LEN < length command"
    and "(\<lambda>d d'. \<exists>a. a \<noteq> Client i \<and> scp_step ok a d d')\<^sup>*\<^sup>* (snd (local_execute i command d)) d'"
  shows "fst (local_execute i command d) = Inr () \<and> forgotten i (response_count s) d'"
proof -
  have ex: "local_execute i command d = request i 0 (write_ds i [] d)"
    using assms(4) by (simp add: local_execute_def local_request_def)
  have "forgotten i (response_count s) (on_session i
      (\<lambda>s. s\<lparr>request_len := 0, response_result := Response_error UNKNOWN\<rparr>) (write_ds i [] d))"
    unfolding forgotten_def
    by (rule bexI [where x = "s\<lparr>request_len := 0, response_result := Response_error UNKNOWN\<rparr>"])
      (use assms(1-3) in \<open>auto simp: on_session_def write_ds_def\<close>)
  then have start: "forgotten i (response_count s) (snd (local_execute i command d))"
    by (simp add: ex request_def forgotten_schedule)
  have "forgotten i (response_count s) d'"
    using assms(5) start by (induction rule: rtranclp_induct) (auto intro: forgotten_step)
  then show ?thesis by (simp add: ex request_def)
qed

lemma oversized_local_program_hangs_witness:
  "forgotten 0 0 (snd (local_execute 0 (replicate 1001 (CHR ''x'')) (init_scp blank_buffer blank_buffer None)))"
  using oversized_local_program_hangs
    [of "new_session 0" "init_scp blank_buffer blank_buffer None" 0 "replicate 1001 (CHR ''x'')" honest]
  by (simp add: init_idle new_session_def MAX_REQUEST_LEN_def)

text \<open>
  A program of up to 999 bytes without zero bytes is placed into the shared buffer as it
  is. A program of exactly 1000 bytes is admitted too, but its last byte is replaced by the
  zero byte that terminates the copy, while the length stays 1000.
\<close>

theorem local_program_copied:
  assumes "CHR 0x00 \<notin> set command" and "length command \<le> MAX_REQUEST_LEN"
  shows "snd (local_request command) = length command
    \<and> take (length command) (fst (local_request command)) =
      (if length command < MAX_REQUEST_LEN then command else butlast command @ [CHR 0x00])"
  using assms by (auto simp: local_request_def copy_cstring_def cstring_id MAX_REQUEST_LEN_def
      butlast_conv_take)

lemma local_program_copied_witness:
  "snd (local_request ''1 2 +'') = 5 \<and> take 5 (fst (local_request ''1 2 +'')) = ''1 2 +''"
  using local_program_copied [of "''1 2 +''"] by (simp add: MAX_REQUEST_LEN_def numeral_eq_Suc)

end
