(* ===== verification/Ccu.thy ===== *)
theory Ccu
  imports Mmio
begin

text \<open>
  Clocks and resets of the platform driver: \<^verbatim>\<open>src/driver/platform/a64/ccu.h\<close> (the clock
  control unit) and \<^verbatim>\<open>r_prcm.h\<close>. A clock is its kind; enabling and disabling a clock are
  programs of bit-field writes, in the order of the code. An enumeration value is its number.
  The counting of users and the lookup of a clock by its name are Genode's platform-driver
  framework and not part of this repository.
\<close>

section \<open>Clocks\<close>

datatype clock_kind = Gating_bit nat nat | Csi_mclk | Csi_sclk | De_clk | Gpu_clk | Mipi_dsi_clk
  | Mmc0_clk | Mmc1_clk | Mmc2_clk | Pll nat u32

text \<open>The bit fields of the clocks.\<close>

definition bus_clk_gating :: "nat \<Rightarrow> nat \<Rightarrow> field" where
  "bus_clk_gating off b = array_item off 1 b"

definition Csi_mclk_gating :: field where "Csi_mclk_gating = Fld 0x134 15 1"
definition Csi_mclk_src_sel :: field where "Csi_mclk_src_sel = Fld 0x134 8 3"
definition Csi_sclk_gating :: field where "Csi_sclk_gating = Fld 0x134 31 1"
definition Csi_sclk_src_sel :: field where "Csi_sclk_src_sel = Fld 0x134 24 3"
definition Csi_sclk_div_m :: field where "Csi_sclk_div_m = Fld 0x134 16 4"
definition De_sclk_gating :: field where "De_sclk_gating = Fld 0x104 31 1"
definition De_src_sel :: field where "De_src_sel = Fld 0x104 24 3"
definition Gpu_sclk_gating :: field where "Gpu_sclk_gating = Fld 0x1a0 31 1"
definition Dphy_gating :: field where "Dphy_gating = Fld 0x168 15 1"
definition Dphy_src_sel :: field where "Dphy_src_sel = Fld 0x168 8 2"
definition Dsi_clk_div_m :: field where "Dsi_clk_div_m = Fld 0x168 0 4"
definition mmc_sclk_gating :: "nat \<Rightarrow> field" where "mmc_sclk_gating off = Fld off 31 1"
definition mmc_clk_src_sel :: "nat \<Rightarrow> field" where "mmc_clk_src_sel off = Fld off 24 2"
definition mmc_clk_div_n :: "nat \<Rightarrow> field" where "mmc_clk_div_n off = Fld off 16 2"
definition mmc_clk_div_m :: "nat \<Rightarrow> field" where "mmc_clk_div_m off = Fld off 0 4"

lemmas ccu_field_defs = bus_clk_gating_def Csi_mclk_gating_def Csi_mclk_src_sel_def
  Csi_sclk_gating_def Csi_sclk_src_sel_def Csi_sclk_div_m_def De_sclk_gating_def De_src_sel_def
  Gpu_sclk_gating_def Dphy_gating_def Dphy_src_sel_def Dsi_clk_div_m_def mmc_sclk_gating_def
  mmc_clk_src_sel_def mmc_clk_div_n_def mmc_clk_div_m_def whole_reg_def array_item_def

text \<open>The programs of \<^verbatim>\<open>_enable\<close> and of \<^verbatim>\<open>_disable\<close>, clock by clock.\<close>

type_synonym clk_ops = "reg_program \<times> reg_program"

definition gating_bit_ops :: "nat \<Rightarrow> nat \<Rightarrow> clk_ops" where
  [simp]: "gating_bit_ops off b = ([(bus_clk_gating off b, 1)], [(bus_clk_gating off b, 0)])"

definition csi_mclk_ops :: clk_ops where
  [simp]: "csi_mclk_ops = ([(Csi_mclk_src_sel, 0), (Csi_mclk_gating, 1)],
     [(Csi_mclk_gating, 0), (Csi_mclk_src_sel, 0)])"

definition csi_sclk_ops :: clk_ops where
  [simp]: "csi_sclk_ops = ([(Csi_sclk_div_m, 1), (Csi_sclk_src_sel, 0), (Csi_sclk_gating, 1)],
     [(Csi_sclk_gating, 0), (Csi_sclk_src_sel, 0), (Csi_sclk_div_m, 0)])"

definition de_clk_ops :: clk_ops where
  [simp]: "de_clk_ops = ([(De_src_sel, 1), (De_sclk_gating, 1)],
     [(De_sclk_gating, 0), (De_src_sel, 0)])"

definition gpu_clk_ops :: clk_ops where
  [simp]: "gpu_clk_ops = ([(Gpu_sclk_gating, 1)], [(Gpu_sclk_gating, 0)])"

definition mipi_dsi_clk_ops :: clk_ops where
  [simp]: "mipi_dsi_clk_ops = ([(Dsi_clk_div_m, 3), (Dphy_src_sel, 2), (Dphy_gating, 1)],
     [(Dphy_gating, 0), (Dsi_clk_div_m, 0), (Dphy_src_sel, 0)])"

text \<open>The three MMC clocks differ in their register and in the divider N.\<close>

definition mmc_enable :: "nat \<Rightarrow> u32 \<Rightarrow> reg_program" where
  "mmc_enable off div_n = [(mmc_clk_div_n off, div_n), (mmc_clk_div_m off, 11),
     (mmc_clk_src_sel off, 1), (mmc_sclk_gating off, 1)]"

definition mmc_disable :: "nat \<Rightarrow> reg_program" where
  "mmc_disable off = [(mmc_sclk_gating off, 0), (mmc_clk_src_sel off, 0),
     (mmc_clk_div_m off, 0), (mmc_clk_div_n off, 0)]"

definition mmc0_clk_ops :: clk_ops where
  [simp]: "mmc0_clk_ops = (mmc_enable 0x88 0, mmc_disable 0x88)"

definition mmc1_clk_ops :: clk_ops where
  [simp]: "mmc1_clk_ops = (mmc_enable 0x8c 1, mmc_disable 0x8c)"

definition mmc2_clk_ops :: clk_ops where
  [simp]: "mmc2_clk_ops = (mmc_enable 0x90 0, mmc_disable 0x90)"

definition pll_ops :: "nat \<Rightarrow> u32 \<Rightarrow> clk_ops" where
  [simp]: "pll_ops off v = ([(whole_reg off, v)], [(whole_reg off, 0)])"

fun clk_ops :: "clock_kind \<Rightarrow> clk_ops" where
  "clk_ops (Gating_bit off b) = gating_bit_ops off b"
| "clk_ops Csi_mclk = csi_mclk_ops"
| "clk_ops Csi_sclk = csi_sclk_ops"
| "clk_ops De_clk = de_clk_ops"
| "clk_ops Gpu_clk = gpu_clk_ops"
| "clk_ops Mipi_dsi_clk = mipi_dsi_clk_ops"
| "clk_ops Mmc0_clk = mmc0_clk_ops"
| "clk_ops Mmc1_clk = mmc1_clk_ops"
| "clk_ops Mmc2_clk = mmc2_clk_ops"
| "clk_ops (Pll off v) = pll_ops off v"

definition clk_enable :: "clock_kind \<Rightarrow> reg_program" where
  [simp]: "clk_enable k = fst (clk_ops k)"

definition clk_disable :: "clock_kind \<Rightarrow> reg_program" where
  [simp]: "clk_disable k = snd (clk_ops k)"

text \<open>The clocks of the unit by name, in the order of their declaration.\<close>

definition gating_bits :: "(string \<times> clock_kind) list" where
  "gating_bits = [
    (''bus-mipi-dsi'', Gating_bit 0x60 1), (''bus-dma'', Gating_bit 0x60 6),
     (''bus-mmc0'', Gating_bit 0x60 8), (''bus-mmc1'', Gating_bit 0x60 9),
     (''bus-mmc2'', Gating_bit 0x60 10), (''bus-ehci1'', Gating_bit 0x60 25),
     (''bus-ohci1'', Gating_bit 0x60 29), (''bus-tcon0'', Gating_bit 0x64 3),
     (''bus-tcon1'', Gating_bit 0x64 4), (''bus-csi'', Gating_bit 0x64 8),
     (''bus-hdmi'', Gating_bit 0x64 11), (''bus-de'', Gating_bit 0x64 12),
     (''bus-gpu'', Gating_bit 0x64 20), (''bus-mbox'', Gating_bit 0x64 21),
     (''bus-ac'', Gating_bit 0x68 0), (''bus-i2s0'', Gating_bit 0x68 12),
     (''bus-i2s2'', Gating_bit 0x68 14), (''bus-twi0'', Gating_bit 0x6c 0),
     (''bus-uart3'', Gating_bit 0x6c 19), (''usb-phy0'', Gating_bit 0xcc 8),
     (''usb-phy1'', Gating_bit 0xcc 9), (''ohci1'', Gating_bit 0xcc 17),
     (''dram-csi'', Gating_bit 0x100 1), (''tcon0'', Gating_bit 0x118 31),
     (''tcon1'', Gating_bit 0x11c 31), (''ac'', Gating_bit 0x140 31)]"

definition special_clocks :: "(string \<times> clock_kind) list" where
  "special_clocks = [(''csi-mclk'', Csi_mclk), (''csi-sclk'', Csi_sclk), (''de-sclk'', De_clk),
     (''gpu-clk'', Gpu_clk), (''dsi-dphy'', Mipi_dsi_clk), (''mmc0'', Mmc0_clk),
     (''mmc1'', Mmc1_clk), (''mmc2'', Mmc2_clk)]"

definition plls :: "(string \<times> clock_kind) list" where
  "plls = [
    (''pll-audio-441'', Pll 0x08 0x91020702), (''pll-audio-pattern-441'', Pll 0x284 0xc000ef35),
     (''pll-audio-48'', Pll 0x08 0x91020e04), (''pll-audio-pattern-48'', Pll 0x284 0xc000b852),
     (''pll-audio-bias'', Pll 0x224 0x10040000), (''pll-gpu'', Pll 0x38 0x83006b05),
     (''pll-video0'', Pll 0x10 0x91003003), (''pll-mipi'', Pll 0x40 0x90c0042f),
     (''pll-de'', Pll 0x48 0x83006207)]"

definition ccu_clocks :: "(string \<times> clock_kind) list" where
  "ccu_clocks = gating_bits @ special_clocks @ plls"

section \<open>Resets\<close>

text \<open>A reset line is a bit; deasserting it writes 1.\<close>

definition bus_soft_rst :: "nat \<times> nat \<Rightarrow> field" where
  "bus_soft_rst r = array_item (fst r) 1 (snd r)"

definition rst_deassert :: "nat \<times> nat \<Rightarrow> reg_program" where
  "rst_deassert r = [(bus_soft_rst r, 1)]"

definition rst_assert :: "nat \<times> nat \<Rightarrow> reg_program" where
  "rst_assert r = [(bus_soft_rst r, 0)]"

definition ccu_resets :: "(string \<times> (nat \<times> nat)) list" where
  "ccu_resets = [
    (''usb-phy0'', (0xcc, 0)), (''usb-phy1'', (0xcc, 1)), (''mipi-dsi'', (0x2c0, 1)),
     (''dma'', (0x2c0, 6)), (''mmc0'', (0x2c0, 8)), (''mmc1'', (0x2c0, 9)),
     (''mmc2'', (0x2c0, 10)), (''ehci1'', (0x2c0, 25)), (''ohci1'', (0x2c0, 29)),
     (''tcon0'', (0x2c4, 3)), (''tcon1'', (0x2c4, 4)), (''csi'', (0x2c4, 8)),
     (''de'', (0x2c4, 12)), (''gpu'', (0x2c4, 20)), (''mbox'', (0x2c4, 21)),
     (''lvds'', (0x2c8, 0)), (''ac'', (0x2d0, 0)), (''i2s_pcm2'', (0x2d0, 14)),
     (''twi0'', (0x2d8, 0)), (''uart3'', (0x2d8, 19))]"

section \<open>The R\_PRCM unit\<close>

definition apb0_clk_gate :: "nat \<Rightarrow> field" where
  "apb0_clk_gate b = array_item 0x28 1 b"

definition apb0_enable :: "nat \<Rightarrow> reg_program" where
  "apb0_enable b = [(apb0_clk_gate b, 1)]"

definition apb0_disable :: "nat \<Rightarrow> reg_program" where
  "apb0_disable b = [(apb0_clk_gate b, 0)]"

definition r_prcm_clocks :: "(string \<times> nat) list" where
  "r_prcm_clocks = [(''r_twi'', 6)]"

section \<open>Fields of a clock and of a reset\<close>

definition clk_fields :: "clock_kind \<Rightarrow> field list" where
  "clk_fields k = map fst (clk_enable k)"

text \<open>The bit that lets a clock through, at its place in the register of the hardware.\<close>

fun gate_field :: "clock_kind \<Rightarrow> field option" where
  "gate_field (Gating_bit off b) = Some (bus_clk_gating off b)"
| "gate_field Csi_mclk = Some (Fld 0x134 15 1)"
| "gate_field Csi_sclk = Some (Fld 0x134 31 1)"
| "gate_field De_clk = Some (Fld 0x104 31 1)"
| "gate_field Gpu_clk = Some (Fld 0x1a0 31 1)"
| "gate_field Mipi_dsi_clk = Some (Fld 0x168 15 1)"
| "gate_field Mmc0_clk = Some (Fld 0x88 31 1)"
| "gate_field Mmc1_clk = Some (Fld 0x8c 31 1)"
| "gate_field Mmc2_clk = Some (Fld 0x90 31 1)"
| "gate_field (Pll off v) = None"

lemma disable_fields: "set (map fst (clk_disable k)) = set (clk_fields k)"
  by (cases k) (auto simp: clk_fields_def mmc_enable_def mmc_disable_def)

section \<open>The table as a whole\<close>

fun pairwise :: "('a \<Rightarrow> 'a \<Rightarrow> bool) \<Rightarrow> 'a list \<Rightarrow> bool" where
  "pairwise P [] = True"
| "pairwise P (x # xs) = (list_all (P x) xs \<and> pairwise P xs)"

lemma pairwise_nth:
  "pairwise P xs \<Longrightarrow> (\<And>x y. P x y \<Longrightarrow> P y x) \<Longrightarrow> i < length xs \<Longrightarrow> j < length xs \<Longrightarrow> i \<noteq> j
    \<Longrightarrow> P (xs ! i) (xs ! j)"
proof (induction xs arbitrary: i j)
  case (Cons x xs)
  then show ?case by (cases i; cases j) (auto simp: list_all_length)
qed simp

lemmas ccu_table_defs = ccu_clocks_def gating_bits_def special_clocks_def plls_def ccu_resets_def

lemma clocks_wf: "list_all (\<lambda>(n, k). list_all wf_field (clk_fields k)) ccu_clocks"
  by (simp add: ccu_table_defs clk_fields_def mmc_enable_def ccu_field_defs wf_field_def)

lemma resets_wf: "list_all (\<lambda>(n, r). wf_field (bus_soft_rst r)) ccu_resets"
  by (simp add: ccu_table_defs bus_soft_rst_def array_item_def wf_field_def)

lemma names_distinct: "distinct (map fst ccu_clocks)" "distinct (map fst ccu_resets)"
  by (simp_all add: ccu_table_defs)

section \<open>Units\<close>

text \<open>A clock or a reset, with the programs that switch it.\<close>

datatype ccu_unit = Clk clock_kind | Rst "nat \<times> nat"

fun unit_fields :: "ccu_unit \<Rightarrow> field list" where
  "unit_fields (Clk k) = clk_fields k"
| "unit_fields (Rst r) = [bus_soft_rst r]"

fun unit_on :: "ccu_unit \<Rightarrow> reg_program" where
  "unit_on (Clk k) = clk_enable k"
| "unit_on (Rst r) = rst_deassert r"

fun unit_off :: "ccu_unit \<Rightarrow> reg_program" where
  "unit_off (Clk k) = clk_disable k"
| "unit_off (Rst r) = rst_assert r"

text \<open>All clocks and resets with their names.\<close>

definition ccu_units :: "(string \<times> ccu_unit) list" where
  "ccu_units = map (\<lambda>(n, k). (n, Clk k)) ccu_clocks @ map (\<lambda>(n, r). (n, Rst r)) ccu_resets"

text \<open>The two rates of the audio PLL are declared as two clocks on the same two registers.\<close>

definition same_pll :: "string \<Rightarrow> string \<Rightarrow> bool" where
  "same_pll a b \<longleftrightarrow> (a, b) \<in> {(''pll-audio-441'', ''pll-audio-48''), (''pll-audio-48'', ''pll-audio-441''),
     (''pll-audio-pattern-441'', ''pll-audio-pattern-48''), (''pll-audio-pattern-48'', ''pll-audio-pattern-441'')}"

lemma unit_programs_fields:
  "fst ` set (unit_on u) = set (unit_fields u)" "fst ` set (unit_off u) = set (unit_fields u)"
  using disable_fields by (cases u; force simp: clk_fields_def rst_deassert_def rst_assert_def)+

lemma units_wf: "(n, u) \<in> set ccu_units \<Longrightarrow> f \<in> set (unit_fields u) \<Longrightarrow> wf_field f"
  using clocks_wf resets_wf by (auto simp: ccu_units_def list_all_iff)

definition apart :: "field list \<Rightarrow> field list \<Rightarrow> bool" where
  "apart fs gs \<longleftrightarrow> list_all (\<lambda>f. list_all (disjoint_fields f) gs) fs"

lemma units_pairwise:
  "pairwise (\<lambda>(a, u) (b, v). same_pll a b \<or> apart (unit_fields u) (unit_fields v)) ccu_units"
  by (simp add: ccu_units_def ccu_table_defs clk_fields_def mmc_enable_def ccu_field_defs
      bus_soft_rst_def apart_def disjoint_fields_def same_pll_def)

lemma units_apart:
  assumes "i < length ccu_units" and "j < length ccu_units" and "i \<noteq> j"
    and "ccu_units ! i = (a, u)" and "ccu_units ! j = (b, v)" and "\<not> same_pll a b"
    and "f \<in> set (unit_fields u)" and "g \<in> set (unit_fields v)"
  shows "disjoint_fields f g"
proof -
  let ?P = "\<lambda>(a, u) (b, v). same_pll a b \<or> apart (unit_fields u) (unit_fields v)"
  have "?P x y \<Longrightarrow> ?P y x" for x y
    using disjoint_fields_sym by (auto simp: apart_def list_all_iff same_pll_def)
  from pairwise_nth [OF units_pairwise this assms(1-3)] show ?thesis
    using assms(4-8) by (auto simp: apart_def list_all_iff)
qed

text \<open>
  C23: isolation: switching a clock or a reset of the unit on or off leaves every bit field of
  every other clock and reset as it is, on any register interface that meets the contract: no
  two of them share a bit. The only exception are the two rates of the audio PLL and their two
  patterns, which are declared on the same registers.
\<close>

theorem ccu_units_isolated:
  assumes "register_set rd wr" and "i < length ccu_units" and "j < length ccu_units" and "i \<noteq> j"
    and "ccu_units ! i = (a, u)" and "ccu_units ! j = (b, v)" and "\<not> same_pll a b"
    and "f \<in> set (unit_fields v)"
  shows "rd (run_writes wr (unit_on u) m) f = rd m f \<and> rd (run_writes wr (unit_off u) m) f = rd m f"
proof -
  have "(a, u) \<in> set ccu_units" using assms(2,5) by (metis nth_mem)
  then have dis: "wf_field g \<and> disjoint_fields g f" if "g \<in> set (unit_fields u)" for g
    using units_apart [OF assms(2-7) that assms(8)] units_wf that by blast
  have "\<forall>(g, v) \<in> set (unit_on u). wf_field g \<and> disjoint_fields g f"
    "\<forall>(g, v) \<in> set (unit_off u). wf_field g \<and> disjoint_fields g f"
    using dis unit_programs_fields [of u] by (auto simp: image_iff set_eq_iff) force+
  then show ?thesis using register_set.rd_untouched [OF assms(1)] by blast
qed

lemma ccu_units_isolated_witness:
  "reg_rd (run_writes reg_wr (unit_on (snd (ccu_units ! 3))) (\<lambda>_. 7)) (bus_clk_gating 0x60 8)
    = reg_rd (\<lambda>_. 7) (bus_clk_gating 0x60 8)"
proof -
  have eval: "length ccu_units = 63" "ccu_units ! 3 = (''bus-mmc1'', Clk (Gating_bit 0x60 9))"
    "ccu_units ! 2 = (''bus-mmc0'', Clk (Gating_bit 0x60 8))"
    by (simp_all add: ccu_units_def ccu_table_defs)
  show ?thesis
    using ccu_units_isolated [OF reg_file.register_set_axioms _ _ _ eval(2,3), of "bus_clk_gating 0x60 8" "\<lambda>_. 7"]
    by (simp add: eval same_pll_def clk_fields_def)
qed

section \<open>The effect of switching a clock\<close>

text \<open>The programs of all clocks are free of overlapping writes, and their values fit.\<close>

lemma clock_programs_clean:
  "(n, k) \<in> set ccu_clocks \<Longrightarrow> clean_program (clk_enable k) \<and> clean_program (clk_disable k)"
  by (auto simp: ccu_table_defs mmc_enable_def mmc_disable_def ccu_field_defs clean_program_def
      separates_def wf_field_def disjoint_fields_def take_bit_eq_mod)

lemma clock_programs_once: "(n, k) \<in> set ccu_clocks \<Longrightarrow>
    distinct (map fst (clk_enable k)) \<and> distinct (map fst (clk_disable k))"
  by (auto simp: ccu_table_defs mmc_enable_def mmc_disable_def ccu_field_defs)

lemma gate_last:
  "(n, k) \<in> set ccu_clocks \<Longrightarrow> gate_field k = Some g \<Longrightarrow>
    clk_enable k = butlast (clk_enable k) @ [(g, 1)] \<and> clk_disable k = (g, 0) # tl (clk_disable k)"
  by (cases k) (auto simp: mmc_enable_def mmc_disable_def ccu_field_defs)

section \<open>What a clock delivers\<close>

text \<open>
  The output of a clock as the hardware derives it from its registers: nothing while its gate
  is closed, otherwise the selected source and the divider. The sources have the numbers of
  their enumeration in the class of the clock; the divider is \<open>m + 1\<close>, for the MMC clocks
  \<open>2 ^ n * (m + 1)\<close>. A PLL is off if its register is zero.
\<close>

datatype clock_source = Parent | Initial | Periph0 | Periph1 | De_pll | Pll_setting u32 | Unknown

fun source_of :: "clock_kind \<Rightarrow> u32 \<Rightarrow> clock_source" where
  "source_of Csi_mclk n = (if n = 0 then Initial else if n = 2 then Periph1 else Unknown)"
| "source_of Csi_sclk n = (if n = 0 then Periph0 else if n = 1 then Periph1 else Unknown)"
| "source_of De_clk n = (if n = 0 then Initial else if n = 1 then De_pll else Unknown)"
| "source_of Mipi_dsi_clk n = (if n = 0 then Initial else if n = 2 then Periph0 else Unknown)"
| "source_of k n = (if n = 0 then Initial else if n = 1 then Periph0 else if n = 2 then Periph1 else Unknown)"

definition mmc_output :: "(field \<Rightarrow> u32) \<Rightarrow> clock_kind \<Rightarrow> nat \<Rightarrow> clock_source \<times> nat" where
  "mmc_output r k off = (source_of k (r (Fld off 24 2)),
     2 ^ unat (r (Fld off 16 2)) * (unat (r (Fld off 0 4)) + 1))"

fun ungated_output :: "(field \<Rightarrow> u32) \<Rightarrow> clock_kind \<Rightarrow> clock_source \<times> nat" where
  "ungated_output r (Gating_bit off b) = (Parent, 1)"
| "ungated_output r Gpu_clk = (Parent, 1)"
| "ungated_output r Csi_mclk = (source_of Csi_mclk (r (Fld 0x134 8 3)), 1)"
| "ungated_output r Csi_sclk = (source_of Csi_sclk (r (Fld 0x134 24 3)), unat (r (Fld 0x134 16 4)) + 1)"
| "ungated_output r De_clk = (source_of De_clk (r (Fld 0x104 24 3)), 1)"
| "ungated_output r Mipi_dsi_clk = (source_of Mipi_dsi_clk (r (Fld 0x168 8 2)), unat (r (Fld 0x168 0 4)) + 1)"
| "ungated_output r Mmc0_clk = mmc_output r Mmc0_clk 0x88"
| "ungated_output r Mmc1_clk = mmc_output r Mmc1_clk 0x8c"
| "ungated_output r Mmc2_clk = mmc_output r Mmc2_clk 0x90"
| "ungated_output r (Pll off v) = (Pll_setting (r (whole_reg off)), 1)"

definition clock_output :: "(field \<Rightarrow> u32) \<Rightarrow> clock_kind \<Rightarrow> (clock_source \<times> nat) option" where
  "clock_output r k =
     (if (case gate_field k of Some g \<Rightarrow> r g = 1 | None \<Rightarrow> fst (ungated_output r k) \<noteq> Pll_setting 0)
      then Some (ungated_output r k) else None)"

text \<open>What each clock is meant to deliver.\<close>

fun intended_output :: "clock_kind \<Rightarrow> clock_source \<times> nat" where
  "intended_output Csi_mclk = (Initial, 1)"
| "intended_output Csi_sclk = (Periph0, 2)"
| "intended_output De_clk = (De_pll, 1)"
| "intended_output Mipi_dsi_clk = (Periph0, 4)"
| "intended_output Mmc0_clk = (Periph0, 12)"
| "intended_output Mmc1_clk = (Periph0, 24)"
| "intended_output Mmc2_clk = (Periph0, 12)"
| "intended_output (Pll off v) = (Pll_setting v, 1)"
| "intended_output k = (Parent, 1)"

lemma enabled_output:
  assumes "(n, k) \<in> set ccu_clocks" and "\<And>f v. (f, v) \<in> set (clk_enable k) \<Longrightarrow> r f = v"
  shows "clock_output r k = Some (intended_output k)"
proof (cases "gate_field k")
  case None
  then obtain off v where k: "k = Pll off v" by (cases k) simp_all
  then have "v \<noteq> 0" using assms(1) by (auto simp: ccu_table_defs)
  with assms(2) [of "whole_reg off" v] k show ?thesis by (simp add: clock_output_def)
next
  case (Some g)
  have "list_all (\<lambda>(f, v). r f = v) (clk_enable k)" using assms(2) by (auto simp: list_all_iff)
  with Some show ?thesis by (cases k) (simp_all add: clock_output_def mmc_output_def mmc_enable_def ccu_field_defs)
qed

lemma disabled_output:
  assumes "\<And>f. f \<in> set (clk_fields k) \<Longrightarrow> r f = 0"
  shows "clock_output r k = None"
  using assms by (cases k) (simp_all add: clock_output_def clk_fields_def mmc_enable_def ccu_field_defs)

text \<open>The factors of the PLLs for GPU and display: \<open>24 MHz * (n + 1) / (m + 1)\<close>.\<close>

definition pll_mhz :: "u32 \<Rightarrow> nat" where
  "pll_mhz v = 24 * (unat (take_bit 7 (drop_bit 8 v)) + 1) div (unat (take_bit 4 v) + 1)"

lemma pll_gpu_rate: "(''pll-gpu'', k) \<in> set ccu_clocks \<Longrightarrow> \<exists>v. k = Pll 0x38 v \<and> pll_mhz v = 432"
  by (auto simp: ccu_table_defs pll_mhz_def)

text \<open>
  C4: an enabled clock delivers what it is meant to: its gate is open, and it runs from the
  intended source with the intended divider (the PLL of the GPU at 432 MHz). A disabled clock
  delivers nothing, and all its fields are zero. The gate is opened last and closed first: no
  other field of the clock changes while its gate is open.
\<close>

theorem clock_switched:
  assumes "register_set rd wr" and "(n, k) \<in> set ccu_clocks"
  shows "clock_output (rd (run_writes wr (clk_enable k) m)) k = Some (intended_output k)
    \<and> (n = ''pll-gpu'' \<longrightarrow> (\<exists>v. intended_output k = (Pll_setting v, 1) \<and> pll_mhz v = 432))
    \<and> clock_output (rd (run_writes wr (clk_disable k) m)) k = None
    \<and> (\<forall>f \<in> set (clk_fields k). rd (run_writes wr (clk_disable k) m) f = 0)
    \<and> (\<forall>g. gate_field k = Some g \<longrightarrow>
         (\<forall>i < length (clk_enable k). rd (run_writes wr (take i (clk_enable k)) m) g = rd m g)
       \<and> (\<forall>i. 0 < i \<longrightarrow> rd (run_writes wr (take i (clk_disable k)) m) g = 0))"
proof (intro conjI)
  note clean = clock_programs_clean [OF assms(2)] and once = clock_programs_once [OF assms(2)]
  have "(f, v) \<in> set (clk_enable k) \<Longrightarrow> rd (run_writes wr (clk_enable k) m) f = v" for f v
    using register_set.rd_clean_program [OF assms(1)] clean once last_write_distinct by blast
  then show "clock_output (rd (run_writes wr (clk_enable k) m)) k = Some (intended_output k)"
    by (rule enabled_output [OF assms(2)])
  show "n = ''pll-gpu'' \<longrightarrow> (\<exists>v. intended_output k = (Pll_setting v, 1) \<and> pll_mhz v = 432)"
    using pll_gpu_rate assms(2) by fastforce
  have zero: "v = 0" if "(f, v) \<in> set (clk_disable k)" for f v
    using that by (cases k) (auto simp: mmc_disable_def)
  show off: "\<forall>f \<in> set (clk_fields k). rd (run_writes wr (clk_disable k) m) f = 0"
  proof
    fix f assume "f \<in> set (clk_fields k)"
    then obtain v where "(f, v) \<in> set (clk_disable k)" using disable_fields [of k] by force
    then show "rd (run_writes wr (clk_disable k) m) f = 0"
      using register_set.rd_clean_program [OF assms(1)] clean once last_write_distinct zero by blast
  qed
  then show "clock_output (rd (run_writes wr (clk_disable k) m)) k = None"
    by (intro disabled_output) blast
  show "\<forall>g. gate_field k = Some g \<longrightarrow>
         (\<forall>i < length (clk_enable k). rd (run_writes wr (take i (clk_enable k)) m) g = rd m g)
       \<and> (\<forall>i. 0 < i \<longrightarrow> rd (run_writes wr (take i (clk_disable k)) m) g = 0)"
  proof (intro allI impI conjI)
    fix g i assume g: "gate_field k = Some g"
    note l = gate_last [OF assms(2) g]
    have sep: "separates (clk_enable k) g" "separates (clk_disable k) g" "wf_field g"
      using clean l unfolding clean_program_def separates_def list_all_iff
      by (metis (mono_tags, lifting) case_prodD in_set_conv_decomp list.set_intros(1))+
    show "rd (run_writes wr (take i (clk_enable k)) m) g = rd m g" if i: "i < length (clk_enable k)"
    proof -
      have "take i (clk_enable k) = take i (butlast (clk_enable k))"
        using i by (simp add: take_butlast)
      moreover have "g \<notin> fst ` set (butlast (clk_enable k))"
        using once [THEN conjunct1] by (subst (asm) l [THEN conjunct1]) auto
      ultimately have "last_write (take i (clk_enable k)) g = None"
        by (auto simp: last_write_None_iff dest: in_set_takeD)
      then show ?thesis
        using register_set.rd_run_writes [OF assms(1) separates_take [OF sep(1)] sep(3)] by simp
    qed
    show "rd (run_writes wr (take i (clk_disable k)) m) g = 0" if i: "0 < i"
    proof -
      have "(g, 0) \<in> set (take i (clk_disable k))"
        using i by (subst l [THEN conjunct2]) (cases i; simp)
      moreover have "distinct (map fst (take i (clk_disable k)))"
        using once by (simp add: take_map [symmetric] distinct_take)
      ultimately have "last_write (take i (clk_disable k)) g = Some 0"
        by (rule last_write_distinct [rotated])
      then show ?thesis
        using register_set.rd_run_writes [OF assms(1) separates_take [OF sep(2)] sep(3)] by simp
    qed
  qed
qed

lemma clock_switched_witness:
  "clock_output (reg_rd (run_writes reg_wr (clk_enable Mmc1_clk) (\<lambda>_. 0))) Mmc1_clk = Some (Periph0, 24)"
  using clock_switched [OF reg_file.register_set_axioms, of "''mmc1''" Mmc1_clk]
  by (simp add: ccu_table_defs)

end
