(* ===== verification/Pmic.thy ===== *)
theory Pmic
  imports Scp_Props
begin

text \<open>
  \<^verbatim>\<open>src/driver/platform/a64/pmic.h\<close>: the power domains behind the power-management chip. A
  domain is a pair of programs for the system-control processor, executed over the local
  connection of the SCP driver. What the words of a program do is defined by the firmware of
  the SCP and not part of this repository.
\<close>

record pmic_power =
  pw_name :: string
  scp_on :: string
  scp_off :: string

definition gpio0_ldo :: pmic_power where
  "gpio0_ldo = \<lparr>pw_name = ''pmic-gpio0'',
     scp_on = ''1a 91 pmic!  3 90 pmic!  a udelay '',
     scp_off = ''8 91 pmic!  a udelay ''\<rparr>"

definition csi_power :: pmic_power where
  "csi_power = \<lparr>pw_name = ''pmic-csi'',
     scp_on = ''b 28 pmic! '' @ ''13 pmic@ 20 or 13 pmic! '' @ ''32 udelay ''
       @ ''10 1b pmic! '' @ ''12 pmic@ 4 or 12 pmic! '' @ ''a udelay ''
       @ ''15 17 pmic! '' @ ''12 pmic@ 20 or 12 pmic! '' @ ''a udelay '',
     scp_off = ''12 pmic@ df and 12 pmic! '' @ ''15 17 pmic! ''
       @ ''12 pmic@ fb and 12 pmic! '' @ ''0 1b pmic! ''
       @ ''13 pmic@ df and 13 pmic! '' @ ''17 28 pmic! ''\<rparr>"

definition wifi_power :: pmic_power where
  "wifi_power = \<lparr>pw_name = ''pmic-wifi'',
     scp_on = ''b 18 pmic! '' @ ''12 pmic@ 40 or 12 pmic! '' @ ''a udelay '',
     scp_off = ''12 pmic@ bf and 12 pmic! '' @ ''1a 18 pmic! ''\<rparr>"

definition pmic_powers :: "pmic_power list" where
  "pmic_powers = [gpio0_ldo, csi_power, wifi_power]"

text \<open>\<^verbatim>\<open>_on\<close> and \<^verbatim>\<open>_off\<close>: the program goes to the session \<open>i\<close> of the local connection.\<close>

definition pmic_on :: "nat \<Rightarrow> pmic_power \<Rightarrow> scp \<Rightarrow> (request_error + unit) \<times> scp" where
  "pmic_on i p d = local_execute i (scp_on p) d"

definition pmic_off :: "nat \<Rightarrow> pmic_power \<Rightarrow> scp \<Rightarrow> (request_error + unit) \<times> scp" where
  "pmic_off i p d = local_execute i (scp_off p) d"

lemma pmic_programs:
  "p \<in> set pmic_powers \<Longrightarrow> prog \<in> {scp_on p, scp_off p} \<Longrightarrow>
    0 < length prog \<and> length prog < MAX_REQUEST_LEN \<and> CHR 0x00 \<notin> set prog"
  by (auto simp: pmic_powers_def gpio0_ldo_def csi_power_def wifi_power_def MAX_REQUEST_LEN_def)

text \<open>
  A program that is executed locally: with an idle SCP it is the only request, so it is
  submitted at once; otherwise it waits in the buffer of its session.
\<close>

lemma local_program:
  assumes "scp_reach ok d" and "s \<in> set (sessions d)" and "ses_id s = i"
    and prog: "0 < length prog" "length prog < MAX_REQUEST_LEN" "CHR 0x00 \<notin> set prog"
    and ex: "local_execute i prog d = (r, d')"
  shows "r = Inr ()"
    and "scp_st (hw d) = IDLE \<Longrightarrow> scp_view (mib (hw d')) = prog \<and> scp_st (hw d') = BUSY
      \<and> mbox_sent (hw d') = mbox_sent (hw d) @ [last_submit (hw d) + 1]"
    and "scp_st (hw d) = BUSY \<Longrightarrow> hw d' = hw d
      \<and> (\<exists>t \<in> set (sessions d'). ses_id t = i \<and> request_len t = length prog \<and> take (length prog) (ds t) = prog)"
proof -
  let ?bytes = "prog @ [CHR 0x00]"
  let ?d1 = "write_ds i ?bytes d"
  let ?new = "\<lambda>s. s\<lparr>request_len := length prog, response_result := Response_error UNKNOWN\<rparr>"
  let ?d2 = "on_session i ?new ?d1"
  have request: "local_request prog = (?bytes, length prog)"
    using prog by (simp add: local_request_def copy_cstring_def cstring_id MAX_REQUEST_LEN_def)
  have d': "r = Inr ()" "d' = scp_schedule ?d2"
    using ex prog(2) by (simp_all add: local_execute_def request request_def)
  show "r = Inr ()" by (rule d'(1))
  have hw: "hw ?d2 = hw d" by (simp add: on_session_def write_ds_def)
  have mem: "t \<in> set (sessions ?d2) \<longleftrightarrow> (\<exists>u \<in> set (sessions d). t =
      (if ses_id u = i then ?new (u\<lparr>ds := ?bytes @ drop (length ?bytes) (ds u)\<rparr>) else u))" for t
    by (auto simp: on_session_def write_ds_def)
  note inv = scp_reach_inv [OF assms(1)]
  show "hw d' = hw d \<and> (\<exists>t \<in> set (sessions d'). ses_id t = i \<and> request_len t = length prog
      \<and> take (length prog) (ds t) = prog)" if "scp_st (hw d) = BUSY"
  proof -
    have "d' = ?d2" using that hw by (simp add: d'(2) scp_schedule_def schedule_busy)
    moreover have "?new (s\<lparr>ds := ?bytes @ drop (length ?bytes) (ds s)\<rparr>) \<in> set (sessions ?d2)"
      using assms(2,3) by (auto simp: mem)
    ultimately show ?thesis using assms(3) hw by (intro conjI bexI) simp_all
  qed
  assume idle: "scp_st (hw d) = IDLE"
  then have waiting: "t \<in> set (sessions d) \<Longrightarrow> request_len t = 0" for t
    using inv by (simp add: no_waiting_def)
  have bounded: "bounded_requests (sessions ?d2)"
    using prog(2) waiting by (auto simp: bounded_requests_def mem split: if_splits)
  obtain ss h where sched: "schedule (sessions ?d2) (hw d) = (ss, h)" by fastforce
  from schedule_cases [OF bounded idle sched] show "scp_view (mib (hw d')) = prog \<and> scp_st (hw d') = BUSY
      \<and> mbox_sent (hw d') = mbox_sent (hw d) @ [last_submit (hw d) + 1]"
  proof cases
    case 1
    have "?new (s\<lparr>ds := ?bytes @ drop (length ?bytes) (ds s)\<rparr>) \<in> set (sessions ?d2)"
      using assms(2,3) by (auto simp: mem)
    with 1(3) prog(1) show ?thesis by fastforce
  next
    case (2 xs t ys)
    have "t \<in> set (sessions ?d2)" unfolding 2(1) by simp
    with 2(2) waiting have t: "request_len t = length prog" "take (length prog) (ds t) = prog" "length prog \<le> length (ds t)"
      by (auto simp: mem split: if_splits)
    have "hw d' = h" by (simp add: d'(2) scp_schedule_def hw sched)
    moreover have "length (sb_chars (mib (hw d))) = CAPACITY" using inv by (simp add: scp_inv_def)
    ultimately show ?thesis
      using submitted_view [OF idle _ t(3)] prog(2) t(1,2) 2(5) by simp
  qed
qed

text \<open>
  C25: every program that switches a power domain on or off arrives at the SCP complete, with
  any number of clients besides. If the SCP is idle, the program is submitted at once: the SCP
  sees exactly its text and is notified. If the SCP is busy, the program waits, complete, in
  the buffer of the local session, and nothing the SCP sees is changed.
\<close>

theorem pmic_program_arrives:
  assumes "scp_reach ok d" and "s \<in> set (sessions d)" and "ses_id s = i" and "p \<in> set pmic_powers"
    and "(prog, r, d') \<in> {(scp_on p, pmic_on i p d), (scp_off p, pmic_off i p d)}"
  shows "r = Inr () \<and>
    (if scp_st (hw d) = IDLE
     then scp_view (mib (hw d')) = prog \<and> scp_st (hw d') = BUSY
       \<and> mbox_sent (hw d') = mbox_sent (hw d) @ [last_submit (hw d) + 1]
     else hw d' = hw d \<and> (\<exists>t \<in> set (sessions d'). ses_id t = i \<and> request_len t = length prog
       \<and> take (length prog) (ds t) = prog))"
proof -
  have "prog \<in> {scp_on p, scp_off p}" "local_execute i prog d = (r, d')"
    using assms(5) by (auto simp: pmic_on_def pmic_off_def)
  with pmic_programs [OF assms(4) this(1)] local_program [OF assms(1-3) _ _ _ this(2)]
  show ?thesis by (cases "scp_st (hw d)") simp_all
qed

lemma pmic_program_arrives_witness:
  "scp_view (mib (hw (snd (pmic_off 0 gpio0_ldo (init_scp blank_buffer blank_buffer None)))))
    = ''8 91 pmic!  a udelay ''"
proof -
  obtain r d' where off: "pmic_off 0 gpio0_ldo (init_scp blank_buffer blank_buffer None) = (r, d')" by fastforce
  have "new_session 0 \<in> set (sessions (init_scp blank_buffer blank_buffer None))" by (simp add: init_idle)
  from pmic_program_arrives [OF init_reach this, of 0 gpio0_ldo "scp_off gpio0_ldo" r d'] off
  show ?thesis by (simp add: pmic_powers_def init_idle init_hw_def new_session_def gpio0_ldo_def)
qed

end
