(* ===== verification/Pin_Types.thy ===== *)
theory Pin_Types
  imports Config_Node
begin

text \<open>
  Pin declarations: \<^verbatim>\<open>src/driver/pin/a64/common_types.h\<close> and \<^verbatim>\<open>types.h\<close>. Every class with a
  \<^verbatim>\<open>from_node\<close> is a datatype with a parser that returns the exception as a value. Warnings
  and the printing of pins are left out. \<open>num_of\<close> and \<open>bool_of\<close> convert the text of an
  attribute (see \<open>Config_Node\<close>).
\<close>

datatype pin_error = Index_invalid | Function_invalid | Pull_invalid | Irq_trigger_invalid
  | Bank_invalid

type_synonym 'a parsed = "pin_error + 'a"

section \<open>Attributes of a pin\<close>

definition pin_name :: "node \<Rightarrow> string" where
  "pin_name n = attribute_string 32 n ''name'' []"

definition index_from_node :: "(string \<Rightarrow> nat option) \<Rightarrow> node \<Rightarrow> nat parsed" where
  "index_from_node num_of n =
     (if \<not> has_attribute n ''index'' then Inl Index_invalid
      else Inr (attribute_as num_of n ''index'' 0))"

text \<open>The functions of a pin; the number of a function is its position.\<close>

datatype pin_function = INPUT | OUTPUT | FN2 | FN3 | FN4 | FN5 | IRQ | DISABLE

fun function_value :: "pin_function \<Rightarrow> nat" where
  "function_value INPUT = 0" | "function_value OUTPUT = 1" | "function_value FN2 = 2"
| "function_value FN3 = 3" | "function_value FN4 = 4" | "function_value FN5 = 5"
| "function_value IRQ = 6" | "function_value DISABLE = 7"

definition function_of_value :: "nat \<Rightarrow> pin_function" where
  "function_of_value n = [INPUT, OUTPUT, FN2, FN3, FN4, FN5, IRQ, DISABLE] ! n"

definition function_from_node :: "(string \<Rightarrow> nat option) \<Rightarrow> node \<Rightarrow> pin_function parsed" where
  "function_from_node num_of n =
     (if has_type ''in'' n then Inr (if has_attribute n ''irq'' then IRQ else INPUT)
      else if has_type ''out'' n then Inr OUTPUT
      else if \<not> has_type ''select'' n then Inl Function_invalid
      else let v = attribute_as num_of n ''function'' (function_value DISABLE)
           in if function_value DISABLE < v then Inl Function_invalid
              else if v = function_value INPUT \<or> v = function_value IRQ then Inl Function_invalid
              else if v = function_value OUTPUT then Inl Function_invalid
              else Inr (function_of_value v))"

datatype direction = IN | OUT

definition function_direction :: "pin_function \<Rightarrow> direction" where
  "function_direction f = (if f = OUTPUT then OUT else IN)"

datatype pull = Pull_disable | Pull_up | Pull_down

fun pull_value :: "pull \<Rightarrow> nat" where
  "pull_value Pull_disable = 0" | "pull_value Pull_up = 1" | "pull_value Pull_down = 2"

definition pull_from_node :: "node \<Rightarrow> pull parsed" where
  "pull_from_node n =
     (if \<not> has_attribute n ''pull'' then Inr Pull_disable
      else let v = attribute_string 10 n ''pull'' []
           in if v = ''up'' then Inr Pull_up
              else if v = ''down'' then Inr Pull_down
              else Inl Pull_invalid)"

datatype irq_trigger = RISING | FALLING | Trigger_high | Trigger_low | EDGES

fun trigger_value :: "irq_trigger \<Rightarrow> nat" where
  "trigger_value RISING = 0" | "trigger_value FALLING = 1" | "trigger_value Trigger_high = 2"
| "trigger_value Trigger_low = 3" | "trigger_value EDGES = 4"

definition irq_trigger_from_node :: "node \<Rightarrow> irq_trigger parsed" where
  "irq_trigger_from_node n =
     (if \<not> has_attribute n ''irq'' then Inr RISING
      else let v = attribute_string 10 n ''irq'' []
           in if v = ''rising'' then Inr RISING
              else if v = ''falling'' then Inr FALLING
              else if v = ''high'' then Inr Trigger_high
              else if v = ''low'' then Inr Trigger_low
              else if v = ''edges'' then Inr EDGES
              else Inl Irq_trigger_invalid)"

datatype level = LOW | HIGH | HIGH_IMPEDANCE

record pin_attr =
  at_pull :: pull
  at_function :: pin_function
  at_trigger :: irq_trigger
  out_on_demand :: bool
  default_state :: level

definition attr_output :: "pin_attr \<Rightarrow> bool" where
  "attr_output a \<longleftrightarrow> at_function a = OUTPUT"

definition attr_irq :: "pin_attr \<Rightarrow> bool" where
  "attr_irq a \<longleftrightarrow> at_function a = IRQ"

definition default_state_from_node :: "(string \<Rightarrow> bool option) \<Rightarrow> node \<Rightarrow> level" where
  "default_state_from_node bool_of n =
     (if \<not> has_attribute n ''default'' then HIGH_IMPEDANCE
      else if attribute_as bool_of n ''default'' False then HIGH else LOW)"

text \<open>The members are parsed in the order of the braced initialiser; the first error counts.\<close>

definition attr_from_node ::
  "(string \<Rightarrow> nat option) \<Rightarrow> (string \<Rightarrow> bool option) \<Rightarrow> node \<Rightarrow> pin_attr parsed" where
  "attr_from_node num_of bool_of n =
     (case pull_from_node n of Inl e \<Rightarrow> Inl e
      | Inr p \<Rightarrow> (case function_from_node num_of n of Inl e \<Rightarrow> Inl e
      | Inr f \<Rightarrow> (case irq_trigger_from_node n of Inl e \<Rightarrow> Inl e
      | Inr t \<Rightarrow> Inr \<lparr>at_pull = p, at_function = f, at_trigger = t,
           out_on_demand = (\<not> has_attribute n ''default''),
           default_state = default_state_from_node bool_of n\<rparr>)))"

definition attr_disabled :: pin_attr where
  "attr_disabled = \<lparr>at_pull = Pull_disable, at_function = DISABLE, at_trigger = RISING,
     out_on_demand = False, default_state = HIGH_IMPEDANCE\<rparr>"

section \<open>Physical pins\<close>

datatype bank = Bank_B | Bank_C | Bank_D | Bank_E | Bank_F | Bank_G | Bank_H | Bank_L

fun bank_value :: "bank \<Rightarrow> nat" where
  "bank_value Bank_B = 1" | "bank_value Bank_C = 2" | "bank_value Bank_D = 3"
| "bank_value Bank_E = 4" | "bank_value Bank_F = 5" | "bank_value Bank_G = 6"
| "bank_value Bank_H = 7" | "bank_value Bank_L = 8"

text \<open>The name has the type \<^verbatim>\<open>String<2>\<close>, so only its first character counts.\<close>

definition bank_from_node :: "node \<Rightarrow> bank parsed" where
  "bank_from_node n =
     (let name = attribute_string 2 n ''bank'' []
      in if name = ''B'' then Inr Bank_B else if name = ''C'' then Inr Bank_C
         else if name = ''D'' then Inr Bank_D else if name = ''E'' then Inr Bank_E
         else if name = ''F'' then Inr Bank_F else if name = ''G'' then Inr Bank_G
         else if name = ''H'' then Inr Bank_H else if name = ''L'' then Inr Bank_L
         else Inl Bank_invalid)"

record pin_id =
  id_bank :: bank
  id_index :: nat

definition pin_id_from_node :: "(string \<Rightarrow> nat option) \<Rightarrow> node \<Rightarrow> pin_id parsed" where
  "pin_id_from_node num_of n =
     (case bank_from_node n of Inl e \<Rightarrow> Inl e
      | Inr b \<Rightarrow> (case index_from_node num_of n of Inl e \<Rightarrow> Inl e
      | Inr i \<Rightarrow> Inr \<lparr>id_bank = b, id_index = i\<rparr>))"

section \<open>Facts\<close>

lemma function_of_value_inverse: "n \<le> 7 \<Longrightarrow> function_value (function_of_value n) = n"
  by (auto simp: function_of_value_def numeral_eq_Suc le_Suc_eq)

lemma function_value_inj: "function_value f = function_value g \<longleftrightarrow> f = g"
  by (cases f; cases g) auto

lemma bank_value_inj: "bank_value a = bank_value b \<longleftrightarrow> a = b"
  by (cases a; cases b) auto

lemma function_bound [simp]: "function_value f < 8"
  by (cases f) auto

lemma pull_bound [simp]: "pull_value p < 4"
  by (cases p) auto

lemma trigger_bound [simp]: "trigger_value t < 8"
  by (cases t) auto

text \<open>
  C26: the function of a declared pin fits its kind: an \<open>in\<close> pin is an input, and an
  interrupt exactly with an \<open>irq\<close> attribute; an \<open>out\<close> pin is an output; a \<open>select\<close> pin has
  the number it states, which is none of those, or is disabled if it states none.
\<close>

theorem function_fits_declaration:
  assumes "function_from_node num_of n = Inr f"
  shows "if has_type ''in'' n then f = (if has_attribute n ''irq'' then IRQ else INPUT)
    else if has_type ''out'' n then f = OUTPUT
    else has_type ''select'' n \<and> f \<notin> {INPUT, OUTPUT, IRQ}
      \<and> function_value f = attribute_as num_of n ''function'' 7"
proof -
  let ?v = "attribute_as num_of n ''function'' 7"
  have "f \<notin> {INPUT, OUTPUT, IRQ} \<and> function_value f = ?v"
    if "\<not> has_type ''in'' n" "\<not> has_type ''out'' n"
  proof -
    have v: "?v \<le> 7" "?v \<noteq> 0" "?v \<noteq> 1" "?v \<noteq> 6" "f = function_of_value ?v"
      using assms that by (auto simp: function_from_node_def Let_def split: if_splits)
    then have "function_value f = ?v" by (simp add: function_of_value_inverse)
    with v show ?thesis by auto
  qed
  then show ?thesis
    using assms by (auto simp: function_from_node_def Let_def split: if_splits)
qed

lemma function_fits_declaration_witness:
  "FN3 \<notin> {INPUT, OUTPUT, IRQ} \<and> function_value FN3
    = attribute_as (\<lambda>_. Some 3) (Node ''select'' [(''function'', ''3'')] [] []) ''function'' 7"
  using function_fits_declaration
    [of "\<lambda>_. Some 3" "Node ''select'' [(''function'', ''3'')] [] []" FN3]
  by (simp add: function_from_node_def has_type_def attribute_as_def attribute_def
      function_of_value_def)

end
