(* ===== verification/Pio.thy ===== *)
theory Pio
  imports Mmio Pin_Types
begin

text \<open>
  \<^verbatim>\<open>src/driver/pin/a64/pio.h\<close>: the registers of the pin controller. An operation is the
  program of bit-field writes it performs, or the field it reads. The controller has two
  register ranges; the second one (bank L) is placed at offset \<open>R_PIO\<close> here. Genode's
  register arrays ignore a write beyond their last item and read zero there, so an index
  above 31 has no effect.
\<close>

section \<open>Register layout\<close>

definition R_PIO :: nat where "R_PIO = 0x10000"

text \<open>\<open>array_write base off w i v\<close>: \<^verbatim>\<open>write<Reg>(v, i)\<close> on an array of 32 items of \<open>w\<close> bits\<close>

definition array_write :: "nat \<Rightarrow> nat \<Rightarrow> nat \<Rightarrow> nat \<Rightarrow> reg_program" where
  "array_write off w i v = (if i < 32 then [(array_item off w i, of_nat v)] else [])"

definition base_range :: "bank \<Rightarrow> nat" where
  "base_range b = (if b \<noteq> Bank_L then bank_value b * 0x24 else R_PIO)"

definition io_cfg :: "bank \<Rightarrow> nat" where "io_cfg b = base_range b + 0x0"
definition io_data :: "bank \<Rightarrow> nat" where "io_data b = base_range b + 0x10"
definition io_pull :: "bank \<Rightarrow> nat" where "io_pull b = base_range b + 0x1c"

text \<open>\<^verbatim>\<open>_with_irq_regs\<close>: four banks have interrupt registers.\<close>

fun irq_regs :: "bank \<Rightarrow> nat option" where
  "irq_regs Bank_B = Some 0x200"
| "irq_regs Bank_G = Some 0x220"
| "irq_regs Bank_H = Some 0x240"
| "irq_regs Bank_L = Some (R_PIO + 0x200)"
| "irq_regs _ = None"

definition irq_cfg :: "nat \<Rightarrow> nat" where "irq_cfg base = base + 0x0"
definition irq_control :: "nat \<Rightarrow> nat" where "irq_control base = base + 0x10"
definition irq_status :: "nat \<Rightarrow> nat" where "irq_status base = base + 0x14"

lemmas pio_layout_defs = base_range_def io_cfg_def io_data_def io_pull_def irq_cfg_def
  irq_control_def irq_status_def R_PIO_def

section \<open>Operations\<close>

definition io_configure :: "pin_id \<Rightarrow> pin_attr \<Rightarrow> reg_program" where
  "io_configure p a =
     array_write (io_cfg (id_bank p)) 4 (id_index p) (function_value (at_function a))
   @ array_write (io_pull (id_bank p)) 2 (id_index p) (pull_value (at_pull a))"

definition irq_configure :: "pin_id \<Rightarrow> pin_attr \<Rightarrow> reg_program" where
  "irq_configure p a = (case irq_regs (id_bank p) of None \<Rightarrow> []
     | Some base \<Rightarrow> array_write (irq_cfg base) 4 (id_index p) (trigger_value (at_trigger a)))"

definition pio_configure :: "pin_id \<Rightarrow> pin_attr \<Rightarrow> reg_program" where
  "pio_configure p a = io_configure p a @ irq_configure p a"

definition pio_state_field :: "pin_id \<Rightarrow> field" where
  "pio_state_field p = array_item (io_data (id_bank p)) 1 (id_index p)"

definition pio_read_state :: "('m \<Rightarrow> field \<Rightarrow> u32) \<Rightarrow> 'm \<Rightarrow> pin_id \<Rightarrow> bool" where
  "pio_read_state rd m p \<longleftrightarrow> id_index p < 32 \<and> rd m (pio_state_field p) \<noteq> 0"

definition pio_state :: "pin_id \<Rightarrow> level \<Rightarrow> reg_program" where
  "pio_state p l =
     (if l = HIGH_IMPEDANCE
      then array_write (io_cfg (id_bank p)) 4 (id_index p) (function_value INPUT)
      else array_write (io_cfg (id_bank p)) 4 (id_index p) (function_value OUTPUT)
         @ array_write (io_data (id_bank p)) 1 (id_index p) (if l = HIGH then 1 else 0))"

definition clear_irq_status :: "pin_id \<Rightarrow> reg_program" where
  "clear_irq_status p = (case irq_regs (id_bank p) of None \<Rightarrow> []
     | Some base \<Rightarrow> array_write (irq_status base) 1 (id_index p) 1)"

definition irq_enabled :: "pin_id \<Rightarrow> bool \<Rightarrow> reg_program" where
  "irq_enabled p en = (case irq_regs (id_bank p) of None \<Rightarrow> []
     | Some base \<Rightarrow> array_write (irq_control base) 1 (id_index p) (if en then 1 else 0))"

definition irq_pending :: "('m \<Rightarrow> field \<Rightarrow> u32) \<Rightarrow> 'm \<Rightarrow> pin_id \<Rightarrow> bool" where
  "irq_pending rd m p \<longleftrightarrow> (case irq_regs (id_bank p) of None \<Rightarrow> False
     | Some base \<Rightarrow> id_index p < 32 \<and> rd m (array_item (irq_status base) 1 (id_index p)) \<noteq> 0)"

section \<open>The fields of a pin\<close>

definition pin_fields :: "pin_id \<Rightarrow> field list" where
  "pin_fields p =
     [array_item (io_cfg (id_bank p)) 4 (id_index p), array_item (io_data (id_bank p)) 1 (id_index p),
      array_item (io_pull (id_bank p)) 2 (id_index p)]
   @ (case irq_regs (id_bank p) of None \<Rightarrow> []
      | Some base \<Rightarrow> [array_item (irq_cfg base) 4 (id_index p), array_item (irq_control base) 1 (id_index p),
                      array_item (irq_status base) 1 (id_index p)])"

definition pin_programs :: "pin_id \<Rightarrow> reg_program set" where
  "pin_programs p = {pio_configure p a |a. True} \<union> {pio_state p l |l. True}
     \<union> {clear_irq_status p} \<union> {irq_enabled p en |en. True}"

lemma pin_programs_fields:
  "prog \<in> pin_programs p \<Longrightarrow> (f, v) \<in> set prog \<Longrightarrow> id_index p < 32 \<and> f \<in> set (pin_fields p)"
  by (auto simp: pin_programs_def pio_configure_def io_configure_def irq_configure_def pio_state_def
      clear_irq_status_def irq_enabled_def array_write_def pin_fields_def split: if_splits option.splits)

lemma pin_fields_wf: "f \<in> set (pin_fields p) \<Longrightarrow> wf_field f"
  by (auto simp: pin_fields_def wf_array_item split: option.splits)

text \<open>An array of 32 items of \<open>w\<close> bits starts at \<open>off\<close> and ends \<open>4 * w\<close> bytes later.\<close>

lemma array_item_span:
  assumes "i < 32" and "w \<in> {1, 2, 4}"
  shows "off \<le> f_reg (array_item off w i) \<and> f_reg (array_item off w i) < off + 4 * w"
proof -
  have "i * w < w * 32" using assms by (auto simp: mult.commute)
  then have "i * w div 32 < w" by (rule less_mult_imp_div_less)
  moreover have "off \<le> off + 4 * k \<and> off + 4 * k < off + 4 * w" if "k < w" for k :: nat
    using that by simp
  ultimately show ?thesis unfolding array_item_def field.sel by blast
qed

text \<open>Arrays whose spans do not meet are disjoint.\<close>

lemma disjoint_spans:
  assumes "i < 32" and "j < 32" and "w \<in> {1, 2, 4}" and "v \<in> {1, 2, 4}"
    and "off + 4 * w \<le> off' \<or> off' + 4 * v \<le> off"
  shows "disjoint_fields (array_item off w i) (array_item off' v j)"
  using array_item_span [OF assms(1,3), of off] array_item_span [OF assms(2,4), of off'] assms(5)
  by (auto simp: disjoint_fields_def)

text \<open>The arrays of a bank: offset and item width.\<close>

definition bank_arrays :: "bank \<Rightarrow> (nat \<times> nat) list" where
  "bank_arrays b = [(io_cfg b, 4), (io_data b, 1), (io_pull b, 2)]
     @ (case irq_regs b of None \<Rightarrow> []
        | Some base \<Rightarrow> [(irq_cfg base, 4), (irq_control base, 1), (irq_status base, 1)])"

lemma pin_fields_arrays:
  "pin_fields p = map (\<lambda>(off, w). array_item off w (id_index p)) (bank_arrays (id_bank p))"
  by (simp add: pin_fields_def bank_arrays_def split: option.split)

lemma bank_arrays_width: "(off, w) \<in> set (bank_arrays b) \<Longrightarrow> w \<in> {1, 2, 4}"
  by (auto simp: bank_arrays_def split: option.splits)

lemma bank_arrays_table:
  "list_all (\<lambda>(off, w). list_all (\<lambda>(off', v). (a = b \<and> off = off' \<and> w = v)
     \<or> off + 4 * w \<le> off' \<or> off' + 4 * v \<le> off) (bank_arrays b)) (bank_arrays a)"
  by (cases a; cases b; simp add: bank_arrays_def pio_layout_defs)

lemma bank_arrays_spans:
  assumes "(off, w) \<in> set (bank_arrays a)" and "(off', v) \<in> set (bank_arrays b)"
    and "a \<noteq> b \<or> (off, w) \<noteq> (off', v)"
  shows "off + 4 * w \<le> off' \<or> off' + 4 * v \<le> off"
  using bank_arrays_table [of a b] assms by (fastforce simp: list_all_iff)

text \<open>
  An operation on one pin, be it configuration, output, or one on its interrupt, leaves
  every register field of every other pin of all banks as it is, on any register interface
  that meets the contract.
\<close>

theorem pin_operations_isolated:
  assumes "register_set rd wr" and "prog \<in> pin_programs p" and "p \<noteq> q" and "id_index q < 32"
    and "f \<in> set (pin_fields q)"
  shows "rd (run_writes wr prog m) f = rd m f"
proof (rule register_set.rd_untouched [OF assms(1)], clarify)
  fix g v assume "(g, v) \<in> set prog"
  then have g: "id_index p < 32" "g \<in> set (pin_fields p)" using pin_programs_fields [OF assms(2)] by auto
  obtain off w where a: "(off, w) \<in> set (bank_arrays (id_bank p))" "g = array_item off w (id_index p)"
    using g(2) by (auto simp: pin_fields_arrays)
  obtain off' w' where b: "(off', w') \<in> set (bank_arrays (id_bank q))" "f = array_item off' w' (id_index q)"
    using assms(5) by (auto simp: pin_fields_arrays)
  have "disjoint_fields g f"
  proof (cases "id_bank p = id_bank q \<and> (off, w) = (off', w')")
    case True
    then have "id_index p \<noteq> id_index q" using assms(3) by (auto intro: pin_id.equality)
    then show ?thesis
      using True a b bank_arrays_width [OF a(1)] by (auto intro: disjoint_array_items)
  next
    case False
    then show ?thesis
      using bank_arrays_spans [OF a(1) b(1)] disjoint_spans [OF g(1) assms(4)]
        bank_arrays_width [OF a(1)] bank_arrays_width [OF b(1)] a(2) b(2) by blast
  qed
  then show "wf_field g \<and> disjoint_fields g f" using pin_fields_wf [OF g(2)] by simp
qed

lemma pin_operations_isolated_witness:
  "reg_rd (run_writes reg_wr (pio_state \<lparr>id_bank = Bank_B, id_index = 9\<rparr> HIGH) (\<lambda>_. 7))
      (array_item (io_cfg Bank_B) 4 8) = reg_rd (\<lambda>_. 7) (array_item (io_cfg Bank_B) 4 8)"
  using pin_operations_isolated [OF reg_file.register_set_axioms,
      of "pio_state \<lparr>id_bank = Bank_B, id_index = 9\<rparr> HIGH" "\<lparr>id_bank = Bank_B, id_index = 9\<rparr>"
        "\<lparr>id_bank = Bank_B, id_index = 8\<rparr>" "array_item (io_cfg Bank_B) 4 8" "\<lambda>_. 7"]
  by (auto simp: pin_programs_def pin_fields_def)

section \<open>The effect of an operation\<close>

lemma take_bit_of_nat_small: "n < 2 ^ k \<Longrightarrow> take_bit k (of_nat n :: u32) = of_nat n"
  by (simp add: of_nat_take_bit [symmetric] take_bit_nat_eq_self)

lemma pin_fields_disjoint:
  assumes "id_index p < 32" and "x \<in> set (bank_arrays (id_bank p))"
    and "y \<in> set (bank_arrays (id_bank p))" and "x \<noteq> y"
  shows "disjoint_fields (array_item (fst x) (snd x) (id_index p)) (array_item (fst y) (snd y) (id_index p))"
  using bank_arrays_spans [of "fst x" "snd x" "id_bank p" "fst y" "snd y" "id_bank p"]
    disjoint_spans [OF assms(1) assms(1)] bank_arrays_width assms(2-4)
  by (metis prod.collapse)

lemma pin_effects:
  assumes "register_set rd wr" and True: "id_index p < 32"
  shows "rd (run_writes wr (pio_configure p a) m) (array_item (io_cfg (id_bank p)) 4 (id_index p))
       = of_nat (function_value (at_function a))
    \<and> rd (run_writes wr (pio_configure p a) m) (array_item (io_pull (id_bank p)) 2 (id_index p))
       = of_nat (pull_value (at_pull a))
    \<and> (\<forall>base. irq_regs (id_bank p) = Some base \<longrightarrow>
       rd (run_writes wr (pio_configure p a) m) (array_item (irq_cfg base) 4 (id_index p))
         = of_nat (trigger_value (at_trigger a)))
    \<and> rd (run_writes wr (pio_state p l) m) (array_item (io_cfg (id_bank p)) 4 (id_index p))
       = (if l = HIGH_IMPEDANCE then 0 else 1)
    \<and> (l \<noteq> HIGH_IMPEDANCE \<longrightarrow>
       (pio_read_state rd (run_writes wr (pio_state p l) m) p \<longleftrightarrow> l = HIGH))"
proof -
  let ?i = "id_index p" and ?b = "id_bank p"
  note same = register_set.rd_wr_same [OF assms(1)] and other = register_set.rd_wr_other [OF assms(1)]
  have wf: "wf_field (array_item off 4 ?i)" "wf_field (array_item off 2 ?i)" "wf_field (array_item off 1 ?i)" for off
    by (simp_all add: wf_array_item)
  have dis: "disjoint_fields (array_item off w ?i) (array_item off' v ?i)"
    if "(off, w) \<in> set (bank_arrays ?b)" "(off', v) \<in> set (bank_arrays ?b)" "(off, w) \<noteq> (off', v)"
    for off w off' v
    using pin_fields_disjoint [OF True that] by simp
  have d: "disjoint_fields (array_item (io_pull ?b) 2 ?i) (array_item (io_cfg ?b) 4 ?i)"
    "disjoint_fields (array_item (io_data ?b) 1 ?i) (array_item (io_cfg ?b) 4 ?i)"
    by (rule dis; simp add: bank_arrays_def)+
  have di: "disjoint_fields (array_item (irq_cfg base) 4 ?i) (array_item (io_cfg ?b) 4 ?i)"
    "disjoint_fields (array_item (irq_cfg base) 4 ?i) (array_item (io_pull ?b) 2 ?i)"
    if "irq_regs ?b = Some base" for base
    by (rule dis; use that in \<open>cases ?b; simp add: bank_arrays_def pio_layout_defs\<close>)+
  have cut: "take_bit 4 (of_nat (function_value f) :: u32) = of_nat (function_value f)"
    "take_bit 2 (of_nat (pull_value q) :: u32) = of_nat (pull_value q)"
    "take_bit 4 (of_nat (trigger_value t) :: u32) = of_nat (trigger_value t)" for f q t
    using function_bound [of f, THEN less_trans, of "2 ^ 4"] pull_bound [of q]
      trigger_bound [of t, THEN less_trans, of "2 ^ 4"]
    by (simp_all add: take_bit_of_nat_small)
  have w: "f_width (array_item off n ?i) = n" for off n by (simp add: array_item_def)
  have "rd (run_writes wr (pio_configure p a) m) (array_item (io_cfg ?b) 4 ?i) = of_nat (function_value (at_function a))"
    "rd (run_writes wr (pio_configure p a) m) (array_item (io_pull ?b) 2 ?i) = of_nat (pull_value (at_pull a))"
    by (cases "irq_regs ?b"; simp add: pio_configure_def io_configure_def irq_configure_def array_write_def
        True same other wf d di w cut run_writes_append)+
  moreover have "rd (run_writes wr (pio_configure p a) m) (array_item (irq_cfg base) 4 ?i)
      = of_nat (trigger_value (at_trigger a))" if "irq_regs ?b = Some base" for base
    using that by (simp add: pio_configure_def io_configure_def irq_configure_def array_write_def True
        same wf w cut run_writes_append)
  moreover have "rd (run_writes wr (pio_state p l) m) (array_item (io_cfg ?b) 4 ?i)
      = (if l = HIGH_IMPEDANCE then 0 else 1)"
    using cut(1) [of OUTPUT] by (simp add: pio_state_def array_write_def True same other wf d w del: One_nat_def)
  moreover have "pio_read_state rd (run_writes wr (pio_state p l) m) p \<longleftrightarrow> l = HIGH" if "l \<noteq> HIGH_IMPEDANCE"
    using that by (simp add: pio_state_def array_write_def True same other wf d w pio_read_state_def
        pio_state_field_def del: One_nat_def)
  ultimately show ?thesis by simp
qed

text \<open>What an operation leaves as it is: the level of a configured pin, and the rest of a driven one.\<close>

lemma pin_fields_kept:
  assumes "register_set rd wr" and p: "id_index p < 32"
  shows "pio_read_state rd (run_writes wr (pio_configure p a) m) p = pio_read_state rd m p"
    and "rd (run_writes wr (pio_state p l) m) (array_item (io_pull (id_bank p)) 2 (id_index p))
      = rd m (array_item (io_pull (id_bank p)) 2 (id_index p))"
    and "irq_regs (id_bank p) = Some base \<Longrightarrow>
      rd (run_writes wr (pio_state p l) m) (array_item (irq_cfg base) 4 (id_index p))
        = rd m (array_item (irq_cfg base) 4 (id_index p))"
proof -
  let ?i = "id_index p" and ?b = "id_bank p"
  have dis: "disjoint_fields (array_item off w ?i) (array_item off' v ?i)"
    if "(off, w) \<in> set (bank_arrays ?b)" "(off', v) \<in> set (bank_arrays ?b)" "(off, w) \<noteq> (off', v)"
    for off w off' v
    using pin_fields_disjoint [OF p that] by simp
  have data: "disjoint_fields (array_item (io_cfg ?b) 4 ?i) (array_item (io_data ?b) 1 ?i)"
    "disjoint_fields (array_item (io_pull ?b) 2 ?i) (array_item (io_data ?b) 1 ?i)"
    and pull: "disjoint_fields (array_item (io_cfg ?b) 4 ?i) (array_item (io_pull ?b) 2 ?i)"
    "disjoint_fields (array_item (io_data ?b) 1 ?i) (array_item (io_pull ?b) 2 ?i)"
    by (rule dis; simp add: bank_arrays_def)+
  have irq: "disjoint_fields (array_item (irq_cfg base) 4 ?i) (array_item (io_data ?b) 1 ?i)"
    "disjoint_fields (array_item (io_cfg ?b) 4 ?i) (array_item (irq_cfg base) 4 ?i)"
    "disjoint_fields (array_item (io_data ?b) 1 ?i) (array_item (irq_cfg base) 4 ?i)"
    if "irq_regs ?b = Some base" for base
    by (rule dis; use that in \<open>cases ?b; simp add: bank_arrays_def pio_layout_defs\<close>)+
  note kept = register_set.rd_untouched [OF assms(1)]
  have "rd (run_writes wr (pio_configure p a) m) (pio_state_field p) = rd m (pio_state_field p)"
    by (rule kept) (auto simp: pio_configure_def io_configure_def irq_configure_def array_write_def
        pio_state_field_def wf_array_item data irq simp del: One_nat_def split: option.split)
  then show "pio_read_state rd (run_writes wr (pio_configure p a) m) p = pio_read_state rd m p"
    by (simp add: pio_read_state_def)
  show "rd (run_writes wr (pio_state p l) m) (array_item (io_pull ?b) 2 ?i) = rd m (array_item (io_pull ?b) 2 ?i)"
    by (rule kept) (auto simp: pio_state_def array_write_def wf_array_item pull simp del: One_nat_def)
  show "rd (run_writes wr (pio_state p l) m) (array_item (irq_cfg base) 4 ?i) = rd m (array_item (irq_cfg base) 4 ?i)"
    if "irq_regs ?b = Some base"
    by (rule kept) (auto simp: pio_state_def array_write_def wf_array_item irq [OF that] simp del: One_nat_def)
qed

text \<open>
  C16: configuring a pin puts its function and its pull resistor into the pin's fields, and
  its interrupt trigger where the bank has interrupts; setting its level makes it an output
  that carries the level, or an input for the high-impedance state. A pin with an index
  beyond the bank changes nothing.
\<close>

theorem pin_operation_effects:
  assumes "register_set rd wr"
  shows "if id_index p < 32
    then rd (run_writes wr (pio_configure p a) m) (array_item (io_cfg (id_bank p)) 4 (id_index p))
          = of_nat (function_value (at_function a))
       \<and> rd (run_writes wr (pio_configure p a) m) (array_item (io_pull (id_bank p)) 2 (id_index p))
          = of_nat (pull_value (at_pull a))
       \<and> (\<forall>base. irq_regs (id_bank p) = Some base \<longrightarrow>
          rd (run_writes wr (pio_configure p a) m) (array_item (irq_cfg base) 4 (id_index p))
            = of_nat (trigger_value (at_trigger a)))
       \<and> rd (run_writes wr (pio_state p l) m) (array_item (io_cfg (id_bank p)) 4 (id_index p))
          = (if l = HIGH_IMPEDANCE then 0 else 1)
       \<and> (l \<noteq> HIGH_IMPEDANCE \<longrightarrow>
          (pio_read_state rd (run_writes wr (pio_state p l) m) p \<longleftrightarrow> l = HIGH))
    else pio_configure p a = [] \<and> pio_state p l = []"
proof (cases "id_index p < 32")
  case True
  then show ?thesis using pin_effects [OF assms True] by simp
next
  case False
  then show ?thesis
    by (simp add: pio_configure_def io_configure_def irq_configure_def pio_state_def array_write_def
        split: option.split)
qed

lemma pin_operation_effects_witness:
  "pio_read_state reg_rd (run_writes reg_wr (pio_state \<lparr>id_bank = Bank_L, id_index = 3\<rparr> HIGH) (\<lambda>_. 0))
     \<lparr>id_bank = Bank_L, id_index = 3\<rparr>"
  using pin_operation_effects [OF reg_file.register_set_axioms,
      where p = "\<lparr>id_bank = Bank_L, id_index = 3\<rparr>" and m = "\<lambda>_. 0" and l = HIGH] by simp

section \<open>Acknowledging an interrupt\<close>

text \<open>
  Acknowledging the interrupt of one pin writes a one to the status bit of every pin of
  the bank whose status the register shows at that time, since the register array is
  written by reading the register, replacing one item and writing the result. The hardware
  takes a one as an acknowledgement, so interrupts of the other pins are acknowledged too.
\<close>

theorem irq_acknowledges_all_pending:
  fixes m :: regs
  assumes "irq_regs (id_bank p) = Some base" and "id_index p < 32"
  shows "bit (run_writes reg_wr (clear_irq_status p) m (irq_status base)) (id_index p)
    \<and> (\<forall>n. bit (m (irq_status base)) n \<longrightarrow>
          bit (run_writes reg_wr (clear_irq_status p) m (irq_status base)) n)"
proof -
  have "array_item (irq_status base) 1 (id_index p) = Fld (irq_status base) (id_index p) 1"
    using assms(2) by (simp add: array_item_def)
  then have "clear_irq_status p = [(Fld (irq_status base) (id_index p) 1, 1)]"
    using assms by (simp add: clear_irq_status_def array_write_def)
  then show ?thesis
    using assms(2) by (auto simp: bit_reg_wr bit_1_iff dest: bit_imp_le_length)
qed

lemma irq_acknowledges_all_pending_witness:
  "bit (run_writes reg_wr (clear_irq_status \<lparr>id_bank = Bank_B, id_index = 3\<rparr>)
     (\<lambda>_. 0x20) (irq_status 0x200)) 5"
  using irq_acknowledges_all_pending
      [where p = "\<lparr>id_bank = Bank_B, id_index = 3\<rparr>" and m = "\<lambda>_. 0x20" and base = "0x200"]
  by (simp add: bit_simps)

end
