(* ===== verification/Pin_Driver.thy ===== *)
theory Pin_Driver
  imports Pio
begin

text \<open>
  \<^verbatim>\<open>src/driver/pin/a64/main.cc\<close>: the pin driver. The state is the list of declared pins in
  iteration order; every operation returns the register program it performs. Sessions,
  signals and the interrupt objects are Genode's. \<^verbatim>\<open>List_model::update_from_node\<close> goes through
  the relevant sub nodes in order, takes the first remaining element that matches or creates
  one, updates it, and destroys what remains. An exception that leaves an operation is its
  \<open>Inl\<close> result.
\<close>

record pin_declaration =
  pd_name :: string
  pd_id :: "pin_id option"
  pd_attr :: pin_attr
  pd_ref_count :: u32

definition new_declaration :: "node \<Rightarrow> pin_declaration" where
  "new_declaration n = \<lparr>pd_name = pin_name n, pd_id = None, pd_attr = attr_disabled, pd_ref_count = 0\<rparr>"

definition type_matches :: "node \<Rightarrow> bool" where
  "type_matches n \<longleftrightarrow>
     (has_type ''in'' n \<or> has_type ''out'' n \<or> has_type ''select'' n) \<and> has_attribute n ''name''"

text \<open>\<^verbatim>\<open>matches(Node)\<close>: the function of the node is parsed outside any exception handler.\<close>

definition matches_node :: "(string \<Rightarrow> nat option) \<Rightarrow> pin_declaration \<Rightarrow> node \<Rightarrow> bool parsed" where
  "matches_node num_of pin n =
     (if \<not> type_matches n \<or> pd_name pin \<noteq> pin_name n then Inr False
      else case function_from_node num_of n of Inl e \<Rightarrow> Inl e
        | Inr f \<Rightarrow> Inr (function_direction (at_function (pd_attr pin)) = function_direction f))"

definition reset_program :: "pin_id option \<Rightarrow> reg_program" where
  "reset_program i = (case i of None \<Rightarrow> [] | Some p \<Rightarrow> pio_configure p attr_disabled)"

text \<open>The handler for a malformed declaration\<close>

definition malformed :: "pin_declaration \<Rightarrow> pin_declaration \<times> reg_program" where
  "malformed pin = (pin\<lparr>pd_id := None, pd_attr := attr_disabled\<rparr>, reset_program (pd_id pin))"

definition update_pin :: "(string \<Rightarrow> nat option) \<Rightarrow> (string \<Rightarrow> bool option) \<Rightarrow> node
    \<Rightarrow> pin_declaration \<Rightarrow> pin_declaration \<times> reg_program" where
  "update_pin num_of bool_of n pin =
     (case pin_id_from_node num_of n of Inl _ \<Rightarrow> malformed pin
      | Inr new_id \<Rightarrow>
     (case attr_from_node num_of bool_of n of Inl _ \<Rightarrow> malformed pin
      | Inr a \<Rightarrow>
          (let id_changed = (pd_id pin \<noteq> None \<and> pd_id pin \<noteq> Some new_id);
               on_demand_output = (attr_output a \<and> out_on_demand a);
               configured_default_output = (attr_output a \<and> \<not> out_on_demand a)
           in (pin\<lparr>pd_id := Some new_id, pd_attr := a\<rparr>,
               (if id_changed then reset_program (pd_id pin) else [])
             @ (if on_demand_output then [] else pio_configure new_id a)
             @ (if pd_ref_count pin = 0 \<and> configured_default_output
                then pio_state new_id (default_state a) else [])))))"

section \<open>Update of the configuration\<close>

text \<open>The first element that matches, and the rest.\<close>

fun take_matching :: "(string \<Rightarrow> nat option) \<Rightarrow> node \<Rightarrow> pin_declaration list
    \<Rightarrow> (pin_declaration option \<times> pin_declaration list) parsed" where
  "take_matching num_of n [] = Inr (None, [])"
| "take_matching num_of n (p # ps) =
     (case matches_node num_of p n of Inl e \<Rightarrow> Inl e
      | Inr True \<Rightarrow> Inr (Some p, ps)
      | Inr False \<Rightarrow> (case take_matching num_of n ps of Inl e \<Rightarrow> Inl e
          | Inr (r, rest) \<Rightarrow> Inr (r, p # rest)))"

fun update_pins :: "(string \<Rightarrow> nat option) \<Rightarrow> (string \<Rightarrow> bool option) \<Rightarrow> node list
    \<Rightarrow> pin_declaration list \<Rightarrow> pin_declaration list \<Rightarrow> (pin_declaration list \<times> reg_program) parsed" where
  "update_pins num_of bool_of [] old new =
     Inr (new, concat (map (\<lambda>p. reset_program (pd_id p)) old))"
| "update_pins num_of bool_of (n # ns) old new =
     (if \<not> type_matches n then update_pins num_of bool_of ns old new
      else case take_matching num_of n old of Inl e \<Rightarrow> Inl e
        | Inr (r, rest) \<Rightarrow>
            (let (pin, prog) = update_pin num_of bool_of n
                   (case r of Some p \<Rightarrow> p | None \<Rightarrow> new_declaration n)
             in case update_pins num_of bool_of ns rest (new @ [pin]) of Inl e \<Rightarrow> Inl e
               | Inr (ps, prog') \<Rightarrow> Inr (ps, prog @ prog')))"

definition handle_config :: "(string \<Rightarrow> nat option) \<Rightarrow> (string \<Rightarrow> bool option) \<Rightarrow> node
    \<Rightarrow> pin_declaration list \<Rightarrow> (pin_declaration list \<times> reg_program) parsed" where
  "handle_config num_of bool_of config pins = update_pins num_of bool_of (node_subs config) pins []"

section \<open>Sessions\<close>

definition matches_pin :: "pin_id \<Rightarrow> direction \<Rightarrow> pin_declaration \<Rightarrow> bool" where
  "matches_pin i dir pin \<longleftrightarrow>
     pd_id pin = Some i \<and> dir = function_direction (at_function (pd_attr pin))"

text \<open>\<^verbatim>\<open>_with_pin_declaration\<close>: \<open>fn\<close> on every pin that matches, in order\<close>

fun with_pin_declaration :: "pin_id \<Rightarrow> direction
    \<Rightarrow> (pin_declaration \<Rightarrow> pin_declaration \<times> reg_program)
    \<Rightarrow> pin_declaration list \<Rightarrow> pin_declaration list \<times> reg_program" where
  "with_pin_declaration i dir fn [] = ([], [])"
| "with_pin_declaration i dir fn (p # ps) =
     (let (p', prog) = (if matches_pin i dir p then fn p else (p, []));
          (ps', prog') = with_pin_declaration i dir fn ps
      in (p' # ps', prog @ prog'))"

definition acquire_one :: "pin_id \<Rightarrow> pin_declaration \<Rightarrow> pin_declaration \<times> reg_program" where
  "acquire_one i pin =
     (pin\<lparr>pd_ref_count := pd_ref_count pin + 1\<rparr>,
      (if attr_output (pd_attr pin)
       then (if out_on_demand (pd_attr pin) then pio_configure i (pd_attr pin)
             else pio_state i (default_state (pd_attr pin)))
       else [])
    @ (if attr_irq (pd_attr pin) then pio_configure i (pd_attr pin) else []))"

definition release_one :: "pin_id \<Rightarrow> pin_declaration \<Rightarrow> pin_declaration \<times> reg_program" where
  "release_one i pin =
     (let pin' = pin\<lparr>pd_ref_count := pd_ref_count pin - 1\<rparr>
      in if 0 < pd_ref_count pin' then (pin', [])
         else (pin',
           (if attr_output (pd_attr pin)
            then (if out_on_demand (pd_attr pin) then pio_configure i attr_disabled
                  else pio_state i (default_state (pd_attr pin)))
            else [])
         @ (if attr_irq (pd_attr pin) then pio_configure i attr_disabled else [])))"

definition acquire_pin :: "pin_id \<Rightarrow> direction \<Rightarrow> pin_declaration list \<Rightarrow> pin_declaration list \<times> reg_program" where
  "acquire_pin i dir pins = with_pin_declaration i dir (acquire_one i) pins"

definition release_pin :: "pin_id \<Rightarrow> direction \<Rightarrow> pin_declaration list \<Rightarrow> pin_declaration list \<times> reg_program" where
  "release_pin i dir pins = with_pin_declaration i dir (release_one i) pins"

text \<open>
  \<^verbatim>\<open>assigned_pin\<close>: \<open>policy\<close> is the pin name of the matching policy, if there is one. The
  identifier of a malformed pin is not constructed, and taking its value raises.
\<close>

datatype assign_error = Deref_unconstructed | Service_denied

fun assign_loop :: "string \<Rightarrow> direction \<Rightarrow> pin_declaration list \<Rightarrow> pin_id option
    \<Rightarrow> assign_error + pin_id option" where
  "assign_loop name dir [] r = Inr r"
| "assign_loop name dir (p # ps) r =
     (if pd_name p = name \<and> function_direction (at_function (pd_attr p)) = dir
      then (case pd_id p of None \<Rightarrow> Inl Deref_unconstructed
            | Some i \<Rightarrow> assign_loop name dir ps (Some i))
      else assign_loop name dir ps r)"

definition assigned_pin :: "string option \<Rightarrow> direction \<Rightarrow> pin_declaration list \<Rightarrow> assign_error + pin_id" where
  "assigned_pin policy dir pins =
     (case (case policy of None \<Rightarrow> Inr None
            | Some name \<Rightarrow> assign_loop (genode_string 32 name) dir pins None)
      of Inl e \<Rightarrow> Inl e | Inr None \<Rightarrow> Inl Service_denied | Inr (Some i) \<Rightarrow> Inr i)"

section \<open>Declarations\<close>

definition malformed_node :: "(string \<Rightarrow> nat option) \<Rightarrow> (string \<Rightarrow> bool option) \<Rightarrow> node \<Rightarrow> bool" where
  "malformed_node num_of bool_of n \<longleftrightarrow>
     (\<exists>e. pin_id_from_node num_of n = Inl e) \<or> (\<exists>e. attr_from_node num_of bool_of n = Inl e)"

text \<open>What the registers say of a place: its function, pull resistor, and interrupt trigger.\<close>

definition place_carries :: "('m \<Rightarrow> field \<Rightarrow> u32) \<Rightarrow> 'm \<Rightarrow> pin_id \<Rightarrow> nat \<Rightarrow> nat \<Rightarrow> nat \<Rightarrow> bool" where
  "place_carries rd m i f q t \<longleftrightarrow>
     rd m (array_item (io_cfg (id_bank i)) 4 (id_index i)) = of_nat f
   \<and> rd m (array_item (io_pull (id_bank i)) 2 (id_index i)) = of_nat q
   \<and> (\<forall>base. irq_regs (id_bank i) = Some base \<longrightarrow>
        rd m (array_item (irq_cfg base) 4 (id_index i)) = of_nat t)"

lemma configured_place:
  assumes "register_set rd wr" and "id_index i < 32"
  shows "place_carries rd (run_writes wr (pio_configure i a) m) i
    (function_value (at_function a)) (pull_value (at_pull a)) (trigger_value (at_trigger a))"
  using pin_effects [OF assms] unfolding place_carries_def by blast

text \<open>A disabled place has function 7, no pull resistor, and the first trigger.\<close>

lemma disabled_place:
  assumes "register_set rd wr" and "id_index i < 32"
  shows "place_carries rd (run_writes wr (pio_configure i attr_disabled) m) i 7 0 0"
  using configured_place [OF assms, of attr_disabled m] by (simp add: attr_disabled_def)

lemma driven_place:
  assumes "register_set rd wr" and "id_index i < 32" and "place_carries rd m i f q t" and "l \<noteq> HIGH_IMPEDANCE"
  shows "place_carries rd (run_writes wr (pio_state i l) m) i 1 q t"
    and "pio_read_state rd (run_writes wr (pio_state i l) m) i \<longleftrightarrow> l = HIGH"
  using assms(3,4) pin_effects [OF assms(1,2), where a = attr_disabled and m = m and l = l]
    pin_fields_kept(2,3) [OF assms(1,2), where m = m and l = l]
  unfolding place_carries_def by auto

lemma other_place:
  assumes "register_set rd wr" and "prog \<in> pin_programs p" and "p \<noteq> i" and "id_index i < 32"
  shows "place_carries rd (run_writes wr prog m) i f q t = place_carries rd m i f q t"
    and "f' \<in> set (pin_fields i) \<Longrightarrow> rd (run_writes wr prog m) f' = rd m f'"
    and "pio_read_state rd (run_writes wr prog m) i = pio_read_state rd m i"
proof -
  have same: "rd (run_writes wr prog m) f = rd m f" if "f \<in> set (pin_fields i)" for f
    by (rule pin_operations_isolated [OF assms that])
  show "place_carries rd (run_writes wr prog m) i f q t = place_carries rd m i f q t"
    using same unfolding place_carries_def pin_fields_def by (cases "irq_regs (id_bank i)") simp_all
  show "f' \<in> set (pin_fields i) \<Longrightarrow> rd (run_writes wr prog m) f' = rd m f'" by (rule same)
  show "pio_read_state rd (run_writes wr prog m) i = pio_read_state rd m i"
    using same by (simp add: pio_read_state_def pio_state_field_def pin_fields_def)
qed

lemma programs_of_pin:
  "pio_configure i a \<in> pin_programs i" "pio_state i l \<in> pin_programs i"
  by (auto simp: pin_programs_def)

lemma attr_default_level:
  "attr_from_node num_of bool_of n = Inr a \<Longrightarrow> out_on_demand a = (\<not> has_attribute n ''default'')
    \<and> (has_attribute n ''default'' \<longrightarrow>
        default_state a = (if attribute_as bool_of n ''default'' False then HIGH else LOW))"
  by (auto simp: attr_from_node_def default_state_from_node_def split: sum.splits if_splits)

text \<open>
  C14: updating a declared pin. From a malformed declaration the pin loses its place, so no
  session can use it, and the place it had is disabled in the registers. From a well-formed one
  it gets the declared place and attributes; a different old place is disabled; and the
  registers of the new place carry the declared function, pull resistor, and trigger, and for an
  output with a default that is not in use its default level (in use, the level stays). Only
  an output without a default is not touched.
\<close>

theorem update_pin_result:
  assumes "register_set rd wr" and "update_pin num_of bool_of n pin = (pin', prog)"
    and "m' = run_writes wr prog m"
  shows "(\<forall>old. pd_id pin = Some old \<longrightarrow> pd_id pin' \<noteq> Some old \<longrightarrow> id_index old < 32 \<longrightarrow>
       place_carries rd m' old 7 0 0)
   \<and> (if malformed_node num_of bool_of n
      then (\<forall>i dir. \<not> matches_pin i dir pin') \<and> \<not> attr_output (pd_attr pin')
      else \<exists>i a. pin_id_from_node num_of n = Inr i \<and> attr_from_node num_of bool_of n = Inr a
        \<and> pin' = pin\<lparr>pd_id := Some i, pd_attr := a\<rparr>
        \<and> (id_index i < 32 \<longrightarrow>
            (if attr_output a \<and> \<not> has_attribute n ''default''
             then \<forall>f \<in> set (pin_fields i). rd m' f = rd m f
             else place_carries rd m' i
                 (function_value (at_function a)) (pull_value (at_pull a)) (trigger_value (at_trigger a))
               \<and> (attr_output a \<longrightarrow> pio_read_state rd m' i =
                   (if pd_ref_count pin = 0 then attribute_as bool_of n ''default'' False
                    else pio_read_state rd m i)))))"
proof (cases "malformed_node num_of bool_of n")
  case True
  then have "(pin', prog) = malformed pin"
    using assms(2) by (auto simp: malformed_node_def update_pin_def split: sum.splits)
  then show ?thesis
    using True disabled_place [OF assms(1)] assms(3)
    by (auto simp: malformed_def reset_program_def matches_pin_def attr_disabled_def attr_output_def)
next
  case False
  then obtain i a where i: "pin_id_from_node num_of n = Inr i" and a: "attr_from_node num_of bool_of n = Inr a"
    by (cases "pin_id_from_node num_of n"; cases "attr_from_node num_of bool_of n")
      (auto simp: malformed_node_def)
  note def = attr_default_level [OF a]
  define reset where "reset = (if pd_id pin \<noteq> None \<and> pd_id pin \<noteq> Some i then reset_program (pd_id pin) else [])"
  define conf where "conf = (if attr_output a \<and> out_on_demand a then [] else pio_configure i a)"
  define lev where "lev = (if pd_ref_count pin = 0 \<and> attr_output a \<and> \<not> out_on_demand a
    then pio_state i (default_state a) else [])"
  have pin': "pin' = pin\<lparr>pd_id := Some i, pd_attr := a\<rparr>" and "prog = reset @ conf @ lev"
    using assms(2) i a by (auto simp: update_pin_def Let_def reset_def conf_def lev_def)
  then have m': "m' = run_writes wr lev (run_writes wr conf (run_writes wr reset m))"
    by (simp add: assms(3) run_writes_append)
  have old: "place_carries rd m' old 7 0 0" if "pd_id pin = Some old" "old \<noteq> i" "id_index old < 32" for old
  proof -
    have "place_carries rd (run_writes wr reset m) old 7 0 0"
      using disabled_place [OF assms(1) that(3)] that by (simp add: reset_def reset_program_def)
    then show ?thesis
      using other_place(1) [OF assms(1) programs_of_pin(1) that(2) [symmetric] that(3)]
        other_place(1) [OF assms(1) programs_of_pin(2) that(2) [symmetric] that(3)]
      by (simp add: m' conf_def lev_def)
  qed
  have same: "rd (run_writes wr reset m) f = rd m f" if "f \<in> set (pin_fields i)" "id_index i < 32" for f
    using other_place(2) [OF assms(1) programs_of_pin(1) _ that(2,1)]
    by (auto simp: reset_def reset_program_def split: option.split)
  then have level: "pio_read_state rd (run_writes wr reset m) i = pio_read_state rd m i" if "id_index i < 32"
    using that by (simp add: pio_read_state_def pio_state_field_def pin_fields_def)
  have new: "place_carries rd m' i
        (function_value (at_function a)) (pull_value (at_pull a)) (trigger_value (at_trigger a))
      \<and> (attr_output a \<longrightarrow> pio_read_state rd m' i =
          (if pd_ref_count pin = 0 then attribute_as bool_of n ''default'' False else pio_read_state rd m i))"
    if small: "id_index i < 32" and touched: "\<not> (attr_output a \<and> out_on_demand a)"
  proof -
    note c = configured_place [OF assms(1) small, of a "run_writes wr reset m"]
    have conf: "conf = pio_configure i a" using touched by (auto simp: conf_def)
    show ?thesis
    proof (cases "lev = []")
      case True
      moreover have "attr_output a \<longrightarrow> pd_ref_count pin \<noteq> 0"
        using True touched small by (auto simp: lev_def pio_state_def array_write_def split: if_splits)
      ultimately show ?thesis
        using c pin_fields_kept(1) [OF assms(1) small] level [OF small] by (simp add: m' conf)
    next
      case False
      then have "lev = pio_state i (default_state a)" "pd_ref_count pin = 0" "attr_output a" "default_state a \<noteq> HIGH_IMPEDANCE"
        "default_state a = HIGH \<longleftrightarrow> attribute_as bool_of n ''default'' False"
        using def touched by (auto simp: lev_def split: if_splits)
      then show ?thesis
        using driven_place [OF assms(1) small c] by (simp add: m' conf attr_output_def)
    qed
  qed
  have untouched: "rd m' f = rd m f" if "attr_output a" "out_on_demand a" "f \<in> set (pin_fields i)" "id_index i < 32" for f
    using that same by (simp add: m' conf_def lev_def)
  show ?thesis
    using False i a pin' old new untouched def by (auto simp: malformed_node_def)
qed

text \<open>A declared output with the default level "on" is driven high at once.\<close>

definition lit_node :: node where
  "lit_node = Node ''out'' [(''name'', ''led''), (''bank'', ''B''), (''index'', ''1''), (''default'', ''on'')] [] []"

lemma update_pin_result_witness:
  "pio_read_state reg_rd (run_writes reg_wr
      (snd (update_pin (\<lambda>_. Some 1) (\<lambda>_. Some True) lit_node (new_declaration lit_node))) (\<lambda>_. 0))
     \<lparr>id_bank = Bank_B, id_index = 1\<rparr>"
proof -
  let ?u = "update_pin (\<lambda>_. Some 1) (\<lambda>_. Some True) lit_node (new_declaration lit_node)"
  have "pin_id_from_node (\<lambda>_. Some 1) lit_node = Inr \<lparr>id_bank = Bank_B, id_index = 1\<rparr>" by code_simp
  moreover have "\<exists>a. attr_from_node (\<lambda>_. Some 1) (\<lambda>_. Some True) lit_node = Inr a \<and> attr_output a"
    by (rule exI [of _ "pd_attr (fst ?u)"]) code_simp
  moreover have "pd_ref_count (new_declaration lit_node) = 0" "has_attribute lit_node ''default''"
    "attribute_as (\<lambda>_. Some True) lit_node ''default'' False" by code_simp+
  ultimately show ?thesis
    using update_pin_result [OF reg_file.register_set_axioms, of "\<lambda>_. Some 1" "\<lambda>_. Some True" lit_node
        "new_declaration lit_node" "fst ?u" "snd ?u" _ "\<lambda>_. 0"] by (auto simp: malformed_node_def)
qed

text \<open>
  A pin that was declared with a default level and is then declared without one keeps its
  place and is not touched: it stays driven although no session uses it.
\<close>

theorem removed_default_stays_driven:
  "let (pin, prog) = update_pin (\<lambda>_. Some 1) (\<lambda>_. Some True) lit_node (new_declaration lit_node);
       (pin', prog') = update_pin (\<lambda>_. Some 1) (\<lambda>_. None)
         (Node ''out'' [(''name'', ''led''), (''bank'', ''B''), (''index'', ''1'')] [] []) pin
   in reg_rd (run_writes reg_wr prog (\<lambda>_. 0)) (array_item (io_cfg Bank_B) 4 1) = 1
     \<and> out_on_demand (pd_attr pin') \<and> pd_ref_count pin' = 0 \<and> prog' = []"
  by code_simp

text \<open>A \<open>select\<close> pin with a function number out of range.\<close>

definition broken_select :: node where
  "broken_select = Node ''config'' [] []
     [Node ''select'' [(''name'', ''mclk''), (''bank'', ''E''), (''index'', ''1''), (''function'', ''9'')] [] []]"

definition parse_digit :: "string \<Rightarrow> nat option" where
  "parse_digit s = (if s = ''1'' then Some 1 else if s = ''9'' then Some 9 else None)"

text \<open>
  A malformed declaration is tolerated when it first appears, but not when the
  configuration is applied again: the existing element is compared with the declaration by
  parsing its function outside of any exception handler, so the error leaves the
  configuration handler.
\<close>

theorem malformed_function_breaks_next_update:
  "case handle_config parse_digit (\<lambda>_. None) broken_select [] of
     Inl e \<Rightarrow> False
   | Inr (pins, prog) \<Rightarrow> pins \<noteq> [] \<and> prog = []
       \<and> handle_config parse_digit (\<lambda>_. None) broken_select pins = Inl Function_invalid"
  by code_simp

definition assign_hit :: "string \<Rightarrow> direction \<Rightarrow> pin_declaration \<Rightarrow> bool" where
  "assign_hit name dir p \<longleftrightarrow> pd_name p = name \<and> function_direction (at_function (pd_attr p)) = dir"

lemma assign_loop_result:
  "case assign_loop n dir ps r of
     Inr (Some i) \<Rightarrow> r = Some i \<or> (\<exists>p \<in> set ps. assign_hit n dir p \<and> pd_id p = Some i)
   | Inr None \<Rightarrow> r = None \<and> (\<forall>p \<in> set ps. \<not> assign_hit n dir p)
   | Inl e \<Rightarrow> e = Deref_unconstructed \<and> (\<exists>p \<in> set ps. assign_hit n dir p \<and> pd_id p = None)"
  by (induction n dir ps r rule: assign_loop.induct)
    (auto simp: assign_hit_def split: option.splits sum.splits if_splits)

text \<open>
  An assigned pin is one with the name of the policy and the direction of the session; a
  session whose policy names a declared but malformed pin is not denied, though: the absent
  identifier is dereferenced.
\<close>

theorem assigned_pin_result:
  "case assigned_pin policy dir pins of
     Inr i \<Rightarrow> \<exists>name pin. policy = Some name \<and> pin \<in> set pins \<and> pd_id pin = Some i
       \<and> pd_name pin = genode_string 32 name \<and> function_direction (at_function (pd_attr pin)) = dir
   | Inl Deref_unconstructed \<Rightarrow> \<exists>name pin. policy = Some name \<and> pin \<in> set pins \<and> pd_id pin = None
       \<and> pd_name pin = genode_string 32 name \<and> function_direction (at_function (pd_attr pin)) = dir
   | Inl Service_denied \<Rightarrow> policy = None \<or> (\<exists>name. policy = Some name \<and> (\<forall>pin \<in> set pins.
       pd_name pin = genode_string 32 name \<longrightarrow> function_direction (at_function (pd_attr pin)) \<noteq> dir))"
proof -
  show ?thesis
  proof (cases policy)
    case (Some name)
    then show ?thesis
      using assign_loop_result [where dir = dir and n = "genode_string 32 name" and ps = pins and r = None]
      by (auto simp: assigned_pin_def assign_hit_def split: sum.splits option.splits assign_error.splits)
  qed (simp add: assigned_pin_def)
qed

lemma assigned_pin_result_witness:
  "assigned_pin (Some ''mclk'') IN
     (case handle_config parse_digit (\<lambda>_. None) broken_select [] of Inr (ps, _) \<Rightarrow> ps | Inl _ \<Rightarrow> [])
   = Inl Deref_unconstructed
   \<and> (case assigned_pin (Some ''mclk'') IN [] of Inr i \<Rightarrow> False | Inl Deref_unconstructed \<Rightarrow> False
      | Inl Service_denied \<Rightarrow> True)"
proof -
  have "assigned_pin (Some ''mclk'') IN [] = Inl Service_denied" by code_simp
  moreover have "assigned_pin (Some ''mclk'') IN
     (case handle_config parse_digit (\<lambda>_. None) broken_select [] of Inr (ps, _) \<Rightarrow> ps | Inl _ \<Rightarrow> [])
   = Inl Deref_unconstructed" by code_simp
  ultimately show ?thesis
    using assigned_pin_result [where policy = "Some ''mclk''" and dir = IN and pins = "[]"] by simp
qed

section \<open>The lifetime of an output\<close>

lemma with_pin_declaration_one:
  assumes "matches_pin i dir p" and "\<forall>q \<in> set (xs @ ys). \<not> matches_pin i dir q"
  shows "with_pin_declaration i dir fn (xs @ p # ys) = (xs @ fst (fn p) # ys, snd (fn p))"
proof -
  have skip: "with_pin_declaration i dir fn zs = (zs, [])" if "\<forall>q \<in> set zs. \<not> matches_pin i dir q" for zs
    using that by (induction zs) auto
  show ?thesis
    using assms(2) by (induction xs) (auto simp: assms(1) skip split: prod.split)
qed

text \<open>
  C22: the life of an \<open>out\<close> pin between acquisition and release. Acquiring it makes it an
  output, with the default level if one is declared. The release by the last session, whatever
  happened to the registers in between, disables a pin without a default and puts any other
  back to its default level; a release while other sessions use the pin changes nothing in the
  hardware. The number of users is as before.
\<close>

theorem output_pin_lifetime:
  assumes "register_set rd wr" and "attr_from_node num_of bool_of n = Inr (pd_attr p)"
    and "attr_output (pd_attr p)" and "pd_id p = Some i" and "id_index i < 32"
    and "\<forall>q \<in> set (xs @ ys). \<not> matches_pin i OUT q"
    and "acquire_pin i OUT (xs @ p # ys) = (pins, prog)" and "release_pin i OUT pins = (pins', prog')"
    and "cfg = array_item (io_cfg (id_bank i)) 4 (id_index i)"
    and "m1 = run_writes wr prog m" and "m2' = run_writes wr prog' m2"
  shows "rd m1 cfg = 1
    \<and> (has_attribute n ''default'' \<longrightarrow> pio_read_state rd m1 i = attribute_as bool_of n ''default'' False)
    \<and> (if 0 < pd_ref_count p then prog' = []
       else if has_attribute n ''default''
         then rd m2' cfg = 1 \<and> pio_read_state rd m2' i = attribute_as bool_of n ''default'' False
       else rd m2' cfg = 7)
    \<and> pins' = xs @ p # ys"
proof -
  let ?p = "p\<lparr>pd_ref_count := pd_ref_count p + 1\<rparr>" and ?a = "pd_attr p"
  have dir: "matches_pin i OUT p" "matches_pin i OUT ?p"
    using assms(3,4) by (simp_all add: matches_pin_def attr_output_def function_direction_def)
  have out: "function_value (at_function ?a) = 1" "\<not> attr_irq ?a"
    using assms(3) by (simp_all add: attr_output_def attr_irq_def)
  note def = attr_default_level [OF assms(2)]
  have acq: "pins = xs @ ?p # ys" "prog = snd (acquire_one i p)"
    using with_pin_declaration_one [OF dir(1) assms(6), of "acquire_one i"] assms(7)
    by (simp_all add: acquire_pin_def acquire_one_def)
  have rel: "pins' = xs @ p # ys" "prog' = snd (release_one i ?p)"
    using with_pin_declaration_one [OF dir(2) assms(6), of "release_one i"] assms(8) acq(1)
    by (auto simp: release_pin_def release_one_def Let_def split: if_splits)
  have low: "default_state ?a \<noteq> HIGH_IMPEDANCE" if "has_attribute n ''default''"
    using def that by simp
  note effects = pin_effects [OF assms(1,5)]
  show ?thesis
    using def low out effects [of ?a m] effects [of attr_disabled m2] effects [of ?a m "default_state ?a"]
      effects [of ?a m2 "default_state ?a"] rel assms(3)
    by (auto simp: acq(2) rel(2) acquire_one_def release_one_def Let_def assms(9-11) attr_disabled_def)
qed

definition led_node :: node where
  "led_node = Node ''out'' [(''name'', ''led''), (''bank'', ''B''), (''index'', ''1'')] [] []"

lemma output_pin_lifetime_witness:
  "let i = \<lparr>id_bank = Bank_B, id_index = 1\<rparr>;
       p = fst (update_pin parse_digit (\<lambda>_. None) led_node (new_declaration led_node));
       (pins, prog) = acquire_pin i OUT [p]; (pins', prog') = release_pin i OUT pins;
       cfg = array_item (io_cfg Bank_B) 4 1
   in reg_rd (run_writes reg_wr prog (\<lambda>_. 0)) cfg = 1 \<and> reg_rd (run_writes reg_wr prog' (\<lambda>_. 5)) cfg = 7"
proof -
  let ?i = "\<lparr>id_bank = Bank_B, id_index = 1\<rparr>"
  let ?p = "fst (update_pin parse_digit (\<lambda>_. None) led_node (new_declaration led_node))"
  let ?acq = "acquire_pin ?i OUT ([] @ ?p # [])"
  let ?rel = "release_pin ?i OUT (fst ?acq)"
  have a: "attr_from_node parse_digit (\<lambda>_. None) led_node = Inr (pd_attr ?p)" "attr_output (pd_attr ?p)"
    and i: "pd_id ?p = Some ?i" and r: "\<not> 0 < pd_ref_count ?p" "\<not> has_attribute led_node ''default''"
    by code_simp+
  show ?thesis
    using output_pin_lifetime [OF reg_file.register_set_axioms a i _ _ _ _ refl refl refl,
        of "[]" "[]" "fst ?acq" "snd ?acq" "fst ?rel" "snd ?rel" "\<lambda>_. 0" "\<lambda>_. 5"] r
    by (simp add: Let_def case_prod_beta)
qed

end
