(* ===== verification/Codec.thy ===== *)
theory Codec
  imports Mmio Config_Node
begin

text \<open>
  \<^verbatim>\<open>src/driver/audio_control/pinephone/audio_codec.h\<close>: the audio codec of the PinePhone.
  The constructor of \<^verbatim>\<open>Codec\<close> programs the digital part once. \<^verbatim>\<open>Device::apply_config\<close>
  switches the analog inputs and outputs according to the configuration and selects the
  platform device that routes the codec to the SoC or to the modem. The analog registers
  are bytes; their names carry the register as a prefix (\<^verbatim>\<open>Earpiece_control1::Volume\<close> is
  \<open>Earpiece_control1_Volume\<close>). How a bit field of an analog register reaches the hardware
  is modelled in \<open>Codec_Port\<close>.
\<close>

section \<open>Digital part\<close>

definition System_clock_control_Sysclk_src :: field where "System_clock_control_Sysclk_src = Fld 0xc 0 1"
definition System_clock_control_Sysclk_enable :: field where "System_clock_control_Sysclk_enable = Fld 0xc 3 1"
definition System_clock_control_Aif2clk_src :: field where "System_clock_control_Aif2clk_src = Fld 0xc 4 2"
definition System_clock_control_Aif2clk_enable :: field where "System_clock_control_Aif2clk_enable = Fld 0xc 7 1"
definition System_clock_control_Aif1clk_src :: field where "System_clock_control_Aif1clk_src = Fld 0xc 8 2"
definition System_clock_control_Aif1clk_enable :: field where "System_clock_control_Aif1clk_enable = Fld 0xc 11 1"
definition Module_clock_control_Dac :: field where "Module_clock_control_Dac = Fld 0x10 2 1"
definition Module_clock_control_Adc :: field where "Module_clock_control_Adc = Fld 0x10 3 1"
definition Module_clock_control_Aif2 :: field where "Module_clock_control_Aif2 = Fld 0x10 14 1"
definition Module_clock_control_Aif1 :: field where "Module_clock_control_Aif1 = Fld 0x10 15 1"
definition Module_reset_control_Dac :: field where "Module_reset_control_Dac = Fld 0x14 2 1"
definition Module_reset_control_Adc :: field where "Module_reset_control_Adc = Fld 0x14 3 1"
definition Module_reset_control_Aif2 :: field where "Module_reset_control_Aif2 = Fld 0x14 14 1"
definition Module_reset_control_Aif1 :: field where "Module_reset_control_Aif1 = Fld 0x14 15 1"
definition System_sample_rate_Aif2_fs :: field where "System_sample_rate_Aif2_fs = Fld 0x18 8 4"
definition System_sample_rate_Aif1_fs :: field where "System_sample_rate_Aif1_fs = Fld 0x18 12 4"
definition Aif1_clock_control_Data_fmt :: field where "Aif1_clock_control_Data_fmt = Fld 0x40 2 2"
definition Aif1_clock_control_Word_size :: field where "Aif1_clock_control_Word_size = Fld 0x40 4 2"
definition Aif1_clock_control_Lrck_div :: field where "Aif1_clock_control_Lrck_div = Fld 0x40 6 3"
definition Aif1_clock_control_Bclk_div :: field where "Aif1_clock_control_Bclk_div = Fld 0x40 9 4"
definition Aif1_clock_control_Master :: field where "Aif1_clock_control_Master = Fld 0x40 15 1"
definition Aif1_adcdat_control_Adc0_right_enable :: field where "Aif1_adcdat_control_Adc0_right_enable = Fld 0x44 14 1"
definition Aif1_adcdat_control_Adc0_left_enable :: field where "Aif1_adcdat_control_Adc0_left_enable = Fld 0x44 15 1"
definition Aif1_dacdat_control_Dac0r_src :: field where "Aif1_dacdat_control_Dac0r_src = Fld 0x48 8 2"
definition Aif1_dacdat_control_Dac0l_src :: field where "Aif1_dacdat_control_Dac0l_src = Fld 0x48 10 2"
definition Aif1_dacdat_control_Dac0r_enable :: field where "Aif1_dacdat_control_Dac0r_enable = Fld 0x48 14 1"
definition Aif1_dacdat_control_Dac0l_enable :: field where "Aif1_dacdat_control_Dac0l_enable = Fld 0x48 15 1"
definition Aif1_digital_mixer_source_Adc0r_src :: field where "Aif1_digital_mixer_source_Adc0r_src = Fld 0x4c 8 4"
definition Aif1_digital_mixer_source_Adc0l_src :: field where "Aif1_digital_mixer_source_Adc0l_src = Fld 0x4c 12 4"
definition Aif2_clock_control_Data_fmt :: field where "Aif2_clock_control_Data_fmt = Fld 0x80 2 2"
definition Aif2_clock_control_Word_size :: field where "Aif2_clock_control_Word_size = Fld 0x80 4 2"
definition Aif2_clock_control_Lrck_div :: field where "Aif2_clock_control_Lrck_div = Fld 0x80 6 3"
definition Aif2_clock_control_Bclk_div :: field where "Aif2_clock_control_Bclk_div = Fld 0x80 9 4"
definition Aif2_clock_control_Bclk_inv :: field where "Aif2_clock_control_Bclk_inv = Fld 0x80 14 1"
definition Aif2_clock_control_Master :: field where "Aif2_clock_control_Master = Fld 0x80 15 1"
definition Aif2_adcdat_control_Right_enable :: field where "Aif2_adcdat_control_Right_enable = Fld 0x84 14 1"
definition Aif2_adcdat_control_Left_enable :: field where "Aif2_adcdat_control_Left_enable = Fld 0x84 15 1"
definition Aif2_adcdat_control_Loop :: field where "Aif2_adcdat_control_Loop = Fld 0x84 0 1"
definition Aif2_dacdat_control_Dacr_src :: field where "Aif2_dacdat_control_Dacr_src = Fld 0x88 8 2"
definition Aif2_dacdat_control_Dacl_src :: field where "Aif2_dacdat_control_Dacl_src = Fld 0x88 10 2"
definition Aif2_dacdat_control_Dacl_enable :: field where "Aif2_dacdat_control_Dacl_enable = Fld 0x88 15 1"
definition Aif2_digital_mixer_source_Adcr_scr :: field where "Aif2_digital_mixer_source_Adcr_scr = Fld 0x8c 8 4"
definition Aif2_digital_mixer_source_Adcl_scr :: field where "Aif2_digital_mixer_source_Adcl_scr = Fld 0x8c 12 4"
definition Adc_digital_Enad :: field where "Adc_digital_Enad = Fld 0x100 15 1"
definition Hmic_control_1_Jack_in_irq_en :: field where "Hmic_control_1_Jack_in_irq_en = Fld 0x110 4 1"
definition Hmic_control_1_Mdata_threshold_debounce :: field where "Hmic_control_1_Mdata_threshold_debounce = Fld 0x110 5 2"
definition Hmic_control_2_Sf :: field where "Hmic_control_2_Sf = Fld 0x114 6 2"
definition Hmic_control_2_Sample_select :: field where "Hmic_control_2_Sample_select = Fld 0x114 14 2"
definition Dac_control_Enable :: field where "Dac_control_Enable = Fld 0x120 15 1"
definition Dac_mixer_source_Dacr_aif2_dacr :: field where "Dac_mixer_source_Dacr_aif2_dacr = Fld 0x130 9 1"
definition Dac_mixer_source_Dacr_aif1_dac0r :: field where "Dac_mixer_source_Dacr_aif1_dac0r = Fld 0x130 11 1"
definition Dac_mixer_source_Dacl_aif2_dacl :: field where "Dac_mixer_source_Dacl_aif2_dacl = Fld 0x130 13 1"
definition Dac_mixer_source_Dacl_aif1_dac0l :: field where "Dac_mixer_source_Dacl_aif1_dac0l = Fld 0x130 15 1"

lemmas codec_field_defs = System_clock_control_Sysclk_src_def System_clock_control_Sysclk_enable_def
  System_clock_control_Aif2clk_src_def System_clock_control_Aif2clk_enable_def
  System_clock_control_Aif1clk_src_def System_clock_control_Aif1clk_enable_def
  Module_clock_control_Dac_def Module_clock_control_Adc_def Module_clock_control_Aif2_def
  Module_clock_control_Aif1_def Module_reset_control_Dac_def Module_reset_control_Adc_def
  Module_reset_control_Aif2_def Module_reset_control_Aif1_def System_sample_rate_Aif2_fs_def
  System_sample_rate_Aif1_fs_def Aif1_clock_control_Data_fmt_def Aif1_clock_control_Word_size_def
  Aif1_clock_control_Lrck_div_def Aif1_clock_control_Bclk_div_def Aif1_clock_control_Master_def
  Aif1_adcdat_control_Adc0_right_enable_def Aif1_adcdat_control_Adc0_left_enable_def
  Aif1_dacdat_control_Dac0r_src_def Aif1_dacdat_control_Dac0l_src_def
  Aif1_dacdat_control_Dac0r_enable_def Aif1_dacdat_control_Dac0l_enable_def
  Aif1_digital_mixer_source_Adc0r_src_def Aif1_digital_mixer_source_Adc0l_src_def
  Aif2_clock_control_Data_fmt_def Aif2_clock_control_Word_size_def Aif2_clock_control_Lrck_div_def
  Aif2_clock_control_Bclk_div_def Aif2_clock_control_Bclk_inv_def Aif2_clock_control_Master_def
  Aif2_adcdat_control_Right_enable_def Aif2_adcdat_control_Left_enable_def
  Aif2_adcdat_control_Loop_def Aif2_dacdat_control_Dacr_src_def Aif2_dacdat_control_Dacl_src_def
  Aif2_dacdat_control_Dacl_enable_def Aif2_digital_mixer_source_Adcr_scr_def
  Aif2_digital_mixer_source_Adcl_scr_def Adc_digital_Enad_def Hmic_control_1_Jack_in_irq_en_def
  Hmic_control_1_Mdata_threshold_debounce_def Hmic_control_2_Sf_def
  Hmic_control_2_Sample_select_def Dac_control_Enable_def Dac_mixer_source_Dacr_aif2_dacr_def
  Dac_mixer_source_Dacr_aif1_dac0r_def Dac_mixer_source_Dacl_aif2_dacl_def
  Dac_mixer_source_Dacl_aif1_dac0l_def

text \<open>\<^verbatim>\<open>Codec::_init\<close>\<close>

definition codec_init :: reg_program where
  "codec_init = [
     (System_clock_control_Sysclk_src, 1),
     (System_clock_control_Sysclk_enable, 1),
     (System_clock_control_Aif2clk_src, 2),
     (System_clock_control_Aif2clk_enable, 1),
     (System_clock_control_Aif1clk_src, 2),
     (System_clock_control_Aif1clk_enable, 1),
     (Module_reset_control_Dac, 1),
     (Module_reset_control_Adc, 1),
     (Module_reset_control_Aif2, 1),
     (Module_reset_control_Aif1, 1),
     (System_sample_rate_Aif1_fs, 0x7),
     (System_sample_rate_Aif2_fs, 0),
     (Aif1_clock_control_Data_fmt, 0),
     (Aif1_clock_control_Word_size, 1),
     (Aif1_clock_control_Lrck_div, 1),
     (Aif1_clock_control_Bclk_div, 6),
     (Aif1_clock_control_Master, 1),
     (Aif2_clock_control_Data_fmt, 0x3),
     (Aif2_clock_control_Word_size, 1),
     (Aif2_clock_control_Lrck_div, 1),
     (Aif2_clock_control_Bclk_div, 0xb),
     (Aif2_clock_control_Bclk_inv, 1),
     (Aif2_clock_control_Master, 0),
     (Module_clock_control_Aif1, 1),
     (Module_clock_control_Aif2, 1),
     (Module_clock_control_Dac, 1),
     (Module_clock_control_Adc, 1),
     (Aif1_adcdat_control_Adc0_right_enable, 1),
     (Aif1_adcdat_control_Adc0_left_enable, 1),
     (Aif2_adcdat_control_Right_enable, 1),
     (Aif2_adcdat_control_Left_enable, 1),
     (Aif1_dacdat_control_Dac0r_src, 0x3),
     (Aif1_dacdat_control_Dac0l_src, 0x3),
     (Aif1_dacdat_control_Dac0r_enable, 1),
     (Aif1_dacdat_control_Dac0l_enable, 1),
     (Aif2_dacdat_control_Dacr_src, 0x3),
     (Aif2_dacdat_control_Dacl_src, 0x3),
     (Aif2_dacdat_control_Dacl_enable, 1),
     (Aif1_digital_mixer_source_Adc0r_src, 2),
     (Aif1_digital_mixer_source_Adc0l_src, 2),
     (Aif2_digital_mixer_source_Adcr_scr, 1),
     (Aif2_digital_mixer_source_Adcl_scr, 1),
     (Adc_digital_Enad, 1),
     (Dac_mixer_source_Dacr_aif1_dac0r, 1),
     (Dac_mixer_source_Dacl_aif1_dac0l, 1),
     (Dac_mixer_source_Dacr_aif2_dacr, 1),
     (Dac_mixer_source_Dacl_aif2_dacl, 1),
     (Dac_control_Enable, 1),
     (Hmic_control_1_Jack_in_irq_en, 1),
     (Hmic_control_1_Mdata_threshold_debounce, 1),
     (Hmic_control_2_Sf, 1),
     (Hmic_control_2_Sample_select, 1)]"

section \<open>Analog part\<close>

definition Headphone_amplifier_Volume :: field where "Headphone_amplifier_Volume = Fld 0x0 0 6"
definition Headphone_amplifier_Enable :: field where "Headphone_amplifier_Enable = Fld 0x0 5 1"
definition Output_mixer_left_Dac_mute_left :: field where "Output_mixer_left_Dac_mute_left = Fld 0x1 1 1"
definition Output_mixer_right_Dac_mute_right :: field where "Output_mixer_right_Dac_mute_right = Fld 0x2 1 1"
definition Earpiece_control0_Input_src :: field where "Earpiece_control0_Input_src = Fld 0x3 0 2"
definition Earpiece_control1_Enable_pa :: field where "Earpiece_control1_Enable_pa = Fld 0x4 7 1"
definition Earpiece_control1_Mute_off :: field where "Earpiece_control1_Mute_off = Fld 0x4 6 1"
definition Earpiece_control1_Volume :: field where "Earpiece_control1_Volume = Fld 0x4 0 5"
definition Lineout_control0_Right_src :: field where "Lineout_control0_Right_src = Fld 0x5 4 1"
definition Lineout_control0_Left_src :: field where "Lineout_control0_Left_src = Fld 0x5 5 1"
definition Lineout_control0_Enable :: field where "Lineout_control0_Enable = Fld 0x5 6 2"
definition Lineout_control1_Volume :: field where "Lineout_control1_Volume = Fld 0x6 0 5"
definition Mic1_control_Boost :: field where "Mic1_control_Boost = Fld 0x7 0 3"
definition Mic1_control_Boost_amp_enable :: field where "Mic1_control_Boost_amp_enable = Fld 0x7 3 1"
definition Mic1_control_Gain :: field where "Mic1_control_Gain = Fld 0x7 4 3"
definition Dac_mixer_Headphone_mute :: field where "Dac_mixer_Headphone_mute = Fld 0xa 2 2"
definition Dac_mixer_Mixer_enable :: field where "Dac_mixer_Mixer_enable = Fld 0xa 4 2"
definition Dac_mixer_Dac_enable :: field where "Dac_mixer_Dac_enable = Fld 0xa 6 2"
definition Adc_mixer_left_Mic1 :: field where "Adc_mixer_left_Mic1 = Fld 0xb 6 1"
definition Adc_mixer_right_Mic1 :: field where "Adc_mixer_right_Mic1 = Fld 0xc 6 1"
definition Adc_Input_gain :: field where "Adc_Input_gain = Fld 0xd 0 3"
definition Adc_Left_enable :: field where "Adc_Left_enable = Fld 0xd 6 1"
definition Adc_Right_enable :: field where "Adc_Right_enable = Fld 0xd 7 1"
definition Hs_mbias_control_Master_mic_enable :: field where "Hs_mbias_control_Master_mic_enable = Fld 0xe 7 1"

lemmas analog_field_defs = Headphone_amplifier_Volume_def Headphone_amplifier_Enable_def
  Output_mixer_left_Dac_mute_left_def Output_mixer_right_Dac_mute_right_def
  Earpiece_control0_Input_src_def Earpiece_control1_Enable_pa_def Earpiece_control1_Mute_off_def
  Earpiece_control1_Volume_def Lineout_control0_Right_src_def Lineout_control0_Left_src_def
  Lineout_control0_Enable_def Lineout_control1_Volume_def Mic1_control_Boost_def
  Mic1_control_Boost_amp_enable_def Mic1_control_Gain_def Dac_mixer_Headphone_mute_def
  Dac_mixer_Mixer_enable_def Dac_mixer_Dac_enable_def Adc_mixer_left_Mic1_def
  Adc_mixer_right_Mic1_def Adc_Input_gain_def Adc_Left_enable_def Adc_Right_enable_def
  Hs_mbias_control_Master_mic_enable_def

text \<open>\<^verbatim>\<open>_volume\<close>: a percentage, cut at 100, scaled to the range of a field.\<close>

definition volume_scale :: "u32 \<Rightarrow> u32 \<Rightarrow> u8" where
  "volume_scale volume mx = ucast ((mx * (if volume > 100 then 100 else volume)) div 100)"

definition bit_of :: "bool \<Rightarrow> u32" where
  "bit_of b = (if b then 1 else 0)"

definition mic1_enabled :: "u32 \<Rightarrow> reg_program" where
  "mic1_enabled volume =
     (let enabled = (volume \<noteq> 0)
      in [(Mic1_control_Boost_amp_enable, bit_of enabled),
          (Mic1_control_Boost, 3),
          (Mic1_control_Gain, ucast (volume_scale volume 0x7)),
          (Adc_mixer_left_Mic1, bit_of enabled),
          (Adc_mixer_right_Mic1, bit_of enabled),
          (Adc_Left_enable, bit_of enabled),
          (Adc_Right_enable, bit_of enabled),
          (Hs_mbias_control_Master_mic_enable, bit_of enabled)])"

definition earpiece_enabled :: "u32 \<Rightarrow> reg_program" where
  "earpiece_enabled volume =
     (let enabled = (volume \<noteq> 0)
      in [(Earpiece_control0_Input_src, 1),
          (Earpiece_control1_Enable_pa, bit_of enabled),
          (Earpiece_control1_Mute_off, bit_of enabled),
          (Earpiece_control1_Volume, ucast (volume_scale volume 0x1f))])"

definition speaker_enabled :: "u32 \<Rightarrow> reg_program" where
  "speaker_enabled volume =
     (let enabled = (volume \<noteq> 0)
      in [(Lineout_control1_Volume, ucast (volume_scale volume 0x1f)),
          (Lineout_control0_Right_src, 1),
          (Lineout_control0_Left_src, 1),
          (Lineout_control0_Enable, if enabled then 3 else 0),
          (Output_mixer_left_Dac_mute_left, bit_of enabled),
          (Output_mixer_right_Dac_mute_right, bit_of enabled)])"

definition headphone_enabled :: "u32 \<Rightarrow> reg_program" where
  "headphone_enabled volume =
     (let enabled = (volume \<noteq> 0)
      in [(Headphone_amplifier_Volume, ucast (volume_scale volume 0x3f)),
          (Headphone_amplifier_Enable, if enabled then 1 else 0),
          (Dac_mixer_Headphone_mute, if enabled then 3 else 0)])"

definition dac_mixer_enabled :: "bool \<Rightarrow> reg_program" where
  "dac_mixer_enabled enabled =
     [(Dac_mixer_Dac_enable, if enabled then 3 else 0),
      (Dac_mixer_Mixer_enable, if enabled then 3 else 0)]"

section \<open>Configuration\<close>

datatype codec_state = NONE | SOC | MODEM

record codec_config =
  mic :: u32
  earpiece :: u32
  speaker :: u32
  headphone :: u32
  config_soc :: bool

text \<open>The function applied to each sub node; a later node of a type overrides an earlier one.\<close>

definition config_sub_node :: "(string \<Rightarrow> u32 option) \<Rightarrow> codec_config \<Rightarrow> node \<Rightarrow> codec_config" where
  "config_sub_node num_of c n =
     (let c = (if has_type ''mic'' n then c\<lparr>mic := attribute_as num_of n ''volume'' 0\<rparr> else c);
          c = (if has_type ''earpiece'' n then c\<lparr>earpiece := attribute_as num_of n ''volume'' 0\<rparr> else c);
          c = (if has_type ''speaker'' n then c\<lparr>speaker := attribute_as num_of n ''volume'' 0\<rparr> else c);
          c = (if has_type ''headphone'' n then c\<lparr>headphone := attribute_as num_of n ''volume'' 0\<rparr> else c)
      in if has_type ''codec'' n \<and> attribute_string 6 n ''target'' [] = ''modem''
         then c\<lparr>config_soc := False\<rparr> else c)"

definition read_config :: "(string \<Rightarrow> u32 option) \<Rightarrow> node \<Rightarrow> codec_config" where
  "read_config num_of config = foldl (config_sub_node num_of)
     \<lparr>mic = 0, earpiece = 0, speaker = 0, headphone = 0, config_soc = True\<rparr> (node_subs config)"

text \<open>The platform device to (re)construct, if the codec must be routed anew.\<close>

definition route_codec :: "bool \<Rightarrow> codec_state \<Rightarrow> codec_state \<times> string option" where
  "route_codec soc st =
     (if soc \<and> st \<noteq> SOC then (SOC, Some ''audio_codec_soc'')
      else if \<not> soc \<and> st \<noteq> MODEM then (MODEM, Some ''audio_codec_modem'')
      else (st, None))"

definition codec_apply_config :: "(string \<Rightarrow> u32 option) \<Rightarrow> node \<Rightarrow> codec_state
    \<Rightarrow> codec_state \<times> string option \<times> reg_program" where
  "codec_apply_config num_of config st =
     (let c = read_config num_of config; (st', device) = route_codec (config_soc c) st
      in (st', device, mic1_enabled (mic c) @ earpiece_enabled (earpiece c)
            @ speaker_enabled (speaker c) @ headphone_enabled (headphone c)
            @ dac_mixer_enabled (earpiece c \<noteq> 0 \<or> speaker c \<noteq> 0 \<or> headphone c \<noteq> 0)))"

lemmas codec_program_defs = mic1_enabled_def earpiece_enabled_def speaker_enabled_def
  headphone_enabled_def dac_mixer_enabled_def bit_of_def Let_def

end
