(* ===== verification/Codec_Props.thy ===== *)
theory Codec_Props
  imports Codec
begin

text \<open>
  What the programs of the audio codec achieve: the digital part after its initialisation,
  and the analog inputs and outputs for a configuration.
\<close>

section \<open>Digital part\<close>

lemma codec_init_once: "distinct (map fst codec_init)"
  by (simp add: codec_init_def codec_field_defs)

lemma codec_init_clean: "clean_program codec_init"
  by (simp add: codec_init_def codec_field_defs clean_program_def separates_def wf_field_def
      disjoint_fields_def take_bit_eq_mod)

text \<open>
  After the initialisation of the codec every bit field it programs has the programmed
  value: no write is undone by a later one, and every value fits its field.
\<close>

theorem codec_initialised:
  assumes "register_set rd wr" and "(f, v) \<in> set codec_init"
  shows "rd (run_writes wr codec_init m) f = v"
  using register_set.rd_clean_program [OF assms(1) codec_init_clean
      last_write_distinct [OF codec_init_once assms(2)]] .

lemma codec_initialised_witness:
  "reg_rd (run_writes reg_wr codec_init (\<lambda>_. 0)) Aif2_clock_control_Bclk_div = 0xb"
  by (rule codec_initialised [OF reg_file.register_set_axioms]) (simp add: codec_init_def)

section \<open>The volume\<close>

lemma volume_scale_nat:
  assumes "unat mx \<le> 255"
  shows "unat (volume_scale v mx) = unat mx * min (unat v) 100 div 100"
proof -
  let ?w = "if v > 100 then 100 else v"
  have w: "unat ?w = min (unat v) 100" by (simp add: word_less_nat_alt)
  have le: "unat mx * unat ?w \<le> 255 * 100" unfolding w by (rule mult_le_mono) (use assms in auto)
  then have prod: "unat (mx * ?w) = unat mx * unat ?w"
    by (simp add: unat_word_ariths)
  then have "unat (mx * ?w div 100) = unat mx * unat ?w div 100" by (simp add: unat_div_distrib)
  moreover have "unat mx * unat ?w div 100 \<le> 255" using div_le_mono [OF le, of 100] by simp
  ultimately show ?thesis
    unfolding volume_scale_def w [symmetric] by (simp add: unsigned_ucast_eq take_bit_nat_eq_self)
qed

lemma volume_scale_less:
  assumes "unat mx \<le> 255" shows "unat (volume_scale v mx) \<le> unat mx"
proof -
  have "unat mx * min (unat v) 100 \<le> unat mx * 100" by simp
  then have "unat mx * min (unat v) 100 div 100 \<le> unat mx" by linarith
  then show ?thesis by (simp add: volume_scale_nat [OF assms])
qed

lemma take_bit_volume:
  assumes "unat mx = 2 ^ n - 1" and "n \<le> 8"
  shows "unat (take_bit n (ucast (volume_scale v mx) :: u32)) = (2 ^ n - 1) * min (unat v) 100 div 100"
proof -
  have "(2::nat) ^ n \<le> 2 ^ 8" using assms(2) by (rule power_increasing) simp
  then have b: "unat mx \<le> 255" unfolding assms(1) by simp
  have less: "unat (volume_scale v mx) < 2 ^ n"
    using volume_scale_less [OF b, of v] assms(1) zero_less_power [of "2::nat" n] by linarith
  have "unat (ucast (volume_scale v mx) :: u32) = unat (volume_scale v mx)"
    by (simp add: unsigned_ucast_eq take_bit_nat_eq_self unsigned_less [THEN order_less_le_trans])
  then show ?thesis
    using volume_scale_nat [OF b, of v] assms(1) less
    by (simp add: unsigned_take_bit_eq take_bit_nat_eq_self)
qed

section \<open>The configuration\<close>

text \<open>The volume of the last sub node of a type, 0 without one.\<close>

definition last_volume :: "(string \<Rightarrow> u32 option) \<Rightarrow> string \<Rightarrow> node list \<Rightarrow> u32" where
  "last_volume num_of t ns =
     (let xs = filter (has_type t) ns in if xs = [] then 0 else attribute_as num_of (last xs) ''volume'' 0)"

definition selects_modem :: "node \<Rightarrow> bool" where
  "selects_modem n \<longleftrightarrow> has_type ''codec'' n \<and> attribute_string 6 n ''target'' [] = ''modem''"

lemma last_volume_snoc:
  "last_volume num_of t (ns @ [n]) =
     (if has_type t n then attribute_as num_of n ''volume'' 0 else last_volume num_of t ns)"
  by (simp add: last_volume_def Let_def)

lemma config_sub_node_levels:
  "mic (config_sub_node num_of c n) = (if has_type ''mic'' n then attribute_as num_of n ''volume'' 0 else mic c)"
  "earpiece (config_sub_node num_of c n) =
     (if has_type ''earpiece'' n then attribute_as num_of n ''volume'' 0 else earpiece c)"
  "speaker (config_sub_node num_of c n) =
     (if has_type ''speaker'' n then attribute_as num_of n ''volume'' 0 else speaker c)"
  "headphone (config_sub_node num_of c n) =
     (if has_type ''headphone'' n then attribute_as num_of n ''volume'' 0 else headphone c)"
  "config_soc (config_sub_node num_of c n) \<longleftrightarrow> \<not> selects_modem n \<and> config_soc c"
  by (simp_all add: config_sub_node_def selects_modem_def Let_def)

lemma read_config_levels:
  "mic (read_config num_of c) = last_volume num_of ''mic'' (node_subs c)"
  "earpiece (read_config num_of c) = last_volume num_of ''earpiece'' (node_subs c)"
  "speaker (read_config num_of c) = last_volume num_of ''speaker'' (node_subs c)"
  "headphone (read_config num_of c) = last_volume num_of ''headphone'' (node_subs c)"
  "config_soc (read_config num_of c) \<longleftrightarrow> (\<forall>n \<in> set (node_subs c). \<not> selects_modem n)"
proof -
  have "let r = foldl (config_sub_node num_of)
          \<lparr>mic = 0, earpiece = 0, speaker = 0, headphone = 0, config_soc = True\<rparr> ns
    in mic r = last_volume num_of ''mic'' ns \<and> earpiece r = last_volume num_of ''earpiece'' ns
     \<and> speaker r = last_volume num_of ''speaker'' ns \<and> headphone r = last_volume num_of ''headphone'' ns
     \<and> (config_soc r \<longleftrightarrow> (\<forall>n \<in> set ns. \<not> selects_modem n))" for ns
  proof (induction ns rule: rev_induct)
    case (snoc n ns)
    then show ?case by (simp add: last_volume_snoc config_sub_node_levels Let_def)
  qed (simp add: last_volume_def)
  then show "mic (read_config num_of c) = last_volume num_of ''mic'' (node_subs c)"
    "earpiece (read_config num_of c) = last_volume num_of ''earpiece'' (node_subs c)"
    "speaker (read_config num_of c) = last_volume num_of ''speaker'' (node_subs c)"
    "headphone (read_config num_of c) = last_volume num_of ''headphone'' (node_subs c)"
    "config_soc (read_config num_of c) \<longleftrightarrow> (\<forall>n \<in> set (node_subs c). \<not> selects_modem n)"
    unfolding read_config_def Let_def by blast+
qed

section \<open>The analog program\<close>

definition analog_program :: "u32 \<Rightarrow> u32 \<Rightarrow> u32 \<Rightarrow> u32 \<Rightarrow> bool \<Rightarrow> reg_program" where
  "analog_program mi ep sp hp any = mic1_enabled mi @ earpiece_enabled ep @ speaker_enabled sp
     @ headphone_enabled hp @ dac_mixer_enabled any"

lemmas analog_defs = analog_program_def codec_program_defs analog_field_defs

text \<open>
  The last write to a field decides, as far as no write of the program overlaps the field
  partly. Only the volume and the enable bit of the headphone amplifier overlap.
\<close>

lemma analog_program_of_config:
  assumes "codec_apply_config num_of config st = (st', dev, p)"
  shows "p = analog_program (last_volume num_of ''mic'' (node_subs config))
      (last_volume num_of ''earpiece'' (node_subs config))
      (last_volume num_of ''speaker'' (node_subs config))
      (last_volume num_of ''headphone'' (node_subs config))
      (\<exists>t \<in> {''earpiece'', ''speaker'', ''headphone''}. last_volume num_of t (node_subs config) \<noteq> 0)"
  using assms by (auto simp: codec_apply_config_def read_config_levels analog_program_def Let_def
      split: prod.splits)

lemma analog_separates:
  "f \<in> fst ` set (analog_program mi ep sp hp any) \<Longrightarrow>
   f \<noteq> Headphone_amplifier_Volume \<Longrightarrow> f \<noteq> Headphone_amplifier_Enable \<Longrightarrow>
   separates (analog_program mi ep sp hp any) f \<and> wf_field f"
  by (simp add: analog_defs separates_def wf_field_def disjoint_fields_def, elim disjE) simp_all

lemma analog_rd:
  assumes "register_set rd wr" and "last_write (analog_program mi ep sp hp any) f = Some v"
    and "f \<noteq> Headphone_amplifier_Volume" and "f \<noteq> Headphone_amplifier_Enable"
  shows "rd (run_writes wr (analog_program mi ep sp hp any) m) f = take_bit (f_width f) v"
proof -
  have "f \<in> fst ` set (analog_program mi ep sp hp any)"
    using last_write_in [OF assms(2)] by (force simp: image_iff)
  from register_set.rd_last_write [OF assms(1)] analog_separates [OF this assms(3,4)] assms(2)
  show ?thesis by blast
qed

lemma analog_headphone_enable:
  assumes "register_set rd wr"
  shows "rd (run_writes wr (analog_program mi ep sp hp any) m) Headphone_amplifier_Enable = bit_of (hp \<noteq> 0)"
proof -
  let ?q = "[(Headphone_amplifier_Enable, bit_of (hp \<noteq> 0)), (Dac_mixer_Headphone_mute, if hp \<noteq> 0 then 3 else 0)]
    @ dac_mixer_enabled any"
  have split: "analog_program mi ep sp hp any = (mic1_enabled mi @ earpiece_enabled ep @ speaker_enabled sp
      @ [(Headphone_amplifier_Volume, ucast (volume_scale hp 0x3f))]) @ ?q"
    by (simp add: analog_program_def headphone_enabled_def bit_of_def Let_def)
  have sep: "separates ?q Headphone_amplifier_Enable" and wf: "wf_field Headphone_amplifier_Enable"
    by (simp_all add: analog_defs separates_def wf_field_def disjoint_fields_def)
  have last: "last_write ?q Headphone_amplifier_Enable = Some (bit_of (hp \<noteq> 0))"
    by (simp add: analog_defs)
  have width: "take_bit (f_width Headphone_amplifier_Enable) (bit_of (hp \<noteq> 0)) = bit_of (hp \<noteq> 0)"
    by (simp add: Headphone_amplifier_Enable_def bit_of_def)
  have "rd (run_writes wr ?q m') Headphone_amplifier_Enable = bit_of (hp \<noteq> 0)" for m'
    using register_set.rd_last_write [OF assms sep wf last] unfolding width .
  then show ?thesis by (subst split, subst run_writes_append)
qed

section \<open>The volume of the headphone\<close>

lemma headphone_volume:
  "unat (reg_rd (run_writes reg_wr (headphone_enabled v) m) Headphone_amplifier_Volume)
     = (if v = 0 then 0 else 32 + (63 * min (unat v) 100 div 100) mod 32)"
proof -
  let ?x = "\<lambda>v. ucast (volume_scale v 63) :: u32"
  let ?e = "\<lambda>v. bit_of (v \<noteq> 0)"
  have val: "reg_rd (run_writes reg_wr (headphone_enabled v) m) Headphone_amplifier_Volume
      = push_bit 5 (take_bit 1 (?e v)) OR take_bit 5 (?x v)" for v
    by (rule bit_eqI) (auto simp: headphone_enabled_def bit_reg_rd bit_reg_wr analog_field_defs Let_def
        bit_simps bit_of_def)
  have low: "unat (take_bit 5 (?x v)) = (63 * min (unat v) 100 div 100) mod 32" for v
  proof -
    have "unat (take_bit 6 (?x v)) = 63 * min (unat v) 100 div 100"
      using take_bit_volume [of 63 6 v] by simp
    moreover have "unat (take_bit 5 (?x v)) = take_bit 5 (unat (take_bit 6 (?x v)))"
      by (simp add: unsigned_take_bit_eq)
    ultimately show ?thesis by (simp add: take_bit_eq_mod)
  qed
  have high: "push_bit 5 (take_bit 1 (?e v)) AND take_bit 5 (?x v) = 0" for v
    by (rule bit_eqI) (auto simp: bit_simps)
  have parts: "unat (push_bit 5 (take_bit 1 (?e v)) OR take_bit 5 (?x v))
      = (if v = 0 then 0 else 32) + (63 * min (unat v) 100 div 100) mod 32" for v
  proof -
    have "push_bit 5 (take_bit 1 (?e v)) OR take_bit 5 (?x v) = push_bit 5 (take_bit 1 (?e v)) + take_bit 5 (?x v)"
      using high by (simp add: disjunctive_add_eq_or)
    moreover have "unat (push_bit 5 (take_bit 1 (?e v))) = (if v = 0 then 0 else 32)"
      by (simp add: bit_of_def push_bit_eq_mult)
    ultimately show ?thesis
      using low [of v] by (simp add: unat_word_ariths)
  qed
  show ?thesis unfolding val parts by simp
qed

text \<open>
  The volume field and the enable bit of the headphone amplifier overlap in bit 5, so
  the volume that arrives is not the configured one: an enabled headphone always has bit 5
  set, and gets the scaled percentage modulo 32. It is loudest at 50 percent and quietest at
  51.
\<close>

theorem headphone_volume_overlap:
  "unat (reg_rd (run_writes reg_wr (headphone_enabled v) m) Headphone_amplifier_Volume)
     = (if v = 0 then 0 else 32 + (63 * min (unat v) 100 div 100) mod 32)
   \<and> reg_rd (run_writes reg_wr (headphone_enabled 50) m) Headphone_amplifier_Volume = 63
   \<and> reg_rd (run_writes reg_wr (headphone_enabled 51) m) Headphone_amplifier_Volume = 32"
  using headphone_volume [of v m] headphone_volume [of 50 m] headphone_volume [of 51 m]
  by (simp add: word_unat_eq_iff)

lemma analog_headphone_volume:
  "unat (reg_rd (run_writes reg_wr (analog_program mi ep sp hp any) m) Headphone_amplifier_Volume)
     = (if hp = 0 then 0 else 32 + (63 * min (unat hp) 100 div 100) mod 32)"
proof -
  have "\<forall>(g, v) \<in> set (dac_mixer_enabled any). wf_field g \<and> disjoint_fields g Headphone_amplifier_Volume"
    by (simp add: dac_mixer_enabled_def analog_field_defs wf_field_def disjoint_fields_def)
  from register_set.rd_untouched [OF reg_file.register_set_axioms this] show ?thesis
    by (simp add: analog_program_def run_writes_append headphone_volume)
qed

section \<open>All inputs and outputs\<close>

text \<open>
  C34: the configuration decides about the analog inputs and outputs. The microphone, the
  earpiece, the speaker and the headphone are on, with their sources selected, exactly if the
  last node of their type states a volume other than 0; the gain of the microphone and the
  volumes of earpiece and speaker are the percentage scaled to the range of the field, with
  everything above 100 taken as 100; of the scaled volume of the headphone only the lower five
  bits arrive, the sixth being the bit that enables it. The converter and the mixer that feed
  the outputs are on exactly if one of the outputs is. The codec is routed to the modem exactly
  if a node asks for it, and the device of the new route is constructed exactly if the route
  changes.
\<close>

theorem outputs_follow_config:
  assumes "register_set rd wr" and "codec_apply_config num_of config st = (st', dev, p)"
    and "\<And>t. vol t = last_volume num_of t (node_subs config)" and "r = rd (run_writes wr p m)"
    and "any = (vol ''earpiece'' \<noteq> 0 \<or> vol ''speaker'' \<noteq> 0 \<or> vol ''headphone'' \<noteq> 0)"
  shows "r Mic1_control_Boost_amp_enable = bit_of (vol ''mic'' \<noteq> 0) \<and> r Mic1_control_Boost = 3
    \<and> r Adc_mixer_left_Mic1 = bit_of (vol ''mic'' \<noteq> 0) \<and> r Adc_mixer_right_Mic1 = bit_of (vol ''mic'' \<noteq> 0)
    \<and> r Adc_Left_enable = bit_of (vol ''mic'' \<noteq> 0) \<and> r Adc_Right_enable = bit_of (vol ''mic'' \<noteq> 0)
    \<and> r Hs_mbias_control_Master_mic_enable = bit_of (vol ''mic'' \<noteq> 0)
    \<and> unat (r Mic1_control_Gain) = 7 * min (unat (vol ''mic'')) 100 div 100
    \<and> r Earpiece_control0_Input_src = 1
    \<and> r Earpiece_control1_Enable_pa = bit_of (vol ''earpiece'' \<noteq> 0)
    \<and> r Earpiece_control1_Mute_off = bit_of (vol ''earpiece'' \<noteq> 0)
    \<and> unat (r Earpiece_control1_Volume) = 31 * min (unat (vol ''earpiece'')) 100 div 100
    \<and> r Lineout_control0_Right_src = 1 \<and> r Lineout_control0_Left_src = 1
    \<and> r Lineout_control0_Enable = (if vol ''speaker'' \<noteq> 0 then 3 else 0)
    \<and> r Output_mixer_left_Dac_mute_left = bit_of (vol ''speaker'' \<noteq> 0)
    \<and> r Output_mixer_right_Dac_mute_right = bit_of (vol ''speaker'' \<noteq> 0)
    \<and> unat (r Lineout_control1_Volume) = 31 * min (unat (vol ''speaker'')) 100 div 100
    \<and> r Headphone_amplifier_Enable = bit_of (vol ''headphone'' \<noteq> 0)
    \<and> r Dac_mixer_Headphone_mute = (if vol ''headphone'' \<noteq> 0 then 3 else 0)
    \<and> unat (reg_rd (run_writes reg_wr p m') Headphone_amplifier_Volume) =
        (if vol ''headphone'' = 0 then 0 else 32 + (63 * min (unat (vol ''headphone'')) 100 div 100) mod 32)
    \<and> r Dac_mixer_Dac_enable = (if any then 3 else 0) \<and> r Dac_mixer_Mixer_enable = (if any then 3 else 0)
    \<and> st' = (if \<exists>n \<in> set (node_subs config). selects_modem n then MODEM else SOC)
    \<and> dev = (if st' = st then None
             else Some (if st' = MODEM then ''audio_codec_modem'' else ''audio_codec_soc''))"
proof -
  have p: "p = analog_program (vol ''mic'') (vol ''earpiece'') (vol ''speaker'') (vol ''headphone'') any"
    using analog_program_of_config [OF assms(2)] assms(3,5) by simp
  have route: "st' = (if \<exists>n \<in> set (node_subs config). selects_modem n then MODEM else SOC)"
    "dev = (if st' = st then None
       else Some (if st' = MODEM then ''audio_codec_modem'' else ''audio_codec_soc''))"
    using assms(2) by (cases st;
      auto simp: codec_apply_config_def route_codec_def read_config_levels Let_def split: if_splits)+
  have val: "last_write p f = Some v \<Longrightarrow> f \<noteq> Headphone_amplifier_Volume \<Longrightarrow>
      f \<noteq> Headphone_amplifier_Enable \<Longrightarrow> take_bit (f_width f) v = w \<Longrightarrow> r f = w" for f v w
    using analog_rd [OF assms(1), folded p assms(4)] unfolding assms(4) p by blast
  have bits: "r Mic1_control_Boost_amp_enable = bit_of (vol ''mic'' \<noteq> 0)" "r Mic1_control_Boost = 3"
    "r Adc_mixer_left_Mic1 = bit_of (vol ''mic'' \<noteq> 0)" "r Adc_mixer_right_Mic1 = bit_of (vol ''mic'' \<noteq> 0)"
    "r Adc_Left_enable = bit_of (vol ''mic'' \<noteq> 0)" "r Adc_Right_enable = bit_of (vol ''mic'' \<noteq> 0)"
    "r Hs_mbias_control_Master_mic_enable = bit_of (vol ''mic'' \<noteq> 0)"
    "r Earpiece_control0_Input_src = 1" "r Earpiece_control1_Enable_pa = bit_of (vol ''earpiece'' \<noteq> 0)"
    "r Earpiece_control1_Mute_off = bit_of (vol ''earpiece'' \<noteq> 0)"
    "r Lineout_control0_Right_src = 1" "r Lineout_control0_Left_src = 1"
    "r Lineout_control0_Enable = (if vol ''speaker'' \<noteq> 0 then 3 else 0)"
    "r Output_mixer_left_Dac_mute_left = bit_of (vol ''speaker'' \<noteq> 0)"
    "r Output_mixer_right_Dac_mute_right = bit_of (vol ''speaker'' \<noteq> 0)"
    "r Dac_mixer_Headphone_mute = (if vol ''headphone'' \<noteq> 0 then 3 else 0)"
    "r Dac_mixer_Dac_enable = (if any then 3 else 0)" "r Dac_mixer_Mixer_enable = (if any then 3 else 0)"
    by (rule val, simp add: p analog_defs, simp add: analog_field_defs, simp add: analog_field_defs,
      simp add: analog_field_defs bit_of_def)+
  have levels: "r Mic1_control_Gain = take_bit 3 (ucast (volume_scale (vol ''mic'') 7))"
    "r Earpiece_control1_Volume = take_bit 5 (ucast (volume_scale (vol ''earpiece'') 31))"
    "r Lineout_control1_Volume = take_bit 5 (ucast (volume_scale (vol ''speaker'') 31))"
    by (rule val, simp add: p analog_defs, simp add: analog_field_defs, simp add: analog_field_defs,
      simp add: analog_field_defs bit_of_def)+
  have pct: "unat (r Mic1_control_Gain) = 7 * min (unat (vol ''mic'')) 100 div 100"
    "unat (r Earpiece_control1_Volume) = 31 * min (unat (vol ''earpiece'')) 100 div 100"
    "unat (r Lineout_control1_Volume) = 31 * min (unat (vol ''speaker'')) 100 div 100"
    unfolding levels by (simp_all add: take_bit_volume)
  have hp: "r Headphone_amplifier_Enable = bit_of (vol ''headphone'' \<noteq> 0)"
    unfolding assms(4) p by (rule analog_headphone_enable [OF assms(1)])
  have "unat (reg_rd (run_writes reg_wr p m') Headphone_amplifier_Volume) =
        (if vol ''headphone'' = 0 then 0 else 32 + (63 * min (unat (vol ''headphone'')) 100 div 100) mod 32)"
    unfolding p by (rule analog_headphone_volume)
  then show ?thesis by (intro conjI bits pct hp route)
qed

text \<open>An example: the speaker on at 60 percent, and nothing else.\<close>

definition speaker_config :: node where
  "speaker_config = Node ''config'' [] [] [Node ''speaker'' [(''volume'', ''60'')] [] []]"

lemma outputs_follow_config_witness:
  "reg_rd (run_writes reg_wr (snd (snd (codec_apply_config (\<lambda>_. Some 60) speaker_config NONE))) (\<lambda>_. 0))
     Lineout_control0_Enable = 3"
proof -
  obtain st' dev p where r: "codec_apply_config (\<lambda>_. Some 60) speaker_config NONE = (st', dev, p)"
    by (metis prod_cases3)
  have "last_volume (\<lambda>_. Some 60) ''speaker'' (node_subs speaker_config) = 60"
    by (simp add: last_volume_def speaker_config_def has_type_def attribute_as_def attribute_def)
  then show ?thesis
    using outputs_follow_config [OF reg_file.register_set_axioms r refl refl refl, of "\<lambda>_. 0"] by (simp add: r)
qed

end
