(* ===== verification/Codec_Port.thy ===== *)
theory Codec_Port
  imports Codec_Props
begin

text \<open>
  The access to the analog registers in \<^verbatim>\<open>audio_codec.h\<close>. The analog part has no registers
  of its own on the bus: a byte of it is written and read through the one register
  \<^verbatim>\<open>Ac_pr\<close> (\<^verbatim>\<open>Analog_plain_access\<close>). \<^verbatim>\<open>Genode::Register_set\<close> turns the bit-field write of
  the driver into a read and a write of the byte. How \<^verbatim>\<open>Ac_pr\<close> behaves is documented for
  the hardware and stated in the locale \<open>analog_port\<close>; its interpretation is a device that
  keeps the analog bytes and reacts to the strobe. The result is that a program of bit-field
  writes has the same effect on the analog bytes as on a plain register file.
\<close>

definition Ac_pr_Out :: field where "Ac_pr_Out = Fld 0x0 0 8"
definition Ac_pr_In :: field where "Ac_pr_In = Fld 0x0 8 8"
definition Ac_pr_Addr :: field where "Ac_pr_Addr = Fld 0x0 16 5"
definition Ac_pr_Rw :: field where "Ac_pr_Rw = Fld 0x0 24 1"
definition Ac_pr_Rst :: field where "Ac_pr_Rst = Fld 0x0 28 1"

lemmas ac_pr_defs = Ac_pr_Out_def Ac_pr_In_def Ac_pr_Addr_def Ac_pr_Rw_def Ac_pr_Rst_def

lemma ac_pr_widths [simp]:
  "f_width Ac_pr_In = 8" "f_width Ac_pr_Addr = 5" "f_width Ac_pr_Rw = 1" "f_width Ac_pr_Rst = 1"
  by (simp_all add: ac_pr_defs)

lemma ac_pr_neq [simp]:
  "Ac_pr_In \<noteq> Ac_pr_Addr" "Ac_pr_In \<noteq> Ac_pr_Rw" "Ac_pr_In \<noteq> Ac_pr_Rst"
  "Ac_pr_Addr \<noteq> Ac_pr_In" "Ac_pr_Addr \<noteq> Ac_pr_Rw" "Ac_pr_Addr \<noteq> Ac_pr_Rst"
  "Ac_pr_Rw \<noteq> Ac_pr_In" "Ac_pr_Rw \<noteq> Ac_pr_Addr" "Ac_pr_Rw \<noteq> Ac_pr_Rst"
  "Ac_pr_Rst \<noteq> Ac_pr_In" "Ac_pr_Rst \<noteq> Ac_pr_Addr" "Ac_pr_Rst \<noteq> Ac_pr_Rw"
  by (simp_all add: ac_pr_defs)

section \<open>Accesses through the port\<close>

definition port_write :: "('m \<Rightarrow> field \<Rightarrow> u32 \<Rightarrow> 'm) \<Rightarrow> u8 \<Rightarrow> u8 \<Rightarrow> 'm \<Rightarrow> 'm" where
  "port_write wr opcode data m = run_writes wr [(Ac_pr_Rst, 1), (Ac_pr_Addr, ucast opcode),
     (Ac_pr_In, ucast data), (Ac_pr_Rw, 1), (Ac_pr_Rw, 0)] m"

definition port_read :: "('m \<Rightarrow> field \<Rightarrow> u32) \<Rightarrow> ('m \<Rightarrow> field \<Rightarrow> u32 \<Rightarrow> 'm) \<Rightarrow> u8 \<Rightarrow> 'm \<Rightarrow> u8 \<times> 'm" where
  "port_read rd wr opcode m =
     (let m' = run_writes wr [(Ac_pr_Rst, 1), (Ac_pr_Rw, 0), (Ac_pr_Addr, ucast opcode)] m
      in (ucast (rd m' Ac_pr_Out), m'))"

text \<open>\<^verbatim>\<open>_write\<close> and \<^verbatim>\<open>_read\<close>: the offset of the register is the opcode.\<close>

definition analog_byte_write :: "('m \<Rightarrow> field \<Rightarrow> u32 \<Rightarrow> 'm) \<Rightarrow> nat \<Rightarrow> u8 \<Rightarrow> 'm \<Rightarrow> 'm" where
  "analog_byte_write wr offset v m = port_write wr (of_nat offset) v m"

definition analog_byte_read :: "('m \<Rightarrow> field \<Rightarrow> u32) \<Rightarrow> ('m \<Rightarrow> field \<Rightarrow> u32 \<Rightarrow> 'm) \<Rightarrow> nat \<Rightarrow> 'm \<Rightarrow> u8 \<times> 'm" where
  "analog_byte_read rd wr offset m = port_read rd wr (of_nat offset) m"

text \<open>The bit-field write of the register set: the byte with the bits of the field replaced.\<close>

definition replace_bits :: "field \<Rightarrow> u32 \<Rightarrow> u8 \<Rightarrow> u8" where
  "replace_bits f v old = ucast (reg_wr (\<lambda>_. ucast old) f v (f_reg f))"

definition analog_wr :: "('m \<Rightarrow> field \<Rightarrow> u32) \<Rightarrow> ('m \<Rightarrow> field \<Rightarrow> u32 \<Rightarrow> 'm) \<Rightarrow> 'm \<Rightarrow> field \<Rightarrow> u32 \<Rightarrow> 'm" where
  "analog_wr rd wr m f v =
     (let (old, m') = analog_byte_read rd wr (f_reg f) m
      in analog_byte_write wr (f_reg f) (replace_bits f v old) m')"

section \<open>The hardware behind the port\<close>

locale analog_port =
  fixes rd :: "'m \<Rightarrow> field \<Rightarrow> u32" and wr :: "'m \<Rightarrow> field \<Rightarrow> u32 \<Rightarrow> 'm"
    and bytes :: "'m \<Rightarrow> u8 \<Rightarrow> u8"
  assumes rd_wr: "f \<in> {Ac_pr_In, Ac_pr_Addr, Ac_pr_Rw, Ac_pr_Rst} \<Longrightarrow>
      g \<in> {Ac_pr_In, Ac_pr_Addr, Ac_pr_Rw, Ac_pr_Rst} \<Longrightarrow>
      rd (wr m f v) g = (if f = g then take_bit (f_width f) v else rd m g)"
    and bytes_kept: "f \<in> {Ac_pr_In, Ac_pr_Addr, Ac_pr_Rst} \<Longrightarrow> rd m Ac_pr_Rw = 0 \<Longrightarrow>
      bytes (wr m f v) = bytes m"
    and bytes_released: "bytes (wr m Ac_pr_Rw 0) = bytes m"
    and bytes_strobed: "rd m Ac_pr_Rst = 1 \<Longrightarrow>
      bytes (wr m Ac_pr_Rw 1) = (bytes m)(ucast (rd m Ac_pr_Addr) := ucast (rd m Ac_pr_In))"
    and out: "rd m Ac_pr_Rst = 1 \<Longrightarrow> rd m Ac_pr_Rw = 0 \<Longrightarrow>
      ucast (rd m Ac_pr_Out) = bytes m (ucast (rd m Ac_pr_Addr))"
begin

lemma narrow:
  assumes "opcode < 32"
  shows "ucast (take_bit 5 (ucast opcode :: u32)) = (opcode :: u8)"
    and "ucast (take_bit 8 (ucast data :: u32)) = (data :: u8)"
proof -
  have "ucast (take_bit 5 (ucast opcode :: u32)) = take_bit 5 opcode"
    by (rule bit_eqI) (auto simp: bit_simps)
  also have "take_bit 5 opcode = opcode"
    using assms by (simp add: word_unat_eq_iff unsigned_take_bit_eq take_bit_nat_eq_self word_less_nat_alt)
  finally show "ucast (take_bit 5 (ucast opcode :: u32)) = opcode" .
  show "ucast (take_bit 8 (ucast data :: u32)) = data"
    by (rule bit_eqI) (auto simp: bit_simps dest: bit_imp_le_length)
qed

lemma port_write_bytes:
  assumes "rd m Ac_pr_Rw = 0" and "opcode < 32"
  shows "bytes (port_write wr opcode data m) = (bytes m)(opcode := data)"
    and "rd (port_write wr opcode data m) Ac_pr_Rw = 0"
proof -
  show "rd (port_write wr opcode data m) Ac_pr_Rw = 0"
    by (simp add: port_write_def rd_wr)
  show "bytes (port_write wr opcode data m) = (bytes m)(opcode := data)"
    using assms(1) narrow [OF assms(2)]
    by (simp add: port_write_def bytes_released bytes_strobed bytes_kept rd_wr)
qed

lemma port_read_bytes:
  assumes "rd m Ac_pr_Rw = 0" and "opcode < 32"
  shows "fst (port_read rd wr opcode m) = bytes m opcode"
    and "bytes (snd (port_read rd wr opcode m)) = bytes m"
    and "rd (snd (port_read rd wr opcode m)) Ac_pr_Rw = 0"
proof -
  let ?m = "run_writes wr [(Ac_pr_Rst, 1), (Ac_pr_Rw, 0), (Ac_pr_Addr, ucast opcode)] m"
  have ctl: "rd ?m Ac_pr_Rst = 1" "rd ?m Ac_pr_Rw = 0" "rd ?m Ac_pr_Addr = take_bit 5 (ucast opcode)"
    by (simp_all add: rd_wr)
  have kept: "bytes ?m = bytes m"
    using assms(1) by (simp add: bytes_kept bytes_released rd_wr)
  show "fst (port_read rd wr opcode m) = bytes m opcode"
    using out [OF ctl(1,2)] narrow(1) [OF assms(2)] ctl(3) kept
    by (simp add: port_read_def Let_def)
  show "bytes (snd (port_read rd wr opcode m)) = bytes m" "rd (snd (port_read rd wr opcode m)) Ac_pr_Rw = 0"
    using kept ctl(2) by (simp_all add: port_read_def Let_def)
qed

end

section \<open>The analog registers as a register file\<close>

text \<open>A field of an analog register: within one byte, and reachable with the 5 address bits.\<close>

definition byte_field :: "field \<Rightarrow> bool" where
  "byte_field f \<longleftrightarrow> f_reg f < 32 \<and> f_shift f + f_width f \<le> 8"

definition analog_view :: "('m \<Rightarrow> u8 \<Rightarrow> u8) \<Rightarrow> 'm \<Rightarrow> regs" where
  "analog_view bytes m = (\<lambda>r. if r < 32 then ucast (bytes m (of_nat r)) else 0)"

lemma replace_bits_view:
  assumes "byte_field f"
  shows "ucast (replace_bits f v old) = reg_wr (\<lambda>_. ucast old) f v (f_reg f)"
  by (rule bit_eqI)
    (use assms in \<open>auto simp: replace_bits_def bit_simps bit_reg_wr byte_field_def dest: bit_imp_le_length\<close>)

lemma of_nat_inj_32:
  "r < 32 \<Longrightarrow> q < 32 \<Longrightarrow> (of_nat r :: u8) = of_nat q \<longleftrightarrow> r = q"
  by (simp add: word_of_nat_eq_iff take_bit_nat_eq_self)

context analog_port
begin

lemma analog_wr_view:
  assumes "rd m Ac_pr_Rw = 0" and "byte_field f"
  shows "analog_view bytes (analog_wr rd wr m f v) = reg_wr (analog_view bytes m) f v"
    and "rd (analog_wr rd wr m f v) Ac_pr_Rw = 0"
proof -
  let ?op = "of_nat (f_reg f) :: u8"
  have op: "?op < 32"
    using assms(2) by (simp add: byte_field_def word_less_nat_alt unat_of_nat take_bit_nat_eq_self)
  note r = port_read_bytes [OF assms(1) op]
  note w = port_write_bytes [OF r(3) op, where data = "replace_bits f v (bytes m ?op)"]
  have eq: "analog_wr rd wr m f v
      = port_write wr ?op (replace_bits f v (bytes m ?op)) (snd (port_read rd wr ?op m))"
    by (simp add: analog_wr_def analog_byte_read_def analog_byte_write_def r(1) case_prod_beta)
  show "rd (analog_wr rd wr m f v) Ac_pr_Rw = 0" unfolding eq by (rule w(2))
  show "analog_view bytes (analog_wr rd wr m f v) = reg_wr (analog_view bytes m) f v"
  proof
    fix q
    have "reg_wr (analog_view bytes m) f v q = (if q = f_reg f then
        reg_wr (\<lambda>_. ucast (bytes m ?op)) f v (f_reg f) else analog_view bytes m q)"
      using assms(2) by (simp add: reg_wr_def analog_view_def byte_field_def)
    then show "analog_view bytes (analog_wr rd wr m f v) q = reg_wr (analog_view bytes m) f v q"
      using assms(2) of_nat_inj_32 [of q "f_reg f"]
      unfolding eq analog_view_def w(1) r(2)
      by (simp add: replace_bits_view [OF assms(2)] byte_field_def)
  qed
qed

lemma analog_program_view:
  assumes "rd m Ac_pr_Rw = 0" and "\<forall>(f, v) \<in> set prog. byte_field f"
  shows "analog_view bytes (run_writes (analog_wr rd wr) prog m) = run_writes reg_wr prog (analog_view bytes m)"
  using assms
proof (induction prog arbitrary: m)
  case (Cons x prog)
  then show ?case using analog_wr_view by (cases x) auto
qed simp

end

section \<open>A device with such a port\<close>

record port_device =
  pr :: u32
  analog :: "u8 \<Rightarrow> u8"

definition dev_rd :: "port_device \<Rightarrow> field \<Rightarrow> u32" where
  "dev_rd m f = (if f = Ac_pr_Out then ucast (analog m (ucast (reg_rd (\<lambda>_. pr m) Ac_pr_Addr)))
     else reg_rd (\<lambda>_. pr m) f)"

definition dev_wr :: "port_device \<Rightarrow> field \<Rightarrow> u32 \<Rightarrow> port_device" where
  "dev_wr m f v =
     (let p = reg_wr (\<lambda>_. pr m) f v (f_reg f)
      in \<lparr>pr = p, analog =
           (if reg_rd (\<lambda>_. p) Ac_pr_Rw = 1 \<and> reg_rd (\<lambda>_. p) Ac_pr_Rst = 1
            then (analog m)(ucast (reg_rd (\<lambda>_. p) Ac_pr_Addr) := ucast (reg_rd (\<lambda>_. p) Ac_pr_In))
            else analog m)\<rparr>)"

lemma reg_rd_same_reg:
  assumes "f_reg g = f_reg f"
  shows "reg_rd (\<lambda>_. reg_wr (\<lambda>_. p) f v (f_reg f)) g = reg_rd (reg_wr (\<lambda>_. p) f v) g"
  using assms by (simp add: reg_rd_def)

lemma ac_pr_rd_wr:
  assumes "f \<in> {Ac_pr_In, Ac_pr_Addr, Ac_pr_Rw, Ac_pr_Rst}" and "g \<in> {Ac_pr_In, Ac_pr_Addr, Ac_pr_Rw, Ac_pr_Rst}"
  shows "reg_rd (\<lambda>_. reg_wr (\<lambda>_. p) f v (f_reg f)) g = (if f = g then take_bit (f_width f) v else reg_rd (\<lambda>_. p) g)"
proof -
  have same: "f_reg g = f_reg f" and wf: "wf_field f" and dis: "f \<noteq> g \<Longrightarrow> disjoint_fields f g"
    using assms by (auto simp: ac_pr_defs wf_field_def disjoint_fields_def)
  show ?thesis
    unfolding reg_rd_same_reg [OF same]
    using reg_file.rd_wr_same [OF wf] reg_file.rd_wr_other [OF wf dis] by auto
qed

lemma ucast_byte [simp]: "ucast (ucast (b :: u8) :: u32) = b"
  by (rule bit_eqI) (auto simp: bit_simps dest: bit_imp_le_length)

lemma ac_pr_out [simp]: "Ac_pr_Out \<noteq> Ac_pr_In" "Ac_pr_Out \<noteq> Ac_pr_Addr" "Ac_pr_Out \<noteq> Ac_pr_Rw"
  "Ac_pr_Out \<noteq> Ac_pr_Rst" "Ac_pr_In \<noteq> Ac_pr_Out" "Ac_pr_Addr \<noteq> Ac_pr_Out" "Ac_pr_Rw \<noteq> Ac_pr_Out"
  "Ac_pr_Rst \<noteq> Ac_pr_Out"
  by (simp_all add: ac_pr_defs)

interpretation codec_device: analog_port dev_rd dev_wr analog
proof unfold_locales
  fix f g v m
  assume f: "f \<in> {Ac_pr_In, Ac_pr_Addr, Ac_pr_Rw, Ac_pr_Rst}" and g: "g \<in> {Ac_pr_In, Ac_pr_Addr, Ac_pr_Rw, Ac_pr_Rst}"
  then show "dev_rd (dev_wr m f v) g = (if f = g then take_bit (f_width f) v else dev_rd m g)"
    by (auto simp: dev_rd_def dev_wr_def Let_def ac_pr_rd_wr)
next
  fix f v m
  assume f: "f \<in> {Ac_pr_In, Ac_pr_Addr, Ac_pr_Rst}" and "dev_rd m Ac_pr_Rw = 0"
  then show "analog (dev_wr m f v) = analog m"
    by (auto simp: dev_rd_def dev_wr_def Let_def ac_pr_rd_wr)
next
  fix m show "analog (dev_wr m Ac_pr_Rw 0) = analog m"
    by (simp add: dev_wr_def Let_def ac_pr_rd_wr)
next
  fix m assume "dev_rd m Ac_pr_Rst = 1"
  then show "analog (dev_wr m Ac_pr_Rw 1)
      = (analog m)(ucast (dev_rd m Ac_pr_Addr) := ucast (dev_rd m Ac_pr_In))"
    by (simp add: dev_rd_def dev_wr_def Let_def ac_pr_rd_wr)
next
  fix m
  show "ucast (dev_rd m Ac_pr_Out) = analog m (ucast (dev_rd m Ac_pr_Addr))"
    by (simp add: dev_rd_def)
qed

lemma analog_program_bytes: "\<forall>(f, v) \<in> set (analog_program mi ep sp hp any). byte_field f"
  by (simp add: analog_defs byte_field_def)

text \<open>
  C33: the access through the single port implements the analog registers: applying a
  configuration has the same effect on the bytes behind the port as the same bit-field
  writes have on a plain register file. Only the write strobe must be inactive before.
\<close>

theorem analog_access_refines:
  assumes "analog_port rd wr bytes" and "rd m Ac_pr_Rw = 0"
    and "codec_apply_config num_of config st = (st', dev, p)"
  shows "analog_view bytes (run_writes (analog_wr rd wr) p m) = run_writes reg_wr p (analog_view bytes m)"
  using analog_port.analog_program_view [OF assms(1,2), of p] analog_program_bytes
  unfolding analog_program_of_config [OF assms(3)] by blast

lemma analog_access_refines_witness:
  "analog_view analog (run_writes (analog_wr dev_rd dev_wr)
      (snd (snd (codec_apply_config (\<lambda>_. Some 60) speaker_config NONE))) \<lparr>pr = 0, analog = (\<lambda>_. 7)\<rparr>)
    = run_writes reg_wr (snd (snd (codec_apply_config (\<lambda>_. Some 60) speaker_config NONE)))
        (\<lambda>r. if r < 32 then 7 else 0)"
proof -
  let ?m = "\<lparr>pr = 0, analog = (\<lambda>_. 7)\<rparr>"
  obtain st' dev p where r: "codec_apply_config (\<lambda>_. Some 60) speaker_config NONE = (st', dev, p)"
    by (metis prod_cases3)
  have "dev_rd ?m Ac_pr_Rw = 0" by (simp add: dev_rd_def reg_rd_def)
  moreover have "analog_view analog ?m = (\<lambda>r. if r < 32 then 7 else 0)"
    by (auto simp: analog_view_def)
  ultimately show ?thesis
    using analog_access_refines [OF codec_device.analog_port_axioms _ r, of ?m] by (simp add: r)
qed

end
