(* ===== verification/Modem_Power.thy ===== *)
theory Modem_Power
  imports Prelude
begin

text \<open>
  \<^verbatim>\<open>src/driver/modem/pinephone/power.h\<close>: powering the modem up and down with its power key.
  The pins are services of the pin driver; the model records what is done to them
  (\<open>pin_log\<close>) and takes the level of the status pin, as it is found by the \<open>n\<close>-th reading,
  from a parameter \<open>sense\<close> (\<open>True\<close> is 1, the modem is off).
\<close>

datatype requested = DONT_CARE | REQ_OFF | REQ_ON

datatype pw_state = PW_UNKNOWN | PW_OFF | PW_STARTING_UP | PW_ON | PW_SHUTTING_DOWN

datatype pin_action = Pin string bool | Sleep nat

record power =
  pw_requested :: requested
  pw_state :: pw_state
  readings :: nat
  pin_log :: "pin_action list"

definition log_pins :: "pin_action list \<Rightarrow> power \<Rightarrow> power" where
  "log_pins as p = p\<lparr>pin_log := pin_log p @ as\<rparr>"

text \<open>\<^verbatim>\<open>_pin_status.state()\<close>\<close>

definition read_status :: "(nat \<Rightarrow> bool) \<Rightarrow> power \<Rightarrow> bool \<times> power" where
  "read_status sense p = (sense (readings p), p\<lparr>readings := readings p + 1\<rparr>)"

definition init_power :: power where
  "init_power = \<lparr>pw_requested = DONT_CARE, pw_state = PW_UNKNOWN, readings = 0,
     pin_log = [Pin ''battery'' True, Sleep 30, Pin ''reset'' False, Pin ''host-ready'' False,
       Pin ''dtr'' False, Sleep 30]\<rparr>"

definition press_pwrkey :: "pin_action list" where
  "press_pwrkey = [Pin ''pwrkey'' True, Sleep 600, Pin ''pwrkey'' False]"

definition drive_power_up :: "(nat \<Rightarrow> bool) \<Rightarrow> power \<Rightarrow> power" where
  "drive_power_up sense p = (case pw_state p of
     PW_OFF \<Rightarrow> (log_pins (Pin ''enable'' False # press_pwrkey) p)\<lparr>pw_state := PW_STARTING_UP\<rparr>
   | PW_STARTING_UP \<Rightarrow> (case read_status sense p of
       (off, q) \<Rightarrow> if \<not> off then q\<lparr>pw_state := PW_ON\<rparr> else q)
   | PW_UNKNOWN \<Rightarrow> p
   | PW_ON \<Rightarrow> p
   | PW_SHUTTING_DOWN \<Rightarrow> p)"

definition drive_power_down :: "(nat \<Rightarrow> bool) \<Rightarrow> power \<Rightarrow> power" where
  "drive_power_down sense p = (case pw_state p of
     PW_UNKNOWN \<Rightarrow> p
   | PW_OFF \<Rightarrow> p
   | PW_STARTING_UP \<Rightarrow> (log_pins (Pin ''enable'' True # press_pwrkey) p)\<lparr>pw_state := PW_SHUTTING_DOWN\<rparr>
   | PW_ON \<Rightarrow> (log_pins (Pin ''enable'' True # press_pwrkey) p)\<lparr>pw_state := PW_SHUTTING_DOWN\<rparr>
   | PW_SHUTTING_DOWN \<Rightarrow> (case read_status sense p of
       (off, q) \<Rightarrow> if off then q\<lparr>pw_state := PW_OFF\<rparr> else q))"

definition drive_requested :: "(nat \<Rightarrow> bool) \<Rightarrow> power \<Rightarrow> power" where
  "drive_requested sense p = (case pw_requested p of
     DONT_CARE \<Rightarrow> p
   | REQ_ON \<Rightarrow> drive_power_up sense p
   | REQ_OFF \<Rightarrow> drive_power_down sense p)"

lemmas drive_defs = drive_requested_def drive_power_up_def drive_power_down_def log_pins_def
  read_status_def

text \<open>
  The steps that remain until the state settles; the loop of \<^verbatim>\<open>power_enabled\<close> ends because
  every change of the state takes one of them.
\<close>

fun steps_left :: "requested \<Rightarrow> pw_state \<Rightarrow> nat" where
  "steps_left REQ_ON PW_OFF = 2"
| "steps_left REQ_ON PW_STARTING_UP = 1"
| "steps_left REQ_OFF PW_ON = 2"
| "steps_left REQ_OFF PW_STARTING_UP = 2"
| "steps_left REQ_OFF PW_SHUTTING_DOWN = 1"
| "steps_left r s = 0"

lemma drive_requested_progress:
  "pw_state (drive_requested sense p) \<noteq> pw_state p \<Longrightarrow>
    steps_left (pw_requested (drive_requested sense p)) (pw_state (drive_requested sense p))
      < steps_left (pw_requested p) (pw_state p)"
  by (cases "pw_requested p"; cases "pw_state p") (auto simp: drive_defs split: if_splits)

function settle :: "(nat \<Rightarrow> bool) \<Rightarrow> power \<Rightarrow> power" where
  "settle sense p =
     (let q = drive_requested sense p
      in if pw_state p = pw_state q then q else settle sense q)"
  by pat_completeness auto
termination
  by (relation "measure (\<lambda>(sense, p). steps_left (pw_requested p) (pw_state p))")
    (use drive_requested_progress in auto)

declare settle.simps [simp del]

definition power_enabled :: "(nat \<Rightarrow> bool) \<Rightarrow> bool \<Rightarrow> power \<Rightarrow> power" where
  "power_enabled sense enabled p =
     (let p = p\<lparr>pw_requested := (if enabled then REQ_ON else REQ_OFF)\<rparr>;
          p = (if pw_state p = PW_UNKNOWN
               then (case read_status sense p of
                 (off, q) \<Rightarrow> q\<lparr>pw_state := (if off then PW_OFF else PW_ON)\<rparr>)
               else p)
      in settle sense p)"

definition needs_update_each_second :: "power \<Rightarrow> bool" where
  "needs_update_each_second p \<longleftrightarrow> pw_state p = PW_STARTING_UP \<or> pw_state p = PW_SHUTTING_DOWN"

definition pw_starting_up :: "power \<Rightarrow> bool" where
  "pw_starting_up p \<longleftrightarrow> pw_state p = PW_STARTING_UP"
definition pw_shutting_down :: "power \<Rightarrow> bool" where
  "pw_shutting_down p \<longleftrightarrow> pw_state p = PW_SHUTTING_DOWN"
definition pw_off :: "power \<Rightarrow> bool" where
  "pw_off p \<longleftrightarrow> pw_state p = PW_OFF"
definition pw_on :: "power \<Rightarrow> bool" where
  "pw_on p \<longleftrightarrow> pw_state p = PW_ON"

section \<open>The result of a request\<close>

text \<open>The pin actions of a request.\<close>

definition key_pulse :: "bool \<Rightarrow> pin_action list" where
  "key_pulse off = Pin ''enable'' off # press_pwrkey"

lemma settle_stops: "pw_state (drive_requested sense p) = pw_state p \<Longrightarrow> settle sense p = drive_requested sense p"
  by (subst settle.simps) (simp add: Let_def)

lemma settle_continues:
  "pw_state (drive_requested sense p) \<noteq> pw_state p \<Longrightarrow> settle sense p = settle sense (drive_requested sense p)"
  by (subst settle.simps) (simp add: Let_def)

text \<open>The loop, unrolled: it settles after at most two changes of the state.\<close>

lemma settle_up_on: "pw_requested p = REQ_ON \<Longrightarrow> pw_state p \<in> {PW_ON, PW_SHUTTING_DOWN, PW_UNKNOWN} \<Longrightarrow>
    settle sense p = p"
  by (subst settle_stops) (auto simp: drive_defs)

lemma settle_up_starting: "pw_requested p = REQ_ON \<Longrightarrow> pw_state p = PW_STARTING_UP \<Longrightarrow>
    settle sense p = p\<lparr>readings := readings p + 1,
      pw_state := (if sense (readings p) then PW_STARTING_UP else PW_ON)\<rparr>"
  by (cases "sense (readings p)")
    (simp add: settle_stops drive_defs, simp add: settle_continues drive_defs settle_up_on)

lemma settle_up_off: "pw_requested p = REQ_ON \<Longrightarrow> pw_state p = PW_OFF \<Longrightarrow>
    settle sense p = p\<lparr>readings := readings p + 1, pin_log := pin_log p @ key_pulse False,
      pw_state := (if sense (readings p) then PW_STARTING_UP else PW_ON)\<rparr>"
  by (simp add: settle_continues drive_defs settle_up_starting key_pulse_def)

lemma settle_down_off: "pw_requested p = REQ_OFF \<Longrightarrow> pw_state p \<in> {PW_OFF, PW_UNKNOWN} \<Longrightarrow> settle sense p = p"
  by (subst settle_stops) (auto simp: drive_defs)

lemma settle_down_shutting: "pw_requested p = REQ_OFF \<Longrightarrow> pw_state p = PW_SHUTTING_DOWN \<Longrightarrow>
    settle sense p = p\<lparr>readings := readings p + 1,
      pw_state := (if sense (readings p) then PW_OFF else PW_SHUTTING_DOWN)\<rparr>"
  by (cases "sense (readings p)")
    (simp add: settle_continues drive_defs settle_down_off, simp add: settle_stops drive_defs)

lemma settle_down_on: "pw_requested p = REQ_OFF \<Longrightarrow> pw_state p \<in> {PW_ON, PW_STARTING_UP} \<Longrightarrow>
    settle sense p = p\<lparr>readings := readings p + 1, pin_log := pin_log p @ key_pulse True,
      pw_state := (if sense (readings p) then PW_OFF else PW_SHUTTING_DOWN)\<rparr>"
  by (elim insertE emptyE) (simp_all add: settle_continues drive_defs settle_down_shutting key_pulse_def)

lemmas settle_results = settle_up_on settle_up_starting settle_up_off settle_down_off
  settle_down_shutting settle_down_on

text \<open>
  What a request does. \<open>before\<close> is the state the loop starts in: an unknown state is first
  read from the status pin.
\<close>

definition before :: "(nat \<Rightarrow> bool) \<Rightarrow> power \<Rightarrow> pw_state" where
  "before sense p = (if pw_state p = PW_UNKNOWN then if sense (readings p) then PW_OFF else PW_ON
     else pw_state p)"

text \<open>
  C32: a request to power the modem on or off always returns, in a settled state, and does
  what was requested with as little as possible: powering on presses the power key once for a
  modem that is off, and never for one that is on, starting up or shutting down; powering
  off presses it once for one that is on or starting up and never otherwise. Afterwards a
  modem that was to be switched on is on or starting up, unless it was shutting down, and one
  that was to be switched off is off or shutting down.
\<close>

theorem power_request_settles:
  "let q = power_enabled sense enabled p; b = before sense p
   in pin_log q = pin_log p @ (if enabled \<and> b = PW_OFF then key_pulse False
        else if \<not> enabled \<and> b \<in> {PW_ON, PW_STARTING_UP} then key_pulse True else [])
    \<and> pw_state q \<in> (if enabled then if b = PW_SHUTTING_DOWN then {PW_SHUTTING_DOWN}
          else {PW_STARTING_UP, PW_ON} else {PW_SHUTTING_DOWN, PW_OFF})
    \<and> (enabled \<and> pw_state q = PW_ON \<longrightarrow> b = PW_ON \<or> \<not> sense (readings q - 1))
    \<and> (\<not> enabled \<and> pw_state q = PW_OFF \<longrightarrow> b = PW_OFF \<or> sense (readings q - 1))"
proof -
  define r where "r = p\<lparr>pw_requested := (if enabled then REQ_ON else REQ_OFF)\<rparr>"
  define u where "u = (if pw_state r = PW_UNKNOWN then r\<lparr>readings := readings r + 1,
      pw_state := (if sense (readings r) then PW_OFF else PW_ON)\<rparr> else r)"
  have q: "power_enabled sense enabled p = settle sense u"
    by (simp add: power_enabled_def r_def u_def read_status_def Let_def)
  have u: "pw_requested u = (if enabled then REQ_ON else REQ_OFF)" "pw_state u = before sense p"
    "pin_log u = pin_log p" "pw_state u \<noteq> PW_UNKNOWN"
    by (auto simp: u_def r_def before_def)
  show ?thesis
    unfolding q Let_def using u by (cases "pw_state u"; cases enabled) (auto simp: settle_results)
qed

lemma power_request_settles_witness:
  "pin_log (power_enabled (\<lambda>n. n = 0) True init_power) = pin_log init_power @ key_pulse False
    \<and> pw_state (power_enabled (\<lambda>n. n = 0) True init_power) = PW_ON"
  using power_request_settles [of "\<lambda>n. n = 0" True init_power]
  by (simp add: before_def init_power_def power_enabled_def read_status_def settle_results Let_def)

end
