(* ===== verification/Modem_Main.thy ===== *)
theory Modem_Main
  imports At_Driver Modem_Power
begin

text \<open>
  \<^verbatim>\<open>src/driver/modem/pinephone/main.cc\<close>: the modem driver of the PinePhone, which combines
  the power sequence (\<open>Modem_Power\<close>) with the AT-protocol driver (\<open>At_Driver\<close>). What comes
  from outside is a \<open>world\<close>: the level of the status pin and the time, as found by each
  reading, what arrived from the modem before each reception, and Genode's conversions. The
  state counts the readings. Commands sent, reports, and the armed timer are recorded. The
  loop of \<^verbatim>\<open>_handle_config\<close> is partial: its result is \<open>None\<close> if it does not end.
\<close>

record world =
  w_sense :: "nat \<Rightarrow> bool"
  w_clock_ms :: "nat \<Rightarrow> u64"
  w_arrivals :: "nat \<Rightarrow> string list"
  w_tokens :: "string \<Rightarrow> token list"
  w_bool_of :: "string \<Rightarrow> bool option"

datatype power_state = UNKNOWN | POWERING_ON | AT_PROTOCOL | AT_BUSY | AT_SHUTDOWN
  | AT_GRACE_DELAY | POWERING_OFF | POWER_OFF | POWER_ON

datatype modem_attr = Power_attr string | Startup_seconds u64 | Shutdown_seconds u64
  | At_attrs "report_item list"

record modem =
  md_power :: power
  md_state :: power_state
  md_driver :: "driver option"
  startup_triggered_ms :: u64
  shutdown_triggered_ms :: u64
  at_powered_down_ms :: u64
  last_at_progress_ms :: u64
  timer_scheduled :: bool
  md_clocked :: nat
  md_received :: nat
  md_unread :: "string list"
  md_sent :: "string list"
  md_reports :: "modem_attr list list"

definition init_modem :: modem where
  "init_modem = \<lparr>md_power = init_power, md_state = UNKNOWN, md_driver = None,
     startup_triggered_ms = 0, shutdown_triggered_ms = 0, at_powered_down_ms = 0,
     last_at_progress_ms = 0, timer_scheduled = False, md_clocked = 0, md_received = 0,
     md_unread = [], md_sent = [], md_reports = []\<rparr>"

text \<open>\<^verbatim>\<open>_event_timer.elapsed_ms()\<close>\<close>

definition elapsed_ms :: "world \<Rightarrow> modem \<Rightarrow> u64 \<times> modem" where
  "elapsed_ms w m = (w_clock_ms w (md_clocked m), m\<lparr>md_clocked := md_clocked m + 1\<rparr>)"

definition config_flag :: "world \<Rightarrow> node \<Rightarrow> string \<Rightarrow> bool \<Rightarrow> bool" where
  "config_flag w config a dflt = attribute_as (w_bool_of w) config a dflt"

section \<open>The AT-protocol driver\<close>

text \<open>\<^verbatim>\<open>At_protocol_driver\<close>, with the one entry of its modem configuration\<close>

definition new_at_driver :: driver where
  "new_at_driver = init_driver [mk_entry ''usbnet'' ''1'']"

definition construct_driver :: "modem \<Rightarrow> modem" where
  "construct_driver m = m\<lparr>md_driver := Some new_at_driver, md_unread := []\<rparr>"

definition at_apply :: "world \<Rightarrow> node \<Rightarrow> modem \<Rightarrow> modem" where
  "at_apply w config m = (case md_driver m of None \<Rightarrow> m
     | Some d \<Rightarrow>
         (let segs = md_unread m @ w_arrivals w (md_received m);
              (d', cmd, rest) = drv_apply (w_tokens w) 256 config segs d
          in m\<lparr>md_driver := Some d', md_received := md_received m + 1, md_unread := rest,
               md_sent := md_sent m @ (case cmd of None \<Rightarrow> [] | Some c \<Rightarrow> [c])\<rparr>))"

definition at_response_outstanding :: "modem \<Rightarrow> bool" where
  "at_response_outstanding m \<longleftrightarrow>
     (case md_driver m of None \<Rightarrow> False | Some d \<Rightarrow> response_outstanding d)"

definition outbound_call :: "modem \<Rightarrow> bool" where
  "outbound_call m \<longleftrightarrow> (case md_driver m of None \<Rightarrow> False | Some d \<Rightarrow> drv_outbound d)"

definition trigger_timer_in_500ms :: "modem \<Rightarrow> modem" where
  "trigger_timer_in_500ms m = m\<lparr>timer_scheduled := True\<rparr>"

definition seconds_since :: "world \<Rightarrow> u64 \<Rightarrow> modem \<Rightarrow> u64 \<times> modem" where
  "seconds_since w back_then_ms m =
     (let (t, m) = elapsed_ms w m in ((t - back_then_ms) div 1000, m))"

section \<open>The report\<close>

definition starting_up :: "modem \<Rightarrow> bool" where
  "starting_up m \<longleftrightarrow> md_state m = POWERING_ON"

definition shutting_down :: "modem \<Rightarrow> bool" where
  "shutting_down m \<longleftrightarrow> md_state m = AT_SHUTDOWN \<or> md_state m = AT_GRACE_DELAY \<or> md_state m = POWERING_OFF"

definition drive_at_protocol :: "modem \<Rightarrow> bool" where
  "drive_at_protocol m \<longleftrightarrow> md_state m = AT_PROTOCOL \<or> md_state m = AT_SHUTDOWN"

fun power_attr :: "power_state \<Rightarrow> string" where
  "power_attr UNKNOWN = ''unknown''"
| "power_attr POWERING_ON = ''starting up''"
| "power_attr POWER_ON = ''on''"
| "power_attr AT_PROTOCOL = ''on''"
| "power_attr AT_BUSY = ''on''"
| "power_attr AT_SHUTDOWN = ''shutting down''"
| "power_attr AT_GRACE_DELAY = ''shutting down''"
| "power_attr POWERING_OFF = ''shutting down''"
| "power_attr POWER_OFF = ''off''"

definition modem_report :: "world \<Rightarrow> modem \<Rightarrow> modem_attr list \<times> modem" where
  "modem_report w m =
     (let as = (if md_state m \<noteq> UNKNOWN then [Power_attr (power_attr (md_state m))] else []);
          (as, m) = (if starting_up m
             then (let (s, m) = seconds_since w (startup_triggered_ms m) m in (as @ [Startup_seconds s], m))
             else (as, m));
          (as, m) = (if shutting_down m
             then (let (s, m) = seconds_since w (shutdown_triggered_ms m) m in (as @ [Shutdown_seconds s], m))
             else (as, m))
      in (as @ (case md_driver m of None \<Rightarrow> [] | Some d \<Rightarrow> [At_attrs (generate_report d)]), m))"

definition update_state_report :: "world \<Rightarrow> modem \<Rightarrow> modem" where
  "update_state_report w m = (let (r, m) = modem_report w m in m\<lparr>md_reports := md_reports m @ [r]\<rparr>)"

section \<open>The power state\<close>

text \<open>Part of several cases of \<^verbatim>\<open>_apply_power_state\<close>: power-off as requested by the configuration.\<close>

definition check_power_off :: "world \<Rightarrow> node \<Rightarrow> modem \<Rightarrow> modem" where
  "check_power_off w config m =
     (if \<not> config_flag w config ''power'' True
      then let (t, m) = elapsed_ms w m; m = m\<lparr>shutdown_triggered_ms := t\<rparr>
           in (case md_driver m of
                 Some d \<Rightarrow> if powering_down d \<or> drv_powered_down d then m\<lparr>md_state := AT_SHUTDOWN\<rparr> else m
               | None \<Rightarrow> m\<lparr>md_state := POWERING_OFF\<rparr>)
      else m)"

definition drive_powering_on :: "world \<Rightarrow> node \<Rightarrow> modem \<Rightarrow> modem" where
  "drive_powering_on w config m =
     (let m = m\<lparr>md_power := power_enabled (w_sense w) True (md_power m)\<rparr>
      in if pw_on (md_power m)
         then if config_flag w config ''at_protocol'' True
              then at_apply w config ((construct_driver m)\<lparr>md_state := AT_PROTOCOL\<rparr>)
              else m\<lparr>md_state := POWER_ON\<rparr>
         else m)"

definition drive_at_shutdown :: "world \<Rightarrow> modem \<Rightarrow> modem" where
  "drive_at_shutdown w m =
     (let m = (case md_driver m of None \<Rightarrow> m
                | Some d \<Rightarrow> if drv_powered_down d
                    then let (t, m) = elapsed_ms w (m\<lparr>md_driver := None\<rparr>)
                         in m\<lparr>at_powered_down_ms := t, md_state := AT_GRACE_DELAY\<rparr>
                    else m);
          (s, m) = seconds_since w (shutdown_triggered_ms m) m
      in if s > 25 then m\<lparr>md_state := POWERING_OFF\<rparr> else m)"

definition apply_power_state :: "world \<Rightarrow> node \<Rightarrow> modem \<Rightarrow> modem" where
  "apply_power_state w config m = (case md_state m of
     POWER_OFF \<Rightarrow> if config_flag w config ''power'' False
         then (let (t, m) = elapsed_ms w m in m\<lparr>startup_triggered_ms := t, md_state := POWERING_ON\<rparr>) else m
   | UNKNOWN \<Rightarrow> if config_flag w config ''power'' False
         then (let (t, m) = elapsed_ms w m in m\<lparr>startup_triggered_ms := t, md_state := POWERING_ON\<rparr>) else m
   | POWER_ON \<Rightarrow> if \<not> config_flag w config ''power'' True
         then (let (t, m) = elapsed_ms w m in m\<lparr>shutdown_triggered_ms := t, md_state := POWERING_OFF\<rparr>) else m
   | POWERING_ON \<Rightarrow> check_power_off w config (drive_powering_on w config m)
   | AT_PROTOCOL \<Rightarrow> check_power_off w config m
   | AT_BUSY \<Rightarrow> check_power_off w config m
   | AT_SHUTDOWN \<Rightarrow> drive_at_shutdown w m
   | AT_GRACE_DELAY \<Rightarrow> (let (t, m) = elapsed_ms w m
         in if t - at_powered_down_ms m \<ge> 1000 then m\<lparr>md_state := POWERING_OFF\<rparr> else m)
   | POWERING_OFF \<Rightarrow>
       (let m = m\<lparr>md_power := power_enabled (w_sense w) False (md_power m)\<rparr>
        in if pw_off (md_power m) then m\<lparr>md_state := POWER_OFF\<rparr> else m))"

section \<open>The handlers\<close>

definition at_version :: "modem \<Rightarrow> u32" where
  "at_version m = (case md_driver m of None \<Rightarrow> 0 | Some d \<Rightarrow> version (drv_status d))"

definition at_busy_count :: "modem \<Rightarrow> u32" where
  "at_busy_count m = (case md_driver m of None \<Rightarrow> 0 | Some d \<Rightarrow> drv_busy_count d)"

definition busy :: "u32 \<Rightarrow> modem \<Rightarrow> bool" where
  "busy orig_busy_count m \<longleftrightarrow> (case md_driver m of None \<Rightarrow> False
     | Some d \<Rightarrow> \<not> powering_down d \<and> orig_busy_count \<noteq> at_busy_count m)"

text \<open>One iteration of the loop, with the \<open>progress\<close> it makes.\<close>

definition config_pass :: "world \<Rightarrow> node \<Rightarrow> modem \<Rightarrow> bool \<times> modem" where
  "config_pass w config m =
     (let m1 = apply_power_state w config m;
          m2 = (if md_driver m1 \<noteq> None \<and> drive_at_protocol m1 then at_apply w config m1 else m1)
      in (pw_state (md_power m) \<noteq> pw_state (md_power m2) \<or> at_version m \<noteq> at_version m2, m2))"

partial_function (option) config_loop ::
  "world \<Rightarrow> node \<Rightarrow> u32 \<Rightarrow> bool \<Rightarrow> modem \<Rightarrow> (bool \<times> modem) option" where
  "config_loop w config orig_busy_count overall_progress m =
     (case config_pass w config m of (progress, m) \<Rightarrow>
        if \<not> progress then Some (overall_progress, m)
        else if busy orig_busy_count m then Some (True, m)
        else config_loop w config orig_busy_count True m)"

definition need_polling :: "modem \<Rightarrow> bool" where
  "need_polling m \<longleftrightarrow> starting_up m \<or> shutting_down m \<or> outbound_call m \<or> md_state m = AT_BUSY
     \<or> at_response_outstanding m"

text \<open>What follows the loop.\<close>

definition finish_config :: "world \<Rightarrow> u32 \<Rightarrow> u32 \<Rightarrow> bool \<Rightarrow> modem \<Rightarrow> modem" where
  "finish_config w orig_at_version orig_busy_count overall_progress m =
     (let m = (if busy orig_busy_count m then m\<lparr>md_state := AT_BUSY\<rparr> else m);
          m = (if orig_at_version \<noteq> at_version m
               then (let (t, m) = elapsed_ms w m in m\<lparr>last_at_progress_ms := t\<rparr>) else m);
          m = (if need_polling m then trigger_timer_in_500ms m else m)
      in if overall_progress \<or> starting_up m \<or> shutting_down m then update_state_report w m else m)"

definition handle_config :: "world \<Rightarrow> node \<Rightarrow> modem \<Rightarrow> modem option" where
  "handle_config w config m =
     map_option (\<lambda>(overall_progress, m'). finish_config w (at_version m) (at_busy_count m) overall_progress m')
       (config_loop w config (at_busy_count m) False m)"

text \<open>The part of \<^verbatim>\<open>_handle_timer\<close> before the configuration is applied.\<close>

definition cancel_timed_out :: "world \<Rightarrow> modem \<Rightarrow> modem" where
  "cancel_timed_out w m =
     (case md_driver m of None \<Rightarrow> m
      | Some d \<Rightarrow> if \<not> response_outstanding d then m
          else let (t, m) = elapsed_ms w m; duration_ms = t - last_at_progress_ms m
               in if duration_ms > of_nat (drv_command_timeout_ms d)
                  then m\<lparr>md_driver := Some (drv_cancel_command d)\<rparr> else m)"

definition timer_expired :: "world \<Rightarrow> modem \<Rightarrow> modem" where
  "timer_expired w m =
     (let m = m\<lparr>timer_scheduled := False\<rparr>;
          m = (if md_state m = AT_BUSY then m\<lparr>md_state := AT_PROTOCOL\<rparr> else m);
          m = (if outbound_call m then m\<lparr>md_driver := map_option invalidate_call_list (md_driver m)\<rparr> else m)
      in cancel_timed_out w m)"

definition handle_timer :: "world \<Rightarrow> node \<Rightarrow> modem \<Rightarrow> modem option" where
  "handle_timer w config m = handle_config w config (timer_expired w m)"

end
