(* ===== verification/Modem_Props.thy ===== *)
theory Modem_Props
  imports Modem_Main At_Outstanding
begin

text \<open>
  How the power sequence and the AT-protocol driver work together: when commands are sent,
  when the power key is pressed, and where the two state machines get in each other's way.
\<close>

section \<open>Steps of the driver\<close>

text \<open>
  A driver object that was left behind: it exists although the modem is not driven through
  the AT protocol. This happens when the polite shutdown times out.
\<close>

definition at_driven :: "modem \<Rightarrow> bool" where
  "at_driven m \<longleftrightarrow> md_state m \<in> {AT_PROTOCOL, AT_BUSY, AT_SHUTDOWN}"

definition stale :: "modem \<Rightarrow> bool" where
  "stale m \<longleftrightarrow> md_driver m \<noteq> None \<and> \<not> at_driven m"

text \<open>
  The passes over a configuration, and what the handlers do before and after them. A run
  without a stale driver is one in which no polite shutdown timed out.
\<close>

inductive modem_run :: "world \<Rightarrow> modem \<Rightarrow> bool" for w where
  start: "modem_run w init_modem"
| pass: "modem_run w m \<Longrightarrow> config_pass w config m = (progress, m') \<Longrightarrow> \<not> stale m' \<Longrightarrow> modem_run w m'"
| finish: "modem_run w m \<Longrightarrow> modem_run w (finish_config w orig_version orig_busy progress m)"
| timer: "modem_run w m \<Longrightarrow> modem_run w (timer_expired w m)"

inductive passes :: "world \<Rightarrow> node \<Rightarrow> modem \<Rightarrow> modem \<Rightarrow> bool" for w config where
  none: "passes w config m m"
| more: "config_pass w config m = (progress, m1) \<Longrightarrow> passes w config m1 m2 \<Longrightarrow> passes w config m m2"

lemma config_loop_passes:
  assumes "config_loop w config b p m = Some r"
  shows "passes w config m (snd r)"
proof (rule config_loop.raw_induct [where P = "\<lambda>w config b p m r. passes w config m (snd r)", OF _ assms])
  fix loop w config b p m r
  assume IH: "\<And>w config b p m r. loop w config b p m = Some r \<Longrightarrow> passes w config m (snd r)"
    and step: "(case config_pass w config m of (progress, m) \<Rightarrow>
      if \<not> progress then Some (p, m) else if busy b m then Some (True, m) else loop w config b True m) = Some r"
  obtain q m1 where m1: "config_pass w config m = (q, m1)" by fastforce
  have "passes w config m1 (snd r)"
    using step IH unfolding m1 by (cases r) (auto split: if_splits intro: passes.none)
  with m1 show "passes w config m (snd r)" by (rule passes.more)
qed

lemma handle_config_passes:
  assumes "handle_config w config m = Some m'"
  obtains m1 p where "passes w config m m1" and "m' = finish_config w (at_version m) (at_busy_count m) p m1"
proof -
  obtain r where r: "config_loop w config (at_busy_count m) False m = Some r"
    and "m' = (\<lambda>(p, m1). finish_config w (at_version m) (at_busy_count m) p m1) r"
    using assms by (auto simp: handle_config_def)
  then show ?thesis using that [of "snd r" "fst r"] config_loop_passes [OF r] by (simp add: case_prod_beta)
qed

section \<open>What a pass leaves alone\<close>

lemma at_apply_frame [simp]:
  "md_power (at_apply w config m) = md_power m" "md_state (at_apply w config m) = md_state m"
  "md_driver (at_apply w config m) = None \<longleftrightarrow> md_driver m = None"
  "shutdown_triggered_ms (at_apply w config m) = shutdown_triggered_ms m"
  "at_powered_down_ms (at_apply w config m) = at_powered_down_ms m"
  "md_clocked (at_apply w config m) = md_clocked m"
  by (auto simp: at_apply_def Let_def split: option.splits prod.splits)

lemma at_apply_no_driver: "md_driver m = None \<Longrightarrow> at_apply w config m = m"
  by (simp add: at_apply_def)

lemma construct_driver_frame [simp]:
  "md_power (construct_driver m) = md_power m" "md_driver (construct_driver m) = Some new_at_driver"
  "md_sent (construct_driver m) = md_sent m"
  by (simp_all add: construct_driver_def)

lemma elapsed_ms_frame [simp]:
  "fst (elapsed_ms w m) = w_clock_ms w (md_clocked m)"
  "snd (elapsed_ms w m) = m\<lparr>md_clocked := md_clocked m + 1\<rparr>"
  by (simp_all add: elapsed_ms_def)

lemmas clock_defs = elapsed_ms_def seconds_since_def

lemma check_power_off_frame [simp]:
  "md_power (check_power_off w config m) = md_power m" "md_driver (check_power_off w config m) = md_driver m"
  "md_sent (check_power_off w config m) = md_sent m"
  by (auto simp: check_power_off_def clock_defs Let_def split: option.split)

lemma check_power_off_state: "md_state (check_power_off w config m) =
   (if config_flag w config ''power'' True then md_state m
    else case md_driver m of None \<Rightarrow> POWERING_OFF
      | Some d \<Rightarrow> if powering_down d \<or> drv_powered_down d then AT_SHUTDOWN else md_state m)"
  by (auto simp: check_power_off_def clock_defs Let_def split: option.split)

section \<open>Commands are sent to a modem that is on\<close>

definition power_matches :: "modem \<Rightarrow> bool" where
  "power_matches m \<longleftrightarrow> \<not> stale m
     \<and> (md_state m \<in> {AT_PROTOCOL, AT_BUSY, AT_SHUTDOWN, AT_GRACE_DELAY, POWER_ON} \<longrightarrow> pw_on (md_power m))"

text \<open>The effect of the first half of a pass on the power and on what is sent.\<close>

lemma apply_power_state_matches:
  assumes "power_matches m"
  shows "(md_state (apply_power_state w config m) \<in> {AT_PROTOCOL, AT_BUSY, AT_SHUTDOWN, AT_GRACE_DELAY, POWER_ON}
      \<longrightarrow> pw_on (md_power (apply_power_state w config m)))
    \<and> (md_sent (apply_power_state w config m) \<noteq> md_sent m \<longrightarrow> pw_on (md_power (apply_power_state w config m)))"
  using assms
  by (cases "md_state m")
    (auto simp: apply_power_state_def power_matches_def stale_def at_driven_def clock_defs Let_def
      drive_powering_on_def drive_at_shutdown_def check_power_off_state split: option.splits if_splits)

lemma config_pass_parts:
  assumes "config_pass w config m = (progress, m')"
  shows "m' = (if md_driver (apply_power_state w config m) \<noteq> None
      \<and> drive_at_protocol (apply_power_state w config m)
    then at_apply w config (apply_power_state w config m) else apply_power_state w config m)"
    and "md_state m' = md_state (apply_power_state w config m)"
    and "md_power m' = md_power (apply_power_state w config m)"
    and "md_driver m' = None \<longleftrightarrow> md_driver (apply_power_state w config m) = None"
proof -
  show eq: "m' = (if md_driver (apply_power_state w config m) \<noteq> None
      \<and> drive_at_protocol (apply_power_state w config m)
    then at_apply w config (apply_power_state w config m) else apply_power_state w config m)"
    using assms by (simp add: config_pass_def Let_def)
  show "md_state m' = md_state (apply_power_state w config m)"
    "md_power m' = md_power (apply_power_state w config m)"
    "md_driver m' = None \<longleftrightarrow> md_driver (apply_power_state w config m) = None"
    by (subst eq; simp)+
qed

lemma pass_sends_when_on:
  assumes "power_matches m" and "config_pass w config m = (progress, m')"
  shows "(md_state m' \<in> {AT_PROTOCOL, AT_BUSY, AT_SHUTDOWN, AT_GRACE_DELAY, POWER_ON} \<longrightarrow> pw_on (md_power m'))
    \<and> (md_sent m' \<noteq> md_sent m \<longrightarrow> pw_on (md_power m'))"
  using apply_power_state_matches [OF assms(1), of w config] config_pass_parts [OF assms(2)]
  by (auto simp: drive_at_protocol_def split: if_splits)

lemma update_state_report_frame [simp]:
  "md_power (update_state_report w m) = md_power m" "md_state (update_state_report w m) = md_state m"
  "md_driver (update_state_report w m) = md_driver m"
  by (auto simp: update_state_report_def modem_report_def clock_defs Let_def split: prod.splits)

lemma finish_config_frame:
  "md_power (finish_config w v b p m) = md_power m" "md_driver (finish_config w v b p m) = md_driver m"
  "md_state (finish_config w v b p m) = (if busy b m then AT_BUSY else md_state m)"
  by (auto simp: finish_config_def trigger_timer_in_500ms_def clock_defs Let_def)

lemma timer_expired_frame:
  "md_power (timer_expired w m) = md_power m" "md_driver (timer_expired w m) = None \<longleftrightarrow> md_driver m = None"
  "md_state (timer_expired w m) = (if md_state m = AT_BUSY then AT_PROTOCOL else md_state m)"
  by (auto simp: timer_expired_def cancel_timed_out_def outbound_call_def clock_defs Let_def split: option.split)

lemma run_matches: "modem_run w m \<Longrightarrow> power_matches m"
proof (induction rule: modem_run.induct)
  case start
  show ?case by (simp add: power_matches_def init_modem_def stale_def)
next
  case (pass m config progress m')
  show ?case
    using pass_sends_when_on [OF pass.IH pass.hyps(2)] pass.hyps(3) unfolding power_matches_def by blast
next
  case (finish m v b p)
  then show ?case
    by (auto simp: power_matches_def finish_config_frame stale_def at_driven_def busy_def split: option.splits)
next
  case (timer m)
  then show ?case by (auto simp: power_matches_def timer_expired_frame stale_def at_driven_def)
qed

text \<open>
  C29: commands are sent only to a modem that is on. In every run in which no polite shutdown
  times out, a pass that sends a command leaves the power sequence in the state "on", and so
  does every pass into a state in which the modem is reported as on or is shut down politely.
\<close>

theorem commands_only_when_on:
  assumes "modem_run w m" and "config_pass w config m = (progress, m')"
  shows "(md_sent m' \<noteq> md_sent m \<longrightarrow> pw_on (md_power m'))
    \<and> (power_attr (md_state m') = ''on'' \<or> md_state m' \<in> {AT_SHUTDOWN, AT_GRACE_DELAY} \<longrightarrow> pw_on (md_power m'))"
proof -
  have "power_attr (md_state m') = ''on'' \<longleftrightarrow> md_state m' \<in> {AT_PROTOCOL, AT_BUSY, POWER_ON}"
    by (cases "md_state m'") auto
  then show ?thesis using pass_sends_when_on [OF run_matches [OF assms(1)] assms(2)] by blast
qed

text \<open>A modem that is off at first and on after the power key; nothing is received.\<close>

definition switch_config :: "string \<Rightarrow> node" where
  "switch_config v = Node ''config'' [(''power'', v)] [] []"

definition on_off :: "string \<Rightarrow> bool option" where
  "on_off v = (if v \<in> {''on'', ''yes''} then Some True else if v \<in> {''off'', ''no''} then Some False else None)"

definition calm_world :: "(nat \<Rightarrow> bool) \<Rightarrow> (nat \<Rightarrow> u64) \<Rightarrow> world" where
  "calm_world off clk = \<lparr>w_sense = off, w_clock_ms = clk, w_arrivals = (\<lambda>_. []), w_tokens = token_scan,
     w_bool_of = on_off\<rparr>"

lemma commands_only_when_on_witness:
  "let w = calm_world (\<lambda>n. n = 0) (\<lambda>_. 0); m1 = snd (config_pass w (switch_config ''on'') init_modem);
       m2 = snd (config_pass w (switch_config ''on'') m1)
   in md_sent m2 = [''AT''] \<and> pw_on (md_power m2)"
proof -
  let ?w = "calm_world (\<lambda>n. n = 0) (\<lambda>_. 0)"
  let ?m1 = "snd (config_pass ?w (switch_config ''on'') init_modem)"
  let ?m2 = "snd (config_pass ?w (switch_config ''on'') ?m1)"
  have p1: "config_pass ?w (switch_config ''on'') init_modem = (fst (config_pass ?w (switch_config ''on'') init_modem), ?m1)"
    and p2: "config_pass ?w (switch_config ''on'') ?m1 = (fst (config_pass ?w (switch_config ''on'') ?m1), ?m2)"
    by simp_all
  have "\<not> stale ?m1" and sent: "md_sent ?m2 = [''AT'']" "md_sent ?m1 = []"
    unfolding stale_def at_driven_def by code_simp+
  then have "modem_run ?w ?m1" using modem_run.pass [OF modem_run.start p1] by simp
  from commands_only_when_on [OF this p2] sent show ?thesis by (simp add: Let_def)
qed

section \<open>When the power key is pressed\<close>

text \<open>
  C31: a modem driven through the AT protocol is not switched off behind its back. The pins
  are touched only while powering on or off, and powering off begins only when it is
  configured and there is no AT-protocol driver, one second after the modem reported that it
  is powered down, or when the polite shutdown took more than 25 seconds.
\<close>

theorem power_off_reasons:
  assumes "config_pass w config m = (progress, m')"
  shows "(pin_log (md_power m') \<noteq> pin_log (md_power m) \<longrightarrow> md_state m \<in> {POWERING_ON, POWERING_OFF})
    \<and> (md_state m' = POWERING_OFF \<and> md_state m \<noteq> POWERING_OFF \<longrightarrow>
        (\<not> config_flag w config ''power'' True \<and> (md_state m = POWER_ON \<or> md_driver m' = None))
      \<or> (md_state m = AT_GRACE_DELAY \<and> 1000 \<le> w_clock_ms w (md_clocked m) - at_powered_down_ms m)
      \<or> (md_state m = AT_SHUTDOWN \<and>
          25 < (w_clock_ms w (md_clocked m' - 1) - shutdown_triggered_ms m) div 1000))"
proof -
  note parts = config_pass_parts [OF assms]
  have clocked: "md_clocked m' = md_clocked (apply_power_state w config m)" by (subst parts(1)) simp
  show ?thesis
    unfolding parts(2-4) clocked
    by (cases "md_state m")
      (auto simp: apply_power_state_def clock_defs Let_def drive_powering_on_def drive_at_shutdown_def
        check_power_off_state split: option.splits if_splits)
qed

lemma power_off_reasons_witness:
  "let w = calm_world (\<lambda>_. True) (\<lambda>_. 2000);
       m = init_modem\<lparr>md_state := AT_GRACE_DELAY, at_powered_down_ms := 500\<rparr>;
       m' = snd (config_pass w (switch_config ''off'') m)
   in md_state m' = POWERING_OFF \<and> (1000 :: u64) \<le> 2000 - 500 \<and> pin_log (md_power m') = pin_log init_power"
proof -
  let ?w = "calm_world (\<lambda>_. True) (\<lambda>_. 2000)"
  let ?m = "init_modem\<lparr>md_state := AT_GRACE_DELAY, at_powered_down_ms := 500\<rparr>"
  obtain p m' where m': "config_pass ?w (switch_config ''off'') ?m = (p, m')" by fastforce
  have "md_state m' = POWERING_OFF"
    using m' by (auto simp: config_pass_def apply_power_state_def clock_defs Let_def calm_world_def
        init_modem_def drive_at_protocol_def)
  moreover have "pin_log (md_power m') = pin_log init_power"
    using power_off_reasons [OF m'] by (auto simp: init_modem_def)
  ultimately show ?thesis by (simp add: Let_def m')
qed

section \<open>Two ways to miss a shutdown\<close>

lemma no_power_down_operation:
  assumes "attribute_string 16 config ''power'' [] \<noteq> ''off''" and "apply_config s config c = (c', cmd)"
  shows "constructed c' Power_down \<Longrightarrow> constructed c Power_down"
proof -
  have kept: "constructed (prepared s config c) Power_down \<longrightarrow> constructed c Power_down"
    unfolding prepared_def
  proof (rule apply_config_ops_keeps [where P = "\<lambda>d. constructed d Power_down \<longrightarrow> constructed c Power_down"], goal_cases)
    case 1
    then show ?case by (auto simp: complete_operation_def split: option.split)
  next
    case (5 d)
    then show ?case using assms(1) by (auto simp: apply_power_def Let_def)
  qed (auto simp: constructed_steps apply_qcfg_def Let_def split: option.split)
  have "constructed c' Power_down \<longleftrightarrow> constructed (prepared s config c) Power_down"
  proof (cases cmd)
    case None
    then show ?thesis using apply_config_None assms(2) by blast
  next
    case (Some a)
    from apply_config_Some(2) [OF assms(2) [unfolded Some]] show ?thesis
      by (elim submit_one_Some) (metis constructed_def op_pending_def option.distinct(1) option.simps(4) submitted_def)
  qed
  with kept show "constructed c' Power_down \<Longrightarrow> constructed c Power_down" by blast
qed

text \<open>
  The two drivers read the attribute \<open>power\<close> differently: the modem driver as a truth
  value, the AT-protocol driver as the text "off". With any other text for "false" the modem
  is never shut down: as long as the modem does not report on its own that it is powered
  down, every pass stays in the state it was in and schedules no power-down command.
\<close>

theorem power_no_never_shuts_down:
  assumes "md_state m \<in> {AT_PROTOCOL, AT_BUSY}" and "md_driver m = Some d"
    and "\<not> power_down_scheduled (drv_control d)" and "\<not> drv_powered_down d"
    and "attribute config ''power'' = Some v" and "w_bool_of w v = Some False"
    and "genode_string 16 v \<noteq> ''off''" and "config_pass w config m = (progress, m')"
  shows "\<not> config_flag w config ''power'' True \<and> md_state m' = md_state m
    \<and> (\<exists>d'. md_driver m' = Some d' \<and> \<not> power_down_scheduled (drv_control d'))"
proof -
  let ?m1 = "apply_power_state w config m"
  note parts = config_pass_parts [OF assms(8)]
  have "?m1 = check_power_off w config m" using assms(1) by (auto simp: apply_power_state_def)
  then have m1: "md_state ?m1 = md_state m" "md_driver ?m1 = Some d"
    using assms(2-4) by (auto simp: check_power_off_state powering_down_def)
  have off: "attribute_string 16 config ''power'' [] \<noteq> ''off''"
    using assms(5,7) by (simp add: attribute_string_def)
  have "\<exists>d'. md_driver (at_apply w config ?m1) = Some d' \<and> \<not> power_down_scheduled (drv_control d')"
  proof -
    obtain d' cmd rest where a: "drv_apply (w_tokens w) 256 config
        (md_unread ?m1 @ w_arrivals w (md_received ?m1)) d = (d', cmd, rest)"
      by (metis prod_cases3)
    then obtain s1 where "apply_config s1 config (drv_control d) = (drv_control d', cmd)"
      by (elim drv_apply_parts) auto
    then have "\<not> power_down_scheduled (drv_control d')"
      using no_power_down_operation [OF off] assms(3) by (auto simp: power_down_scheduled_def)
    then show ?thesis using a m1(2) by (auto simp: at_apply_def Let_def)
  qed
  then have "\<exists>d'. md_driver m' = Some d' \<and> \<not> power_down_scheduled (drv_control d')"
    using parts(1) m1(2) assms(3) by auto
  then show ?thesis
    using parts(2) m1(1) assms(5,6) by (simp add: config_flag_def attribute_as_def)
qed

lemma power_no_never_shuts_down_witness:
  "let w = calm_world (\<lambda>_. False) (\<lambda>_. 0);
       m = init_modem\<lparr>md_state := AT_PROTOCOL, md_driver := Some new_at_driver\<rparr>
   in md_state (snd (config_pass w (switch_config ''no'') m)) = AT_PROTOCOL"
proof -
  let ?w = "calm_world (\<lambda>_. False) (\<lambda>_. 0)"
  let ?m = "init_modem\<lparr>md_state := AT_PROTOCOL, md_driver := Some new_at_driver\<rparr>"
  obtain p m' where m': "config_pass ?w (switch_config ''no'') ?m = (p, m')" by fastforce
  from power_no_never_shuts_down [OF _ _ _ _ _ _ _ m', of new_at_driver "''no''"]
  have "md_state m' = AT_PROTOCOL"
    by (simp add: new_at_driver_def init_driver_def init_control_def init_status_def drv_powered_down_def
        power_down_scheduled_def constructed_def switch_config_def attribute_def calm_world_def on_off_def)
  then show ?thesis by (simp add: Let_def m')
qed

text \<open>
  A polite shutdown that times out leaves the AT-protocol driver behind, with its
  power-down operation. If the modem is switched on again and off while it is still starting
  up, the driver left behind is taken for a running one: instead of being powered off the
  modem enters the polite shutdown although it is not on, and is driven with AT commands.
\<close>

theorem stale_driver_delays_power_off:
  assumes "md_state m = AT_SHUTDOWN" and "md_driver m = Some d" and "powering_down d"
    and "25 < (w_clock_ms w (md_clocked m) - shutdown_triggered_ms m) div 1000"
    and "pw_state (md_power m) = PW_ON" and "\<And>n. w_sense w n"
    and "\<not> config_flag w off ''power'' True" and "config_flag w on ''power'' False"
    and "m1 = snd (config_pass w off m)" and "m2 = snd (config_pass w off m1)"
    and "m3 = snd (config_pass w on m2)" and "m4 = snd (config_pass w on m3)"
    and "config_flag w on ''power'' True" and "m5 = snd (config_pass w off m4)"
  shows "md_state m1 = POWERING_OFF \<and> stale m1
    \<and> md_state m2 = POWER_OFF \<and> pw_off (md_power m2)
    \<and> md_state m4 = POWERING_ON \<and> pw_starting_up (md_power m4)
    \<and> md_state m5 = AT_SHUTDOWN \<and> pw_starting_up (md_power m5)
    \<and> md_received m5 = md_received m4 + 1"
proof -
  have d: "\<not> drv_powered_down d" using assms(3) by (simp add: powering_down_def drv_powered_down_def)
  note pass_defs = config_pass_def apply_power_state_def clock_defs Let_def drive_at_protocol_def
  have m1: "md_state m1 = POWERING_OFF" "md_driver m1 = Some d" "md_power m1 = md_power m"
    using assms(1,2,4) d unfolding assms(9) by (simp_all add: pass_defs drive_at_shutdown_def)
  have m2: "md_state m2 = POWER_OFF" "md_driver m2 = Some d" "pw_state (md_power m2) = PW_OFF"
    using m1 assms(5,6) unfolding assms(10)
    by (simp_all add: pass_defs power_enabled_def settle_down_on pw_off_def)
  have m3: "md_state m3 = POWERING_ON" "md_driver m3 = Some d" "pw_state (md_power m3) = PW_OFF"
    using m2 assms(8) unfolding assms(11) by (simp_all add: pass_defs)
  have m4: "md_state m4 = POWERING_ON" "md_driver m4 = Some d" "pw_state (md_power m4) = PW_STARTING_UP"
    using m3 assms(6,13) unfolding assms(12)
    by (simp_all add: pass_defs drive_powering_on_def power_enabled_def settle_up_off pw_on_def check_power_off_def)
  have "apply_power_state w off m4 = check_power_off w off (drive_powering_on w off m4)"
    using m4(1) by (simp add: apply_power_state_def)
  moreover have "drive_powering_on w off m4 = m4\<lparr>md_power := power_enabled (w_sense w) True (md_power m4)\<rparr>"
    "pw_state (power_enabled (w_sense w) True (md_power m4)) = PW_STARTING_UP"
    using m4(3) assms(6) by (simp_all add: drive_powering_on_def power_enabled_def settle_up_starting pw_on_def Let_def)
  ultimately have a: "md_state (apply_power_state w off m4) = AT_SHUTDOWN"
    "md_driver (apply_power_state w off m4) = Some d"
    "pw_state (md_power (apply_power_state w off m4)) = PW_STARTING_UP"
    "md_received (apply_power_state w off m4) = md_received m4"
    using m4(2) assms(3,7) by (simp_all add: check_power_off_def clock_defs Let_def)
  then have "m5 = at_apply w off (apply_power_state w off m4)"
    unfolding assms(14) by (simp add: config_pass_def Let_def drive_at_protocol_def)
  with a have "md_state m5 = AT_SHUTDOWN" "pw_state (md_power m5) = PW_STARTING_UP"
    "md_received m5 = md_received m4 + 1"
    by (auto simp: at_apply_def Let_def split: prod.splits)
  with m1 m2 m4 show ?thesis
    by (simp add: stale_def at_driven_def pw_off_def pw_starting_up_def)
qed

definition shutting_down_driver :: driver where
  "shutting_down_driver = new_at_driver\<lparr>drv_control := construct Power_down power_down_command init_control\<rparr>"

lemma stale_driver_delays_power_off_witness:
  "let w = calm_world (\<lambda>_. True) (\<lambda>_. 60000);
       m = init_modem\<lparr>md_state := AT_SHUTDOWN, md_driver := Some shutting_down_driver,
             md_power := init_power\<lparr>pw_state := PW_ON\<rparr>\<rparr>;
       off = switch_config ''off''; on = switch_config ''on''
   in md_state (snd (config_pass w off (snd (config_pass w on (snd (config_pass w on
        (snd (config_pass w off (snd (config_pass w off m)))))))))) = AT_SHUTDOWN"
proof -
  let ?w = "calm_world (\<lambda>_. True) (\<lambda>_. 60000)"
  let ?m = "init_modem\<lparr>md_state := AT_SHUTDOWN, md_driver := Some shutting_down_driver,
             md_power := init_power\<lparr>pw_state := PW_ON\<rparr>\<rparr>"
  have d: "powering_down shutting_down_driver"
    by (simp add: powering_down_def power_down_scheduled_def shutting_down_driver_def new_at_driver_def
        init_driver_def init_status_def)
  have off: "\<not> config_flag ?w (switch_config ''off'') ''power'' True"
    and on: "config_flag ?w (switch_config ''on'') ''power'' b" for b
    by (simp_all add: config_flag_def attribute_as_def attribute_def switch_config_def calm_world_def on_off_def)
  have t: "25 < (w_clock_ms ?w (md_clocked ?m) - shutdown_triggered_ms ?m) div 1000"
    by (simp add: calm_world_def init_modem_def)
  show ?thesis
    using stale_driver_delays_power_off [OF _ _ d t _ _ off on refl refl refl refl on refl]
    by (simp add: Let_def calm_world_def)
qed

end
