(* ===== verification/Power_Main.thy ===== *)
theory Power_Main
  imports Mmio Config_Node
begin

text \<open>
  \<^verbatim>\<open>src/driver/power/pinephone/main.cc\<close>: the power driver of the PinePhone. It talks to the
  power-management chip with Forth programs executed by the SCP, reports the power state and
  applies power profile, brightness and system state. The programs executed are recorded;
  the response to the \<open>n\<close>-th program is a parameter, and so are Genode's conversions of
  text: skipping white space, the text after a token, the number at the start of a text, and
  the hexadecimal text of a number. Currents and voltages are kept in thousandths, as read;
  the floating-point numbers of the report are these divided by 1000.
\<close>

record power_world =
  w_response :: "nat \<Rightarrow> string \<Rightarrow> string"
  w_eat_whitespace :: "string \<Rightarrow> string"
  w_next_token :: "string \<Rightarrow> string"
  w_unsigned :: "string \<Rightarrow> u32 option"
  w_hex_u8 :: "string \<Rightarrow> u8 option"
  w_hex :: "nat \<Rightarrow> string"

section \<open>Power information\<close>

record pmic_info =
  ac_present :: bool
  battery_present :: bool
  charging :: bool
  voltage_m :: u32
  charge_current_m :: u32
  discharge_current_m :: u32
  remaining_capacity :: u32

definition init_info :: pmic_info where
  "init_info = \<lparr>ac_present = False, battery_present = False, charging = False, voltage_m = 0,
     charge_current_m = 0, discharge_current_m = 0, remaining_capacity = 0\<rparr>"

datatype power_attr = Brightness u32 | Power_profile string | Voltage u32 | Ac_present | Charging
  | Battery "battery_attr list"
and battery_attr = Remaining_capacity u32 | Charge_current u32 | Discharge_current u32
  | Power_draw u32 u32

definition generate_info :: "pmic_info \<Rightarrow> power_attr list" where
  "generate_info i = [Voltage (voltage_m i)]
     @ (if ac_present i then [Ac_present] else [])
     @ (if charging i then [Charging] else [])
     @ (if battery_present i then [Battery ([Remaining_capacity (remaining_capacity i)]
          @ (if charging i then [Charge_current (charge_current_m i)] else [])
          @ (if 0 < discharge_current_m i
             then [Discharge_current (discharge_current_m i),
                   Power_draw (discharge_current_m i) (voltage_m i)] else []))] else [])"

text \<open>The numbers of a response, separated by white space; a missing number is 0.\<close>

fun parse_numbers :: "power_world \<Rightarrow> nat \<Rightarrow> string \<Rightarrow> u32 list" where
  "parse_numbers w 0 t = []"
| "parse_numbers w (Suc n) t =
     (let t = w_eat_whitespace w t;
          number = (case w_unsigned w t of None \<Rightarrow> 0 | Some v \<Rightarrow> v)
      in number # parse_numbers w n (w_next_token w t))"

definition info_of_numbers :: "u32 list \<Rightarrow> pmic_info" where
  "info_of_numbers ns =
     (let charge_current = ns ! 3;
          capacity = ns ! 5;
          battery_broken = (capacity \<le> 1 \<and> charge_current < 100);
          present = bit (ns ! 1) 5
      in \<lparr>ac_present = bit (ns ! 0) 7, battery_present = present \<and> \<not> battery_broken,
          charging = bit (ns ! 1) 6, voltage_m = ns ! 2, charge_current_m = charge_current,
          discharge_current_m = ns ! 4, remaining_capacity = capacity\<rparr>)"

section \<open>State\<close>

datatype input_event = Press_power | Release_power

record power_main =
  period_ms :: "64 word"
  system_rom_label :: string
  system_open :: bool
  power_profile :: string
  brightness :: u32
  pmic_info :: pmic_info
  executed :: "string list"
  power_reports :: "power_attr list list"
  input_events :: "input_event list"
  rintc_acks :: nat


definition init_main :: power_main where
  "init_main = \<lparr>period_ms = 0, system_rom_label = [], system_open = False, power_profile = [],
     brightness = 0, pmic_info = init_info, executed = [], power_reports = [], input_events = [],
     rintc_acks = 0\<rparr>"

text \<open>
  \<^verbatim>\<open>Scp::execute\<close>: the program is executed, the response is a string of at most 127
  characters. A program longer than a request is replaced by the empty one.
\<close>

definition scp_execute :: "power_world \<Rightarrow> string \<Rightarrow> power_main \<Rightarrow> string \<times> power_main" where
  "scp_execute w program m =
     (genode_string 128 (cstring (w_response w (length (executed m)) program)),
      m\<lparr>executed := executed m @ [program]\<rparr>)"

definition execute_only :: "power_world \<Rightarrow> string \<Rightarrow> power_main \<Rightarrow> power_main" where
  "execute_only w program m = snd (scp_execute w program m)"

section \<open>PMIC registers\<close>

definition pmic_write :: "power_world \<Rightarrow> nat \<Rightarrow> u8 \<Rightarrow> power_main \<Rightarrow> power_main" where
  "pmic_write w offset v m =
     execute_only w (genode_string 64 (w_hex w (unat v) @ '' '' @ w_hex w offset @ '' pmic!'')) m"

definition pmic_read :: "power_world \<Rightarrow> nat \<Rightarrow> power_main \<Rightarrow> u8 \<times> power_main" where
  "pmic_read w offset m =
     (let (response, m) = scp_execute w (genode_string 64 (w_hex w offset @ '' pmic@ .'')) m;
          t = w_eat_whitespace w response
      in (case w_hex_u8 w t of None \<Rightarrow> 0 | Some v \<Rightarrow> v, m))"

definition Irq_status_5 :: nat where "Irq_status_5 = 0x4c"
definition Poksirq :: field where "Poksirq = Fld 0x4c 4 1"

definition info_from_scp :: "power_world \<Rightarrow> power_main \<Rightarrow> pmic_info \<times> power_main" where
  "info_from_scp w m =
     (let (response, m) = scp_execute w ''power_info'' m
      in (info_of_numbers (parse_numbers w 6 response), m))"

section \<open>Report\<close>

definition reported_brightness :: "u32 \<Rightarrow> u32" where
  "reported_brightness phase = (phase * 100) div 1024"

definition brightness_from_scp :: "power_world \<Rightarrow> power_main \<Rightarrow> u32 \<times> power_main" where
  "brightness_from_scp w m =
     (let (response, m) = scp_execute w ''rpwmphase bf@ .decimal'' m;
          t = w_eat_whitespace w response
      in (reported_brightness (case w_unsigned w t of None \<Rightarrow> 0 | Some v \<Rightarrow> v), m))"

definition update_power_report :: "power_world \<Rightarrow> power_main \<Rightarrow> power_main" where
  "update_power_report w m =
     (let (b, m) = brightness_from_scp w m
      in m\<lparr>power_reports := power_reports m @ [Brightness b
            # (if power_profile m \<noteq> [] then [Power_profile (power_profile m)] else [])
            @ generate_info (pmic_info m)]\<rparr>)"

section \<open>Handlers\<close>

definition rintc_ack :: reg_program where
  "rintc_ack = [(Fld 0x40 0 1, 1), (Fld 0x10 0 1, 1)]"

definition handle_rintc :: "power_world \<Rightarrow> power_main \<Rightarrow> power_main" where
  "handle_rintc w m =
     (let (status, m) = pmic_read w Irq_status_5 m;
          m = (if bit status 4
               then pmic_write w Irq_status_5 0x10
                      (m\<lparr>input_events := input_events m @ [Press_power, Release_power]\<rparr>)
               else m);
          m = execute_only w ''clear_pmic_irqs'' m;
          m = m\<lparr>rintc_acks := rintc_acks m + 1\<rparr>
      in update_power_report w m)"

definition handle_power_timer :: "power_world \<Rightarrow> power_main \<Rightarrow> power_main" where
  "handle_power_timer w m =
     (let orig = pmic_info m;
          (info, m) = info_from_scp w m;
          m = update_power_report w (m\<lparr>pmic_info := info\<rparr>);
          m = (if \<not> ac_present orig \<and> ac_present info then execute_only w ''38 35 pmic!'' m else m)
      in if charging orig \<noteq> charging info then execute_only w ''0 b8 pmic!  c0 b8 pmic!'' m else m)"

definition apply_profile :: "power_world \<Rightarrow> power_main \<Rightarrow> power_main" where
  "apply_profile w m =
     (let m = (if power_profile m = ''performance''
               then execute_only w (''70 dup 21 pmic! 22 pmic! '' @ ''40 udelay '' @ ''1a pllcpuxn bf! ''
                 @ ''40 udelay'') m else m)
      in if power_profile m = ''economic''
         then execute_only w (''10 pllcpuxn bf! '' @ ''40 udelay '' @ ''3c dup 21 pmic! 22 pmic! ''
            @ ''40 udelay '' @ ''30 dup 21 pmic! 22 pmic! '' @ ''40 udelay'') m else m)"

definition pwm_phase :: "u32 \<Rightarrow> u32" where
  "pwm_phase b = (b * 1023) div 100"

definition apply_brightness :: "power_world \<Rightarrow> power_main \<Rightarrow> power_main" where
  "apply_brightness w m =
     update_power_report w (execute_only w
       (genode_string 128 (w_hex w (unat (pwm_phase (brightness m))) @ '' 1f03804 0 10 bf!'')) m)"

definition apply_system :: "(string \<Rightarrow> u32 option) \<Rightarrow> power_world \<Rightarrow> node \<Rightarrow> power_main \<Rightarrow> power_main" where
  "apply_system num_of w system m =
     (let state = attribute_string 32 system ''state'' [];
          m = (if state = ''reset'' then execute_only w ''31 dup pmic@  40 or  swap pmic!'' m else m);
          m = (if state = ''poweroff'' then execute_only w ''32 dup pmic@  80 or  swap pmic!'' m else m);
          orig_power_profile = power_profile m;
          m = m\<lparr>power_profile := attribute_string 32 system ''power_profile'' []\<rparr>;
          m = (if orig_power_profile \<noteq> power_profile m then apply_profile w m else m);
          orig_brightness = brightness m;
          m = m\<lparr>brightness := attribute_as num_of system ''brightness'' 0\<rparr>
      in if orig_brightness \<noteq> brightness m then apply_brightness w m else m)"

text \<open>
  \<^verbatim>\<open>_handle_config\<close>: \<open>system_of\<close> gives the content of the system ROM by its label. The result
  tells whether the periodic timer is programmed anew.
\<close>

definition handle_power_config :: "(string \<Rightarrow> u32 option) \<Rightarrow> (string \<Rightarrow> 64 word option) \<Rightarrow> (string \<Rightarrow> node)
    \<Rightarrow> power_world \<Rightarrow> node \<Rightarrow> power_main \<Rightarrow> power_main \<times> bool" where
  "handle_power_config num_of period_of system_of w config m =
     (let orig_label = system_rom_label m;
          m = m\<lparr>system_rom_label := attribute_string 64 config ''system_rom'' []\<rparr>;
          m = (if orig_label \<noteq> system_rom_label m
               then m\<lparr>system_open := (system_rom_label m \<noteq> [])\<rparr> else m);
          m = (if system_open m then apply_system num_of w (system_of (system_rom_label m)) m else m);
          orig_period_ms = period_ms m;
          m = m\<lparr>period_ms := attribute_as period_of config ''period_ms'' 5000\<rparr>
      in (m, orig_period_ms \<noteq> period_ms m))"

text \<open>The programs the constructor executes before the first configuration.\<close>

definition setup_programs :: "string list" where
  "setup_programs = [''84 pmic@  4 or  84 pmic!'', ''29 30 pmic!'',
     '': .decimal  base @ decimal swap . base ! ; ''
       @ '': rpwmphase  1f03804 0 10 ; ''
       @ '': pllcpuxn 1c20000 8 4 ; ''
       @ '': power_info ''
       @ ''  0  pmic@ .decimal ''
       @ ''  1  pmic@ .decimal ''
       @ ''  78 pmic@ 10 * 79 pmic@ + .decimal ''
       @ ''  7a pmic@ 10 * 7b pmic@ + .decimal ''
       @ ''  7c pmic@ 10 * 7d pmic@ + .decimal ''
       @ ''  b9 pmic@ 7f and .decimal ''
       @ ''; ''
       @ '': clear_pmic_irqs 48 4 FOR dup ff swap pmic! 1 + NEXT drop ; '',
     '': .pmicreg dup space . pmic@ dup .hex space .bits ;'',
     '': .pmicregs  FOR AFT dup space .pmicreg cr 1 + THEN NEXT drop ;'',
     '': o 0 pmic@ .bits space 1 pmic@ .bits ;'',
     '': p power_info ;'']"

definition start_main :: "power_world \<Rightarrow> power_main" where
  "start_main w = fold (execute_only w) setup_programs init_main"

section \<open>Brightness\<close>

text \<open>
  A brightness of 1 to 100 percent gives a phase of the backlight that fits its 10 bits,
  and is read back from the phase as one percent less; the scaling back never restores the
  configured value. A brightness above 100 is not cut: its phase does not fit (as long as
  the product does not wrap).
\<close>

theorem brightness_scaled:
  assumes "0 < unat b" and "unat b * 1023 < 2 ^ 32"
  shows "unat (pwm_phase b) = unat b * 1023 div 100
    \<and> (unat (pwm_phase b) < 2 ^ 10 \<longleftrightarrow> unat b \<le> 100)
    \<and> (unat b \<le> 100 \<longrightarrow> unat (reported_brightness (pwm_phase b)) = unat b - 1)"
proof -
  let ?n = "unat b"
  have prod: "unat (b * 1023) = ?n * 1023"
    using assms(2) by (simp add: unat_word_ariths)
  then have phase: "unat (pwm_phase b) = ?n * 1023 div 100"
    by (simp add: pwm_phase_def unat_div_distrib)
  have fits: "?n * 1023 div 100 < 1024 \<longleftrightarrow> ?n \<le> 100" by linarith
  have "unat (reported_brightness (pwm_phase b)) = ?n - 1" if small: "?n \<le> 100"
  proof -
    have "unat (pwm_phase b) \<le> 1023" using fits small by (simp add: phase)
    then have "unat (pwm_phase b * 100) = unat (pwm_phase b) * 100"
      by (simp add: unat_word_ariths)
    then have "unat (reported_brightness (pwm_phase b)) = ?n * 1023 div 100 * 100 div 1024"
      by (simp add: reported_brightness_def unat_div_distrib phase)
    moreover have "?n * 1023 div 100 * 100 div 1024 = ?n - 1"
      using small assms(1) by linarith
    ultimately show ?thesis by simp
  qed
  then show ?thesis using phase fits by simp
qed

lemma brightness_scaled_witness:
  "unat (reported_brightness (pwm_phase 100)) = 99 \<and> unat (pwm_phase 100) = 1023"
  using brightness_scaled [of 100] by simp

section \<open>Applying the system state\<close>

lemma execute_only_frame [simp]:
  "executed (execute_only w p m) = executed m @ [p]" "power_profile (execute_only w p m) = power_profile m"
  "brightness (execute_only w p m) = brightness m" "pmic_info (execute_only w p m) = pmic_info m"
  "power_reports (execute_only w p m) = power_reports m" "input_events (execute_only w p m) = input_events m"
  "rintc_acks (execute_only w p m) = rintc_acks m"
  by (simp_all add: execute_only_def scp_execute_def)

lemma update_power_report_frame [simp]:
  "executed (update_power_report w m) = executed m @ [''rpwmphase bf@ .decimal'']"
  "power_profile (update_power_report w m) = power_profile m"
  "brightness (update_power_report w m) = brightness m" "pmic_info (update_power_report w m) = pmic_info m"
  "input_events (update_power_report w m) = input_events m" "rintc_acks (update_power_report w m) = rintc_acks m"
  by (simp_all add: update_power_report_def brightness_from_scp_def scp_execute_def Let_def)

lemma update_power_report_reports:
  "\<exists>b. power_reports (update_power_report w m) = power_reports m @ [Brightness b
     # (if power_profile m \<noteq> [] then [Power_profile (power_profile m)] else []) @ generate_info (pmic_info m)]"
  by (simp add: update_power_report_def brightness_from_scp_def scp_execute_def Let_def)

definition state_programs :: "string \<Rightarrow> string list" where
  "state_programs state = (if state = ''reset'' then [''31 dup pmic@  40 or  swap pmic!''] else [])
     @ (if state = ''poweroff'' then [''32 dup pmic@  80 or  swap pmic!''] else [])"

definition brightness_programs :: "power_world \<Rightarrow> u32 \<Rightarrow> string list" where
  "brightness_programs w b =
     [genode_string 128 (w_hex w (unat (pwm_phase b)) @ '' 1f03804 0 10 bf!''), ''rpwmphase bf@ .decimal'']"

lemma apply_profile_frame [simp]:
  "power_profile (apply_profile w m) = power_profile m" "brightness (apply_profile w m) = brightness m"
  by (simp_all add: apply_profile_def Let_def)

lemma apply_system_settings:
  "power_profile (apply_system num_of w system m) = attribute_string 32 system ''power_profile'' []"
  "brightness (apply_system num_of w system m) = attribute_as num_of system ''brightness'' 0"
  by (simp_all add: apply_system_def apply_brightness_def Let_def)

text \<open>
  The state of the system is applied once: afterwards profile and brightness are the
  configured ones, and applying the same state again executes nothing but the programs for a
  reset or a power-off, if that is the state. A brightness that differs from the last one is
  programmed and reported at once.
\<close>

theorem system_applied_once:
  assumes "m1 = apply_system num_of w system m"
  shows "executed (apply_system num_of w system m1)
      = executed m1 @ state_programs (attribute_string 32 system ''state'' [])
    \<and> power_profile m1 = attribute_string 32 system ''power_profile'' []
    \<and> brightness m1 = attribute_as num_of system ''brightness'' 0
    \<and> (brightness m1 \<noteq> brightness m \<longrightarrow>
        (\<exists>ps. executed m1 = executed m @ ps @ brightness_programs w (brightness m1)))"
proof -
  have "\<exists>ps. executed m1 = executed m @ ps @ brightness_programs w (brightness m1)" if "brightness m1 \<noteq> brightness m"
  proof -
    have b: "brightness m \<noteq> attribute_as num_of system ''brightness'' 0"
      using that assms by (simp add: apply_system_settings)
    show ?thesis
      unfolding assms apply_system_settings using b
      by (auto simp: apply_system_def apply_brightness_def brightness_programs_def apply_profile_def Let_def)
  qed
  moreover have "executed (apply_system num_of w system m1)
      = executed m1 @ state_programs (attribute_string 32 system ''state'' [])"
    using apply_system_settings [of num_of w system m, folded assms]
    by (simp add: apply_system_def [of num_of w system m1] state_programs_def Let_def)
  ultimately show ?thesis by (simp add: assms apply_system_settings)
qed

text \<open>A system state that asks for half the brightness, and a text interface without content.\<close>

definition dim_system :: node where
  "dim_system = Node ''system'' [(''brightness'', ''50'')] [] []"

definition mute_world :: "u8 \<Rightarrow> power_world" where
  "mute_world v = \<lparr>w_response = (\<lambda>_ _. []), w_eat_whitespace = id, w_next_token = id, w_unsigned = (\<lambda>_. None),
     w_hex_u8 = (\<lambda>_. Some v), w_hex = (\<lambda>n. if n = 511 then ''1ff'' else ''4c'')\<rparr>"

lemma system_applied_once_witness:
  "executed (apply_system (\<lambda>_. Some 50) (mute_world 0) dim_system init_main)
     = [''1ff 1f03804 0 10 bf!'', ''rpwmphase bf@ .decimal'']
   \<and> executed (apply_system (\<lambda>_. Some 50) (mute_world 0) dim_system
       (apply_system (\<lambda>_. Some 50) (mute_world 0) dim_system init_main))
     = executed (apply_system (\<lambda>_. Some 50) (mute_world 0) dim_system init_main)"
proof -
  have a: "attribute_as (\<lambda>_. Some 50) dim_system ''brightness'' 0 = (50 :: u32)"
    "attribute_string 32 dim_system ''power_profile'' [] = []" "attribute_string 32 dim_system ''state'' [] = []"
    by (simp_all add: dim_system_def attribute_as_def attribute_def attribute_string_def)
  have i: "power_profile init_main = []" "brightness init_main = 0" "executed init_main = []"
    by (simp_all add: init_main_def)
  have "unat (pwm_phase 50) = 511" by (simp add: pwm_phase_def)
  then have once: "executed (apply_system (\<lambda>_. Some 50) (mute_world 0) dim_system init_main)
      = [''1ff 1f03804 0 10 bf!'', ''rpwmphase bf@ .decimal'']"
    by (simp add: apply_system_def apply_brightness_def a i Let_def) (simp add: mute_world_def)
  show ?thesis
    using system_applied_once [OF refl, of "\<lambda>_. Some 50" "mute_world 0" dim_system init_main] once
    by (simp add: a state_programs_def)
qed

section \<open>The interrupt of the PMIC\<close>

text \<open>
  The interrupt handler delivers a press and a release of the power button exactly if the
  PMIC shows a short press, and clears that flag; it always acknowledges the interrupt. The
  report it generates is not a fresh one, though: the power information in it is what the last
  timer brought, so a charger just connected is not shown.
\<close>

theorem rintc_reports_old_info:
  assumes "pmic_read w Irq_status_5 m = (status, m1)"
  shows "input_events (handle_rintc w m) = input_events m
        @ (if bit status 4 then [Press_power, Release_power] else [])
    \<and> executed (handle_rintc w m) = executed m1
        @ (if bit status 4 then [genode_string 64 (w_hex w 16 @ '' '' @ w_hex w 76 @ '' pmic!'')] else [])
        @ [''clear_pmic_irqs'', ''rpwmphase bf@ .decimal'']
    \<and> rintc_acks (handle_rintc w m) = rintc_acks m + 1
    \<and> pmic_info (handle_rintc w m) = pmic_info m
    \<and> (\<exists>b. last (power_reports (handle_rintc w m)) = Brightness b
        # (if power_profile m \<noteq> [] then [Power_profile (power_profile m)] else []) @ generate_info (pmic_info m))"
proof -
  have m1: "input_events m1 = input_events m" "rintc_acks m1 = rintc_acks m" "pmic_info m1 = pmic_info m"
    "power_profile m1 = power_profile m"
    using assms by (auto simp: pmic_read_def scp_execute_def Let_def)
  define m2 where "m2 = (execute_only w ''clear_pmic_irqs''
      (if bit status 4 then pmic_write w Irq_status_5 0x10
         (m1\<lparr>input_events := input_events m1 @ [Press_power, Release_power]\<rparr>) else m1))"
  have h: "handle_rintc w m = update_power_report w (m2\<lparr>rintc_acks := rintc_acks m2 + 1\<rparr>)"
    by (simp add: handle_rintc_def assms m2_def Let_def)
  have m2: "input_events m2 = input_events m @ (if bit status 4 then [Press_power, Release_power] else [])"
    "executed m2 = executed m1 @ (if bit status 4
        then [genode_string 64 (w_hex w 16 @ '' '' @ w_hex w 76 @ '' pmic!'')] else []) @ [''clear_pmic_irqs'']"
    "rintc_acks m2 = rintc_acks m" "pmic_info m2 = pmic_info m" "power_profile m2 = power_profile m"
    by (simp_all add: m2_def m1 pmic_write_def Irq_status_5_def)
  show ?thesis
    using update_power_report_reports [of w "m2\<lparr>rintc_acks := rintc_acks m2 + 1\<rparr>"]
    by (auto simp: h m2)
qed

lemma rintc_reports_old_info_witness:
  "input_events (handle_rintc (mute_world 0x10) init_main) = [Press_power, Release_power]
    \<and> pmic_info (handle_rintc (mute_world 0x10) init_main) = init_info"
proof -
  obtain s m1 where r: "pmic_read (mute_world 0x10) Irq_status_5 init_main = (s, m1)" by fastforce
  then have "bit s 4" by (auto simp: pmic_read_def mute_world_def scp_execute_def Let_def)
  then show ?thesis
    using rintc_reports_old_info [OF r] by (simp add: init_main_def)
qed

end
