(* ===== verification/Gpu_Drm.thy ===== *)
theory Gpu_Drm
  imports Prelude
begin

text \<open>
  \<^verbatim>\<open>src/driver/gpu/lima/lx_emul.c\<close>: the access of the GPU driver to the DRM functions of
  Linux. Linux itself is not part of this repository: it is the parameter \<open>K\<close>, with
  \<open>k_ioctl\<close> for \<^verbatim>\<open>drm_ioctl\<close>, the functions of \<^verbatim>\<open>file_operations\<close>, the layout of the submit
  structure and the values of its constants. A call is a \<open>drm_call\<close> with the fields the
  driver fills in; the fields Linux fills in are the \<open>drm_reply\<close>. The state of Linux is of
  type \<open>'k\<close>; an open DRM file is a number. Memory is byte addressed, because the submit
  structure lies in memory shared with the client and its pointers are the client's.
\<close>

unbundle bit_operations_syntax

section \<open>Memory\<close>

type_synonym memory = "u64 \<Rightarrow> u8"

definition read32 :: "memory \<Rightarrow> u64 \<Rightarrow> u32" where
  "read32 m a = ucast (m a) OR push_bit 8 (ucast (m (a + 1)))
     OR push_bit 16 (ucast (m (a + 2))) OR push_bit 24 (ucast (m (a + 3)))"

definition write32 :: "memory \<Rightarrow> u64 \<Rightarrow> u32 \<Rightarrow> memory" where
  "write32 m a v = m(a := ucast v, a + 1 := ucast (drop_bit 8 v),
     a + 2 := ucast (drop_bit 16 v), a + 3 := ucast (drop_bit 24 v))"

definition read64 :: "memory \<Rightarrow> u64 \<Rightarrow> u64" where
  "read64 m a = ucast (read32 m a) OR push_bit 32 (ucast (read32 m (a + 4)))"

definition write64 :: "memory \<Rightarrow> u64 \<Rightarrow> u64 \<Rightarrow> memory" where
  "write64 m a v = write32 (write32 m a (ucast v)) (a + 4) (ucast (drop_bit 32 v))"

text \<open>Address \<open>x\<close> is one of the \<open>n\<close> bytes from \<open>a\<close>; addresses wrap around.\<close>

definition in_span :: "u64 \<Rightarrow> nat \<Rightarrow> u64 \<Rightarrow> bool" where
  "in_span a n x \<longleftrightarrow> unat (x - a) < n"

lemma byte_offsets: "in_span a 4 x \<longleftrightarrow> x = a \<or> x = a + 1 \<or> x = a + 2 \<or> x = a + 3"
proof -
  have "unat (x - a) < 4 \<longleftrightarrow> x - a = 0 \<or> x - a = 1 \<or> x - a = 2 \<or> x - a = 3"
    by (auto simp: word_unat_eq_iff)
  then show ?thesis
    by (auto simp: in_span_def diff_eq_eq add.commute)
qed

lemma bit_u8: "bit (x :: u8) n \<Longrightarrow> n < 8"
  using bit_imp_le_length [of x n] by simp

lemma read32_write32_same [simp]: "read32 (write32 m a v) a = v"
proof (rule bit_eqI)
  fix n
  assume "possible_bit TYPE(u32) n"
  then have "n < 32" by simp
  then consider "n < 8" | "8 \<le> n" "n < 16" | "16 \<le> n" "n < 24" | "24 \<le> n" "n < 32" by linarith
  then show "bit (read32 (write32 m a v) a) n \<longleftrightarrow> bit v n"
    by cases (auto simp: read32_def write32_def bit_simps dest: bit_u8)
qed

lemma write32_outside: "\<not> in_span a 4 x \<Longrightarrow> write32 m a v x = m x"
  by (simp add: write32_def byte_offsets)

lemma read32_cong:
  assumes "\<And>x. in_span a 4 x \<Longrightarrow> m x = m' x"
  shows "read32 m a = read32 m' a"
  using assms by (simp add: read32_def byte_offsets)

lemma read32_write32_apart:
  assumes "\<And>x. in_span a 4 x \<Longrightarrow> \<not> in_span b 4 x"
  shows "read32 (write32 m b v) a = read32 m a"
  by (rule read32_cong) (simp add: assms write32_outside)

section \<open>Linux\<close>

datatype drm_call =
    Syncobj_create u32
  | Syncobj_destroy u32
  | Syncobj_wait u32
  | Lima_ctx_create
  | Lima_ctx_free u32
  | Lima_get_param u32
  | Lima_gem_submit u64 memory
  | Lima_gem_wait u32 u32
  | Lima_gem_create u32 u32 u32
  | Lima_gem_info u32
  | Gem_close u32
  | Gem_flink u32
  | Gem_open u32

record drm_reply =
  r_handle :: u32
  r_id :: u32
  r_value :: u64
  r_va :: u32
  r_offset :: u64
  r_name :: u32
  r_size :: u64

text \<open>
  The layout of \<^verbatim>\<open>drm_lima_gem_submit\<close> and \<^verbatim>\<open>drm_lima_gem_submit_bo\<close>, the constants, and
  the functions of Linux. \<open>k_blocks\<close> says that a call does not return for now: the calling
  task is blocked and the driver goes on with other tasks. \<open>k_lookup\<close> is
  \<^verbatim>\<open>genode_lookup_cap\<close>: the dataspace behind an offset of a DRM file. \<open>k_attach\<close> is the
  address at which a dataspace is attached, \<open>k_ds_size\<close> its size.
\<close>

record 'k linux =
  l_ctx :: u64
  l_pipe :: u64
  l_nr_bos :: u64
  l_bos :: u64
  l_frame :: u64
  l_out_sync :: u64
  l_bo_size :: u64
  l_bo_handle :: u64
  l_bo_flags :: u64
  SUBMIT_BO_READ :: u32
  CREATE_SIGNALED :: u32
  FLAG_FORCE_VA :: u32
  ENOENT :: int
  ETIME :: int
  k_open :: "'k \<Rightarrow> nat option \<times> 'k"
  k_release :: "'k \<Rightarrow> nat \<Rightarrow> 'k"
  k_ioctl :: "'k \<Rightarrow> nat \<Rightarrow> drm_call \<Rightarrow> int \<times> drm_reply \<times> 'k"
  k_blocks :: "'k \<Rightarrow> nat \<Rightarrow> drm_call \<Rightarrow> bool"
  k_lookup :: "'k \<Rightarrow> nat \<Rightarrow> u64 \<Rightarrow> u32 \<Rightarrow> nat option"
  k_attach :: "nat \<Rightarrow> u64"
  k_ds_size :: "nat \<Rightarrow> nat"

section \<open>The submit structure\<close>

definition lx_drm_gem_submit_ctx_id :: "'k linux \<Rightarrow> memory \<Rightarrow> u64 \<Rightarrow> u32 \<Rightarrow> memory" where
  "lx_drm_gem_submit_ctx_id K m p i = write32 m (p + l_ctx K) i"

definition lx_drm_gem_submit_set_out_sync :: "'k linux \<Rightarrow> memory \<Rightarrow> u64 \<Rightarrow> u32 \<Rightarrow> memory" where
  "lx_drm_gem_submit_set_out_sync K m p i = write32 m (p + l_out_sync K) i"

definition lx_drm_gem_submit_bo_count :: "'k linux \<Rightarrow> memory \<Rightarrow> u64 \<Rightarrow> u32" where
  "lx_drm_gem_submit_bo_count K m p = read32 m (p + l_nr_bos K)"

definition submit_bo :: "'k linux \<Rightarrow> memory \<Rightarrow> u64 \<Rightarrow> nat \<Rightarrow> u64" where
  "submit_bo K m p i = read64 m (p + l_bos K) + p + of_nat i * l_bo_size K"

definition lx_drm_gem_submit_bo_handle :: "'k linux \<Rightarrow> memory \<Rightarrow> u64 \<Rightarrow> nat \<Rightarrow> u64" where
  "lx_drm_gem_submit_bo_handle K m p i = submit_bo K m p i + l_bo_handle K"

definition lx_drm_gem_submit_bo_read :: "'k linux \<Rightarrow> memory \<Rightarrow> u64 \<Rightarrow> nat \<Rightarrow> bool" where
  "lx_drm_gem_submit_bo_read K m p i \<longleftrightarrow>
     read32 m (submit_bo K m p i + l_bo_flags K) AND SUBMIT_BO_READ K \<noteq> 0"

definition lx_drm_gem_submit_out_sync :: "'k linux \<Rightarrow> memory \<Rightarrow> u64 \<Rightarrow> u32" where
  "lx_drm_gem_submit_out_sync K m p = read32 m (p + l_out_sync K)"

definition lx_drm_gem_submit_pipe :: "'k linux \<Rightarrow> memory \<Rightarrow> u64 \<Rightarrow> u32" where
  "lx_drm_gem_submit_pipe K m p = read32 m (p + l_pipe K)"

definition lx_drm_gem_submit_in :: "'k linux \<Rightarrow> memory \<Rightarrow> u64 \<Rightarrow> memory" where
  "lx_drm_gem_submit_in K m p =
     (let m = write64 m (p + l_bos K) (read64 m (p + l_bos K) + p) in
      write64 m (p + l_frame K) (read64 m (p + l_frame K) + p))"

section \<open>Calls\<close>

definition lx_drm_open :: "'k linux \<Rightarrow> 'k \<Rightarrow> nat option \<times> 'k" where
  "lx_drm_open K k = k_open K k"

definition lx_drm_close :: "'k linux \<Rightarrow> 'k \<Rightarrow> nat option \<Rightarrow> 'k" where
  "lx_drm_close K k p = (case p of None \<Rightarrow> k | Some f \<Rightarrow> k_release K k f)"

text \<open>
  \<^verbatim>\<open>lx_drm_ioctl\<close> for the calls of the driver: none but the submit call has data to convert
  (\<open>lx_drm_ioctl_lima_gem_submit\<close>). The reply is meaningful if the error is zero.
\<close>

definition lx_drm_ioctl :: "'k linux \<Rightarrow> 'k \<Rightarrow> nat option \<Rightarrow> drm_call \<Rightarrow> int \<times> drm_reply \<times> 'k" where
  "lx_drm_ioctl K k p c = (case p of
     None \<Rightarrow> (-1, \<lparr>r_handle = 0, r_id = 0, r_value = 0, r_va = 0, r_offset = 0, r_name = 0,
                 r_size = 0\<rparr>, k)
   | Some f \<Rightarrow> k_ioctl K k f c)"

definition minus_one :: "int \<times> drm_reply \<times> 'k \<Rightarrow> int \<times> drm_reply \<times> 'k" where
  "minus_one a = (case a of (err, req, k) \<Rightarrow> (if err \<noteq> 0 then -1 else 0, req, k))"

definition lx_drm_ioctl_syncobj_create :: "'k linux \<Rightarrow> 'k \<Rightarrow> nat \<Rightarrow> int \<times> u32 \<times> 'k" where
  "lx_drm_ioctl_syncobj_create K k f =
     (case minus_one (k_ioctl K k f (Syncobj_create (CREATE_SIGNALED K))) of
       (err, req, k) \<Rightarrow> (err, r_handle req, k))"

definition lx_drm_ioctl_syncobj_destroy :: "'k linux \<Rightarrow> 'k \<Rightarrow> nat \<Rightarrow> u32 \<Rightarrow> int \<times> 'k" where
  "lx_drm_ioctl_syncobj_destroy K k f h =
     (case k_ioctl K k f (Syncobj_destroy h) of (err, req, k) \<Rightarrow> (err, k))"

definition lx_drm_ioctl_syncobj_wait :: "'k linux \<Rightarrow> 'k \<Rightarrow> nat \<Rightarrow> u32 \<Rightarrow> int \<times> 'k" where
  "lx_drm_ioctl_syncobj_wait K k f h =
     (case k_ioctl K k f (Syncobj_wait h) of (err, req, k) \<Rightarrow>
       (let err = (if err = - ENOENT K then 0 else err) in
        (if err = - ETIME K then 1 else err, k)))"

definition lx_drm_ioctl_lima_ctx_create :: "'k linux \<Rightarrow> 'k \<Rightarrow> nat option \<Rightarrow> int \<times> u32 \<times> 'k" where
  "lx_drm_ioctl_lima_ctx_create K k p =
     (case minus_one (lx_drm_ioctl K k p Lima_ctx_create) of (err, req, k) \<Rightarrow> (err, r_id req, k))"

definition lx_drm_ioctl_lima_ctx_free :: "'k linux \<Rightarrow> 'k \<Rightarrow> nat option \<Rightarrow> u32 \<Rightarrow> int \<times> 'k" where
  "lx_drm_ioctl_lima_ctx_free K k p i =
     (case lx_drm_ioctl K k p (Lima_ctx_free i) of (err, req, k) \<Rightarrow> (err, k))"

definition lx_drm_ioctl_lima_gem_param :: "'k linux \<Rightarrow> 'k \<Rightarrow> nat option \<Rightarrow> u32 \<Rightarrow> int \<times> u64 \<times> 'k" where
  "lx_drm_ioctl_lima_gem_param K k p i =
     (case minus_one (lx_drm_ioctl K k p (Lima_get_param i)) of (err, req, k) \<Rightarrow>
       (err, r_value req, k))"

definition lx_drm_ioctl_lima_gem_submit ::
    "'k linux \<Rightarrow> 'k \<Rightarrow> memory \<Rightarrow> nat option \<Rightarrow> u64 \<Rightarrow> int \<times> 'k \<times> memory" where
  "lx_drm_ioctl_lima_gem_submit K k m p arg = (case p of
     None \<Rightarrow> (-1, k, m)
   | Some f \<Rightarrow> (let m' = lx_drm_gem_submit_in K m arg in
      (case k_ioctl K k f (Lima_gem_submit arg m') of (err, req, k) \<Rightarrow> (err, k, m'))))"

definition lx_drm_ioctl_lima_gem_wait :: "'k linux \<Rightarrow> 'k \<Rightarrow> nat option \<Rightarrow> u32 \<Rightarrow> u32 \<Rightarrow> int \<times> 'k" where
  "lx_drm_ioctl_lima_gem_wait K k p h op =
     (case lx_drm_ioctl K k p (Lima_gem_wait h op) of (err, req, k) \<Rightarrow> (err, k))"

definition lx_drm_ioctl_lima_gem_create ::
    "'k linux \<Rightarrow> 'k \<Rightarrow> nat option \<Rightarrow> u32 \<Rightarrow> u32 \<Rightarrow> int \<times> u32 \<times> 'k" where
  "lx_drm_ioctl_lima_gem_create K k p va sz =
     (case minus_one (lx_drm_ioctl K k p (Lima_gem_create sz (FLAG_FORCE_VA K) va)) of
       (err, req, k) \<Rightarrow> (err, r_handle req, k))"

definition lx_drm_ioctl_lima_gem_info ::
    "'k linux \<Rightarrow> 'k \<Rightarrow> nat option \<Rightarrow> u32 \<Rightarrow> int \<times> (u32 \<times> u64) \<times> 'k" where
  "lx_drm_ioctl_lima_gem_info K k p h =
     (case minus_one (lx_drm_ioctl K k p (Lima_gem_info h)) of (err, req, k) \<Rightarrow>
       (err, (r_va req, r_offset req), k))"

definition lx_drm_gem_close :: "'k linux \<Rightarrow> 'k \<Rightarrow> nat option \<Rightarrow> u32 \<Rightarrow> int \<times> 'k" where
  "lx_drm_gem_close K k p h =
     (case minus_one (lx_drm_ioctl K k p (Gem_close h)) of (err, req, k) \<Rightarrow> (err, k))"

definition lx_drm_gem_flink :: "'k linux \<Rightarrow> 'k \<Rightarrow> nat option \<Rightarrow> u32 \<Rightarrow> int \<times> u32 \<times> 'k" where
  "lx_drm_gem_flink K k p h =
     (case minus_one (lx_drm_ioctl K k p (Gem_flink h)) of (err, req, k) \<Rightarrow> (err, r_name req, k))"

definition lx_drm_gem_open ::
    "'k linux \<Rightarrow> 'k \<Rightarrow> nat option \<Rightarrow> u32 \<Rightarrow> int \<times> (u32 \<times> u64) \<times> 'k" where
  "lx_drm_gem_open K k p name =
     (case minus_one (lx_drm_ioctl K k p (Gem_open name)) of (err, req, k) \<Rightarrow>
       (err, (r_handle req, r_size req), k))"

end
