(* ===== verification/Gpu_Worker.thy ===== *)
theory Gpu_Worker
  imports Gpu_Drm
begin

text \<open>
  \<^verbatim>\<open>src/driver/gpu/lima/main.cc\<close>, first part: requests, the book keeping of buffers, and the
  worker task of a session (\<^verbatim>\<open>gpu_task_func\<close>), which turns requests into DRM calls.

  A capability of the type \<^verbatim>\<open>Vram\<close> is the number of the object in the pool of the entry
  point; applying to a capability without an object hands the function a null pointer. An
  \<^verbatim>\<open>Id_space\<close> of buffers is a map, the one of \<^verbatim>\<open>Vram_local\<close> a list of pairs, as it is iterated
  over. A \<^verbatim>\<open>Buffer_object\<close> is constant, so a reference to it is its value. \<open>Request()\<close>, the
  invalid request, is \<open>None\<close>. Cache maintenance is recorded (\<open>flushed\<close>).
\<close>

section \<open>Requests\<close>

datatype op_type = INVALID | ALLOC | FREE | EXEC | WAIT | CTX_CREATE | CTX_FREE | SYNCOBJ_CREATE
  | SYNCOBJ_DESTROY | SYNCOBJ_WAIT | CLOSE | OPEN | FLINK

record operation =
  op_kind :: op_type
  op_size :: u32
  op_va :: u32
  op_id :: nat
  op_seqno :: u64
  op_handle :: u32
  op_name :: u32
  op_ctx_id :: u32
  op_op :: u32
  op_syncobj_id :: "u32 list"

definition MAX_PIPE :: nat where "MAX_PIPE = 2"

definition op_valid :: "operation \<Rightarrow> bool" where
  "op_valid x \<longleftrightarrow> op_kind x \<noteq> INVALID"

record request =
  rq_session :: nat
  rq_operation :: operation
  rq_success :: bool
  rq_tag :: nat

definition rq_valid :: "request \<Rightarrow> bool" where
  "rq_valid r \<longleftrightarrow> op_valid (rq_operation r)"

definition create_request :: "nat \<Rightarrow> op_type \<Rightarrow> nat \<Rightarrow> request \<times> nat" where
  "create_request self kind tag_counter =
     (\<lparr>rq_session = self,
       rq_operation = \<lparr>op_kind = kind, op_size = 0, op_va = 0, op_id = 0, op_seqno = 0,
         op_handle = 0, op_name = 0, op_ctx_id = 0, op_op = 0, op_syncobj_id = [0, 0]\<rparr>,
       rq_success = False, rq_tag = tag_counter + 1\<rparr>, tag_counter + 1)"

datatype local_type = L_INVALID | L_OPEN | L_CLOSE

section \<open>Buffers\<close>

record buffer_object =
  bo_handle :: u32
  bo_cap :: nat
  bo_addr :: u64
  bo_va :: u32

type_synonym buffers = "nat \<Rightarrow> buffer_object option"

definition buffer_local_addr :: "buffers \<Rightarrow> nat \<Rightarrow> u64 option" where
  "buffer_local_addr bs i = map_option bo_addr (bs i)"

definition lookup_and_flush :: "buffers \<Rightarrow> nat \<Rightarrow> bool \<Rightarrow> u32 option \<times> nat list" where
  "lookup_and_flush bs i flush = (case bs i of
     None \<Rightarrow> (None, [])
   | Some b \<Rightarrow> (Some (bo_handle b), if flush then [bo_cap b] else []))"

definition buffer_remove :: "buffers \<Rightarrow> nat \<Rightarrow> buffers" where
  "buffer_remove bs i = bs(i := None)"

definition lookup_buffer :: "buffers \<Rightarrow> nat \<Rightarrow> nat option" where
  "lookup_buffer bs i = map_option bo_cap (bs i)"

definition managed :: "buffers \<Rightarrow> nat \<Rightarrow> bool" where
  "managed bs i \<longleftrightarrow> bs i \<noteq> None"

record gpu_vram =
  gv_bo :: buffer_object
  gv_owner :: nat
  gv_import_name :: "u32 option"

record vram_local =
  vl_cap :: nat
  vl_export_name :: "u32 option"
  vl_import_handle :: "u32 option"

type_synonym vram_space = "(nat \<times> vram_local) list"

definition vl_contains :: "vram_space \<Rightarrow> nat \<Rightarrow> bool" where
  "vl_contains vs i \<longleftrightarrow> map_of vs i \<noteq> None"

definition vl_remove :: "vram_space \<Rightarrow> nat \<Rightarrow> vram_space" where
  "vl_remove vs i = filter (\<lambda>(j, v). j \<noteq> i) vs"

definition vl_modify :: "vram_space \<Rightarrow> nat \<Rightarrow> (vram_local \<Rightarrow> vram_local) \<Rightarrow> vram_space" where
  "vl_modify vs i f = map (\<lambda>(j, v). (j, if j = i then f v else v)) vs"

definition lookup_vram_cap :: "vram_space \<Rightarrow> nat \<Rightarrow> nat option" where
  "lookup_vram_cap vs i = map_option vl_cap (map_of vs i)"

definition lookup_export :: "vram_space \<Rightarrow> nat \<Rightarrow> u32 option" where
  "lookup_export vs i = Option.bind (map_of vs i) vl_export_name"

definition lookup_import :: "vram_space \<Rightarrow> nat \<Rightarrow> u32 option" where
  "lookup_import vs i = Option.bind (map_of vs i) vl_import_handle"

section \<open>State\<close>

text \<open>What a session has, its worker included, and what all sessions share.\<close>

record session =
  worker_buffers :: buffers
  vram_local_space :: vram_space
  completion_sigh :: bool
  completion_signals :: nat
  notifications :: nat
  pending_request :: "request option"
  completed_request :: "request option"
  drm :: "nat option"
  info :: "u64 list"
  ctx_id :: u32
  sync_id :: "u32 list"
  pending_syncobj_wait :: bool
  pending_wait :: bool

record 'k gpu =
  linux_state :: 'k
  vram_pool :: "nat \<Rightarrow> gpu_vram option"
  next_cap :: nat
  tag_counter :: nat
  mem :: memory
  flushed :: "nat list"

type_synonym 'k gpu_state = "session \<times> 'k gpu"

section \<open>Dispatching a request\<close>

text \<open>
  The outcome of handling a request: the request with its result and whether to notify the
  client, a blocked task, or the end of the component by an exception or a null pointer.
\<close>

datatype outcome = Finished request bool | Blocked | Crashed

definition succeed :: "request \<Rightarrow> operation \<Rightarrow> request" where
  "succeed r x = r\<lparr>rq_operation := x, rq_success := True\<rparr>"

definition do_ctx_create :: "'k linux \<Rightarrow> request \<Rightarrow> 'k gpu_state \<Rightarrow> outcome \<times> 'k gpu_state" where
  "do_ctx_create K r = (\<lambda>(s, g).
     case lx_drm_ioctl_lima_ctx_create K (linux_state g) (drm s) of (err, i, k) \<Rightarrow>
       (Finished (if err \<noteq> 0 then r else succeed r ((rq_operation r)\<lparr>op_ctx_id := i\<rparr>)) False,
        (s, g\<lparr>linux_state := k\<rparr>)))"

definition do_ctx_free :: "'k linux \<Rightarrow> request \<Rightarrow> 'k gpu_state \<Rightarrow> outcome \<times> 'k gpu_state" where
  "do_ctx_free K r = (\<lambda>(s, g).
     case lx_drm_ioctl_lima_ctx_free K (linux_state g) (drm s) (op_ctx_id (rq_operation r)) of
       (err, k) \<Rightarrow> (Finished (if err \<noteq> 0 then r else succeed r (rq_operation r)) False,
                    (s, g\<lparr>linux_state := k\<rparr>)))"

text \<open>The calls for sync objects take the DRM file without a check.\<close>

definition do_syncobj_create :: "'k linux \<Rightarrow> request \<Rightarrow> 'k gpu_state \<Rightarrow> outcome \<times> 'k gpu_state" where
  "do_syncobj_create K r = (\<lambda>(s, g). case drm s of
     None \<Rightarrow> (Crashed, (s, g))
   | Some f \<Rightarrow>
      (case lx_drm_ioctl_syncobj_create K (linux_state g) f of (err, h, k) \<Rightarrow>
        (Finished (if err \<noteq> 0 then r else succeed r ((rq_operation r)
             \<lparr>op_syncobj_id := (op_syncobj_id (rq_operation r))[0 := h]\<rparr>)) False,
         (s, g\<lparr>linux_state := k\<rparr>))))"

definition do_syncobj_destroy :: "'k linux \<Rightarrow> request \<Rightarrow> 'k gpu_state \<Rightarrow> outcome \<times> 'k gpu_state" where
  "do_syncobj_destroy K r = (\<lambda>(s, g). case drm s of
     None \<Rightarrow> (Crashed, (s, g))
   | Some f \<Rightarrow>
      (case lx_drm_ioctl_syncobj_destroy K (linux_state g) f
              (op_syncobj_id (rq_operation r) ! 0) of
        (err, k) \<Rightarrow> (Finished (if err \<noteq> 0 then r else succeed r (rq_operation r)) False,
                     (s, g\<lparr>linux_state := k\<rparr>))))"

definition do_syncobj_wait :: "'k linux \<Rightarrow> request \<Rightarrow> 'k gpu_state \<Rightarrow> outcome \<times> 'k gpu_state" where
  "do_syncobj_wait K r = (\<lambda>(s, g). case drm s of
     None \<Rightarrow> (Crashed, (s, g))
   | Some f \<Rightarrow>
      (let h = op_syncobj_id (rq_operation r) ! 0 in
       if k_blocks K (linux_state g) f (Syncobj_wait h) then (Blocked, (s, g))
       else (case lx_drm_ioctl_syncobj_wait K (linux_state g) f h of (err, k) \<Rightarrow>
         (Finished (if err \<noteq> 0 then r else succeed r (rq_operation r)) True,
          (s, g\<lparr>linux_state := k\<rparr>)))))"

definition do_alloc :: "'k linux \<Rightarrow> request \<Rightarrow> 'k gpu_state \<Rightarrow> outcome \<times> 'k gpu_state" where
  "do_alloc K r = (\<lambda>(s, g).
     let x = rq_operation r in
     case lx_drm_ioctl_lima_gem_create K (linux_state g) (drm s) (op_va x) (op_size x) of
       (err, handle, k) \<Rightarrow>
     if err \<noteq> 0 then (Finished r False, (s, g\<lparr>linux_state := k\<rparr>))
     else case lx_drm_ioctl_lima_gem_info K k (drm s) handle of
       (err, (va_allocated, offset), k) \<Rightarrow>
     if err \<noteq> 0 \<or> op_va x \<noteq> va_allocated
     then (Finished r False, (s, g\<lparr>linux_state := snd (lx_drm_gem_close K k (drm s) handle)\<rparr>))
     else case Option.bind (drm s) (\<lambda>f. k_lookup K k f offset (op_size x)) of
       None \<Rightarrow> (Crashed, (s, g\<lparr>linux_state := k\<rparr>))
     | Some cap \<Rightarrow>
        (if worker_buffers s (op_id x) \<noteq> None then (Crashed, (s, g\<lparr>linux_state := k\<rparr>))
         else (Finished (succeed r x) False,
           (s\<lparr>worker_buffers := (worker_buffers s)(op_id x \<mapsto>
                \<lparr>bo_handle = handle, bo_cap = cap, bo_addr = k_attach K cap, bo_va = op_va x\<rparr>)\<rparr>,
            g\<lparr>linux_state := k\<rparr>))))"

definition do_close :: "'k linux \<Rightarrow> request \<Rightarrow> 'k gpu_state \<Rightarrow> outcome \<times> 'k gpu_state" where
  "do_close K r = (\<lambda>(s, g).
     case lx_drm_gem_close K (linux_state g) (drm s) (op_handle (rq_operation r)) of
       (err, k) \<Rightarrow> (Finished (if err \<noteq> 0 then r else succeed r (rq_operation r)) False,
                    (s, g\<lparr>linux_state := k\<rparr>)))"

definition do_open :: "'k linux \<Rightarrow> request \<Rightarrow> 'k gpu_state \<Rightarrow> outcome \<times> 'k gpu_state" where
  "do_open K r = (\<lambda>(s, g).
     case lx_drm_gem_open K (linux_state g) (drm s) (op_name (rq_operation r)) of
       (err, (handle, sz), k) \<Rightarrow>
        (Finished (if err \<noteq> 0 then r
                   else succeed r ((rq_operation r)\<lparr>op_handle := handle, op_size := ucast sz\<rparr>)) False,
         (s, g\<lparr>linux_state := k\<rparr>)))"

definition do_flink :: "'k linux \<Rightarrow> request \<Rightarrow> 'k gpu_state \<Rightarrow> outcome \<times> 'k gpu_state" where
  "do_flink K r = (\<lambda>(s, g). case worker_buffers s (op_id (rq_operation r)) of
     None \<Rightarrow> (Finished r False, (s, g))
   | Some b \<Rightarrow>
      (case lx_drm_gem_flink K (linux_state g) (drm s) (bo_handle b) of (err, name, k) \<Rightarrow>
        (Finished (if err \<noteq> 0 then r else succeed r ((rq_operation r)\<lparr>op_name := name\<rparr>)) False,
         (s, g\<lparr>linux_state := k\<rparr>))))"

text \<open>The result of closing the handle is ignored.\<close>

definition do_free :: "'k linux \<Rightarrow> request \<Rightarrow> 'k gpu_state \<Rightarrow> outcome \<times> 'k gpu_state" where
  "do_free K r = (\<lambda>(s, g). case worker_buffers s (op_id (rq_operation r)) of
     None \<Rightarrow> (Finished r False, (s, g))
   | Some b \<Rightarrow>
      (Finished (succeed r (rq_operation r)) False,
       (s\<lparr>worker_buffers := buffer_remove (worker_buffers s) (op_id (rq_operation r))\<rparr>,
        g\<lparr>linux_state := snd (lx_drm_gem_close K (linux_state g) (drm s) (bo_handle b))\<rparr>)))"

definition do_wait :: "'k linux \<Rightarrow> request \<Rightarrow> 'k gpu_state \<Rightarrow> outcome \<times> 'k gpu_state" where
  "do_wait K r = (\<lambda>(s, g). case worker_buffers s (op_id (rq_operation r)) of
     None \<Rightarrow> (Finished r False, (s, g))
   | Some b \<Rightarrow>
      (if (case drm s of None \<Rightarrow> False
           | Some f \<Rightarrow> k_blocks K (linux_state g) f
                         (Lima_gem_wait (bo_handle b) (op_op (rq_operation r))))
       then (Blocked, (s, g))
       else (case lx_drm_ioctl_lima_gem_wait K (linux_state g) (drm s) (bo_handle b)
                    (op_op (rq_operation r)) of
         (err, k) \<Rightarrow> (Finished (if err \<noteq> 0 then r else succeed r (rq_operation r)) True,
                      (s, g\<lparr>linux_state := k\<rparr>)))))"

section \<open>Executing a submit buffer\<close>

text \<open>
  \<^verbatim>\<open>Vram_local_space::with_bo\<close>: the buffer behind an identifier, \<open>Inl ()\<close> for the null pointer
  of a capability whose object is gone.
\<close>

definition vl_with_bo :: "vram_space \<Rightarrow> (nat \<Rightarrow> gpu_vram option) \<Rightarrow> nat \<Rightarrow> unit + buffer_object option" where
  "vl_with_bo vs pool i = (case map_of vs i of
     None \<Rightarrow> Inr None
   | Some vl \<Rightarrow> (case pool (vl_cap vl) of None \<Rightarrow> Inl () | Some v \<Rightarrow> Inr (Some (gv_bo v))))"

text \<open>
  The loop over the buffers of a submit structure: flush what the GPU reads and replace the
  identifiers by handles of the kernel. \<open>Some err\<close> is the error, \<open>None\<close> a null pointer.
\<close>

function exec_loop :: "'k linux \<Rightarrow> vram_space \<Rightarrow> (nat \<Rightarrow> gpu_vram option) \<Rightarrow> u64 \<Rightarrow> nat \<Rightarrow> nat \<Rightarrow>
    memory \<Rightarrow> nat list \<Rightarrow> int option \<times> memory \<times> nat list" where
  "exec_loop K vs pool p n i m fl =
     (if n \<le> i then (Some 0, m, fl)
      else
        let a = lx_drm_gem_submit_bo_handle K m p i; bo_read = lx_drm_gem_submit_bo_read K m p i in
        if a = 0 then (Some (-1), m, fl)
        else
          let bid = unat (read32 m a) in
          case vl_with_bo vs pool bid of
            Inl u \<Rightarrow> (None, m, fl)
          | Inr ob \<Rightarrow>
             let fl = (case ob of None \<Rightarrow> fl | Some bo \<Rightarrow> if bo_read then fl @ [bo_cap bo] else fl) in
             case lookup_import vs bid of
               None \<Rightarrow> (Some (-1), m, fl)
             | Some h \<Rightarrow> exec_loop K vs pool p n (Suc i) (write32 m a h) fl)"
  by pat_completeness auto
termination by (relation "measure (\<lambda>(K, vs, pool, p, n, i, m, fl). n - i)") auto

declare exec_loop.simps [simp del]

definition do_exec :: "'k linux \<Rightarrow> request \<Rightarrow> 'k gpu_state \<Rightarrow> outcome \<times> 'k gpu_state" where
  "do_exec K r = (\<lambda>(s, g).
     let x = rq_operation r; vs = vram_local_space s; pool = vram_pool g in
     case vl_with_bo vs pool (op_id x) of
       Inl u \<Rightarrow> (Crashed, (s, g))
     | Inr None \<Rightarrow> (Finished r False, (s, g))
     | Inr (Some bo) \<Rightarrow>
        (let p = bo_addr bo in
         if p = 0 then (Finished r False, (s, g))
         else
         case exec_loop K vs pool p (unat (lx_drm_gem_submit_bo_count K (mem g) p)) 0 (mem g)
                (flushed g) of
           (None, m, fl) \<Rightarrow> (Crashed, (s, g\<lparr>mem := m, flushed := fl\<rparr>))
         | (Some err, m, fl) \<Rightarrow>
            let m = lx_drm_gem_submit_ctx_id K m p (op_ctx_id x);
                pipe = unat (lx_drm_gem_submit_pipe K m p) in
            if MAX_PIPE \<le> pipe then (Finished r False, (s, g\<lparr>mem := m, flushed := fl\<rparr>))
            else
              let m = lx_drm_gem_submit_set_out_sync K m p (op_syncobj_id x ! pipe) in
              if err \<noteq> 0 then (Finished r False, (s, g\<lparr>mem := m, flushed := fl\<rparr>))
              else case lx_drm_ioctl_lima_gem_submit K (linux_state g) m (drm s) p of
                (err, k, m) \<Rightarrow>
                  (Finished (if err \<noteq> 0 then r
                     else succeed r (x\<lparr>op_seqno := ucast (lx_drm_gem_submit_out_sync K m p)\<rparr>)) False,
                   (s, g\<lparr>linux_state := k, mem := m, flushed := fl\<rparr>))))"

section \<open>The worker task\<close>

fun dispatch :: "'k linux \<Rightarrow> request \<Rightarrow> 'k gpu_state \<Rightarrow> outcome \<times> 'k gpu_state" where
  "dispatch K r = (let r = r\<lparr>rq_success := False\<rparr> in
     case op_kind (rq_operation r) of
       CTX_CREATE \<Rightarrow> do_ctx_create K r
     | CTX_FREE \<Rightarrow> do_ctx_free K r
     | SYNCOBJ_CREATE \<Rightarrow> do_syncobj_create K r
     | SYNCOBJ_DESTROY \<Rightarrow> do_syncobj_destroy K r
     | SYNCOBJ_WAIT \<Rightarrow> do_syncobj_wait K r
     | ALLOC \<Rightarrow> do_alloc K r
     | CLOSE \<Rightarrow> do_close K r
     | OPEN \<Rightarrow> do_open K r
     | FLINK \<Rightarrow> do_flink K r
     | FREE \<Rightarrow> do_free K r
     | EXEC \<Rightarrow> do_exec K r
     | WAIT \<Rightarrow> do_wait K r
     | INVALID \<Rightarrow> Pair (Finished r False))"

declare dispatch.simps [simp del]

text \<open>
  \<^verbatim>\<open>with_pending_request\<close> and the notification: one pass of the worker over its pending
  request. \<open>False\<close> is the end of the component. A blocked task leaves the request pending
  and the completed request invalid; when it resumes, it finishes the wait (\<open>worker_pass\<close>
  again: a wait does nothing before it blocks, and nothing changes the worker's data while
  its request is pending).
\<close>

definition worker_pass :: "'k linux \<Rightarrow> 'k gpu_state \<Rightarrow> bool \<times> 'k gpu_state" where
  "worker_pass K = (\<lambda>(s, g). case pending_request s of
     None \<Rightarrow> (True, (s, g))
   | Some r \<Rightarrow>
      if \<not> rq_valid r then (True, (s, g))
      else
      (case dispatch K r (s\<lparr>completed_request := None\<rparr>, g) of
        (Crashed, st) \<Rightarrow> (False, st)
      | (Blocked, st) \<Rightarrow> (True, st)
      | (Finished r' notify, (s, g)) \<Rightarrow>
          (True, (s\<lparr>completed_request := Some r', pending_request := None,
                    notifications := notifications s + (if notify then 1 else 0)\<rparr>, g))))"

text \<open>\<^verbatim>\<open>_populate_info\<close>: the parameters up to the first error; \<open>n\<close> is \<^verbatim>\<open>MAX_LIMA_PARAMS\<close>.\<close>

fun populate_loop :: "'k linux \<Rightarrow> 'k \<Rightarrow> nat option \<Rightarrow> nat list \<Rightarrow> u64 list \<Rightarrow> u64 list \<times> 'k" where
  "populate_loop K k f [] xs = (xs, k)"
| "populate_loop K k f (p # ps) xs =
     (case lx_drm_ioctl_lima_gem_param K k f (of_nat p) of (err, v, k) \<Rightarrow>
       if err \<noteq> 0 then (xs, k) else populate_loop K k f ps (xs[p := v]))"

definition MAX_LIMA_PARAMS :: nat where "MAX_LIMA_PARAMS = 4"

definition populate_info :: "'k linux \<Rightarrow> 'k \<Rightarrow> nat option \<Rightarrow> u64 list \<times> 'k" where
  "populate_info K k f = populate_loop K k f [0..<MAX_LIMA_PARAMS] (replicate MAX_LIMA_PARAMS 0)"

text \<open>
  A local request, handled by a task that is not blocked: the result is its success, and
  after closing the task ends.
\<close>

fun do_local :: "'k linux \<Rightarrow> local_type \<Rightarrow> 'k gpu_state \<Rightarrow> bool \<times> 'k gpu_state" where
  "do_local K L_OPEN (s, g) =
     (if drm s \<noteq> None then (False, (s, g))
      else case lx_drm_open K (linux_state g) of
        (None, k) \<Rightarrow> (False, (s, g\<lparr>linux_state := k\<rparr>))
      | (Some f, k) \<Rightarrow>
         (case populate_info K k (Some f) of (xs, k) \<Rightarrow>
           (True, (s\<lparr>drm := Some f, info := xs\<rparr>, g\<lparr>linux_state := k\<rparr>))))"
| "do_local K L_CLOSE (s, g) =
     (if drm s = None then (False, (s, g))
      else (True, (s\<lparr>drm := None\<rparr>, g\<lparr>linux_state := lx_drm_close K (linux_state g) (drm s)\<rparr>)))"
| "do_local K L_INVALID (s, g) = (False, (s, g))"

end
