(* ===== verification/Gpu_Session.thy ===== *)
theory Gpu_Session
  imports Gpu_Worker
begin

text \<open>
  \<^verbatim>\<open>src/driver/gpu/lima/main.cc\<close>, second part: the GPU session. A call of the session
  interface creates requests, schedules them on the worker task and keeps the session's
  tables. \<open>self\<close> is the session (its capability). Heap allocations that the code guards
  with an exception handler succeed or not by a parameter. The result of a call is its
  return value, an exception for the client, or the end of the component.
\<close>

datatype 'a result = Return 'a | Invalid_state | Out_of_ram | Crash

section \<open>Scheduling requests\<close>

datatype scheduled = Succ request | Fail | Down

definition managed_id :: "session \<Rightarrow> request \<Rightarrow> bool" where
  "managed_id s r = (case op_kind (rq_operation r) of
     FREE \<Rightarrow> managed (worker_buffers s) (op_id (rq_operation r))
   | EXEC \<Rightarrow> managed (worker_buffers s) (op_id (rq_operation r))
   | _ \<Rightarrow> True)"

definition request_pending :: "session \<Rightarrow> bool" where
  "request_pending s = (case pending_request s of None \<Rightarrow> False | Some r \<Rightarrow> rq_valid r)"

definition schedule_request :: "'k linux \<Rightarrow> request \<Rightarrow> 'k gpu_state \<Rightarrow> scheduled \<times> 'k gpu_state" where
  "schedule_request K r = (\<lambda>(s, g).
     if request_pending s then (Fail, (s, g))
     else if \<not> managed_id s r then (Fail, (s, g))
     else case worker_pass K (s\<lparr>pending_request := Some r\<rparr>, g) of
       (False, st) \<Rightarrow> (Down, st)
     | (True, (s, g)) \<Rightarrow>
        (case completed_request s of
           None \<Rightarrow> (Fail, (s, g))
         | Some c \<Rightarrow> (if rq_success c then Succ c else Fail, (s, g))))"

text \<open>
  A local request. A blocked task goes on with its wait first and handles the local request
  in its next turn only, which comes too late.
\<close>

definition local_request :: "'k linux \<Rightarrow> local_type \<Rightarrow> 'k gpu_state \<Rightarrow> bool \<times> 'k gpu_state" where
  "local_request K t st =
     (if request_pending (fst st) then (False, snd (worker_pass K st)) else do_local K t st)"

text \<open>Create a request, fill in its operation, and schedule it.\<close>

definition perform :: "'k linux \<Rightarrow> nat \<Rightarrow> op_type \<Rightarrow> (operation \<Rightarrow> operation) \<Rightarrow> 'k gpu_state \<Rightarrow>
    scheduled \<times> 'k gpu_state" where
  "perform K self kind fill_in = (\<lambda>(s, g).
     case create_request self kind (tag_counter g) of (r, tags) \<Rightarrow>
       schedule_request K (r\<lparr>rq_operation := fill_in (rq_operation r)\<rparr>) (s, g\<lparr>tag_counter := tags\<rparr>))"

text \<open>A request whose failure is ignored.\<close>

definition attempt :: "scheduled \<times> 'k gpu_state \<Rightarrow> 'a \<Rightarrow> 'a result \<times> 'k gpu_state" where
  "attempt a x = (case a of (Down, st) \<Rightarrow> (Crash, st) | (_, st) \<Rightarrow> (Return x, st))"

section \<open>Contexts and sync objects\<close>

definition create_ctx :: "'k linux \<Rightarrow> nat \<Rightarrow> 'k gpu_state \<Rightarrow> u32 result \<times> 'k gpu_state" where
  "create_ctx K self st = (case perform K self CTX_CREATE id st of
     (Succ c, st) \<Rightarrow> (Return (op_ctx_id (rq_operation c)), st)
   | (Fail, st) \<Rightarrow> (Return 0, st)
   | (Down, st) \<Rightarrow> (Crash, st))"

definition free_ctx :: "'k linux \<Rightarrow> nat \<Rightarrow> u32 \<Rightarrow> 'k gpu_state \<Rightarrow> unit result \<times> 'k gpu_state" where
  "free_ctx K self i st = attempt (perform K self CTX_FREE (\<lambda>x. x\<lparr>op_ctx_id := i\<rparr>) st) ()"

definition create_syncobj :: "'k linux \<Rightarrow> nat \<Rightarrow> 'k gpu_state \<Rightarrow> u32 result \<times> 'k gpu_state" where
  "create_syncobj K self st = (case perform K self SYNCOBJ_CREATE id st of
     (Succ c, st) \<Rightarrow> (Return (op_syncobj_id (rq_operation c) ! 0), st)
   | (Fail, st) \<Rightarrow> (Return 0, st)
   | (Down, st) \<Rightarrow> (Crash, st))"

definition destroy_syncobj :: "'k linux \<Rightarrow> nat \<Rightarrow> u32 \<Rightarrow> 'k gpu_state \<Rightarrow> unit result \<times> 'k gpu_state" where
  "destroy_syncobj K self i st =
     attempt (perform K self SYNCOBJ_DESTROY
       (\<lambda>x. x\<lparr>op_syncobj_id := (op_syncobj_id x)[0 := i]\<rparr>) st) ()"

section \<open>Construction\<close>

definition blank_session :: session where
  "blank_session = \<lparr>worker_buffers = (\<lambda>_. None), vram_local_space = [], completion_sigh = False,
     completion_signals = 0, notifications = 0, pending_request = None, completed_request = None,
     drm = None, info = replicate MAX_LIMA_PARAMS 0, ctx_id = 0, sync_id = [0, 0],
     pending_syncobj_wait = False, pending_wait = False\<rparr>"

text \<open>\<open>None\<close> is the exception \<^verbatim>\<open>Could_not_open_drm\<close>; \<open>task_ok\<close>: the worker task was created.\<close>

definition construct_session :: "'k linux \<Rightarrow> nat \<Rightarrow> bool \<Rightarrow> 'k gpu \<Rightarrow>
    session option result \<times> 'k gpu" where
  "construct_session K self task_ok g =
     (if \<not> task_ok then (Return None, g)
      else case local_request K L_OPEN (blank_session, g) of
        (False, (s, g)) \<Rightarrow> (Return None, g)
      | (True, st) \<Rightarrow>
         (case create_ctx K self st of
            (Return c, (s, g)) \<Rightarrow>
              (case create_syncobj K self (s\<lparr>ctx_id := c\<rparr>, g) of
                 (Return y, (s, g)) \<Rightarrow>
                   (case create_syncobj K self (s\<lparr>sync_id := [y, 0]\<rparr>, g) of
                      (Return z, (s, g)) \<Rightarrow> (Return (Some (s\<lparr>sync_id := [y, z]\<rparr>)), g)
                    | (_, (s, g)) \<Rightarrow> (Crash, g))
               | (_, (s, g)) \<Rightarrow> (Crash, g))
          | (_, (s, g)) \<Rightarrow> (Crash, g)))"

section \<open>Execution and waiting\<close>

definition execute :: "'k linux \<Rightarrow> nat \<Rightarrow> nat \<Rightarrow> 'k gpu_state \<Rightarrow> u64 result \<times> 'k gpu_state" where
  "execute K self i st =
     (case perform K self EXEC (\<lambda>x. x\<lparr>op_id := i, op_ctx_id := ctx_id (fst st),
              op_syncobj_id := sync_id (fst st)\<rparr>) st of
        (Succ c, st) \<Rightarrow> (Return (op_seqno (rq_operation c)), st)
      | (Fail, st) \<Rightarrow> (Invalid_state, st)
      | (Down, st) \<Rightarrow> (Crash, st))"

definition of_kind :: "op_type \<Rightarrow> request option \<Rightarrow> bool" where
  "of_kind t r = (case r of None \<Rightarrow> False | Some r \<Rightarrow> op_kind (rq_operation r) = t)"

text \<open>
  A wait that was interrupted before: the answer for now, and whether it is still on.
\<close>

definition previous_wait :: "op_type \<Rightarrow> bool \<Rightarrow> session \<Rightarrow> (bool \<times> bool) option" where
  "previous_wait t waiting s =
     (if \<not> waiting then None
      else if of_kind t (pending_request s) then Some (False, True)
      else if of_kind t (completed_request s)
      then Some (rq_success (the (completed_request s)), False)
      else None)"

definition complete :: "'k linux \<Rightarrow> nat \<Rightarrow> u64 \<Rightarrow> 'k gpu_state \<Rightarrow> bool result \<times> 'k gpu_state" where
  "complete K self seqno = (\<lambda>(s, g).
     if seqno \<notin> set (map ucast (sync_id s)) then (Return False, (s, g))
     else case previous_wait SYNCOBJ_WAIT (pending_syncobj_wait s) s of
       Some (answer, waiting) \<Rightarrow> (Return answer, (s\<lparr>pending_syncobj_wait := waiting\<rparr>, g))
     | None \<Rightarrow>
      (case perform K self SYNCOBJ_WAIT
              (\<lambda>x. x\<lparr>op_syncobj_id := (op_syncobj_id x)[0 := ucast seqno]\<rparr>)
              (s\<lparr>pending_syncobj_wait := False\<rparr>, g) of
         (Succ c, st) \<Rightarrow> (Return (rq_success c), st)
       | (Fail, (s, g)) \<Rightarrow> (Return False, (s\<lparr>pending_syncobj_wait := True\<rparr>, g))
       | (Down, st) \<Rightarrow> (Crash, st)))"

definition set_tiling_gpu :: "'k linux \<Rightarrow> nat \<Rightarrow> nat \<Rightarrow> u32 \<Rightarrow> 'k gpu_state \<Rightarrow> bool result \<times> 'k gpu_state" where
  "set_tiling_gpu K self i mode = (\<lambda>(s, g).
     case previous_wait WAIT (pending_wait s) s of
       Some (answer, waiting) \<Rightarrow> (Return answer, (s\<lparr>pending_wait := waiting\<rparr>, g))
     | None \<Rightarrow>
      (case perform K self WAIT (\<lambda>x. x\<lparr>op_id := i, op_op := mode\<rparr>) (s\<lparr>pending_wait := False\<rparr>, g) of
         (Succ c, st) \<Rightarrow> (Return (rq_success c), st)
       | (Fail, (s, g)) \<Rightarrow> (Return False, (s\<lparr>pending_wait := True\<rparr>, g))
       | (Down, st) \<Rightarrow> (Crash, st)))"

definition set_completion_sigh :: "bool \<Rightarrow> 'k gpu_state \<Rightarrow> unit result \<times> 'k gpu_state" where
  "set_completion_sigh valid = (\<lambda>(s, g). (Return (), (s\<lparr>completion_sigh := valid\<rparr>, g)))"

definition submit_completion_signal :: "session \<Rightarrow> session" where
  "submit_completion_signal s =
     (if completion_sigh s then s\<lparr>completion_signals := completion_signals s + 1\<rparr> else s)"

text \<open>The notifier's handler, called for the notifications since its last call.\<close>

definition handle_notifier :: "session \<Rightarrow> session" where
  "handle_notifier s =
     (if notifications s = 0 then s else submit_completion_signal (s\<lparr>notifications := 0\<rparr>))"

section \<open>Buffers\<close>

definition map_cpu :: "nat \<Rightarrow> 'k gpu_state \<Rightarrow> nat option result \<times> 'k gpu_state" where
  "map_cpu i = (\<lambda>(s, g). (Return (lookup_buffer (worker_buffers s) i), (s, g)))"

definition unmap_cpu :: "'k linux \<Rightarrow> nat \<Rightarrow> nat \<Rightarrow> 'k gpu_state \<Rightarrow> unit result \<times> 'k gpu_state" where
  "unmap_cpu K self i = (\<lambda>(s, g). case map_of (vram_local_space s) i of
     None \<Rightarrow> (Return (), (s, g))
   | Some vl \<Rightarrow>
      (let st = (if vl_export_name vl \<noteq> None then (Return (), (s, g))
                 else case vl_import_handle vl of
                   None \<Rightarrow> (Return (), (s, g))
                 | Some h \<Rightarrow> attempt
                     (perform K self CLOSE (\<lambda>x. x\<lparr>op_id := i, op_handle := h\<rparr>) (s, g)) ()) in
       case st of
         (Return u, (s, g)) \<Rightarrow>
           (Return (), (s\<lparr>vram_local_space := vl_remove (vram_local_space s) i\<rparr>, g))
       | (_, st) \<Rightarrow> (Crash, st)))"

definition map_gpu_rollback :: "'k linux \<Rightarrow> nat \<Rightarrow> nat \<Rightarrow> 'k gpu_state \<Rightarrow> bool result \<times> 'k gpu_state" where
  "map_gpu_rollback K self i st = attempt (perform K self FREE (\<lambda>x. x\<lparr>op_id := i\<rparr>) st) False"

text \<open>\<open>vram_ok\<close> and \<open>local_ok\<close>: the allocations of the two book-keeping objects succeed.\<close>

definition map_gpu :: "'k linux \<Rightarrow> nat \<Rightarrow> bool \<Rightarrow> bool \<Rightarrow> nat \<Rightarrow> nat \<Rightarrow> u64 \<Rightarrow> 'k gpu_state \<Rightarrow>
    bool result \<times> 'k gpu_state" where
  "map_gpu K self vram_ok local_ok i sz va = (\<lambda>(s, g).
     if lookup_buffer (worker_buffers s) i \<noteq> None then (Return False, (s, g))
     else if 0xffffffff < sz then (Return False, (s, g))
     else case perform K self ALLOC
              (\<lambda>x. x\<lparr>op_id := i, op_va := ucast va, op_size := of_nat sz\<rparr>) (s, g) of
       (Down, st) \<Rightarrow> (Crash, st)
     | (Fail, st) \<Rightarrow> (Return False, st)
     | (Succ c, (s, g)) \<Rightarrow>
        (case worker_buffers s i of
           None \<Rightarrow> map_gpu_rollback K self i (s, g)
         | Some bo \<Rightarrow>
            if \<not> vram_ok then map_gpu_rollback K self i (s, g)
            else
              let cap = next_cap g;
                  g' = g\<lparr>vram_pool := (vram_pool g)(cap \<mapsto>
                          \<lparr>gv_bo = bo, gv_owner = self, gv_import_name = None\<rparr>),
                         next_cap := cap + 1\<rparr> in
              if \<not> local_ok \<or> vl_contains (vram_local_space s) i
              then map_gpu_rollback K self i (s, g'\<lparr>vram_pool := (vram_pool g')(cap := None)\<rparr>)
              else (Return True,
                    (s\<lparr>vram_local_space := vram_local_space s @
                        [(i, \<lparr>vl_cap = cap, vl_export_name = None, vl_import_handle = None\<rparr>)]\<rparr>,
                     g'))))"

definition unmap_gpu :: "'k linux \<Rightarrow> nat \<Rightarrow> nat \<Rightarrow> 'k gpu_state \<Rightarrow> bool result \<times> 'k gpu_state" where
  "unmap_gpu K self i = (\<lambda>(s, g). case map_of (vram_local_space s) i of
     None \<Rightarrow> (Return False, (s, g))
   | Some vl \<Rightarrow>
     (case vram_pool g (vl_cap vl) of
        None \<Rightarrow> (Crash, (s, g))
      | Some v \<Rightarrow>
         if gv_owner v \<noteq> self then (Return False, (s, g))
         else attempt (perform K self FREE
                (\<lambda>x. x\<lparr>op_id := i, op_handle := (case vl_export_name vl of
                         None \<Rightarrow> op_handle x | Some n \<Rightarrow> n)\<rparr>)
                (s\<lparr>vram_local_space := vl_remove (vram_local_space s) i\<rparr>,
                 g\<lparr>vram_pool := (vram_pool g)(vl_cap vl := None)\<rparr>)) True))"

section \<open>Sharing buffers\<close>

definition export_name :: "'k linux \<Rightarrow> nat \<Rightarrow> nat \<Rightarrow> 'k gpu_state \<Rightarrow> u32 option result \<times> 'k gpu_state" where
  "export_name K self i = (\<lambda>(s, g). case lookup_export (vram_local_space s) i of
     Some n \<Rightarrow> (Return (Some n), (s, g))
   | None \<Rightarrow>
      (case perform K self FLINK (\<lambda>x. x\<lparr>op_id := i\<rparr>) (s, g) of
         (Succ c, (s, g)) \<Rightarrow>
           (let n = op_name (rq_operation c) in
            (Return (Some n), (s\<lparr>vram_local_space :=
               vl_modify (vram_local_space s) i (\<lambda>v. v\<lparr>vl_export_name := Some n\<rparr>)\<rparr>, g)))
       | (Fail, st) \<Rightarrow> (Return None, st)
       | (Down, st) \<Rightarrow> (Crash, st)))"

definition export_vram :: "'k linux \<Rightarrow> nat \<Rightarrow> nat \<Rightarrow> 'k gpu_state \<Rightarrow> nat option result \<times> 'k gpu_state" where
  "export_vram K self i = (\<lambda>(s, g).
     if \<not> vl_contains (vram_local_space s) i then (Return None, (s, g))
     else case export_name K self i (s, g) of
       (Return None, st) \<Rightarrow> (Return None, st)
     | (Return (Some n), (s, g)) \<Rightarrow>
        (case lookup_vram_cap (vram_local_space s) i of
           None \<Rightarrow> (Crash, (s, g))
         | Some cap \<Rightarrow>
            (case vram_pool g cap of
               None \<Rightarrow> (Crash, (s, g))
             | Some v \<Rightarrow>
                (Return (Some cap), (s,
                   if gv_import_name v \<noteq> None then g
                   else g\<lparr>vram_pool := (vram_pool g)(cap \<mapsto> v\<lparr>gv_import_name := Some n\<rparr>)\<rparr>))))
     | (_, st) \<Rightarrow> (Crash, st))"

definition add_local :: "nat \<Rightarrow> nat \<Rightarrow> session \<Rightarrow> session" where
  "add_local cap i s = (if vl_contains (vram_local_space s) i then s
     else s\<lparr>vram_local_space := vram_local_space s @
       [(i, \<lparr>vl_cap = cap, vl_export_name = None, vl_import_handle = None\<rparr>)]\<rparr>)"

definition import_vram :: "'k linux \<Rightarrow> nat \<Rightarrow> bool \<Rightarrow> nat \<Rightarrow> nat \<Rightarrow> 'k gpu_state \<Rightarrow>
    unit result \<times> 'k gpu_state" where
  "import_vram K self local_ok cap i = (\<lambda>(s, g).
     if \<not> vl_contains (vram_local_space s) i \<and> \<not> local_ok then (Out_of_ram, (s, g))
     else
     let s = add_local cap i s in
     if lookup_import (vram_local_space s) i \<noteq> None then (Return (), (s, g))
     else case vram_pool g cap of
       None \<Rightarrow> (Crash, (s, g))
     | Some v \<Rightarrow>
        (case perform K self OPEN (\<lambda>x. x\<lparr>op_name := (case gv_import_name v of
                 None \<Rightarrow> 0 | Some n \<Rightarrow> n)\<rparr>) (s, g) of
           (Succ c, (s, g)) \<Rightarrow>
             (Return (), (s\<lparr>vram_local_space := vl_modify (vram_local_space s) i
                (\<lambda>v. v\<lparr>vl_import_handle := Some (op_handle (rq_operation c))\<rparr>)\<rparr>, g))
         | (Fail, st) \<Rightarrow> (Invalid_state, st)
         | (Down, st) \<Rightarrow> (Crash, st)))"

section \<open>Destruction\<close>

text \<open>First loop: close every handle that was imported and not exported.\<close>

fun close_imports :: "'k linux \<Rightarrow> nat \<Rightarrow> vram_space \<Rightarrow> 'k gpu_state \<Rightarrow> unit result \<times> 'k gpu_state" where
  "close_imports K self [] st = (Return (), st)"
| "close_imports K self ((i, vl) # vs) st =
     (if vl_export_name vl \<noteq> None then close_imports K self vs st
      else case vl_import_handle vl of
        None \<Rightarrow> close_imports K self vs st
      | Some h \<Rightarrow>
         (case perform K self CLOSE (\<lambda>x. x\<lparr>op_id := i, op_handle := h\<rparr>) st of
            (Down, st) \<Rightarrow> (Crash, st)
          | (_, st) \<Rightarrow> close_imports K self vs st))"

text \<open>
  Second loop: as long as there is an element, destroy it, by freeing the buffer unless it
  is imported. The elements are visited in the order of the list.
\<close>

fun destroy_locals :: "'k linux \<Rightarrow> nat \<Rightarrow> vram_space \<Rightarrow> 'k gpu_state \<Rightarrow> unit result \<times> 'k gpu_state" where
  "destroy_locals K self [] st = (Return (), st)"
| "destroy_locals K self ((i, vl) # vs) st =
     (if vl_import_handle vl \<noteq> None
      then destroy_locals K self vs
             (fst st\<lparr>vram_local_space := vl_remove (vram_local_space (fst st)) i\<rparr>, snd st)
      else case unmap_gpu K self i st of
        (Return True, st) \<Rightarrow> destroy_locals K self vs st
      | (Return False, (s, g)) \<Rightarrow>
          destroy_locals K self vs (s\<lparr>vram_local_space := vl_remove (vram_local_space s) i\<rparr>, g)
      | (_, st) \<Rightarrow> (Crash, st))"

definition and_then :: "'a result \<times> 'k gpu_state \<Rightarrow> ('k gpu_state \<Rightarrow> 'b result \<times> 'k gpu_state) \<Rightarrow>
    'b result \<times> 'k gpu_state" where
  "and_then a f = (case a of (Return x, st) \<Rightarrow> f st | (_, st) \<Rightarrow> (Crash, st))"

text \<open>The result is whether the DRM file was closed.\<close>

definition destruct_session :: "'k linux \<Rightarrow> nat \<Rightarrow> 'k gpu_state \<Rightarrow> bool result \<times> 'k gpu_state" where
  "destruct_session K self st =
     and_then (close_imports K self (vram_local_space (fst st)) st) (\<lambda>st.
     and_then (destroy_locals K self (vram_local_space (fst st)) st) (\<lambda>st.
     and_then (destroy_syncobj K self (sync_id (fst st) ! 0) st) (\<lambda>st.
     and_then (destroy_syncobj K self (sync_id (fst st) ! 1) st) (\<lambda>st.
     and_then (free_ctx K self (ctx_id (fst st)) st) (\<lambda>st.
     case local_request K L_CLOSE st of (closed, st) \<Rightarrow> (Return closed, st))))))"

section \<open>The driver\<close>

datatype rpc =
    Execute nat
  | Complete u64
  | Completion_sigh bool
  | Map_cpu nat
  | Unmap_cpu nat
  | Map_gpu bool bool nat nat u64
  | Unmap_gpu nat
  | Set_tiling_gpu nat u32
  | Export_vram nat
  | Import_vram bool nat nat

text \<open>The state after a call; the result is whether the component is still alive.\<close>

definition after :: "'a result \<times> 'k gpu_state \<Rightarrow> bool \<times> 'k gpu_state" where
  "after a = (fst a \<noteq> Crash, snd a)"

fun handle_rpc :: "'k linux \<Rightarrow> nat \<Rightarrow> rpc \<Rightarrow> 'k gpu_state \<Rightarrow> bool \<times> 'k gpu_state" where
  "handle_rpc K self (Execute i) st = after (execute K self i st)"
| "handle_rpc K self (Complete q) st = after (complete K self q st)"
| "handle_rpc K self (Completion_sigh v) st = after (set_completion_sigh v st)"
| "handle_rpc K self (Map_cpu i) st = after (map_cpu i st)"
| "handle_rpc K self (Unmap_cpu i) st = after (unmap_cpu K self i st)"
| "handle_rpc K self (Map_gpu a b i sz va) st = after (map_gpu K self a b i sz va st)"
| "handle_rpc K self (Unmap_gpu i) st = after (unmap_gpu K self i st)"
| "handle_rpc K self (Set_tiling_gpu i m) st = after (set_tiling_gpu K self i m st)"
| "handle_rpc K self (Export_vram i) st = after (export_vram K self i st)"
| "handle_rpc K self (Import_vram a cap i) st = after (import_vram K self a cap i st)"

record 'k gpu_driver =
  gpu :: "'k gpu"
  gpu_sessions :: "nat \<Rightarrow> session option"
  next_session :: nat

text \<open>
  Events: the creation and the destruction of a session, a call, the next turn of a worker
  task, its notification, and a step of Linux on its own.
\<close>

datatype 'k gpu_event = New_session bool | Close_session nat | Call nat rpc | Run_worker nat
  | Run_notifier nat | Linux 'k | Client_memory memory

definition on_gpu_session :: "nat \<Rightarrow> ('k gpu_state \<Rightarrow> bool \<times> 'k gpu_state) \<Rightarrow> 'k gpu_driver \<Rightarrow>
    'k gpu_driver option" where
  "on_gpu_session self f d = (case gpu_sessions d self of
     None \<Rightarrow> Some d
   | Some s \<Rightarrow> (case f (s, gpu d) of
        (False, st) \<Rightarrow> None
      | (True, (s, g)) \<Rightarrow> Some (d\<lparr>gpu := g, gpu_sessions := (gpu_sessions d)(self \<mapsto> s)\<rparr>)))"

definition create_gpu_session :: "'k linux \<Rightarrow> bool \<Rightarrow> 'k gpu_driver \<Rightarrow> 'k gpu_driver option" where
  "create_gpu_session K task_ok d =
     (case construct_session K (next_session d) task_ok (gpu d) of
        (Return None, g) \<Rightarrow> Some (d\<lparr>gpu := g, next_session := next_session d + 1\<rparr>)
      | (Return (Some s), g) \<Rightarrow>
          Some (d\<lparr>gpu := g, gpu_sessions := (gpu_sessions d)(next_session d \<mapsto> s),
                  next_session := next_session d + 1\<rparr>)
      | (_, g) \<Rightarrow> None)"

definition destroy_gpu_session :: "'k linux \<Rightarrow> nat \<Rightarrow> 'k gpu_driver \<Rightarrow> 'k gpu_driver option" where
  "destroy_gpu_session K self d = (case gpu_sessions d self of
     None \<Rightarrow> Some d
   | Some s \<Rightarrow> (case destruct_session K self (s, gpu d) of
        (Return closed, (s, g)) \<Rightarrow>
          Some (d\<lparr>gpu := g, gpu_sessions := (gpu_sessions d)(self := None)\<rparr>)
      | (_, st) \<Rightarrow> None))"

text \<open>\<open>None\<close> is the end of the component.\<close>

fun gpu_handle :: "'k linux \<Rightarrow> 'k gpu_event \<Rightarrow> 'k gpu_driver \<Rightarrow> 'k gpu_driver option" where
  "gpu_handle K (New_session ok) d = create_gpu_session K ok d"
| "gpu_handle K (Close_session self) d = destroy_gpu_session K self d"
| "gpu_handle K (Call self c) d = on_gpu_session self (handle_rpc K self c) d"
| "gpu_handle K (Run_worker self) d = on_gpu_session self (worker_pass K) d"
| "gpu_handle K (Run_notifier self) d =
     on_gpu_session self (\<lambda>(s, g). (True, (handle_notifier s, g))) d"
| "gpu_handle K (Linux k) d = Some (d\<lparr>gpu := (gpu d)\<lparr>linux_state := k\<rparr>\<rparr>)"
| "gpu_handle K (Client_memory m) d = Some (d\<lparr>gpu := (gpu d)\<lparr>mem := m\<rparr>\<rparr>)"

definition gpu_init :: "'k \<Rightarrow> memory \<Rightarrow> 'k gpu_driver" where
  "gpu_init k m = \<lparr>gpu = \<lparr>linux_state = k, vram_pool = (\<lambda>_. None), next_cap = 1, tag_counter = 0,
      mem = m, flushed = []\<rparr>, gpu_sessions = (\<lambda>_. None), next_session = 1\<rparr>"

end
