(* ===== verification/Gpu_Handles.thy ===== *)
theory Gpu_Handles
  imports Gpu_Session
begin

text \<open>
  The handles of the GPU driver. A session refers to buffers of the kernel by handles of
  its DRM file: those of the buffers it allocated and those it imported. What the driver
  relies on about Linux is the contract \<open>drm_contract\<close>: it tells which call changes the
  handle table of a file and how. The result is that in every state the driver can reach,
  every handle a session holds is open and no two of its references share a handle.
\<close>

section \<open>The contract of Linux\<close>

text \<open>
  \<open>F k f\<close> is the handle table of the DRM file \<open>f\<close> (\<open>None\<close> if it is not open), mapping
  handles to buffer objects; \<open>N k\<close> are the global names.
\<close>

type_synonym files = "nat \<Rightarrow> (u32 \<Rightarrow> nat option) option"

fun ioctl_effect :: "('k \<Rightarrow> files) \<Rightarrow> ('k \<Rightarrow> u32 \<Rightarrow> nat option) \<Rightarrow> 'k \<Rightarrow> nat \<Rightarrow> (u32 \<Rightarrow> nat option) \<Rightarrow>
    drm_call \<Rightarrow> int \<Rightarrow> drm_reply \<Rightarrow> 'k \<Rightarrow> bool" where
  "ioctl_effect F N k f hs (Lima_gem_create sz fl va) e rp k' \<longleftrightarrow>
     (if e = 0 then \<exists>x. hs (r_handle rp) = None \<and> F k' = (F k)(f \<mapsto> hs(r_handle rp \<mapsto> x))
      else F k' = F k)"
| "ioctl_effect F N k f hs (Gem_open n) e rp k' \<longleftrightarrow>
     (if e = 0 then \<exists>x. N k n = Some x \<and> hs (r_handle rp) = None
                     \<and> F k' = (F k)(f \<mapsto> hs(r_handle rp \<mapsto> x))
      else F k' = F k)"
| "ioctl_effect F N k f hs (Gem_close h) e rp k' \<longleftrightarrow> F k' = (F k)(f \<mapsto> hs(h := None))"
| "ioctl_effect F N k f hs (Gem_flink h) e rp k' \<longleftrightarrow> F k' = F k
     \<and> (e = 0 \<longrightarrow> (\<exists>x. hs h = Some x \<and> N k' (r_name rp) = Some x))"
| "ioctl_effect F N k f hs c e rp k' \<longleftrightarrow> F k' = F k"

definition drm_contract :: "'k linux \<Rightarrow> ('k \<Rightarrow> files) \<Rightarrow> ('k \<Rightarrow> u32 \<Rightarrow> nat option) \<Rightarrow> bool" where
  "drm_contract K F N \<longleftrightarrow>
     (\<forall>k f k'. k_open K k = (Some f, k') \<longrightarrow> F k f = None \<and> F k' = (F k)(f \<mapsto> Map.empty))
     \<and> (\<forall>k k'. k_open K k = (None, k') \<longrightarrow> F k' = F k)
     \<and> (\<forall>k f. F (k_release K k f) = (F k)(f := None))
     \<and> (\<forall>k f hs c e rp k'. F k f = Some hs \<longrightarrow> k_ioctl K k f c = (e, rp, k') \<longrightarrow>
           ioctl_effect F N k f hs c e rp k')"

lemma contract_ioctl:
  assumes "drm_contract K F N" and "F k f = Some hs" and "k_ioctl K k f c = (e, rp, k')"
  shows "ioctl_effect F N k f hs c e rp k'"
  using assms by (auto simp: drm_contract_def)

lemma contract_other_calls:
  assumes "drm_contract K F N" and "F k f = Some hs" and "k_ioctl K k f c = (e, rp, k')"
    and "\<forall>a b d n h. c \<noteq> Lima_gem_create a b d \<and> c \<noteq> Gem_open n \<and> c \<noteq> Gem_close h"
  shows "F k' = F k"
  using contract_ioctl [OF assms(1-3)] assms(4) by (cases c) auto

section \<open>What a request does to the handles\<close>

text \<open>The references of a session: to a buffer it allocated (\<open>True\<close>) or imported.\<close>

definition handle_refs :: "session \<Rightarrow> bool \<times> nat \<Rightarrow> u32 option" where
  "handle_refs s r = (if fst r then map_option bo_handle (worker_buffers s (snd r))
     else lookup_import (vram_local_space s) (snd r))"

definition same_tables :: "'k gpu_state \<Rightarrow> 'k gpu_state \<Rightarrow> bool" where
  "same_tables st st' \<longleftrightarrow> drm (fst st') = drm (fst st)
     \<and> vram_local_space (fst st') = vram_local_space (fst st)
     \<and> sync_id (fst st') = sync_id (fst st) \<and> ctx_id (fst st') = ctx_id (fst st)
     \<and> vram_pool (snd st') = vram_pool (snd st) \<and> next_cap (snd st') = next_cap (snd st)"

lemma same_tables_simps [simp]:
  "same_tables st st"
  "same_tables (s, g) (s, g\<lparr>linux_state := k\<rparr>)"
  "same_tables (s, g) (s, g\<lparr>linux_state := k, mem := m, flushed := fl\<rparr>)"
  "same_tables (s, g) (s, g\<lparr>mem := m, flushed := fl\<rparr>)"
  "same_tables (s, g) (s\<lparr>worker_buffers := b\<rparr>, g\<lparr>linux_state := k\<rparr>)"
  by (simp_all add: same_tables_def)

lemmas drm_calls = lx_drm_ioctl_syncobj_create_def lx_drm_ioctl_syncobj_destroy_def
  lx_drm_ioctl_syncobj_wait_def lx_drm_ioctl_lima_ctx_create_def lx_drm_ioctl_lima_ctx_free_def
  lx_drm_ioctl_lima_gem_wait_def lx_drm_ioctl_lima_gem_create_def lx_drm_ioctl_lima_gem_info_def
  lx_drm_gem_close_def lx_drm_gem_flink_def lx_drm_gem_open_def lx_drm_ioctl_def minus_one_def
  lx_drm_ioctl_lima_gem_submit_def lx_drm_ioctl_lima_gem_param_def

text \<open>What happens to the handle table and to the allocated buffers.\<close>

definition tables_kept :: "('k \<Rightarrow> files) \<Rightarrow> 'k gpu_state \<Rightarrow> 'k gpu_state \<Rightarrow> bool" where
  "tables_kept F st st' \<longleftrightarrow> same_tables st st' \<and> F (linux_state (snd st')) = F (linux_state (snd st))
     \<and> worker_buffers (fst st') = worker_buffers (fst st)"

definition buffer_added :: "('k \<Rightarrow> files) \<Rightarrow> nat \<Rightarrow> nat \<Rightarrow> 'k gpu_state \<Rightarrow> 'k gpu_state \<Rightarrow> bool" where
  "buffer_added F f i st st' \<longleftrightarrow> same_tables st st' \<and> worker_buffers (fst st) i = None
     \<and> (case worker_buffers (fst st') i of None \<Rightarrow> False | Some b \<Rightarrow>
         worker_buffers (fst st') = (worker_buffers (fst st))(i \<mapsto> b)
         \<and> (\<exists>hs x. F (linux_state (snd st)) f = Some hs \<and> hs (bo_handle b) = None
             \<and> F (linux_state (snd st')) = (F (linux_state (snd st)))(f \<mapsto> hs(bo_handle b \<mapsto> x))))"

definition buffer_freed :: "('k \<Rightarrow> files) \<Rightarrow> nat \<Rightarrow> nat \<Rightarrow> 'k gpu_state \<Rightarrow> 'k gpu_state \<Rightarrow> bool" where
  "buffer_freed F f i st st' \<longleftrightarrow> same_tables st st'
     \<and> (\<exists>hs b. F (linux_state (snd st)) f = Some hs \<and> worker_buffers (fst st) i = Some b
         \<and> F (linux_state (snd st')) = (F (linux_state (snd st)))(f \<mapsto> hs(bo_handle b := None))
         \<and> worker_buffers (fst st') = (worker_buffers (fst st))(i := None))"

definition handle_closed :: "('k \<Rightarrow> files) \<Rightarrow> nat \<Rightarrow> u32 \<Rightarrow> 'k gpu_state \<Rightarrow> 'k gpu_state \<Rightarrow> bool" where
  "handle_closed F f h st st' \<longleftrightarrow> same_tables st st'
     \<and> worker_buffers (fst st') = worker_buffers (fst st)
     \<and> (\<exists>hs. F (linux_state (snd st)) f = Some hs
         \<and> F (linux_state (snd st')) = (F (linux_state (snd st)))(f \<mapsto> hs(h := None)))"

definition handle_opened :: "('k \<Rightarrow> files) \<Rightarrow> ('k \<Rightarrow> u32 \<Rightarrow> nat option) \<Rightarrow> nat \<Rightarrow> u32 \<Rightarrow> u32 \<Rightarrow>
    'k gpu_state \<Rightarrow> 'k gpu_state \<Rightarrow> bool" where
  "handle_opened F N f n h st st' \<longleftrightarrow> same_tables st st'
     \<and> worker_buffers (fst st') = worker_buffers (fst st)
     \<and> (\<exists>hs x. F (linux_state (snd st)) f = Some hs \<and> hs h = None
         \<and> N (linux_state (snd st)) n = Some x
         \<and> F (linux_state (snd st')) = (F (linux_state (snd st)))(f \<mapsto> hs(h \<mapsto> x)))"

definition name_given :: "('k \<Rightarrow> files) \<Rightarrow> ('k \<Rightarrow> u32 \<Rightarrow> nat option) \<Rightarrow> nat \<Rightarrow> nat \<Rightarrow> u32 \<Rightarrow>
    'k gpu_state \<Rightarrow> 'k gpu_state \<Rightarrow> bool" where
  "name_given F N f i n st st' \<longleftrightarrow> tables_kept F st st'
     \<and> (\<exists>hs x. F (linux_state (snd st)) f = Some hs
         \<and> Option.bind (worker_buffers (fst st) i) (\<lambda>b. hs (bo_handle b)) = Some x
         \<and> N (linux_state (snd st')) n = Some x)"

text \<open>The effect of a request on the tables, by its kind.\<close>

definition request_effect :: "('k \<Rightarrow> files) \<Rightarrow> ('k \<Rightarrow> u32 \<Rightarrow> nat option) \<Rightarrow> nat \<Rightarrow> operation \<Rightarrow>
    outcome \<Rightarrow> 'k gpu_state \<Rightarrow> 'k gpu_state \<Rightarrow> bool" where
  "request_effect F N f x out st st' = (case out of
     Crashed \<Rightarrow> True
   | Blocked \<Rightarrow> op_kind x \<in> {WAIT, SYNCOBJ_WAIT} \<and> tables_kept F st st'
   | Finished r notify \<Rightarrow>
      op_kind (rq_operation r) = op_kind x \<and>
      (case op_kind x of
         ALLOC \<Rightarrow> (if rq_success r then buffer_added F f (op_id x) st st' else tables_kept F st st')
       | FREE \<Rightarrow> (if rq_success r then buffer_freed F f (op_id x) st st' else tables_kept F st st')
       | CLOSE \<Rightarrow> handle_closed F f (op_handle x) st st'
       | OPEN \<Rightarrow> (if rq_success r
                  then handle_opened F N f (op_name x) (op_handle (rq_operation r)) st st'
                  else tables_kept F st st')
       | FLINK \<Rightarrow> (if rq_success r
                   then name_given F N f (op_id x) (op_name (rq_operation r)) st st'
                   else tables_kept F st st')
       | _ \<Rightarrow> tables_kept F st st'))"

lemma tables_kept_simps [simp]:
  "tables_kept F st st"
  "F k = F (linux_state g) \<Longrightarrow> tables_kept F (s, g) (s, g\<lparr>linux_state := k\<rparr>)"
  "F k = F (linux_state g) \<Longrightarrow>
     tables_kept F (s, g) (s, g\<lparr>linux_state := k, mem := m, flushed := fl\<rparr>)"
  "tables_kept F (s, g) (s, g\<lparr>mem := m, flushed := fl\<rparr>)"
  by (simp_all add: tables_kept_def)

lemmas do_defs = do_ctx_create_def do_ctx_free_def do_syncobj_create_def do_syncobj_destroy_def
  do_syncobj_wait_def do_close_def do_open_def do_flink_def do_free_def do_wait_def

lemma request_effect_simple:
  assumes "drm_contract K F N" and "drm s = Some f" and "F (linux_state g) f = Some hs"
    and "dispatch K r (s, g) = (out, (s', g'))"
    and "op_kind (rq_operation r) \<in> {CTX_CREATE, CTX_FREE, SYNCOBJ_CREATE, SYNCOBJ_DESTROY,
           SYNCOBJ_WAIT, WAIT, FLINK}"
  shows "request_effect F N f (rq_operation r) out (s, g) (s', g')"
  using assms
  by (auto simp: dispatch.simps do_defs drm_calls request_effect_def Let_def succeed_def
      name_given_def
      split: prod.splits option.splits if_splits
      dest!: contract_ioctl [OF assms(1,3)])

lemma request_effect_alloc:
  assumes "drm_contract K F N" and "drm s = Some f" and "F (linux_state g) f = Some hs"
    and "do_alloc K r (s, g) = (out, (s', g'))" and "op_kind (rq_operation r) = ALLOC"
    and "\<not> rq_success r"
  shows "request_effect F N f (rq_operation r) out (s, g) (s', g')"
proof -
  let ?x = "rq_operation r" and ?c = "Lima_gem_create (op_size (rq_operation r)) (FLAG_FORCE_VA K) (op_va (rq_operation r))"
  obtain e rp k where create: "k_ioctl K (linux_state g) f ?c = (e, rp, k)" by (rule prod_cases3)
  note created = contract_ioctl [OF assms(1,3) create]
  show ?thesis
  proof (cases "e = 0")
    case False
    with create created assms show ?thesis
      by (auto simp: do_alloc_def drm_calls request_effect_def)
  next
    case True
    then obtain x where fresh: "hs (r_handle rp) = None"
      and F1: "F k = (F (linux_state g))(f \<mapsto> hs(r_handle rp \<mapsto> x))" using created by auto
    then have f1: "F k f = Some (hs(r_handle rp \<mapsto> x))" by simp
    obtain e2 rp2 k2 where inf: "k_ioctl K k f (Lima_gem_info (r_handle rp)) = (e2, rp2, k2)"
      by (rule prod_cases3)
    have F2: "F k2 = F k" using contract_ioctl [OF assms(1) f1 inf] by simp
    obtain e3 rp3 k3 where close: "k_ioctl K k2 f (Gem_close (r_handle rp)) = (e3, rp3, k3)"
      by (rule prod_cases3)
    have "F k3 = (F k2)(f \<mapsto> (hs(r_handle rp \<mapsto> x))(r_handle rp := None))"
      using contract_ioctl [OF assms(1) _ close] F2 f1 by simp
    then have F3: "F k3 = F (linux_state g)"
      using F1 F2 assms(3) fresh by (simp add: fun_upd_idem)
    show ?thesis
      using True create inf close F1 F2 F3 fresh assms
      by (auto simp: do_alloc_def drm_calls request_effect_def succeed_def Let_def
          buffer_added_def split: if_splits option.splits)
  qed
qed

lemma exec_tables:
  assumes "drm_contract K F N" and "drm s = Some f" and "F (linux_state g) f = Some hs"
    and "do_exec K r (s, g) = (out, (s', g'))" and "\<not> rq_success r" and "op_kind (rq_operation r) = EXEC"
  shows "request_effect F N f (rq_operation r) out (s, g) (s', g')"
  using assms
  by (auto simp: do_exec_def drm_calls request_effect_def succeed_def Let_def
      split: prod.splits option.splits if_splits sum.splits
      dest!: contract_ioctl [OF assms(1,3)])

lemma request_effect_close_open_free:
  assumes "drm_contract K F N" and "drm s = Some f" and "F (linux_state g) f = Some hs"
    and "dispatch K r (s, g) = (out, (s', g'))"
    and "op_kind (rq_operation r) \<in> {CLOSE, OPEN, FREE}"
  shows "request_effect F N f (rq_operation r) out (s, g) (s', g')"
  using assms
  by (auto simp: dispatch.simps do_defs drm_calls request_effect_def Let_def succeed_def
      handle_closed_def handle_opened_def buffer_freed_def buffer_remove_def
      split: prod.splits option.splits if_splits
      dest!: contract_ioctl [OF assms(1,3)])

theorem request_effect_dispatch:
  assumes "drm_contract K F N" and "drm s = Some f" and "F (linux_state g) f = Some hs"
    and "dispatch K r (s, g) = (out, (s', g'))"
  shows "request_effect F N f (rq_operation r) out (s, g) (s', g')"
proof (cases "op_kind (rq_operation r)")
  case ALLOC
  then show ?thesis
    using request_effect_alloc [OF assms(1-3), of "r\<lparr>rq_success := False\<rparr>"] assms(4)
    by (simp add: dispatch.simps)
next
  case EXEC
  then show ?thesis
    using exec_tables [OF assms(1-3), of "r\<lparr>rq_success := False\<rparr>"] assms(4)
    by (simp add: dispatch.simps)
next
  case INVALID
  then show ?thesis using assms(4) by (auto simp: dispatch.simps request_effect_def)
qed (use request_effect_simple [OF assms] request_effect_close_open_free [OF assms] in simp_all)

section \<open>What a scheduled request does to the handles\<close>

text \<open>Only a wait can be left pending.\<close>

definition pending_ok :: "session \<Rightarrow> bool" where
  "pending_ok s \<longleftrightarrow> (\<forall>r. pending_request s = Some r \<longrightarrow>
     op_kind (rq_operation r) \<in> {WAIT, SYNCOBJ_WAIT})"

lemma request_pending_iff: "pending_ok s \<Longrightarrow> request_pending s \<longleftrightarrow> pending_request s \<noteq> None"
  by (auto simp: pending_ok_def request_pending_def rq_valid_def op_valid_def split: option.splits)

lemma table_frames [simp]:
  "same_tables (s\<lparr>pending_request := p\<rparr>, g) st' = same_tables (s, g) st'"
  "same_tables (s\<lparr>completed_request := c\<rparr>, g) st' = same_tables (s, g) st'"
  "same_tables (s, g\<lparr>tag_counter := t\<rparr>) st' = same_tables (s, g) st'"
  "same_tables st (s\<lparr>pending_request := p\<rparr>, g) = same_tables st (s, g)"
  "same_tables st (s\<lparr>completed_request := c\<rparr>, g) = same_tables st (s, g)"
  "same_tables st (s\<lparr>notifications := n\<rparr>, g) = same_tables st (s, g)"
  "same_tables st (s, g\<lparr>tag_counter := t\<rparr>) = same_tables st (s, g)"
  by (simp_all add: same_tables_def)

lemmas effect_defs = tables_kept_def buffer_added_def buffer_freed_def handle_closed_def
  handle_opened_def name_given_def

lemma effect_frames [simp]:
  "tables_kept F (s\<lparr>pending_request := q\<rparr>, g) st' = tables_kept F (s, g) st'"
  "tables_kept F (s\<lparr>completed_request := c\<rparr>, g) st' = tables_kept F (s, g) st'"
  "tables_kept F (s, g\<lparr>tag_counter := t\<rparr>) st' = tables_kept F (s, g) st'"
  "tables_kept F st (s\<lparr>pending_request := q\<rparr>, g) = tables_kept F st (s, g)"
  "tables_kept F st (s\<lparr>completed_request := c\<rparr>, g) = tables_kept F st (s, g)"
  "tables_kept F st (s\<lparr>notifications := m\<rparr>, g) = tables_kept F st (s, g)"
  "buffer_added F f i (s\<lparr>pending_request := q\<rparr>, g) st' = buffer_added F f i (s, g) st'"
  "buffer_added F f i (s\<lparr>completed_request := c\<rparr>, g) st' = buffer_added F f i (s, g) st'"
  "buffer_added F f i (s, g\<lparr>tag_counter := t\<rparr>) st' = buffer_added F f i (s, g) st'"
  "buffer_added F f i st (s\<lparr>pending_request := q\<rparr>, g) = buffer_added F f i st (s, g)"
  "buffer_added F f i st (s\<lparr>completed_request := c\<rparr>, g) = buffer_added F f i st (s, g)"
  "buffer_added F f i st (s\<lparr>notifications := m\<rparr>, g) = buffer_added F f i st (s, g)"
  "buffer_freed F f i (s\<lparr>pending_request := q\<rparr>, g) st' = buffer_freed F f i (s, g) st'"
  "buffer_freed F f i (s\<lparr>completed_request := c\<rparr>, g) st' = buffer_freed F f i (s, g) st'"
  "buffer_freed F f i (s, g\<lparr>tag_counter := t\<rparr>) st' = buffer_freed F f i (s, g) st'"
  "buffer_freed F f i st (s\<lparr>pending_request := q\<rparr>, g) = buffer_freed F f i st (s, g)"
  "buffer_freed F f i st (s\<lparr>completed_request := c\<rparr>, g) = buffer_freed F f i st (s, g)"
  "buffer_freed F f i st (s\<lparr>notifications := m\<rparr>, g) = buffer_freed F f i st (s, g)"
  "handle_closed F f h (s\<lparr>pending_request := q\<rparr>, g) st' = handle_closed F f h (s, g) st'"
  "handle_closed F f h (s\<lparr>completed_request := c\<rparr>, g) st' = handle_closed F f h (s, g) st'"
  "handle_closed F f h (s, g\<lparr>tag_counter := t\<rparr>) st' = handle_closed F f h (s, g) st'"
  "handle_closed F f h st (s\<lparr>pending_request := q\<rparr>, g) = handle_closed F f h st (s, g)"
  "handle_closed F f h st (s\<lparr>completed_request := c\<rparr>, g) = handle_closed F f h st (s, g)"
  "handle_closed F f h st (s\<lparr>notifications := m\<rparr>, g) = handle_closed F f h st (s, g)"
  "name_given F N f i n (s\<lparr>pending_request := q\<rparr>, g) st' = name_given F N f i n (s, g) st'"
  "name_given F N f i n (s\<lparr>completed_request := c\<rparr>, g) st' = name_given F N f i n (s, g) st'"
  "name_given F N f i n (s, g\<lparr>tag_counter := t\<rparr>) st' = name_given F N f i n (s, g) st'"
  "name_given F N f i n st (s\<lparr>pending_request := q\<rparr>, g) = name_given F N f i n st (s, g)"
  "name_given F N f i n st (s\<lparr>completed_request := c\<rparr>, g) = name_given F N f i n st (s, g)"
  "name_given F N f i n st (s\<lparr>notifications := m\<rparr>, g) = name_given F N f i n st (s, g)"
  "handle_opened F N f n h (s\<lparr>pending_request := q\<rparr>, g) st' = handle_opened F N f n h (s, g) st'"
  "handle_opened F N f n h (s\<lparr>completed_request := c\<rparr>, g) st' = handle_opened F N f n h (s, g) st'"
  "handle_opened F N f n h (s, g\<lparr>tag_counter := t\<rparr>) st' = handle_opened F N f n h (s, g) st'"
  "handle_opened F N f n h st (s\<lparr>pending_request := q\<rparr>, g) = handle_opened F N f n h st (s, g)"
  "handle_opened F N f n h st (s\<lparr>completed_request := c\<rparr>, g) = handle_opened F N f n h st (s, g)"
  "handle_opened F N f n h st (s\<lparr>notifications := m\<rparr>, g) = handle_opened F N f n h st (s, g)"
  by (simp_all add: effect_defs split: option.split)

lemma request_effect_frames [simp]:
  "request_effect F N f x out (s\<lparr>pending_request := q\<rparr>, g) st' = request_effect F N f x out (s, g) st'"
  "request_effect F N f x out (s\<lparr>completed_request := c\<rparr>, g) st' = request_effect F N f x out (s, g) st'"
  "request_effect F N f x out (s, g\<lparr>tag_counter := t\<rparr>) st' = request_effect F N f x out (s, g) st'"
  "request_effect F N f x out st (s\<lparr>pending_request := q\<rparr>, g) = request_effect F N f x out st (s, g)"
  "request_effect F N f x out st (s\<lparr>completed_request := c\<rparr>, g) = request_effect F N f x out st (s, g)"
  "request_effect F N f x out st (s\<lparr>notifications := m\<rparr>, g) = request_effect F N f x out st (s, g)"
  by (cases out; cases "op_kind x"; simp add: request_effect_def)+

lemma worker_pass_effect:
  assumes "drm_contract K F N" and "drm s = Some f" and "F (linux_state g) f = Some hs"
    and "pending_request s = Some r" and "rq_valid r"
    and "worker_pass K (s, g) = (True, (s', g'))"
  shows "\<exists>out. request_effect F N f (rq_operation r) out (s, g) (s', g') \<and>
     (case out of Finished r' n \<Rightarrow> completed_request s' = Some r' \<and> pending_request s' = None
      | Blocked \<Rightarrow> completed_request s' = None \<and> pending_request s' = Some r | Crashed \<Rightarrow> False)"
proof -
  let ?s = "s\<lparr>completed_request := None\<rparr>"
  obtain out t h where d: "dispatch K r (?s, g) = (out, (t, h))" by (rule prod_cases3)
  have eff: "request_effect F N f (rq_operation r) out (?s, g) (t, h)"
    using request_effect_dispatch [OF assms(1) _ assms(3) d] assms(2) by simp
  have "out = Blocked \<Longrightarrow> t = ?s"
    using d by (auto simp: dispatch.simps do_defs do_alloc_def do_exec_def Let_def
        split: op_type.splits prod.splits option.splits if_splits sum.splits)
  with d eff assms(4-6) show ?thesis
    by (cases out) (auto simp: worker_pass_def intro: exI [of _ out])
qed

definition perform_effect :: "('k \<Rightarrow> files) \<Rightarrow> ('k \<Rightarrow> u32 \<Rightarrow> nat option) \<Rightarrow> nat \<Rightarrow> operation \<Rightarrow>
    scheduled \<Rightarrow> 'k gpu_state \<Rightarrow> 'k gpu_state \<Rightarrow> bool" where
  "perform_effect F N f x res st st' = (case res of
     Down \<Rightarrow> True
   | Fail \<Rightarrow> tables_kept F st st' \<or> op_kind x = CLOSE \<and> handle_closed F f (op_handle x) st st'
   | Succ c \<Rightarrow> request_effect F N f x (Finished c False) st st' \<and> rq_success c)"

lemma schedule_effect:
  assumes "drm_contract K F N" and "drm s = Some f" and "F (linux_state g) f = Some hs"
    and "pending_ok s" and "op_kind (rq_operation r) \<noteq> INVALID"
    and "schedule_request K r (s, g) = (res, (s', g'))"
  shows "perform_effect F N f (rq_operation r) res (s, g) (s', g')"
    and "res \<noteq> Down \<Longrightarrow> pending_ok s'"
    and "res \<noteq> Down \<Longrightarrow> pending_request s = None \<Longrightarrow>
          op_kind (rq_operation r) \<notin> {WAIT, SYNCOBJ_WAIT} \<Longrightarrow> pending_request s' = None"
proof -
  let ?G = "perform_effect F N f (rq_operation r) res (s, g) (s', g') \<and>
     (res \<noteq> Down \<longrightarrow> pending_ok s' \<and> (pending_request s = None \<longrightarrow>
        op_kind (rq_operation r) \<notin> {WAIT, SYNCOBJ_WAIT} \<longrightarrow> pending_request s' = None))"
  have ?G
  proof (cases "request_pending s \<or> \<not> managed_id s r")
    case True
    then have "res = Fail" "s' = s" "g' = g"
      using assms(6) by (auto simp: schedule_request_def split: if_splits)
    then show ?thesis
      using assms(4) by (simp add: perform_effect_def)
  next
    case False
    let ?s = "s\<lparr>pending_request := Some r\<rparr>"
    obtain ok t h where w: "worker_pass K (?s, g) = (ok, (t, h))" by (rule prod_cases3)
    show ?thesis
    proof (cases ok)
      case False
      with \<open>\<not> (request_pending s \<or> \<not> managed_id s r)\<close> w assms(6) show ?thesis
        by (auto simp: schedule_request_def perform_effect_def)
    next
      case True
      have "rq_valid r" using assms(5) by (simp add: rq_valid_def op_valid_def)
      with worker_pass_effect [OF assms(1) _ assms(3), of ?s r t h] assms(2) w True
      obtain out where eff: "request_effect F N f (rq_operation r) out (s, g) (t, h)"
        and out: "case out of Finished r' n \<Rightarrow> completed_request t = Some r' \<and> pending_request t = None
           | Blocked \<Rightarrow> completed_request t = None \<and> pending_request t = Some r | Crashed \<Rightarrow> False"
        by auto
      from w True False assms(6)
      have res: "s' = t" "g' = h" "res = (case completed_request t of None \<Rightarrow> Fail
          | Some c \<Rightarrow> if rq_success c then Succ c else Fail)"
        by (auto simp: schedule_request_def split: option.splits)
      show ?thesis
      proof (cases out)
        case (Finished c n)
        with eff out res show ?thesis
          by (auto simp: perform_effect_def request_effect_def pending_ok_def split: op_type.splits)
      next
        case Blocked
        with eff out res show ?thesis
          by (auto simp: perform_effect_def request_effect_def pending_ok_def)
      qed (use out in simp)
    qed
  qed
  then show "perform_effect F N f (rq_operation r) res (s, g) (s', g')"
    and "res \<noteq> Down \<Longrightarrow> pending_ok s'"
    and "res \<noteq> Down \<Longrightarrow> pending_request s = None \<Longrightarrow>
          op_kind (rq_operation r) \<notin> {WAIT, SYNCOBJ_WAIT} \<Longrightarrow> pending_request s' = None"
    by blast+
qed

text \<open>The operation a fresh request starts with.\<close>

abbreviation blank_operation :: "op_type \<Rightarrow> operation" where
  "blank_operation kind \<equiv> \<lparr>op_kind = kind, op_size = 0, op_va = 0, op_id = 0, op_seqno = 0,
     op_handle = 0, op_name = 0, op_ctx_id = 0, op_op = 0, op_syncobj_id = [0, 0]\<rparr>"

lemma perform_spec:
  assumes "drm_contract K F N" and "drm s = Some f" and "F (linux_state g) f = Some hs"
    and "pending_ok s" and "op_kind (fill (blank_operation kind)) = kind" and "kind \<noteq> INVALID"
    and "perform K self kind fill (s, g) = (res, (s', g'))"
  shows "perform_effect F N f (fill (blank_operation kind)) res (s, g) (s', g')"
    and "res \<noteq> Down \<Longrightarrow> pending_ok s'"
    and "res \<noteq> Down \<Longrightarrow> pending_request s = None \<Longrightarrow> kind \<notin> {WAIT, SYNCOBJ_WAIT} \<Longrightarrow>
          pending_request s' = None"
proof -
  let ?g = "g\<lparr>tag_counter := tag_counter g + 1\<rparr>"
  define r where "r = \<lparr>rq_session = self, rq_operation = fill (blank_operation kind),
    rq_success = False, rq_tag = tag_counter g + 1\<rparr>"
  then have r: "rq_operation r = fill (blank_operation kind)" by simp
  have sch: "schedule_request K r (s, ?g) = (res, (s', g'))"
    using assms(7) by (simp add: perform_def create_request_def r_def)
  note eff = schedule_effect [OF assms(1,2) _ assms(4) _ sch]
  have "perform_effect F N f (rq_operation r) res (s, ?g) (s', g')"
    using eff(1) assms(3,5,6) r by simp
  then show "perform_effect F N f (fill (blank_operation kind)) res (s, g) (s', g')"
    using r by (simp add: perform_effect_def tables_kept_def handle_closed_def
        cong: scheduled.case_cong)
  show "res \<noteq> Down \<Longrightarrow> pending_ok s'"
    using eff(2) assms(3,5,6) r by simp
  show "res \<noteq> Down \<Longrightarrow> pending_request s = None \<Longrightarrow> kind \<notin> {WAIT, SYNCOBJ_WAIT} \<Longrightarrow>
          pending_request s' = None"
    using eff(3) assms(3,5,6) r by simp
qed

section \<open>Sessions hold open handles only\<close>

lemma map_of_vl_remove [simp]: "map_of (vl_remove vs i) = (map_of vs)(i := None)"
  by (induction vs) (auto simp: vl_remove_def fun_eq_iff)

lemma map_of_vl_modify [simp]:
  "map_of (vl_modify vs i f) j = (if j = i then map_option f (map_of vs i) else map_of vs j)"
  by (induction vs) (auto simp: vl_modify_def)

text \<open>
  A session's references are open handles of its file, and no two share a handle.
\<close>

definition open_handles :: "(u32 \<Rightarrow> nat option) \<Rightarrow> ('r \<Rightarrow> u32 option) \<Rightarrow> bool" where
  "open_handles hs ref \<longleftrightarrow> (\<forall>r h. ref r = Some h \<longrightarrow> hs h \<noteq> None)
     \<and> (\<forall>r r' h. ref r = Some h \<longrightarrow> ref r' = Some h \<longrightarrow> r = r')"

lemma open_handles_added:
  assumes "open_handles hs ref" and "hs h = None"
  shows "open_handles (hs(h \<mapsto> x)) (ref(r := Some h))"
proof -
  have "ref q \<noteq> Some h" for q using assms unfolding open_handles_def by blast
  with assms(1) show ?thesis unfolding open_handles_def by (auto split: if_splits)
qed

lemma open_handles_removed:
  assumes "open_handles hs ref" and "ref r = Some h"
  shows "open_handles (hs(h := None)) (ref(r := None))"
proof -
  have "q = r" if "ref q = Some h" for q using assms that by (auto simp: open_handles_def)
  with assms(1) show ?thesis unfolding open_handles_def by (auto split: if_splits)
qed

lemma open_handles_less:
  "open_handles hs ref \<Longrightarrow> (\<And>q. ref' q = ref q \<or> ref' q = None) \<Longrightarrow> open_handles hs ref'"
  unfolding open_handles_def by (metis option.distinct(1))

abbreviation refs_open :: "(u32 \<Rightarrow> nat option) \<Rightarrow> session \<Rightarrow> bool" where
  "refs_open hs s \<equiv> open_handles hs (handle_refs s)"

definition session_inv :: "files \<Rightarrow> session \<Rightarrow> bool" where
  "session_inv Fk s \<longleftrightarrow> pending_ok s
     \<and> (\<exists>f hs. drm s = Some f \<and> Fk f = Some hs \<and> refs_open hs s)"

lemma handle_refs_buffer:
  "handle_refs (s\<lparr>worker_buffers := (worker_buffers s)(i := b)\<rparr>) =
     (handle_refs s)((True, i) := map_option bo_handle b)"
  by (auto simp: handle_refs_def fun_eq_iff)

text \<open>What a call may do: the session keeps its file, and the other files are left alone.\<close>

definition call_ok :: "('k \<Rightarrow> files) \<Rightarrow> 'k gpu_state \<Rightarrow> 'k gpu_state \<Rightarrow> bool" where
  "call_ok F st st' \<longleftrightarrow> drm (fst st') = drm (fst st)
     \<and> session_inv (F (linux_state (snd st'))) (fst st')
     \<and> (\<forall>f. drm (fst st) \<noteq> Some f \<longrightarrow> F (linux_state (snd st')) f = F (linux_state (snd st)) f)"

lemma call_ok_refl: "session_inv (F (linux_state g)) s \<Longrightarrow> call_ok F (s, g) (s, g)"
  by (simp add: call_ok_def)

lemma call_ok_trans: "call_ok F st st' \<Longrightarrow> call_ok F st' st'' \<Longrightarrow> call_ok F st st''"
  by (auto simp: call_ok_def)

lemma session_inv_cong:
  assumes "pending_request s' = pending_request s" and "drm s' = drm s"
    and "worker_buffers s' = worker_buffers s" and "vram_local_space s' = vram_local_space s"
  shows "session_inv Fk s' = session_inv Fk s"
proof -
  have "handle_refs s' = handle_refs s" using assms by (simp add: handle_refs_def fun_eq_iff)
  with assms show ?thesis by (simp add: session_inv_def pending_ok_def)
qed

lemma tables_kept_ok:
  assumes "session_inv (F (linux_state g)) s" and "tables_kept F (s, g) (s', g')" and "pending_ok s'"
  shows "call_ok F (s, g) (s', g')"
proof -
  have refs: "handle_refs s' = handle_refs s"
    using assms(2) by (simp add: tables_kept_def same_tables_def handle_refs_def fun_eq_iff)
  from assms refs show ?thesis
    by (simp add: call_ok_def session_inv_def tables_kept_def same_tables_def)
qed

lemma buffer_added_ok:
  assumes "session_inv (F (linux_state g)) s" and "buffer_added F f i (s, g) (s', g')"
    and "pending_ok s'" and "drm s = Some f"
  shows "call_ok F (s, g) (s', g')"
proof -
  from assms(2) obtain b hs x where b: "worker_buffers s' = (worker_buffers s)(i \<mapsto> b)"
    and hs: "F (linux_state g) f = Some hs" "hs (bo_handle b) = None"
    and F': "F (linux_state g') = (F (linux_state g))(f \<mapsto> hs(bo_handle b \<mapsto> x))"
    and st: "same_tables (s, g) (s', g')"
    by (auto simp: buffer_added_def split: option.splits)
  have "handle_refs s' = (handle_refs s)((True, i) := Some (bo_handle b))"
    using b st by (auto simp: handle_refs_def same_tables_def fun_eq_iff)
  with open_handles_added [of hs "handle_refs s" "bo_handle b"] hs assms(1,4)
  have "refs_open (hs(bo_handle b \<mapsto> x)) s'" by (auto simp: session_inv_def)
  with assms(3,4) F' st show ?thesis
    by (auto simp: call_ok_def session_inv_def same_tables_def)
qed

lemma buffer_freed_ok:
  assumes "session_inv (F (linux_state g)) s" and "buffer_freed F f i (s, g) (s', g')"
    and "pending_ok s'" and "drm s = Some f"
  shows "call_ok F (s, g) (s', g')"
proof -
  from assms(2) obtain b hs where b: "worker_buffers s' = (worker_buffers s)(i := None)"
    and hs: "F (linux_state g) f = Some hs" "worker_buffers s i = Some b"
    and F': "F (linux_state g') = (F (linux_state g))(f \<mapsto> hs(bo_handle b := None))"
    and st: "same_tables (s, g) (s', g')"
    by (auto simp: buffer_freed_def)
  have r: "handle_refs s' = (handle_refs s)((True, i) := None)" "handle_refs s (True, i) = Some (bo_handle b)"
    using b st hs by (auto simp: handle_refs_def same_tables_def fun_eq_iff)
  with open_handles_removed [of hs "handle_refs s" "(True, i)" "bo_handle b"] hs assms(1,4)
  have "refs_open (hs(bo_handle b := None)) s'" by (auto simp: session_inv_def)
  with assms(3,4) F' st show ?thesis
    by (auto simp: call_ok_def session_inv_def same_tables_def)
qed

text \<open>A request that neither opens nor closes a handle the session refers to.\<close>

lemma perform_ok:
  assumes "drm_contract K F N" and "session_inv (F (linux_state g)) s"
    and "op_kind (fill (blank_operation kind)) = kind" and "kind \<notin> {INVALID, CLOSE, OPEN}"
    and "perform K self kind fill (s, g) = (res, (s', g'))" and "res \<noteq> Down"
  shows "call_ok F (s, g) (s', g')"
proof -
  from assms(2) obtain f hs where f: "drm s = Some f" "F (linux_state g) f = Some hs"
    and p: "pending_ok s" by (auto simp: session_inv_def)
  note spec = perform_spec [OF assms(1) f p assms(3) _ assms(5)]
  have eff: "perform_effect F N f (fill (blank_operation kind)) res (s, g) (s', g')"
    using spec(1) assms(4) by simp
  have p': "pending_ok s'" using spec(2) assms(4,6) by simp
  from eff assms(3,4,6) have "tables_kept F (s, g) (s', g')
      \<or> (\<exists>i. buffer_added F f i (s, g) (s', g')) \<or> (\<exists>i. buffer_freed F f i (s, g) (s', g'))"
    by (cases res) (auto simp: perform_effect_def request_effect_def name_given_def
        split: op_type.splits if_splits)
  then show ?thesis
    using tables_kept_ok [of F g s s' g'] buffer_added_ok [of F g s f _ s' g']
      buffer_freed_ok [of F g s f _ s' g'] assms(2) p' f(1) by blast
qed

text \<open>Opening a handle for an import, and closing one that is no longer referred to.\<close>

lemma handle_opened_ok:
  assumes "session_inv (F (linux_state g)) s" and "handle_opened F N f n h (s, g) (s', g')"
    and "pending_ok s'" and "drm s = Some f"
    and "vl_contains (vram_local_space s) i" and "lookup_import (vram_local_space s) i = None"
  shows "call_ok F (s, g) (s'\<lparr>vram_local_space :=
     vl_modify (vram_local_space s') i (\<lambda>v. v\<lparr>vl_import_handle := Some h\<rparr>)\<rparr>, g')"
    (is "call_ok F _ (?s, g')")
proof -
  from assms(2) obtain hs x where hs: "F (linux_state g) f = Some hs" "hs h = None"
    and F': "F (linux_state g') = (F (linux_state g))(f \<mapsto> hs(h \<mapsto> x))"
    and st: "same_tables (s, g) (s', g')" "worker_buffers s' = worker_buffers s"
    by (auto simp: handle_opened_def)
  have "handle_refs ?s = (handle_refs s)((False, i) := Some h)"
    using st assms(5) by (auto simp: handle_refs_def same_tables_def fun_eq_iff vl_contains_def
        lookup_import_def)
  with open_handles_added [of hs "handle_refs s" h] hs assms(1,4)
  have "refs_open (hs(h \<mapsto> x)) ?s" by (auto simp: session_inv_def)
  with assms(3,4) F' st show ?thesis
    by (auto simp: call_ok_def session_inv_def same_tables_def pending_ok_def)
qed

lemma handle_closed_ok:
  assumes "session_inv (F (linux_state g)) s" and "handle_closed F f h (s, g) (s', g')"
    and "pending_ok s'" and "drm s = Some f" and "lookup_import (vram_local_space s) i = Some h"
  shows "call_ok F (s, g) (s'\<lparr>vram_local_space := vl_remove (vram_local_space s') i\<rparr>, g')"
    (is "call_ok F _ (?s, g')")
proof -
  from assms(2) obtain hs where hs: "F (linux_state g) f = Some hs"
    and F': "F (linux_state g') = (F (linux_state g))(f \<mapsto> hs(h := None))"
    and st: "same_tables (s, g) (s', g')" "worker_buffers s' = worker_buffers s"
    by (auto simp: handle_closed_def)
  have "handle_refs ?s = (handle_refs s)((False, i) := None)" "handle_refs s (False, i) = Some h"
    using st assms(5) by (auto simp: handle_refs_def same_tables_def fun_eq_iff lookup_import_def)
  with open_handles_removed [of hs "handle_refs s" "(False, i)" h] hs assms(1,4)
  have "refs_open (hs(h := None)) ?s" by (auto simp: session_inv_def)
  with assms(3,4) F' st show ?thesis
    by (auto simp: call_ok_def session_inv_def same_tables_def pending_ok_def)
qed

lemma fewer_locals_ok:
  assumes "session_inv Fk s"
  shows "session_inv Fk (s\<lparr>vram_local_space := vl_remove (vram_local_space s) i\<rparr>)"
proof -
  have "refs_open hs (s\<lparr>vram_local_space := vl_remove (vram_local_space s) i\<rparr>)"
    if "refs_open hs s" for hs
    by (rule open_handles_less [OF that]) (auto simp: handle_refs_def lookup_import_def)
  with assms show ?thesis by (auto simp: session_inv_def pending_ok_def)
qed

lemma same_imports_ok:
  assumes "session_inv Fk s" and "\<And>i. lookup_import vs i = lookup_import (vram_local_space s) i"
  shows "session_inv Fk (s\<lparr>vram_local_space := vs\<rparr>)"
proof -
  have "handle_refs (s\<lparr>vram_local_space := vs\<rparr>) = handle_refs s"
    using assms(2) by (simp add: handle_refs_def fun_eq_iff)
  with assms(1) show ?thesis by (simp add: session_inv_def pending_ok_def)
qed

lemma call_ok_changed:
  assumes "call_ok F (s, g) (s', g')" and "linux_state g'' = linux_state g'"
    and "session_inv (F (linux_state g')) s' \<Longrightarrow> session_inv (F (linux_state g')) s''"
    and "drm s'' = drm s'"
  shows "call_ok F (s, g) (s'', g'')"
  using assms by (simp add: call_ok_def)

section \<open>The calls of the session interface\<close>

lemma session_inv_flags [simp]:
  "session_inv Fk (s\<lparr>pending_syncobj_wait := b\<rparr>) = session_inv Fk s"
  "session_inv Fk (s\<lparr>pending_wait := b\<rparr>) = session_inv Fk s"
  "session_inv Fk (s\<lparr>completion_sigh := b\<rparr>) = session_inv Fk s"
  "session_inv Fk (s\<lparr>completion_signals := n\<rparr>) = session_inv Fk s"
  "session_inv Fk (s\<lparr>notifications := n\<rparr>) = session_inv Fk s"
  "session_inv Fk (s\<lparr>ctx_id := c\<rparr>) = session_inv Fk s"
  "session_inv Fk (s\<lparr>sync_id := y\<rparr>) = session_inv Fk s"
  by (simp_all cong: session_inv_cong)

end
