(* ===== verification/Gpu_Safety.thy ===== *)
theory Gpu_Safety
  imports Gpu_Handles
begin

text \<open>
  The reachable states of the GPU driver: sessions come and go, clients call, worker tasks
  resume, Linux moves on and clients write their memory. In all of them the sessions hold
  open handles only (\<open>gpu_handles_open\<close>).
\<close>

section \<open>Calls keep the invariant\<close>

text \<open>The interface to Linux: its functions, and the contract they keep.\<close>

locale drm_files =
  fixes K :: "'k linux" and F :: "'k \<Rightarrow> files" and N :: "'k \<Rightarrow> u32 \<Rightarrow> nat option"
  assumes contract: "drm_contract K F N"
begin

lemmas perform_keeps = perform_ok [OF contract]

lemma execute_ok:
  assumes "session_inv (F (linux_state g)) s" and "execute K self i (s, g) = (res, (s', g'))"
    and "res \<noteq> Crash"
  shows "call_ok F (s, g) (s', g')"
proof -
  let ?fill = "\<lambda>x. x\<lparr>op_id := i, op_ctx_id := ctx_id s, op_syncobj_id := sync_id s\<rparr>"
  obtain r t h where p: "perform K self EXEC ?fill (s, g) = (r, (t, h))" by (rule prod_cases3)
  with assms(2,3) have "r \<noteq> Down" "s' = t" "g' = h"
    by (auto simp: execute_def split: scheduled.splits)
  with perform_keeps [OF assms(1) _ _ p] show ?thesis by simp
qed

lemma create_ctx_ok:
  assumes "session_inv (F (linux_state g)) s" and "create_ctx K self (s, g) = (res, (s', g'))"
    and "res \<noteq> Crash"
  shows "call_ok F (s, g) (s', g')"
proof -
  obtain r t h where p: "perform K self CTX_CREATE id (s, g) = (r, (t, h))" by (rule prod_cases3)
  with assms(2,3) have "r \<noteq> Down" "s' = t" "g' = h"
    by (auto simp: create_ctx_def split: scheduled.splits)
  with perform_keeps [OF assms(1) _ _ p] show ?thesis by simp
qed

lemma create_syncobj_ok:
  assumes "session_inv (F (linux_state g)) s" and "create_syncobj K self (s, g) = (res, (s', g'))"
    and "res \<noteq> Crash"
  shows "call_ok F (s, g) (s', g')"
proof -
  obtain r t h where p: "perform K self SYNCOBJ_CREATE id (s, g) = (r, (t, h))"
    by (rule prod_cases3)
  with assms(2,3) have "r \<noteq> Down" "s' = t" "g' = h"
    by (auto simp: create_syncobj_def split: scheduled.splits)
  with perform_keeps [OF assms(1) _ _ p] show ?thesis by simp
qed

lemma complete_ok:
  assumes "session_inv (F (linux_state g)) s" and "complete K self q (s, g) = (res, (s', g'))"
    and "res \<noteq> Crash"
  shows "call_ok F (s, g) (s', g')"
proof (cases "ucast ` set (sync_id s) \<inter> {q} = {} \<or>
    previous_wait SYNCOBJ_WAIT (pending_syncobj_wait s) s \<noteq> None")
  case True
  then show ?thesis
  proof
    assume "ucast ` set (sync_id s) \<inter> {q} = {}"
    with assms(1,2) show ?thesis by (auto simp: complete_def call_ok_refl)
  next
    assume "previous_wait SYNCOBJ_WAIT (pending_syncobj_wait s) s \<noteq> None"
    then obtain a b where "previous_wait SYNCOBJ_WAIT (pending_syncobj_wait s) s = Some (a, b)"
      by auto
    with assms(1,2) show ?thesis by (auto simp: complete_def call_ok_def split: if_splits)
  qed
next
  case False
  then have none: "previous_wait SYNCOBJ_WAIT (pending_syncobj_wait s) s = None" by blast
  from False have q: "q \<in> set (map ucast (sync_id s))" by auto
  let ?s = "s\<lparr>pending_syncobj_wait := False\<rparr>"
  let ?fill = "\<lambda>x. x\<lparr>op_syncobj_id := (op_syncobj_id x)[0 := ucast q]\<rparr>"
  obtain r t h where p: "perform K self SYNCOBJ_WAIT ?fill (?s, g) = (r, (t, h))"
    by (rule prod_cases3)
  with none q assms(2) have c: "(res, (s', g')) = (case (r, (t, h)) of
      (Succ c, st) \<Rightarrow> (Return (rq_success c), st)
    | (Fail, (s, g)) \<Rightarrow> (Return False, (s\<lparr>pending_syncobj_wait := True\<rparr>, g))
    | (Down, st) \<Rightarrow> (Crash, st))"
    by (simp add: complete_def)
  with assms(3) have "r \<noteq> Down" by auto
  with perform_keeps [OF _ _ _ p] assms(1) have "call_ok F (?s, g) (t, h)" by simp
  with c \<open>r \<noteq> Down\<close> show ?thesis by (cases r) (auto simp: call_ok_def)
qed

lemma set_tiling_gpu_ok:
  assumes "session_inv (F (linux_state g)) s" and "set_tiling_gpu K self i m (s, g) = (res, (s', g'))"
    and "res \<noteq> Crash"
  shows "call_ok F (s, g) (s', g')"
proof (cases "previous_wait WAIT (pending_wait s) s")
  case (Some a)
  with assms(1,2) show ?thesis by (cases a) (auto simp: set_tiling_gpu_def call_ok_def)
next
  case None
  let ?s = "s\<lparr>pending_wait := False\<rparr>"
  let ?fill = "\<lambda>x. x\<lparr>op_id := i, op_op := m\<rparr>"
  obtain r t h where p: "perform K self WAIT ?fill (?s, g) = (r, (t, h))"
    by (rule prod_cases3)
  with None assms(2) have c: "(res, (s', g')) = (case (r, (t, h)) of
      (Succ c, st) \<Rightarrow> (Return (rq_success c), st)
    | (Fail, (s, g)) \<Rightarrow> (Return False, (s\<lparr>pending_wait := True\<rparr>, g))
    | (Down, st) \<Rightarrow> (Crash, st))"
    by (simp add: set_tiling_gpu_def)
  with assms(3) have "r \<noteq> Down" by auto
  with perform_keeps [OF _ _ _ p] assms(1) have "call_ok F (?s, g) (t, h)" by simp
  with c \<open>r \<noteq> Down\<close> show ?thesis by (cases r) (auto simp: call_ok_def)
qed

lemma attempt_ok:
  assumes "session_inv (F (linux_state g)) s" and "attempt (perform K self kind fill (s, g)) x = (res, (s', g'))"
    and "res \<noteq> Crash" and "op_kind (fill (blank_operation kind)) = kind" and "kind \<notin> {INVALID, CLOSE, OPEN}"
  shows "call_ok F (s, g) (s', g')"
proof -
  obtain r t h where p: "perform K self kind fill (s, g) = (r, (t, h))" by (rule prod_cases3)
  with assms(2,3) have "r \<noteq> Down" "s' = t" "g' = h"
    by (auto simp: attempt_def split: scheduled.splits)
  with perform_keeps [OF assms(1,4,5) p] show ?thesis by simp
qed

lemma unmap_cpu_ok:
  assumes inv: "session_inv (F (linux_state g)) s"
    and call: "unmap_cpu K self i (s, g) = (res, (s', g'))" and "res \<noteq> Crash"
  shows "call_ok F (s, g) (s', g')"
proof (cases "map_of (vram_local_space s) i")
  case None
  with call inv show ?thesis by (simp add: unmap_cpu_def call_ok_refl)
next
  case (Some vl)
  show ?thesis
  proof (cases "vl_export_name vl \<noteq> None \<or> vl_import_handle vl = None")
    case True
    with Some call have "s' = s\<lparr>vram_local_space := vl_remove (vram_local_space s) i\<rparr>" "g' = g"
      by (auto simp: unmap_cpu_def split: if_splits)
    with fewer_locals_ok [OF inv] show ?thesis by (simp add: call_ok_def)
  next
    case False
    then obtain h where h: "vl_import_handle vl = Some h" "vl_export_name vl = None" by auto
    let ?fill = "\<lambda>x. x\<lparr>op_id := i, op_handle := h\<rparr>"
    obtain r t k where p: "perform K self CLOSE ?fill (s, g) = (r, (t, k))" by (rule prod_cases3)
    with Some h call assms(3) have r: "r \<noteq> Down"
      and s': "s' = t\<lparr>vram_local_space := vl_remove (vram_local_space t) i\<rparr>" "g' = k"
      by (auto simp: unmap_cpu_def attempt_def split: scheduled.splits)
    obtain f hs where f: "drm s = Some f" "F (linux_state g) f = Some hs" "pending_ok s"
      using inv by (auto simp: session_inv_def)
    note spec = perform_spec [OF contract f _ _ p]
    have "pending_ok t" using spec(2) r by simp
    moreover have "tables_kept F (s, g) (t, k) \<or> handle_closed F f h (s, g) (t, k)"
      using spec(1) r by (cases r) (auto simp: perform_effect_def request_effect_def)
    moreover have "lookup_import (vram_local_space s) i = Some h"
      using Some h by (simp add: lookup_import_def)
    ultimately show ?thesis
      using handle_closed_ok [where F = F, OF inv, of f h t k i] tables_kept_ok [where F = F, OF inv, of t k]
        fewer_locals_ok [of "F (linux_state k)" t i] f(1) s'
      by (auto simp: call_ok_def)
  qed
qed

lemma map_gpu_ok:
  assumes inv: "session_inv (F (linux_state g)) s"
    and call: "map_gpu K self a b i sz va (s, g) = (res, (s', g'))" and "res \<noteq> Crash"
  shows "call_ok F (s, g) (s', g')"
proof (cases "lookup_buffer (worker_buffers s) i \<noteq> None \<or> 0xffffffff < sz")
  case True
  then have "map_gpu K self a b i sz va (s, g) = (Return False, (s, g))"
    by (elim disjE) (simp_all add: map_gpu_def)
  with call inv show ?thesis by (simp add: call_ok_refl)
next
  case False
  let ?fill = "\<lambda>x. x\<lparr>op_id := i, op_va := ucast va, op_size := of_nat sz\<rparr>"
  obtain r t h where p: "perform K self ALLOC ?fill (s, g) = (r, (t, h))" by (rule prod_cases3)
  with False call assms(3) have r: "r \<noteq> Down" by (auto simp: map_gpu_def)
  with perform_keeps [OF inv _ _ p] have ok: "call_ok F (s, g) (t, h)" by simp
  then have inv': "session_inv (F (linux_state h)) t" by (simp add: call_ok_def)
  have rollback: "call_ok F (s, g) (s', g')"
    if "map_gpu_rollback K self i (t, hh) = (res, (s', g'))" and "linux_state hh = linux_state h" for hh
    using attempt_ok [OF _ that(1) [unfolded map_gpu_rollback_def] assms(3)] inv' ok that(2)
    by (auto simp: call_ok_def)
  show ?thesis
  proof (cases r)
    case Fail
    with False p call ok show ?thesis by (simp add: map_gpu_def)
  next
    case (Succ c)
    show ?thesis
    proof (cases "worker_buffers t i = None \<or> \<not> a \<or> \<not> b \<or> vl_contains (vram_local_space t) i")
      case True
      then show ?thesis
        using \<open>\<not> (lookup_buffer (worker_buffers s) i \<noteq> None \<or> 0xffffffff < sz)\<close> p call Succ
        by (auto simp: map_gpu_def Let_def split: option.splits if_splits intro: rollback)
    next
      case False
      with \<open>\<not> (lookup_buffer (worker_buffers s) i \<noteq> None \<or> 0xffffffff < sz)\<close> p call Succ
      have s': "s' = t\<lparr>vram_local_space := vram_local_space t @ [(i, \<lparr>vl_cap = next_cap h,
          vl_export_name = None, vl_import_handle = None\<rparr>)]\<rparr>" "linux_state g' = linux_state h"
        by (auto simp: map_gpu_def Let_def split: option.splits)
      from False have i: "map_of (vram_local_space t) i = None" by (simp add: vl_contains_def)
      have "session_inv (F (linux_state h)) s'"
        unfolding s' by (rule same_imports_ok [OF inv'])
          (use i in \<open>auto simp: lookup_import_def map_add_def split: option.split\<close>)
      with ok s' show ?thesis by (simp add: call_ok_def)
    qed
  qed (use r in simp)
qed

lemma unmap_gpu_ok:
  assumes inv: "session_inv (F (linux_state g)) s"
    and call: "unmap_gpu K self i (s, g) = (res, (s', g'))" and "res \<noteq> Crash"
  shows "call_ok F (s, g) (s', g')"
proof (cases "map_of (vram_local_space s) i")
  case None
  with call inv show ?thesis by (simp add: unmap_gpu_def call_ok_refl)
next
  case (Some vl)
  with call assms(3) obtain v where v: "vram_pool g (vl_cap vl) = Some v"
    by (auto simp: unmap_gpu_def split: option.splits)
  show ?thesis
  proof (cases "gv_owner v = self")
    case False
    with Some v call inv show ?thesis by (simp add: unmap_gpu_def call_ok_refl)
  next
    case True
    let ?s = "s\<lparr>vram_local_space := vl_remove (vram_local_space s) i\<rparr>"
    let ?g = "g\<lparr>vram_pool := (vram_pool g)(vl_cap vl := None)\<rparr>"
    let ?fill = "\<lambda>x. x\<lparr>op_id := i, op_handle := (case vl_export_name vl of
                         None \<Rightarrow> op_handle x | Some n \<Rightarrow> n)\<rparr>"
    from True Some v call have a: "attempt (perform K self FREE ?fill (?s, ?g)) True = (res, (s', g'))"
      by (simp add: unmap_gpu_def)
    have "session_inv (F (linux_state ?g)) ?s" using fewer_locals_ok [OF inv] by simp
    from attempt_ok [OF this a assms(3)] show ?thesis by (simp add: call_ok_def)
  qed
qed

lemma export_name_ok:
  assumes inv: "session_inv (F (linux_state g)) s"
    and call: "export_name K self i (s, g) = (res, (s', g'))" and "res \<noteq> Crash"
  shows "call_ok F (s, g) (s', g')"
proof (cases "lookup_export (vram_local_space s) i")
  case (Some n)
  with call inv show ?thesis by (simp add: export_name_def call_ok_refl)
next
  case None
  obtain r t h where p: "perform K self FLINK (\<lambda>x. x\<lparr>op_id := i\<rparr>) (s, g) = (r, (t, h))"
    by (rule prod_cases3)
  with None call assms(3) have r: "r \<noteq> Down" by (auto simp: export_name_def)
  with perform_keeps [OF inv _ _ p] have ok: "call_ok F (s, g) (t, h)" by simp
  show ?thesis
  proof (cases r)
    case Fail
    with None p call ok show ?thesis by (simp add: export_name_def)
  next
    case (Succ c)
    let ?vs = "vl_modify (vram_local_space t) i (\<lambda>v. v\<lparr>vl_export_name := Some (op_name (rq_operation c))\<rparr>)"
    from Succ None p call have s': "s' = t\<lparr>vram_local_space := ?vs\<rparr>" "g' = h"
      by (simp_all add: export_name_def Let_def)
    have "session_inv (F (linux_state h)) s'"
      unfolding s' by (rule same_imports_ok)
        (use ok in \<open>auto simp: call_ok_def lookup_import_def split: bind_splits\<close>)
    with ok s' show ?thesis by (simp add: call_ok_def)
  qed (use r in simp)
qed

lemma export_vram_ok:
  assumes inv: "session_inv (F (linux_state g)) s"
    and call: "export_vram K self i (s, g) = (res, (s', g'))" and "res \<noteq> Crash"
  shows "call_ok F (s, g) (s', g')"
proof (cases "vl_contains (vram_local_space s) i")
  case False
  with call inv show ?thesis by (simp add: export_vram_def call_ok_refl)
next
  case True
  obtain r t h where e: "export_name K self i (s, g) = (r, (t, h))" by (rule prod_cases3)
  have "r \<noteq> Crash \<and> s' = t \<and> linux_state g' = linux_state h"
    using True e call assms(3) by (auto simp: export_vram_def split: result.splits option.splits)
  with export_name_ok [OF inv e] show ?thesis by (auto simp: call_ok_def)
qed

lemma import_vram_ok:
  assumes inv: "session_inv (F (linux_state g)) s"
    and call: "import_vram K self a cap i (s, g) = (res, (s', g'))" and "res \<noteq> Crash"
  shows "call_ok F (s, g) (s', g')"
proof -
  define s1 where "s1 = add_local cap i s"
  have inv1: "session_inv (F (linux_state g)) s1"
    unfolding s1_def add_local_def using inv
    by (auto intro!: same_imports_ok simp: vl_contains_def lookup_import_def map_add_def
        split: option.splits)
  have drm1 [simp]: "drm s1 = drm s" by (simp add: s1_def add_local_def)
  have contains: "vl_contains (vram_local_space s1) i" 
    by (auto simp: s1_def add_local_def vl_contains_def map_add_def split: option.split)
  show ?thesis
  proof (cases "(\<not> vl_contains (vram_local_space s) i \<and> \<not> a) \<or> lookup_import (vram_local_space s1) i \<noteq> None")
    case True
    then have "(s', g') = (s, g) \<or> (s', g') = (s1, g)"
      using call by (auto simp: import_vram_def s1_def split: if_splits)
    with inv inv1 show ?thesis by (auto simp: call_ok_def)
  next
    case False
    with call assms(3) obtain v where v: "vram_pool g cap = Some v"
      by (auto simp: import_vram_def s1_def Let_def split: option.splits)
    let ?n = "case gv_import_name v of None \<Rightarrow> 0 | Some n \<Rightarrow> n"
    obtain r t h where p: "perform K self OPEN (\<lambda>x. x\<lparr>op_name := ?n\<rparr>) (s1, g) = (r, (t, h))"
      by (rule prod_cases3)
    have c: "(res, (s', g')) = (case (r, (t, h)) of
        (Succ c, (s, g)) \<Rightarrow> (Return (), (s\<lparr>vram_local_space := vl_modify (vram_local_space s) i
            (\<lambda>v. v\<lparr>vl_import_handle := Some (op_handle (rq_operation c))\<rparr>)\<rparr>, g))
      | (Fail, st) \<Rightarrow> (Invalid_state, st) | (Down, st) \<Rightarrow> (Crash, st))"
      using False v p call by (auto simp: import_vram_def s1_def [symmetric] Let_def)
    with assms(3) have r: "r \<noteq> Down" by auto
    obtain f hs where f: "drm s1 = Some f" "F (linux_state g) f = Some hs" "pending_ok s1"
      using inv1 by (auto simp: session_inv_def)
    note spec = perform_spec [OF contract f _ _ p]
    have t: "pending_ok t" using spec(2) r by simp
    show ?thesis
    proof (cases r)
      case Fail
      then have "tables_kept F (s1, g) (t, h)"
        using spec(1) by (auto simp: perform_effect_def)
      with tables_kept_ok [where F = F, OF inv1 _ t] c Fail show ?thesis by (simp add: call_ok_def)
    next
      case (Succ q)
      then have "handle_opened F N f ?n (op_handle (rq_operation q)) (s1, g) (t, h)"
        using spec(1) by (auto simp: perform_effect_def request_effect_def)
      from handle_opened_ok [where F = F, OF inv1 this t f(1) contains] False c Succ show ?thesis
        by (simp add: call_ok_def)
    qed (use r in simp)
  qed
qed

lemma handle_rpc_ok:
  assumes "session_inv (F (linux_state g)) s" and "handle_rpc K self c (s, g) = (True, (s', g'))"
  shows "call_ok F (s, g) (s', g')"
proof (cases c)
  case (Completion_sigh v)
  with assms show ?thesis by (auto simp: after_def set_completion_sigh_def call_ok_def)
next
  case (Map_cpu i)
  with assms show ?thesis by (auto simp: after_def map_cpu_def call_ok_def)
qed (use assms in \<open>auto simp: after_def prod_eq_iff
      intro: execute_ok complete_ok unmap_cpu_ok map_gpu_ok unmap_gpu_ok set_tiling_gpu_ok
        export_vram_ok import_vram_ok\<close>)

lemma worker_pass_ok:
  assumes inv: "session_inv (F (linux_state g)) s" and w: "worker_pass K (s, g) = (True, (s', g'))"
  shows "call_ok F (s, g) (s', g')"
proof (cases "pending_request s")
  case None
  with inv w show ?thesis by (simp add: worker_pass_def call_ok_refl)
next
  case (Some r)
  obtain f hs where f: "drm s = Some f" "F (linux_state g) f = Some hs" and p: "pending_ok s"
    using inv by (auto simp: session_inv_def)
  have kind: "op_kind (rq_operation r) \<in> {WAIT, SYNCOBJ_WAIT}" using p Some by (auto simp: pending_ok_def)
  then have "rq_valid r" by (auto simp: rq_valid_def op_valid_def)
  from worker_pass_effect [OF contract f Some this w] obtain out
    where eff: "request_effect F N f (rq_operation r) out (s, g) (s', g')"
      and out: "case out of Finished r' n \<Rightarrow> completed_request s' = Some r' \<and> pending_request s' = None
        | Blocked \<Rightarrow> completed_request s' = None \<and> pending_request s' = Some r | Crashed \<Rightarrow> False" by blast
  have "tables_kept F (s, g) (s', g')"
    using eff out kind by (auto simp: request_effect_def split: outcome.splits)
  moreover have "pending_ok s'" using out kind by (auto simp: pending_ok_def split: outcome.splits)
  ultimately show ?thesis using tables_kept_ok [where F = F, OF inv] by blast
qed

section \<open>Creation and destruction of sessions\<close>

lemma populate_keeps_files:
  assumes "populate_loop K k (Some f) ps xs = (ys, k')" and "F k f \<noteq> None"
  shows "F k' = F k"
  using assms
proof (induction ps arbitrary: k xs)
  case (Cons p ps)
  obtain e rp k1 where io: "k_ioctl K k f (Lima_get_param (of_nat p)) = (e, rp, k1)"
    by (rule prod_cases3)
  from Cons.prems(2) obtain hs where "F k f = Some hs" by auto
  from contract_ioctl [OF contract this io] have k1: "F k1 = F k" by simp
  with Cons io show ?case
    by (auto simp: drm_calls split: if_splits prod.splits)
qed simp

lemma do_open_session:
  assumes "do_local K L_OPEN (blank_session, g) = (True, (s, g'))"
  shows "\<exists>f. drm s = Some f \<and> F (linux_state g) f = None
     \<and> F (linux_state g') = (F (linux_state g))(f \<mapsto> Map.empty)
     \<and> session_inv (F (linux_state g')) s"
proof -
  from assms obtain f k where "k_open K (linux_state g) = (Some f, k)"
    by (auto simp: blank_session_def lx_drm_open_def split: prod.splits option.splits)
  moreover obtain xs k' where p: "populate_info K k (Some f) = (xs, k')" by (cases "populate_info K k (Some f)")
  ultimately have s: "s = blank_session\<lparr>drm := Some f, info := xs\<rparr>" "linux_state g' = k'"
    using assms by (auto simp: blank_session_def lx_drm_open_def)
  have F: "F (linux_state g) f = None" "F k = (F (linux_state g))(f \<mapsto> Map.empty)"
    using contract \<open>k_open K (linux_state g) = (Some f, k)\<close> by (auto simp: drm_contract_def)
  have "F k' = F k" using populate_keeps_files [of k f] p F by (auto simp: populate_info_def)
  with F s show ?thesis
    by (auto simp: session_inv_def pending_ok_def blank_session_def open_handles_def
        handle_refs_def lookup_import_def)
qed

lemma construct_session_none:
  assumes "construct_session K self task_ok g = (Return None, g')"
  shows "F (linux_state g') = F (linux_state g)"
proof (cases task_ok)
  case False
  with assms show ?thesis by (simp add: construct_session_def)
next
  case True
  obtain ok s h where o: "do_local K L_OPEN (blank_session, g) = (ok, (s, h))" by (rule prod_cases3)
  with True assms have "\<not> ok" "g' = h"
    by (auto simp: construct_session_def local_request_def blank_session_def request_pending_def
        split: if_splits result.splits bool.splits prod.splits)
  with o have "k_open K (linux_state g) = (None, linux_state g')"
    by (auto simp: blank_session_def lx_drm_open_def split: prod.splits option.splits)
  with contract show ?thesis by (simp add: drm_contract_def)
qed

lemma construct_session_ok:
  assumes "construct_session K self task_ok g = (Return (Some s), g')"
  shows "\<exists>f. drm s = Some f \<and> F (linux_state g) f = None
     \<and> session_inv (F (linux_state g')) s
     \<and> (\<forall>f'. f' \<noteq> f \<longrightarrow> F (linux_state g') f' = F (linux_state g) f')"
proof -
  obtain s1 g1 where o1: "do_local K L_OPEN (blank_session, g) = (True, (s1, g1))"
    using assms by (auto simp: construct_session_def local_request_def blank_session_def
        request_pending_def split: if_splits prod.splits bool.splits)
  from do_open_session [OF this] obtain f where f: "drm s1 = Some f" "F (linux_state g) f = None"
    "F (linux_state g1) = (F (linux_state g))(f \<mapsto> Map.empty)" "session_inv (F (linux_state g1)) s1"
    by blast
  obtain c s2 g2 where c2: "create_ctx K self (s1, g1) = (c, (s2, g2))" by (rule prod_cases3)
  obtain y s3 g3 where c3: "create_syncobj K self (s2\<lparr>ctx_id := (case c of Return x \<Rightarrow> x)\<rparr>, g2) = (y, (s3, g3))"
    by (rule prod_cases3)
  obtain z s4 g4 where c4: "create_syncobj K self (s3\<lparr>sync_id := [case y of Return x \<Rightarrow> x, 0]\<rparr>, g3) = (z, (s4, g4))"
    by (rule prod_cases3)
  have parts: "c \<noteq> Crash \<and> y \<noteq> Crash \<and> z \<noteq> Crash \<and> g' = g4 \<and> (\<exists>ys. s = s4\<lparr>sync_id := ys\<rparr>)"
    using assms o1 c2 c3 c4
    by (auto simp: construct_session_def local_request_def blank_session_def request_pending_def
        split: if_splits result.splits)
  have "call_ok F (s1, g1) (s2, g2)" using create_ctx_ok [OF f(4) c2] parts by simp
  then have a2: "drm s2 = Some f" "session_inv (F (linux_state g2)) s2"
    "\<forall>f'. f' \<noteq> f \<longrightarrow> F (linux_state g2) f' = F (linux_state g1) f'"
    using f(1) by (auto simp: call_ok_def)
  have "call_ok F (s2\<lparr>ctx_id := (case c of Return x \<Rightarrow> x)\<rparr>, g2) (s3, g3)"
    using create_syncobj_ok [OF _ c3] a2(2) parts by simp
  then have a3: "drm s3 = Some f" "session_inv (F (linux_state g3)) s3"
    "\<forall>f'. f' \<noteq> f \<longrightarrow> F (linux_state g3) f' = F (linux_state g2) f'"
    using a2(1) by (auto simp: call_ok_def)
  have "call_ok F (s3\<lparr>sync_id := [case y of Return x \<Rightarrow> x, 0]\<rparr>, g3) (s4, g4)"
    using create_syncobj_ok [OF _ c4] a3(2) parts by simp
  then have a4: "drm s4 = Some f" "session_inv (F (linux_state g4)) s4"
    "\<forall>f'. f' \<noteq> f \<longrightarrow> F (linux_state g4) f' = F (linux_state g3) f'"
    using a3(1) by (auto simp: call_ok_def)
  show ?thesis
    using parts a4 a3(3) a2(3) f(2,3) by auto
qed

text \<open>The destruction of a session touches its own file only.\<close>

definition confined :: "nat \<Rightarrow> 'k gpu_state \<Rightarrow> 'k gpu_state \<Rightarrow> bool" where
  "confined f st st' \<longleftrightarrow> drm (fst st) = Some f \<and> pending_ok (fst st) \<and> F (linux_state (snd st)) f \<noteq> None
     \<longrightarrow> drm (fst st') = Some f \<and> pending_ok (fst st') \<and> F (linux_state (snd st')) f \<noteq> None
       \<and> (\<forall>f'. f' \<noteq> f \<longrightarrow> F (linux_state (snd st')) f' = F (linux_state (snd st)) f')"

lemma confined_refl: "confined f st st"
  by (simp add: confined_def)

lemma confined_cong:
  assumes "drm (fst st1) = drm (fst st2)" and "linux_state (snd st1) = linux_state (snd st2)"
    and "pending_request (fst st1) = pending_request (fst st2)"
  shows "confined f st1 st' = confined f st2 st'"
  unfolding confined_def pending_ok_def assms by (rule refl)

lemma confined_trans: "confined f st st' \<Longrightarrow> confined f st' st'' \<Longrightarrow> confined f st st''"
  by (simp add: confined_def)

lemma perform_confined:
  assumes "op_kind (fill (blank_operation kind)) = kind" and "kind \<noteq> INVALID"
    and "perform K self kind fill st = (res, st')" and "res \<noteq> Down"
  shows "confined f st st'"
  unfolding confined_def
proof (intro impI)
  obtain s g s' g' where st: "st = (s, g)" "st' = (s', g')" by (cases st, cases st')
  assume "drm (fst st) = Some f \<and> pending_ok (fst st) \<and> F (linux_state (snd st)) f \<noteq> None"
  then obtain hs where f: "drm s = Some f" "F (linux_state g) f = Some hs" "pending_ok s"
    using st by auto
  note spec = perform_spec [OF contract f assms(1,2) assms(3) [unfolded st]]
  have "pending_ok s'" using spec(2) assms(4) .
  moreover from spec(1) assms(4) have "drm s' = Some f \<and> (F (linux_state g') = F (linux_state g)
      \<or> (\<exists>hs. F (linux_state g') = (F (linux_state g))(f \<mapsto> hs)))"
    using f(1) by (cases res) (auto simp: perform_effect_def request_effect_def effect_defs same_tables_def
        split: op_type.splits if_splits option.splits)
  ultimately show "drm (fst st') = Some f \<and> pending_ok (fst st') \<and> F (linux_state (snd st')) f \<noteq> None
       \<and> (\<forall>f'. f' \<noteq> f \<longrightarrow> F (linux_state (snd st')) f' = F (linux_state (snd st)) f')"
    using f(2) st by auto
qed

lemma attempt_confined:
  assumes "op_kind (fill (blank_operation kind)) = kind" and "kind \<noteq> INVALID"
    and "attempt (perform K self kind fill st) x = (Return y, st')"
  shows "confined f st st'"
proof -
  obtain r st1 where p: "perform K self kind fill st = (r, st1)" by (cases "perform K self kind fill st")
  with assms(3) have "r \<noteq> Down" "st' = st1" by (auto simp: attempt_def split: scheduled.splits)
  with perform_confined [OF assms(1,2) p] show ?thesis by simp
qed

lemma close_imports_confined:
  "close_imports K self vs st = (Return u, st') \<Longrightarrow> confined f st st'"
proof (induction vs arbitrary: st)
  case (Cons x vs)
  obtain i vl where x: "x = (i, vl)" by (cases x)
  show ?case
  proof (cases "vl_export_name vl \<noteq> None \<or> vl_import_handle vl = None")
    case True
    then have "close_imports K self (x # vs) st = close_imports K self vs st"
      by (elim disjE) (simp_all add: x)
    with Cons show ?thesis by simp
  next
    case False
    then obtain h where h: "vl_import_handle vl = Some h" "vl_export_name vl = None" by auto
    let ?fill = "\<lambda>x. x\<lparr>op_id := i, op_handle := h\<rparr>"
    obtain r st1 where p: "perform K self CLOSE ?fill st = (r, st1)" by (cases "perform K self CLOSE ?fill st")
    with Cons.prems x h have r: "r \<noteq> Down" and rest: "close_imports K self vs st1 = (Return u, st')"
      by (auto split: scheduled.splits)
    have "confined f st st1" using perform_confined [OF _ _ p r] by simp
    from this Cons.IH [OF rest] show ?thesis by (rule confined_trans)
  qed
qed (simp add: confined_refl)

lemma unmap_gpu_confined:
  assumes "unmap_gpu K self i st = (Return b, st')"
  shows "confined f st st'"
proof -
  obtain s g where st: "st = (s, g)" by (cases st)
  show ?thesis
  proof (cases "map_of (vram_local_space s) i")
    case None
    with assms st show ?thesis by (simp add: unmap_gpu_def confined_refl)
  next
    case (Some vl)
    with assms st obtain v where v: "vram_pool g (vl_cap vl) = Some v"
      by (auto simp: unmap_gpu_def split: option.splits)
    show ?thesis
    proof (cases "gv_owner v = self")
      case False
      with Some v assms st show ?thesis by (simp add: unmap_gpu_def confined_refl)
    next
      case True
      let ?st = "(s\<lparr>vram_local_space := vl_remove (vram_local_space s) i\<rparr>,
        g\<lparr>vram_pool := (vram_pool g)(vl_cap vl := None)\<rparr>)"
      let ?fill = "\<lambda>x. x\<lparr>op_id := i, op_handle := (case vl_export_name vl of
                         None \<Rightarrow> op_handle x | Some n \<Rightarrow> n)\<rparr>"
      have a: "attempt (perform K self FREE ?fill ?st) True = (Return b, st')"
        using True Some v assms unfolding st unmap_gpu_def by simp
      have "op_kind (?fill (blank_operation FREE)) = FREE" by simp
      from attempt_confined [OF this _ a] have "confined f ?st st'" by simp
      moreover have "confined f ?st st' = confined f st st'"
        unfolding st by (rule confined_cong) simp_all
      ultimately show ?thesis by simp
    qed
  qed
qed

lemma remove_local_confined:
  "confined f st (fst st\<lparr>vram_local_space := vs\<rparr>, snd st)"
  by (simp add: confined_def pending_ok_def)

lemma destroy_locals_confined:
  "destroy_locals K self vs st = (Return u, st') \<Longrightarrow> confined f st st'"
proof (induction vs arbitrary: st)
  case (Cons x vs)
  obtain i vl where x: "x = (i, vl)" by (cases x)
  let ?st = "(fst st\<lparr>vram_local_space := vl_remove (vram_local_space (fst st)) i\<rparr>, snd st)"
  show ?case
  proof (cases "vl_import_handle vl \<noteq> None")
    case True
    with Cons.prems x have "destroy_locals K self vs ?st = (Return u, st')" by simp
    from Cons.IH [OF this] show ?thesis
      using confined_trans [OF remove_local_confined] by blast
  next
    case False
    obtain r st1 where c: "unmap_gpu K self i st = (r, st1)" by (cases "unmap_gpu K self i st")
    with Cons.prems x False obtain b where r: "r = Return b"
      and rest: "destroy_locals K self vs (if b then st1 else
        (fst st1\<lparr>vram_local_space := vl_remove (vram_local_space (fst st1)) i\<rparr>, snd st1)) = (Return u, st')"
      by (cases r; cases st1) (auto split: bool.splits)
    have "confined f st st1" using unmap_gpu_confined c r by blast
    then have "confined f st (if b then st1 else
        (fst st1\<lparr>vram_local_space := vl_remove (vram_local_space (fst st1)) i\<rparr>, snd st1))"
      using confined_trans [OF _ remove_local_confined] by (cases b) auto
    with Cons.IH [OF rest] show ?thesis by (rule confined_trans [rotated])
  qed
qed (simp add: confined_refl)

lemma and_then_Return:
  "and_then a h = (Return x, st') \<Longrightarrow> \<exists>y st. a = (Return y, st) \<and> h st = (Return x, st')"
  by (cases a; cases "fst a") (auto simp: and_then_def)

lemma destruct_session_files:
  assumes "destruct_session K self (s, g) = (Return closed, (s', g'))"
    and "session_inv (F (linux_state g)) s" and "drm s = Some f"
  shows "\<forall>f'. f' \<noteq> f \<longrightarrow> F (linux_state g') f' = F (linux_state g) f'"
proof -
  from assms(1) obtain st1 st2 st3 st4 st5 u1 u2 u3 u4 u5
    where c1: "close_imports K self (vram_local_space s) (s, g) = (Return u1, st1)"
      and c2: "destroy_locals K self (vram_local_space (fst st1)) st1 = (Return u2, st2)"
      and c3: "destroy_syncobj K self (sync_id (fst st2) ! 0) st2 = (Return u3, st3)"
      and c4: "destroy_syncobj K self (sync_id (fst st3) ! 1) st3 = (Return u4, st4)"
      and c5: "free_ctx K self (ctx_id (fst st4)) st4 = (Return u5, st5)"
      and c6: "(case local_request K L_CLOSE st5 of (closed, st) \<Rightarrow> (Return closed, st)) = (Return closed, (s', g'))"
    unfolding destruct_session_def by (auto dest!: and_then_Return)
  have "confined f st2 st3"
    using c3 unfolding destroy_syncobj_def by (rule attempt_confined [rotated 2]) simp_all
  moreover have "confined f st3 st4"
    using c4 unfolding destroy_syncobj_def by (rule attempt_confined [rotated 2]) simp_all
  moreover have "confined f st4 st5"
    using c5 unfolding free_ctx_def by (rule attempt_confined [rotated 2]) simp_all
  ultimately have all: "confined f (s, g) st5"
    using close_imports_confined [OF c1, of f] destroy_locals_confined [OF c2, of f]
    by (blast intro: confined_trans)
  have "drm s = Some f \<and> pending_ok s \<and> F (linux_state g) f \<noteq> None"
    using assms(2,3) by (auto simp: session_inv_def)
  with all have st5: "drm (fst st5) = Some f" "pending_ok (fst st5)" "F (linux_state (snd st5)) f \<noteq> None"
    "\<And>f'. f' \<noteq> f \<Longrightarrow> F (linux_state (snd st5)) f' = F (linux_state g) f'"
    unfolding confined_def by auto
  obtain t h where t: "st5 = (t, h)" by (cases st5)
  have "F (linux_state g') f' = F (linux_state h) f'" if "f' \<noteq> f" for f'
  proof (cases "pending_request t")
    case None
    then have "\<not> request_pending t" by (simp add: request_pending_def)
    with c6 t st5(1) have "linux_state g' = k_release K (linux_state h) f"
      by (auto simp: local_request_def lx_drm_close_def split: if_splits)
    then show ?thesis using contract that by (simp add: drm_contract_def)
  next
    case (Some r)
    have kind: "op_kind (rq_operation r) \<in> {WAIT, SYNCOBJ_WAIT}"
      using st5(2) t Some by (auto simp: pending_ok_def)
    then have valid: "rq_valid r" by (auto simp: rq_valid_def op_valid_def)
    have "request_pending t" using Some valid by (simp add: request_pending_def)
    with c6 t have w: "snd (worker_pass K (t, h)) = (s', g')" by (auto simp: local_request_def)
    obtain hs where hs: "F (linux_state h) f = Some hs" using st5(3) t by auto
    obtain ok where wp: "worker_pass K (t, h) = (ok, (s', g'))" using w by (cases "worker_pass K (t, h)") auto
    show ?thesis
    proof (cases ok)
      case True
      with wp have "worker_pass K (t, h) = (True, (s', g'))" by simp
      from worker_pass_effect [OF contract _ hs Some valid this] st5(1) t kind
      show ?thesis
        by (auto simp: request_effect_def tables_kept_def split: outcome.splits)
    next
      case False
      with wp Some valid kind st5(1) t show ?thesis
        by (auto simp: worker_pass_def dispatch.simps do_wait_def do_syncobj_wait_def Let_def
            split: outcome.splits option.splits if_splits prod.splits)
    qed
  qed
  with st5(4) t show ?thesis by simp
qed

end

section \<open>Reachable states\<close>

definition driver_inv :: "('k \<Rightarrow> files) \<Rightarrow> 'k gpu_driver \<Rightarrow> bool" where
  "driver_inv F d \<longleftrightarrow>
     (\<forall>i s. gpu_sessions d i = Some s \<longrightarrow> session_inv (F (linux_state (gpu d))) s)
     \<and> (\<forall>i j s t. gpu_sessions d i = Some s \<longrightarrow> gpu_sessions d j = Some t \<longrightarrow> drm s = drm t \<longrightarrow> i = j)"

text \<open>Linux on its own opens and closes no handle of the driver.\<close>

inductive gpu_reach :: "'k linux \<Rightarrow> ('k \<Rightarrow> files) \<Rightarrow> 'k gpu_driver \<Rightarrow> bool"
  for K :: "'k linux" and F :: "'k \<Rightarrow> files" where
  gpu_start: "gpu_reach K F (gpu_init k m)"
| gpu_next: "gpu_reach K F d \<Longrightarrow> gpu_handle K e d = Some d' \<Longrightarrow>
    (\<And>k. e = Linux k \<Longrightarrow> F k = F (linux_state (gpu d))) \<Longrightarrow> gpu_reach K F d'"

lemma driver_inv_session:
  assumes "driver_inv F d" and "gpu_sessions d self = Some s"
    and "call_ok F (s, gpu d) (s', g')"
  shows "driver_inv F (d\<lparr>gpu := g', gpu_sessions := (gpu_sessions d)(self \<mapsto> s')\<rparr>)"
proof -
  from assms have inv: "\<And>i t. gpu_sessions d i = Some t \<Longrightarrow> session_inv (F (linux_state (gpu d))) t"
    and dist: "\<And>i j t u. gpu_sessions d i = Some t \<Longrightarrow> gpu_sessions d j = Some u \<Longrightarrow> drm t = drm u \<Longrightarrow> i = j"
    and s': "drm s' = drm s" "session_inv (F (linux_state g')) s'"
    and other: "\<And>f. drm s \<noteq> Some f \<Longrightarrow> F (linux_state g') f = F (linux_state (gpu d)) f"
    by (auto simp: driver_inv_def call_ok_def)
  have "session_inv (F (linux_state g')) t" if t: "gpu_sessions d i = Some t" and "i \<noteq> self" for i t
  proof -
    have "drm t \<noteq> drm s" using dist [OF t assms(2)] that(2) by blast
    with inv [OF t] other show ?thesis by (auto simp: session_inv_def)
  qed
  with s' dist assms(2) show ?thesis by (auto simp: driver_inv_def)
qed

lemma driver_inv_step:
  assumes "drm_contract K F N" and inv: "driver_inv F d" and step: "gpu_handle K e d = Some d'"
    and linux: "\<And>k. e = Linux k \<Longrightarrow> F k = F (linux_state (gpu d))"
  shows "driver_inv F d'"
proof -
  have D: "drm_files K F N" by (rule drm_files.intro [OF assms(1)])
  have session: "driver_inv F d'" if "on_gpu_session self h d = Some d'"
    and "\<And>s s' g'. session_inv (F (linux_state (gpu d))) s \<Longrightarrow> h (s, gpu d) = (True, (s', g')) \<Longrightarrow>
           call_ok F (s, gpu d) (s', g')" for self h
  proof (cases "gpu_sessions d self")
    case None
    with that(1) inv show ?thesis by (simp add: on_gpu_session_def)
  next
    case (Some s)
    with that(1) obtain s' g' where h: "h (s, gpu d) = (True, (s', g'))"
      and d': "d' = d\<lparr>gpu := g', gpu_sessions := (gpu_sessions d)(self \<mapsto> s')\<rparr>"
      by (auto simp: on_gpu_session_def split: prod.splits bool.splits)
    have "session_inv (F (linux_state (gpu d))) s" using inv Some by (auto simp: driver_inv_def)
    from driver_inv_session [where F = F, OF inv Some that(2) [OF this h]] d' show ?thesis by simp
  qed
  show ?thesis
  proof (cases e)
    case (New_session ok)
    then obtain r g' where c: "construct_session K (next_session d) ok (gpu d) = (Return r, g')"
      and d': "d' = (case r of None \<Rightarrow> d\<lparr>gpu := g', next_session := next_session d + 1\<rparr>
        | Some s \<Rightarrow> d\<lparr>gpu := g', gpu_sessions := (gpu_sessions d)(next_session d \<mapsto> s),
                     next_session := next_session d + 1\<rparr>)"
      using step by (auto simp: create_gpu_session_def split: prod.splits result.splits option.splits)
    show ?thesis
    proof (cases r)
      case None
      with drm_files.construct_session_none [OF D] c d' inv show ?thesis
        by (simp add: driver_inv_def)
    next
      case (Some s)
      with drm_files.construct_session_ok [OF D] c obtain f where
        f: "drm s = Some f" "F (linux_state (gpu d)) f = None" "session_inv (F (linux_state g')) s"
        and other: "\<And>f'. f' \<noteq> f \<Longrightarrow> F (linux_state g') f' = F (linux_state (gpu d)) f'" by blast
      have old: "session_inv (F (linux_state g')) t \<and> drm t \<noteq> drm s"
        if "gpu_sessions d i = Some t" for i t
      proof -
        have t: "session_inv (F (linux_state (gpu d))) t" using inv that by (auto simp: driver_inv_def)
        then have "drm t \<noteq> Some f" using f(2) by (auto simp: session_inv_def)
        with t f(1) other show ?thesis by (auto simp: session_inv_def)
      qed
      have "\<And>i j t u. gpu_sessions d i = Some t \<Longrightarrow> gpu_sessions d j = Some u \<Longrightarrow> drm t = drm u \<Longrightarrow> i = j"
        using inv by (auto simp: driver_inv_def)
      with d' Some f(3) old show ?thesis unfolding driver_inv_def by (auto split: if_splits) metis+
    qed
  next
    case (Close_session self)
    show ?thesis
    proof (cases "gpu_sessions d self")
      case None
      with Close_session step inv show ?thesis by (simp add: destroy_gpu_session_def)
    next
      case (Some s)
      with Close_session step obtain closed s' g'
        where c: "destruct_session K self (s, gpu d) = (Return closed, (s', g'))"
          and d': "d' = d\<lparr>gpu := g', gpu_sessions := (gpu_sessions d)(self := None)\<rparr>"
        by (auto simp: destroy_gpu_session_def split: prod.splits result.splits)
      have s: "session_inv (F (linux_state (gpu d))) s" using inv Some by (auto simp: driver_inv_def)
      then obtain f where f: "drm s = Some f" by (auto simp: session_inv_def)
      note other = drm_files.destruct_session_files [OF D c s f]
      have dist: "\<And>i j t u. gpu_sessions d i = Some t \<Longrightarrow> gpu_sessions d j = Some u \<Longrightarrow> drm t = drm u \<Longrightarrow> i = j"
        using inv by (auto simp: driver_inv_def)
      have "session_inv (F (linux_state g')) t" if t: "gpu_sessions d i = Some t" and "i \<noteq> self" for i t
      proof -
        have "drm t \<noteq> Some f" using dist [OF t Some] that(2) f by auto
        moreover have "session_inv (F (linux_state (gpu d))) t" using inv t by (auto simp: driver_inv_def)
        ultimately show ?thesis using other by (auto simp: session_inv_def)
      qed
      with dist d' show ?thesis by (auto simp: driver_inv_def)
    qed
  next
    case (Call self c)
    with step show ?thesis
      using session [of self "handle_rpc K self c"] drm_files.handle_rpc_ok [OF D] by simp
  next
    case (Run_worker self)
    with step show ?thesis
      using session [of self "worker_pass K"] drm_files.worker_pass_ok [OF D] by simp
  next
    case (Run_notifier self)
    have "call_ok F (s, gpu d) (handle_notifier s, gpu d)"
      if "session_inv (F (linux_state (gpu d))) s" for s
      using that by (auto simp: call_ok_def handle_notifier_def submit_completion_signal_def)
    with Run_notifier step show ?thesis
      using session [of self "\<lambda>(s, g). (True, (handle_notifier s, g))"] by auto
  next
    case (Linux k)
    with step inv linux [OF Linux] show ?thesis by (auto simp: driver_inv_def)
  next
    case (Client_memory m)
    with step inv show ?thesis by (auto simp: driver_inv_def)
  qed
qed

lemma driver_inv_reach:
  assumes "gpu_reach K F d" and "drm_contract K F N"
  shows "driver_inv F d"
  using assms(1)
proof induction
  case (gpu_start k m)
  show ?case by (simp add: driver_inv_def gpu_init_def)
next
  case (gpu_next d e d')
  show ?case using driver_inv_step [OF assms(2) gpu_next.IH gpu_next.hyps(2,3)] .
qed

text \<open>
  C6: in every state the GPU driver can reach, whatever its clients do, a session's file is
  open, every handle of a buffer the session allocated or imported is open in that file, no
  two of these references share a handle, and no two sessions share a file.
\<close>

theorem gpu_handles_open:
  assumes "gpu_reach K F d" and "drm_contract K F N" and "gpu_sessions d i = Some s"
  shows "\<exists>f hs. drm s = Some f \<and> F (linux_state (gpu d)) f = Some hs
     \<and> (\<forall>r h. handle_refs s r = Some h \<longrightarrow> hs h \<noteq> None)
     \<and> (\<forall>r r' h. handle_refs s r = Some h \<longrightarrow> handle_refs s r' = Some h \<longrightarrow> r = r')
     \<and> (\<forall>j t. gpu_sessions d j = Some t \<longrightarrow> drm t = Some f \<longrightarrow> j = i)"
proof -
  have inv: "driver_inv F d" by (rule driver_inv_reach [OF assms(1,2)])
  with assms(3) have "session_inv (F (linux_state (gpu d))) s" by (auto simp: driver_inv_def)
  then obtain f hs where "drm s = Some f" "F (linux_state (gpu d)) f = Some hs" "refs_open hs s"
    by (auto simp: session_inv_def)
  moreover have "j = i" if "gpu_sessions d j = Some t" "drm t = Some f" for j t
    using inv assms(3) that \<open>drm s = Some f\<close> by (auto simp: driver_inv_def)
  ultimately show ?thesis by (auto simp: open_handles_def)
qed

end
