(* ===== verification/Gpu_Instance.thy ===== *)
theory Gpu_Instance
  imports Gpu_Safety
begin

text \<open>
  A small executable DRM device that keeps the contract of \<open>Gpu_Handles\<close>: it hands out
  handles from a counter, remembers the address of a buffer, and says that a wait blocks
  until the sync object or buffer is marked as done. The layout of the submit structure is
  the one of the kernel interface. The properties of the GPU driver are applied to it.
\<close>

record device =
  dv_files :: files
  dv_names :: "u32 \<Rightarrow> nat option"
  dv_next :: nat
  dv_va :: "u32 \<Rightarrow> u32"
  dv_done :: "u32 \<Rightarrow> bool"

abbreviation blank_reply :: drm_reply where
  "blank_reply \<equiv> \<lparr>r_handle = 0, r_id = 0, r_value = 0, r_va = 0, r_offset = 0, r_name = 0, r_size = 0\<rparr>"

definition dv_open :: "device \<Rightarrow> nat option \<times> device" where
  "dv_open k = (if dv_files k (dv_next k) \<noteq> None then (None, k)
     else (Some (dv_next k), k\<lparr>dv_files := (dv_files k)(dv_next k \<mapsto> Map.empty),
                              dv_next := dv_next k + 1\<rparr>))"

definition dv_add :: "device \<Rightarrow> nat \<Rightarrow> (u32 \<Rightarrow> nat option) \<Rightarrow> nat \<Rightarrow> u32 \<Rightarrow> int \<times> drm_reply \<times> device" where
  "dv_add k f hs x va = (let h = of_nat (dv_next k) in
     if hs h \<noteq> None then (-1, blank_reply, k)
     else (0, blank_reply\<lparr>r_handle := h\<rparr>,
           k\<lparr>dv_files := (dv_files k)(f \<mapsto> hs(h \<mapsto> x)), dv_next := dv_next k + 1,
             dv_va := (dv_va k)(h := va)\<rparr>))"

fun dv_ioctl :: "device \<Rightarrow> nat \<Rightarrow> drm_call \<Rightarrow> int \<times> drm_reply \<times> device" where
  "dv_ioctl k f (Lima_gem_create sz fl va) = (case dv_files k f of None \<Rightarrow> (-1, blank_reply, k)
     | Some hs \<Rightarrow> dv_add k f hs (dv_next k) va)"
| "dv_ioctl k f (Gem_open n) = (case (dv_files k f, dv_names k n) of
       (Some hs, Some x) \<Rightarrow> dv_add k f hs x 0 | _ \<Rightarrow> (-1, blank_reply, k))"
| "dv_ioctl k f (Gem_close h) = (case dv_files k f of None \<Rightarrow> (-1, blank_reply, k)
     | Some hs \<Rightarrow> (if hs h = None then -1 else 0, blank_reply,
                   k\<lparr>dv_files := (dv_files k)(f \<mapsto> hs(h := None))\<rparr>))"
| "dv_ioctl k f (Gem_flink h) = (case Option.bind (dv_files k f) (\<lambda>hs. hs h) of
       None \<Rightarrow> (-1, blank_reply, k)
     | Some x \<Rightarrow> (0, blank_reply\<lparr>r_name := of_nat x\<rparr>, k\<lparr>dv_names := (dv_names k)(of_nat x \<mapsto> x)\<rparr>))"
| "dv_ioctl k f (Lima_gem_info h) =
     (0, blank_reply\<lparr>r_va := dv_va k h, r_offset := ucast h\<rparr>, k)"
| "dv_ioctl k f (Syncobj_create fl) = (0, blank_reply\<lparr>r_handle := of_nat (dv_next k)\<rparr>,
     k\<lparr>dv_next := dv_next k + 1\<rparr>)"
| "dv_ioctl k f Lima_ctx_create = (0, blank_reply\<lparr>r_id := of_nat (dv_next k)\<rparr>,
     k\<lparr>dv_next := dv_next k + 1\<rparr>)"
| "dv_ioctl k f c = (0, blank_reply, k)"

fun dv_blocks :: "device \<Rightarrow> nat \<Rightarrow> drm_call \<Rightarrow> bool" where
  "dv_blocks k f (Syncobj_wait h) = (\<not> dv_done k h)"
| "dv_blocks k f (Lima_gem_wait h op) = (\<not> dv_done k h)"
| "dv_blocks k f c = False"

definition dv_linux :: "device linux" where
  "dv_linux = \<lparr>l_ctx = 0, l_pipe = 4, l_nr_bos = 8, l_bos = 16, l_frame = 24, l_out_sync = 36,
     l_bo_size = 8, l_bo_handle = 0, l_bo_flags = 4, SUBMIT_BO_READ = 1, CREATE_SIGNALED = 1,
     FLAG_FORCE_VA = 2, ENOENT = 2, ETIME = 62, k_open = dv_open,
     k_release = (\<lambda>k f. k\<lparr>dv_files := (dv_files k)(f := None)\<rparr>), k_ioctl = dv_ioctl,
     k_blocks = dv_blocks, k_lookup = (\<lambda>k f off sz. Some (unat off)),
     k_attach = (\<lambda>ds. of_nat ds * 4096), k_ds_size = (\<lambda>ds. 4096)\<rparr>"

lemma dv_simps [simp]:
  "k_open dv_linux = dv_open"
  "k_release dv_linux k f = k\<lparr>dv_files := (dv_files k)(f := None)\<rparr>"
  "k_ioctl dv_linux = dv_ioctl"
  "k_blocks dv_linux = dv_blocks"
  "k_lookup dv_linux k f off sz = Some (unat off)"
  "k_attach dv_linux ds = of_nat ds * 4096"
  "CREATE_SIGNALED dv_linux = 1"
  "FLAG_FORCE_VA dv_linux = 2"
  "ENOENT dv_linux = 2"
  "ETIME dv_linux = 62"
  by (simp_all add: dv_linux_def)

lemma dv_effect:
  assumes "dv_files k f = Some hs" and "dv_ioctl k f c = (e, rp, k')"
  shows "ioctl_effect dv_files dv_names k f hs c e rp k'"
  using assms
  by (cases c) (auto simp: dv_add_def Let_def split: if_splits option.splits)

interpretation device: drm_files dv_linux dv_files dv_names
  by unfold_locales (auto simp: drm_contract_def dv_open_def intro: dv_effect)

definition dv_init :: device where
  "dv_init = \<lparr>dv_files = (\<lambda>_. None), dv_names = (\<lambda>_. None), dv_next = 1, dv_va = (\<lambda>_. 0),
     dv_done = (\<lambda>_. False)\<rparr>"

lemma dv_step:
  assumes "gpu_reach dv_linux dv_files d" and "gpu_handle dv_linux e d = Some d'"
    and "\<And>k. e \<noteq> Linux k"
  shows "gpu_reach dv_linux dv_files d'"
  using assms by (blast intro: gpu_next)

text \<open>The state after the creation of the first session.\<close>

definition dev_session :: session where
  "dev_session = \<lparr>worker_buffers = (\<lambda>_. None), vram_local_space = [], completion_sigh = False,
     completion_signals = 0, notifications = 0, pending_request = None,
     completed_request = Some \<lparr>rq_session = 1,
       rq_operation = (blank_operation SYNCOBJ_CREATE)\<lparr>op_syncobj_id := [4, 0]\<rparr>,
       rq_success = True, rq_tag = 3\<rparr>,
     drm = Some 1, info = [0, 0, 0, 0], ctx_id = 2, sync_id = [3, 4],
     pending_syncobj_wait = False, pending_wait = False\<rparr>"

definition dev_gpu :: "memory \<Rightarrow> device gpu" where
  "dev_gpu m = \<lparr>linux_state = dv_init\<lparr>dv_files := [1 \<mapsto> \<lambda>_. None], dv_next := 5\<rparr>,
     vram_pool = (\<lambda>_. None), next_cap = 1, tag_counter = 3, mem = m, flushed = []\<rparr>"

definition dev_driver :: "memory \<Rightarrow> device gpu_driver" where
  "dev_driver m = \<lparr>gpu = dev_gpu m, gpu_sessions = [1 \<mapsto> dev_session], next_session = 2\<rparr>"

lemmas request_defs = perform_def create_request_def schedule_request_def request_pending_def
  managed_id_def worker_pass_def rq_valid_def op_valid_def dispatch.simps succeed_def Let_def

lemmas schedule_defs = request_defs drm_calls

lemma dev_created: "gpu_handle dv_linux (New_session True) (gpu_init dv_init m) = Some (dev_driver m)"
  apply (simp add: create_gpu_session_def construct_session_def local_request_def
      request_pending_def blank_session_def gpu_init_def)
  apply (simp add: lx_drm_open_def dv_open_def dv_init_def populate_info_def MAX_LIMA_PARAMS_def
      numeral_eq_Suc drm_calls)
  apply (simp add: create_ctx_def schedule_defs do_ctx_create_def)
  apply (simp add: create_syncobj_def schedule_defs do_syncobj_create_def)
  apply (simp add: dev_driver_def dev_gpu_def dev_session_def dv_init_def numeral_eq_Suc)
  done

lemma dev_reach: "gpu_reach dv_linux dv_files (dev_driver m)"
  by (rule dv_step [OF gpu_start dev_created]) simp

text \<open>The state after the allocation of buffer 7.\<close>

definition dev_buffer :: buffer_object where
  "dev_buffer = \<lparr>bo_handle = 5, bo_cap = 5, bo_addr = 0x5000, bo_va = 0x1000\<rparr>"

definition dev_session7 :: session where
  "dev_session7 = dev_session\<lparr>worker_buffers := [7 \<mapsto> dev_buffer],
     vram_local_space := [(7, \<lparr>vl_cap = 1, vl_export_name = None, vl_import_handle = None\<rparr>)],
     completed_request := Some \<lparr>rq_session = 1,
       rq_operation = (blank_operation ALLOC)\<lparr>op_size := 4096, op_va := 0x1000, op_id := 7\<rparr>,
       rq_success = True, rq_tag = 4\<rparr>\<rparr>"

definition dev_gpu7 :: "memory \<Rightarrow> device gpu" where
  "dev_gpu7 m = \<lparr>linux_state = dv_init\<lparr>dv_files := [1 \<mapsto> [5 \<mapsto> 5]], dv_next := 6,
       dv_va := (\<lambda>_. 0)(5 := 0x1000)\<rparr>,
     vram_pool = [1 \<mapsto> \<lparr>gv_bo = dev_buffer, gv_owner = 1, gv_import_name = None\<rparr>],
     next_cap = 2, tag_counter = 4, mem = m, flushed = []\<rparr>"

lemma dev_mapped:
  "map_gpu dv_linux 1 True True 7 4096 0x1000 (dev_session, dev_gpu m) =
     (Return True, (dev_session7, dev_gpu7 m))"
  apply (simp add: map_gpu_def dev_session_def dev_gpu_def lookup_buffer_def)
  apply (simp add: schedule_defs do_alloc_def dv_init_def)
  apply (simp add: dv_add_def drm_calls vl_contains_def succeed_def)
  apply (simp add: dev_session7_def dev_session_def dev_gpu7_def dev_buffer_def dv_init_def)
  done

definition dev_driver7 :: "memory \<Rightarrow> device gpu_driver" where
  "dev_driver7 m = \<lparr>gpu = dev_gpu7 m, gpu_sessions = [1 \<mapsto> dev_session7], next_session = 2\<rparr>"

lemma dev_reach7: "gpu_reach dv_linux dv_files (dev_driver7 m)"
proof (rule dv_step [OF dev_reach])
  show "gpu_handle dv_linux (Call 1 (Map_gpu True True 7 4096 0x1000)) (dev_driver m) =
      Some (dev_driver7 m)"
    by (simp add: on_gpu_session_def dev_driver_def after_def dev_mapped [simplified] dev_driver7_def)
qed simp

lemma gpu_handles_open_witness:
  "gpu_sessions (dev_driver7 (\<lambda>_. 0)) 1 = Some dev_session7
     \<and> handle_refs dev_session7 (True, 7) = Some 5
     \<and> (\<exists>f hs. drm dev_session7 = Some f
         \<and> dv_files (linux_state (gpu (dev_driver7 (\<lambda>_. 0)))) f = Some hs \<and> hs 5 \<noteq> None)"
proof -
  have s: "gpu_sessions (dev_driver7 (\<lambda>_. 0)) 1 = Some dev_session7"
    by (simp add: dev_driver7_def)
  have r: "handle_refs dev_session7 (True, 7) = Some 5"
    by (simp add: handle_refs_def dev_session7_def dev_buffer_def)
  show ?thesis
    using gpu_handles_open [OF dev_reach7 device.contract s] s r by blast
qed

end
