(* ===== verification/Gpu_Props.thy ===== *)
theory Gpu_Props
  imports Gpu_Instance
begin

text \<open>
  Properties of single calls of the GPU session: allocation is all or nothing, a buffer
  freed while a wait is on is lost, and a pending wait answers for another object.
\<close>

section \<open>Allocation\<close>

lemma perform_tables:
  assumes "drm_contract K F N" and "session_inv (F (linux_state g)) s"
    and "op_kind (fill (blank_operation kind)) = kind" and "kind \<noteq> INVALID"
    and "perform K self kind fill (s, g) = (res, (s', g'))" and "drm s = Some f"
  shows "perform_effect F N f (fill (blank_operation kind)) res (s, g) (s', g')"
proof -
  from assms(2,6) obtain hs where "F (linux_state g) f = Some hs" "pending_ok s"
    by (auto simp: session_inv_def)
  with perform_spec(1) [OF assms(1,6) _ _ assms(3,4,5)] show ?thesis by simp
qed

text \<open>A request for a buffer that is there, on an idle worker, is not refused.\<close>

lemma perform_free_idle:
  assumes "pending_request s = None" and "worker_buffers s i = Some b"
    and "perform K self FREE (\<lambda>x. x\<lparr>op_id := i\<rparr>) (s, g) = (res, (s', g'))"
  shows "worker_buffers s' = (worker_buffers s)(i := None) \<and> vram_local_space s' = vram_local_space s
    \<and> vram_pool g' = vram_pool g \<and> pending_request s' = None
    \<and> linux_state g' = snd (lx_drm_gem_close K (linux_state g) (drm s) (bo_handle b))
    \<and> res \<noteq> Down"
  using assms
  by (auto simp: request_defs managed_def do_free_def buffer_remove_def)

lemma rollback_idle:
  assumes "pending_request s = None" and "worker_buffers s i = Some b"
    and "map_gpu_rollback K self i (s, g) = (res, (s', g'))"
  shows "res = Return False \<and> worker_buffers s' = (worker_buffers s)(i := None)
    \<and> vram_local_space s' = vram_local_space s \<and> vram_pool g' = vram_pool g
    \<and> linux_state g' = snd (lx_drm_gem_close K (linux_state g) (drm s) (bo_handle b))"
proof -
  obtain r t h where p: "perform K self FREE (\<lambda>x. x\<lparr>op_id := i\<rparr>) (s, g) = (r, (t, h))"
    by (rule prod_cases3)
  with perform_free_idle [OF assms(1,2) p] assms(3) show ?thesis
    by (auto simp: map_gpu_rollback_def attempt_def split: scheduled.splits)
qed

lemma close_handle_files:
  assumes "drm_contract K F N" and "F k f = Some hs"
  shows "F (snd (lx_drm_gem_close K k (Some f) h)) = (F k)(f \<mapsto> hs(h := None))"
proof -
  obtain e rp k' where io: "k_ioctl K k f (Gem_close h) = (e, rp, k')" by (rule prod_cases3)
  from contract_ioctl [OF assms io] io show ?thesis by (simp add: drm_calls)
qed

text \<open>What a successful allocation adds, and that rolling it back takes it away again.\<close>

lemma allocated_buffer:
  assumes "drm_contract K F N" and "session_inv (F (linux_state g)) s"
    and p: "perform K self ALLOC (\<lambda>x. x\<lparr>op_id := i, op_va := va, op_size := sz\<rparr>) (s, g) = (Succ c, (t, h))"
  shows "rq_success c \<and> vram_local_space t = vram_local_space s \<and> vram_pool h = vram_pool g \<and> next_cap h = next_cap g
      \<and> (\<exists>bo. worker_buffers s i = None \<and> worker_buffers t = (worker_buffers s)(i \<mapsto> bo))"
    and "map_gpu_rollback K self i (t, hh) = (Return b, (s', g')) \<Longrightarrow> linux_state hh = linux_state h
      \<Longrightarrow> \<not> b \<and> F (linux_state g') = F (linux_state g) \<and> worker_buffers s' = worker_buffers s
        \<and> vram_local_space s' = vram_local_space s \<and> vram_pool g' = vram_pool hh"
proof -
  from assms(2) obtain f where f: "drm s = Some f" by (auto simp: session_inv_def)
  have "perform_effect F N f (blank_operation ALLOC\<lparr>op_id := i, op_va := va, op_size := sz\<rparr>) (Succ c) (s, g) (t, h)"
    using perform_tables [OF assms(1,2) _ _ p f] by simp
  then have "rq_success c" and "buffer_added F f i (s, g) (t, h)"
    by (auto simp: perform_effect_def request_effect_def)
  then obtain bo hs x where bo: "worker_buffers s i = None"
      "worker_buffers t = (worker_buffers s)(i \<mapsto> bo)" "worker_buffers t i = Some bo"
    and hs: "F (linux_state g) f = Some hs" "hs (bo_handle bo) = None"
      "F (linux_state h) = (F (linux_state g))(f \<mapsto> hs(bo_handle bo \<mapsto> x))"
    and same: "drm t = Some f" "vram_local_space t = vram_local_space s"
      "vram_pool h = vram_pool g" "next_cap h = next_cap g"
    using f by (auto simp: buffer_added_def same_tables_def split: option.splits)
  show "rq_success c \<and> vram_local_space t = vram_local_space s \<and> vram_pool h = vram_pool g \<and> next_cap h = next_cap g
      \<and> (\<exists>bo. worker_buffers s i = None \<and> worker_buffers t = (worker_buffers s)(i \<mapsto> bo))"
    using bo same \<open>rq_success c\<close> by auto
  have "\<not> request_pending s"
    using p by (auto simp: perform_def create_request_def schedule_request_def)
  then have "pending_request s = None" "pending_ok s"
    using assms(2) request_pending_iff by (auto simp: session_inv_def)
  then have idle: "pending_request t = None"
    using perform_spec(3) [OF assms(1) f hs(1) _ _ _ p] by simp
  assume undone: "map_gpu_rollback K self i (t, hh) = (Return b, (s', g'))" "linux_state hh = linux_state h"
  have "F (linux_state h) f = Some (hs(bo_handle bo \<mapsto> x))" using hs(3) by simp
  from close_handle_files [where F = F, OF assms(1) this, of "bo_handle bo"]
  have "F (linux_state g') = F (linux_state g)"
    using rollback_idle [OF idle bo(3) undone(1)] undone(2) hs same(1) by (simp add: fun_upd_idem)
  then show "\<not> b \<and> F (linux_state g') = F (linux_state g) \<and> worker_buffers s' = worker_buffers s
      \<and> vram_local_space s' = vram_local_space s \<and> vram_pool g' = vram_pool hh"
    using rollback_idle [OF idle bo(3) undone(1)] bo(1,2) same by (auto simp: fun_upd_idem)
qed

text \<open>
  C7: \<^verbatim>\<open>map_gpu\<close> is all or nothing. If it fails, be it in Linux, for want of memory for the
  book keeping, or because the identifier is in use, then no handle stays open and no
  table of the session or of the entry point has changed. If it succeeds, the buffer and
  its book keeping are there, owned by the session, under a fresh capability.
\<close>

theorem map_gpu_all_or_nothing:
  assumes "drm_contract K F N" and "session_inv (F (linux_state g)) s"
    and "vram_pool g (next_cap g) = None"
    and "map_gpu K self vram_ok local_ok i sz va (s, g) = (Return b, (s', g'))"
  shows "if b
    then worker_buffers s i = None \<and> (\<exists>bo. worker_buffers s' = (worker_buffers s)(i \<mapsto> bo)
           \<and> vram_pool g' = (vram_pool g)(next_cap g \<mapsto>
                 \<lparr>gv_bo = bo, gv_owner = self, gv_import_name = None\<rparr>))
         \<and> map_of (vram_local_space s') i = Some \<lparr>vl_cap = next_cap g, vl_export_name = None,
              vl_import_handle = None\<rparr>
    else F (linux_state g') = F (linux_state g) \<and> worker_buffers s' = worker_buffers s
         \<and> vram_local_space s' = vram_local_space s \<and> vram_pool g' = vram_pool g"
proof (cases "lookup_buffer (worker_buffers s) i \<noteq> None \<or> 0xffffffff < sz")
  case True
  then have "map_gpu K self vram_ok local_ok i sz va (s, g) = (Return False, (s, g))"
    by (elim disjE) (simp_all add: map_gpu_def)
  with assms(4) show ?thesis by simp
next
  case False
  let ?fill = "\<lambda>x. x\<lparr>op_id := i, op_va := ucast va, op_size := of_nat sz\<rparr>"
  obtain r t h where p: "perform K self ALLOC ?fill (s, g) = (r, (t, h))" by (rule prod_cases3)
  from assms(2) obtain f where f: "drm s = Some f" by (auto simp: session_inv_def)
  have eff: "perform_effect F N f (?fill (blank_operation ALLOC)) r (s, g) (t, h)"
    by (rule perform_tables [OF assms(1,2) _ _ p f]) simp_all
  show ?thesis
  proof (cases r)
    case Fail
    with eff have "tables_kept F (s, g) (t, h)" by (simp add: perform_effect_def)
    with False p Fail assms(4) show ?thesis
      by (auto simp: map_gpu_def tables_kept_def same_tables_def)
  next
    case Down
    with False p assms(4) show ?thesis by (simp add: map_gpu_def)
  next
    case (Succ c)
    note bo = allocated_buffer(1) [OF assms(1,2) p [unfolded Succ]]
      and undo = allocated_buffer(2) [OF assms(1,2) p [unfolded Succ]]
    show ?thesis
    proof (cases "vram_ok \<and> local_ok \<and> \<not> vl_contains (vram_local_space t) i")
      case True
      with False p Succ assms(4) bo show ?thesis
        by (auto simp: map_gpu_def Let_def vl_contains_def map_add_def split: option.splits)
    next
      case ok: False
      have pool: "(vram_pool g)(next_cap g := None) = vram_pool g" using assms(3) by (simp add: fun_upd_idem)
      show ?thesis
      proof (cases vram_ok)
        case True
        with ok False p Succ assms(4) bo have "map_gpu_rollback K self i (t, h\<lparr>next_cap := next_cap h + 1,
            vram_pool := (vram_pool h)(next_cap h := None)\<rparr>) = (Return b, (s', g'))"
          by (auto simp: map_gpu_def Let_def split: if_splits)
        from undo [OF this] bo pool show ?thesis by auto
      next
        case vram: False
        with False p Succ assms(4) bo have "map_gpu_rollback K self i (t, h) = (Return b, (s', g'))"
          by (auto simp: map_gpu_def)
        from undo [OF this] bo show ?thesis by auto
      qed
    qed
  qed
qed


text \<open>On the example device: a successful allocation, and one without memory for the book keeping.\<close>

lemma dev_session_inv: "session_inv (dv_files (linux_state (dev_gpu m))) dev_session"
  by (simp add: session_inv_def dev_session_def dev_gpu_def pending_ok_def open_handles_def
      handle_refs_def lookup_import_def)

lemma map_gpu_all_or_nothing_witness:
  "\<exists>s' g'. map_gpu dv_linux 1 True True 7 4096 0x1000 (dev_session, dev_gpu (\<lambda>_. 0)) = (Return True, (s', g'))
     \<and> map_of (vram_local_space s') 7 = Some \<lparr>vl_cap = 1, vl_export_name = None, vl_import_handle = None\<rparr>"
proof -
  have "vram_pool (dev_gpu (\<lambda>_. 0)) (next_cap (dev_gpu (\<lambda>_. 0))) = None" by (simp add: dev_gpu_def)
  from map_gpu_all_or_nothing [OF device.contract dev_session_inv this dev_mapped] dev_mapped
  show ?thesis by (auto simp: dev_gpu_def)
qed

section \<open>Waiting\<close>

lemma ucast_through_64 [simp]: "(ucast (ucast (y :: u32) :: u64) :: u32) = y"
  by (rule bit_eqI) (simp add: bit_simps)

text \<open>
  While a wait is blocked, freeing a buffer loses it. The client is told nothing; the
  buffer's handle stays open and the buffer stays in the table of the worker, but the
  capability and the identifier are gone: the buffer can neither be freed any more nor its
  identifier be allocated again.
\<close>

theorem unmap_while_waiting_leaks:
  assumes "request_pending s" and "map_of (vram_local_space s) i = Some vl"
    and "vram_pool g (vl_cap vl) = Some v" and "gv_owner v = self"
    and "worker_buffers s i = Some bo"
    and "unmap_gpu K self i (s, g) = (res, (s', g'))"
  shows "res = Return True \<and> linux_state g' = linux_state g \<and> worker_buffers s' i = Some bo
    \<and> vram_pool g' (vl_cap vl) = None
    \<and> map_gpu K self vram_ok local_ok i sz va (s', g') = (Return False, (s', g'))
    \<and> unmap_gpu K self i (s', g') = (Return False, (s', g'))"
proof -
  have "request_pending (s\<lparr>vram_local_space := vl_remove (vram_local_space s) i\<rparr>)"
    using assms(1) by (simp add: request_pending_def)
  with assms have "res = Return True"
    and s': "s' = s\<lparr>vram_local_space := vl_remove (vram_local_space s) i\<rparr>"
    and g': "g' = g\<lparr>vram_pool := (vram_pool g)(vl_cap vl := None), tag_counter := tag_counter g + 1\<rparr>"
    by (auto simp: unmap_gpu_def attempt_def perform_def create_request_def schedule_request_def)
  moreover have "map_gpu K self vram_ok local_ok i sz va (s', g') = (Return False, (s', g'))"
    using s' assms(5) by (simp add: map_gpu_def lookup_buffer_def)
  moreover have "unmap_gpu K self i (s', g') = (Return False, (s', g'))"
    using s' by (simp add: unmap_gpu_def)
  ultimately show ?thesis using s' g' assms(5) by simp
qed

text \<open>The session of the example device with buffer 7, waiting for its first sync object.\<close>

definition dev_waiting :: session where
  "dev_waiting = dev_session7\<lparr>pending_request := Some \<lparr>rq_session = 1,
       rq_operation = (blank_operation SYNCOBJ_WAIT)\<lparr>op_syncobj_id := [3, 0]\<rparr>,
       rq_success = False, rq_tag = 5\<rparr>,
     completed_request := None, pending_syncobj_wait := True\<rparr>"

lemma dev_wait:
  "complete dv_linux 1 3 (dev_session7, dev_gpu7 m) =
     (Return False, (dev_waiting, (dev_gpu7 m)\<lparr>tag_counter := 5\<rparr>))"
  apply (simp add: complete_def dev_session7_def dev_session_def previous_wait_def dev_gpu7_def)
  apply (simp add: schedule_defs do_syncobj_wait_def dv_init_def)
  apply (simp add: dev_waiting_def dev_session7_def dev_session_def)
  done

lemma unmap_while_waiting_leaks_witness:
  "\<exists>s' g'. unmap_gpu dv_linux 1 7 (dev_waiting, (dev_gpu7 (\<lambda>_. 0))\<lparr>tag_counter := 5\<rparr>) = (Return True, (s', g'))
     \<and> worker_buffers s' 7 = Some dev_buffer
     \<and> map_gpu dv_linux 1 True True 7 4096 0x1000 (s', g') = (Return False, (s', g'))"
proof -
  let ?g = "(dev_gpu7 (\<lambda>_. 0))\<lparr>tag_counter := 5\<rparr>"
  obtain res s' g' where u: "unmap_gpu dv_linux 1 7 (dev_waiting, ?g) = (res, (s', g'))"
    by (rule prod_cases3)
  have "request_pending dev_waiting"
    by (simp add: dev_waiting_def request_pending_def rq_valid_def op_valid_def)
  moreover have "map_of (vram_local_space dev_waiting) 7 =
      Some \<lparr>vl_cap = 1, vl_export_name = None, vl_import_handle = None\<rparr>"
    and "worker_buffers dev_waiting 7 = Some dev_buffer"
    by (simp_all add: dev_waiting_def dev_session7_def)
  ultimately show ?thesis
    using unmap_while_waiting_leaks [OF _ _ _ _ _ u, where vl = "\<lparr>vl_cap = 1, vl_export_name = None,
        vl_import_handle = None\<rparr>" and v = "\<lparr>gv_bo = dev_buffer, gv_owner = 1, gv_import_name = None\<rparr>"
        and bo = dev_buffer and vram_ok = True and local_ok = True and sz = 4096 and va = "0x1000"] u
    by (auto simp: dev_gpu7_def)
qed

text \<open>
  C18: the answer of a wait that was interrupted is given to the next question, whatever
  object it asks for. After a wait for one sync object was blocked and has succeeded, asking
  for the session's other one is answered with success, although the GPU has not reached it.
\<close>

theorem wait_answers_for_other_object:
  assumes "drm s = Some f" and "sync_id s = [y, z]" and "y \<noteq> z"
    and "pending_request s = None" and "\<not> pending_syncobj_wait s"
    and "k_blocks K (linux_state g) f (Syncobj_wait y)"
    and "complete K self (ucast y) (s, g) = (res, (s1, g1))"
    and "\<not> k_blocks K k f (Syncobj_wait y)" and "fst (lx_drm_ioctl_syncobj_wait K k f y) = 0"
    and "worker_pass K (s1, g1\<lparr>linux_state := k\<rparr>) = (ok, (s2, g2))"
    and "k_blocks K (linux_state g2) f (Syncobj_wait z)"
  shows "res = Return False \<and> ok \<and> fst (complete K self (ucast z) (s2, g2)) = Return True"
proof -
  have "res = Return False" and s1: "drm s1 = Some f" "sync_id s1 = [y, z]" "pending_syncobj_wait s1"
    and p1: "\<exists>r. pending_request s1 = Some r \<and> op_kind (rq_operation r) = SYNCOBJ_WAIT
      \<and> op_syncobj_id (rq_operation r) = [y, 0]"
    using assms(1,2,4-7)
    by (auto simp: complete_def previous_wait_def request_defs do_syncobj_wait_def)
  from p1 obtain r where r: "pending_request s1 = Some r" "op_kind (rq_operation r) = SYNCOBJ_WAIT"
    "op_syncobj_id (rq_operation r) = [y, 0]" by blast
  obtain k' where k': "lx_drm_ioctl_syncobj_wait K k f y = (0, k')"
    using assms(9) by (cases "lx_drm_ioctl_syncobj_wait K k f y") auto
  have ok: "ok" and s2: "sync_id s2 = [y, z]" "pending_syncobj_wait s2" "pending_request s2 = None"
    and c2: "\<exists>c. completed_request s2 = Some c \<and> op_kind (rq_operation c) = SYNCOBJ_WAIT \<and> rq_success c"
    using assms(8,10) s1 r k'
    by (auto simp: worker_pass_def rq_valid_def op_valid_def dispatch.simps do_syncobj_wait_def
        succeed_def Let_def)
  have "fst (complete K self (ucast z) (s2, g2)) = Return True"
    using s2 c2 by (auto simp: complete_def previous_wait_def of_kind_def)
  with \<open>res = Return False\<close> ok show ?thesis by simp
qed

lemma wait_answers_for_other_object_witness:
  "\<exists>s2 g2. worker_pass dv_linux (dev_waiting, (dev_gpu7 (\<lambda>_. 0))\<lparr>tag_counter := 5,
       linux_state := (linux_state (dev_gpu7 (\<lambda>_. 0)))\<lparr>dv_done := (\<lambda>_. False)(3 := True)\<rparr>\<rparr>) = (True, (s2, g2))
     \<and> fst (complete dv_linux 1 4 (s2, g2)) = Return True"
proof -
  let ?k = "(linux_state (dev_gpu7 (\<lambda>_. 0)))\<lparr>dv_done := (\<lambda>_. False)(3 := True)\<rparr>"
  let ?g1 = "(dev_gpu7 (\<lambda>_. 0))\<lparr>tag_counter := 5\<rparr>"
  obtain ok s2 g2 where w: "worker_pass dv_linux (dev_waiting, ?g1\<lparr>linux_state := ?k\<rparr>) = (ok, (s2, g2))"
    by (rule prod_cases3)
  have k2: "linux_state g2 = ?k"
    using w by (auto simp: worker_pass_def dev_waiting_def rq_valid_def op_valid_def dispatch.simps
        do_syncobj_wait_def succeed_def Let_def dev_session7_def dev_session_def drm_calls)
  have "fst (complete dv_linux 1 (ucast (4 :: u32)) (s2, g2)) = Return True \<and> ok"
    using wait_answers_for_other_object [where K = dv_linux and s = dev_session7 and f = 1 and y = 3
        and z = 4 and g = "dev_gpu7 (\<lambda>_. 0)" and self = 1 and k = ?k, OF _ _ _ _ _ _ _ _ _ w]
      dev_wait k2
    by (simp add: dev_session7_def dev_session_def dev_gpu7_def dv_init_def drm_calls)
  with w show ?thesis by simp
qed

section \<open>Sharing\<close>

lemma export_name_effect:
  assumes "drm_contract K F N" and "session_inv (F (linux_state g)) s" and "drm s = Some f"
    and "lookup_export (vram_local_space s) i = None"
    and "export_name K self i (s, g) = (Return (Some n), (s', g'))"
  shows "\<exists>t. name_given F N f i n (s, g) (t, g') \<and> s' = t\<lparr>vram_local_space :=
     vl_modify (vram_local_space t) i (\<lambda>v. v\<lparr>vl_export_name := Some n\<rparr>)\<rparr>"
proof -
  obtain r t h where p: "perform K self FLINK (\<lambda>x. x\<lparr>op_id := i\<rparr>) (s, g) = (r, (t, h))"
    by (rule prod_cases3)
  with assms(4,5) obtain c where c: "r = Succ c" "n = op_name (rq_operation c)" "g' = h"
    "s' = t\<lparr>vram_local_space := vl_modify (vram_local_space t) i (\<lambda>v. v\<lparr>vl_export_name := Some n\<rparr>)\<rparr>"
    by (cases r) (auto simp: export_name_def Let_def)
  have "perform_effect F N f ((blank_operation FLINK)\<lparr>op_id := i\<rparr>) r (s, g) (t, h)"
    using perform_tables [OF assms(1,2) _ _ p assms(3)] by simp
  with c show ?thesis by (auto simp: perform_effect_def request_effect_def)
qed

text \<open>
  C17: sharing a buffer. When one session exports a buffer it allocated and another session
  imports the capability, the handle the importing session gets in its own file stands for
  the very buffer object of the exporting session.
\<close>

theorem shared_buffer_same_object:
  assumes "drm_contract K F N" and "session_inv (F (linux_state g)) s" and "drm s = Some f"
    and "session_inv (F (linux_state g)) t" and "drm t = Some e"
    and "map_of (vram_local_space s) i = Some vl" and "vl_export_name vl = None"
    and "vram_pool g (vl_cap vl) = Some v" and "gv_import_name v = None"
    and "worker_buffers s i = Some bo" and "F (linux_state g) f = Some hs"
    and "export_vram K a i (s, g) = (Return (Some cap), (s', g'))"
    and "lookup_import (vram_local_space t) j = None"
    and "import_vram K b True cap j (t, g') = (Return (), (t', g''))"
  shows "cap = vl_cap vl \<and> (\<exists>h hs'. lookup_import (vram_local_space t') j = Some h
     \<and> F (linux_state g'') e = Some hs' \<and> hs' h \<noteq> None \<and> hs' h = hs (bo_handle bo))"
proof -
  have here: "vl_contains (vram_local_space s) i" "lookup_export (vram_local_space s) i = None"
    using assms(6,7) by (simp_all add: vl_contains_def lookup_export_def)
  obtain r s1 g1 where x: "export_name K a i (s, g) = (r, (s1, g1))" by (rule prod_cases3)
  with assms(12) here obtain n where n: "r = Return (Some n)"
    by (auto simp: export_vram_def split: result.splits option.splits)
  from export_name_effect [OF assms(1,2,3) here(2) x [unfolded n]] obtain s2
    where given: "name_given F N f i n (s, g) (s2, g1)"
      and s1: "s1 = s2\<lparr>vram_local_space := vl_modify (vram_local_space s2) i
        (\<lambda>v. v\<lparr>vl_export_name := Some n\<rparr>)\<rparr>" by blast
  from given have kept: "vram_local_space s2 = vram_local_space s" "vram_pool g1 = vram_pool g"
      "F (linux_state g1) = F (linux_state g)"
    and name: "N (linux_state g1) n = hs (bo_handle bo)" "hs (bo_handle bo) \<noteq> None"
    using assms(10,11) by (auto simp: name_given_def tables_kept_def same_tables_def)
  have cap: "cap = vl_cap vl" and g': "g' = g1\<lparr>vram_pool := (vram_pool g1)(cap \<mapsto>
      v\<lparr>gv_import_name := Some n\<rparr>)\<rparr>"
    using assms(6,8,9,12) here x n s1 kept
    by (auto simp: export_vram_def lookup_vram_cap_def)
  define t1 where "t1 = add_local cap j t"
  have t1: "drm t1 = Some e" "lookup_import (vram_local_space t1) j = None"
    "vl_contains (vram_local_space t1) j"
    using assms(5,13) by (auto simp: t1_def add_local_def vl_contains_def lookup_import_def
        map_add_def split: option.splits)
  have "session_inv (F (linux_state g)) t1"
    unfolding t1_def add_local_def using assms(4)
    by (auto intro!: same_imports_ok simp: vl_contains_def lookup_import_def map_add_def
        split: option.splits)
  then have inv: "session_inv (F (linux_state g')) t1" using g' kept(3) by simp
  obtain q t2 g2 where p: "perform K b OPEN (\<lambda>x. x\<lparr>op_name := n\<rparr>) (t1, g') = (q, (t2, g2))"
    by (rule prod_cases3)
  have eff: "perform_effect F N e ((blank_operation OPEN)\<lparr>op_name := n\<rparr>) q (t1, g') (t2, g2)"
    using perform_tables [OF assms(1) inv _ _ p t1(1)] by simp
  have pool: "vram_pool g' cap = Some (v\<lparr>gv_import_name := Some n\<rparr>)" using g' by simp
  from assms(14) t1(2) pool p have "case q of
      Succ c \<Rightarrow> t' = t2\<lparr>vram_local_space := vl_modify (vram_local_space t2) j
          (\<lambda>v. v\<lparr>vl_import_handle := Some (op_handle (rq_operation c))\<rparr>)\<rparr> \<and> g'' = g2
    | _ \<Rightarrow> False"
    unfolding import_vram_def t1_def [symmetric]
    by (cases q) (auto simp: t1_def [symmetric] Let_def)
  then obtain c where c: "q = Succ c" "g'' = g2" "t' = t2\<lparr>vram_local_space :=
      vl_modify (vram_local_space t2) j (\<lambda>v. v\<lparr>vl_import_handle := Some (op_handle (rq_operation c))\<rparr>)\<rparr>"
    by (cases q) auto
  from eff c have "handle_opened F N e n (op_handle (rq_operation c)) (t1, g') (t2, g2)"
    by (auto simp: perform_effect_def request_effect_def)
  moreover have "N (linux_state g') n = hs (bo_handle bo)" using g' name by simp
  ultimately obtain hs' x where hs': "F (linux_state g2) e = Some (hs'(op_handle (rq_operation c) \<mapsto> x))"
      and x: "hs (bo_handle bo) = Some x" and vs: "vram_local_space t2 = vram_local_space t1"
    by (auto simp: handle_opened_def same_tables_def)
  have "lookup_import (vram_local_space t') j = Some (op_handle (rq_operation c))"
    using c(3) vs t1(3) by (auto simp: lookup_import_def vl_contains_def)
  with cap c(2) hs' x show ?thesis by auto
qed

text \<open>A second session on the device, which imports what the first one exports.\<close>

definition dev_session2 :: session where
  "dev_session2 = dev_session\<lparr>drm := Some 2\<rparr>"

definition dev_gpu2 :: "memory \<Rightarrow> device gpu" where
  "dev_gpu2 m = (dev_gpu7 m)\<lparr>linux_state := (linux_state (dev_gpu7 m))
     \<lparr>dv_files := [1 \<mapsto> [5 \<mapsto> 5], 2 \<mapsto> \<lambda>_. None]\<rparr>\<rparr>"

lemma dev_export:
  "\<exists>s' g'. export_vram dv_linux 1 7 (dev_session7, dev_gpu2 m) = (Return (Some 1), (s', g'))
     \<and> g' = (dev_gpu2 m)\<lparr>tag_counter := 5, linux_state := (linux_state (dev_gpu2 m))\<lparr>dv_names := [5 \<mapsto> 5]\<rparr>,
          vram_pool := [1 \<mapsto> \<lparr>gv_bo = dev_buffer, gv_owner = 1, gv_import_name = Some 5\<rparr>]\<rparr>"
  apply (simp add: export_vram_def export_name_def dev_session7_def dev_session_def dev_gpu2_def
      dev_gpu7_def vl_contains_def lookup_export_def dev_buffer_def)
  apply (simp add: schedule_defs do_flink_def dv_init_def)
  apply (simp add: lookup_vram_cap_def vl_modify_def)
  done

lemma dev_import:
  assumes "vram_pool g 1 = Some v" and "gv_import_name v = Some 5"
    and "linux_state g = (linux_state (dev_gpu2 m))\<lparr>dv_names := [5 \<mapsto> 5]\<rparr>"
  shows "\<exists>t' g'. import_vram dv_linux 2 True 1 9 (dev_session2, g) = (Return (), (t', g'))"
  using assms
  apply (simp add: import_vram_def add_local_def vl_contains_def lookup_import_def dev_session2_def
      dev_session_def)
  apply (simp add: schedule_defs do_open_def dv_init_def dev_gpu2_def dev_gpu7_def)
  apply (simp add: dv_add_def succeed_def)
  done

lemma shared_buffer_same_object_witness:
  "\<exists>s' g' t' g'' h hs'. export_vram dv_linux 1 7 (dev_session7, dev_gpu2 (\<lambda>_. 0)) = (Return (Some 1), (s', g'))
     \<and> import_vram dv_linux 2 True 1 9 (dev_session2, g') = (Return (), (t', g''))
     \<and> lookup_import (vram_local_space t') 9 = Some h
     \<and> dv_files (linux_state g'') 2 = Some hs' \<and> hs' h = Some 5"
proof -
  let ?g = "dev_gpu2 (\<lambda>_. 0)"
  from dev_export [of "\<lambda>_. 0"] obtain s' g' where e: "export_vram dv_linux 1 7 (dev_session7, ?g) = (Return (Some 1), (s', g'))"
    and g': "g' = ?g\<lparr>tag_counter := 5, linux_state := (linux_state ?g)\<lparr>dv_names := [5 \<mapsto> 5]\<rparr>,
          vram_pool := [1 \<mapsto> \<lparr>gv_bo = dev_buffer, gv_owner = 1, gv_import_name = Some 5\<rparr>]\<rparr>" by blast
  from dev_import [of g' _ "\<lambda>_. 0"] g' obtain t' g'' where
    i: "import_vram dv_linux 2 True 1 9 (dev_session2, g') = (Return (), (t', g''))" by auto
  have inv: "session_inv (dv_files (linux_state ?g)) dev_session7"
    "session_inv (dv_files (linux_state ?g)) dev_session2"
    by (auto simp: session_inv_def pending_ok_def open_handles_def handle_refs_def lookup_import_def
        dev_session7_def dev_session2_def dev_session_def dev_gpu2_def dev_buffer_def split: if_splits)
  show ?thesis
    using shared_buffer_same_object [OF device.contract inv(1) _ inv(2) _ _ _ _ _ _ _ e _ i, where f = 1
        and e = 2 and vl = "\<lparr>vl_cap = 1, vl_export_name = None, vl_import_handle = None\<rparr>"
        and v = "\<lparr>gv_bo = dev_buffer, gv_owner = 1, gv_import_name = None\<rparr>" and bo = dev_buffer
        and hs = "[5 \<mapsto> 5]"] e i
    by (auto simp: dev_session7_def dev_session2_def dev_session_def dev_gpu2_def dev_gpu7_def
        dev_buffer_def lookup_import_def)
qed

end
