(* ===== verification/Audio_Dma.thy ===== *)
theory Audio_Dma
  imports Mmio
begin

text \<open>
  \<^verbatim>\<open>src/driver/audio/a64/main.cc\<close>, first half: the audio interface (\<^verbatim>\<open>Audio::I2s\<close>) and the
  DMA engine with its descriptors and channels (\<^verbatim>\<open>Audio::Dma_engine\<close>). A register set is a
  register file; the interrupt status registers of both devices are cleared by writing
  ones (\<open>w1c_wr\<close>). A descriptor lives in a page of its own that the DMA engine reads, and owns
  a data buffer that is cached: the operations of the processor and of its cache on such a
  buffer are the parameter \<open>C\<close>, with the contract of the locale \<open>dma_memory\<close>.
\<close>

type_synonym s16 = "16 word"

section \<open>Audio interface\<close>

definition Ap_control_Gen :: field where "Ap_control_Gen = Fld 0x0 0 1"
definition Ap_control_Rxen :: field where "Ap_control_Rxen = Fld 0x0 1 1"
definition Ap_control_Txen :: field where "Ap_control_Txen = Fld 0x0 2 1"
definition Ap_control_Sdo_en :: field where "Ap_control_Sdo_en = Fld 0x0 8 1"
definition Ap_format :: field where "Ap_format = whole_reg 0x4"
definition Ap_int_status_Rxo :: field where "Ap_int_status_Rxo = Fld 0xc 1 1"
definition Ap_int_status_Txu :: field where "Ap_int_status_Txu = Fld 0xc 6 1"
definition Ap_fifo_Rxom :: field where "Ap_fifo_Rxom = Fld 0x14 0 2"
definition Ap_fifo_Txim :: field where "Ap_fifo_Txim = Fld 0x14 2 1"
definition Ap_fifo_Frx :: field where "Ap_fifo_Frx = Fld 0x14 24 1"
definition Ap_fifo_Ftx :: field where "Ap_fifo_Ftx = Fld 0x14 25 1"
definition Ap_int_Rx_drq :: field where "Ap_int_Rx_drq = Fld 0x1c 3 1"
definition Ap_int_Tx_drq :: field where "Ap_int_Tx_drq = Fld 0x1c 7 1"
definition Ap_clock_Mclkdiv :: field where "Ap_clock_Mclkdiv = Fld 0x24 0 4"
definition Ap_clock_Bclkdiv :: field where "Ap_clock_Bclkdiv = Fld 0x24 4 3"
definition Ap_clock_Mclko_en :: field where "Ap_clock_Mclko_en = Fld 0x24 7 1"
definition Ap_tx_counter :: field where "Ap_tx_counter = whole_reg 0x28"
definition Ap_rx_counter :: field where "Ap_rx_counter = whole_reg 0x2c"

lemmas i2s_field_defs = Ap_control_Gen_def Ap_control_Rxen_def Ap_control_Txen_def
  Ap_control_Sdo_en_def Ap_format_def Ap_int_status_Rxo_def Ap_int_status_Txu_def
  Ap_fifo_Rxom_def Ap_fifo_Txim_def Ap_fifo_Frx_def Ap_fifo_Ftx_def Ap_int_Rx_drq_def
  Ap_int_Tx_drq_def Ap_clock_Mclkdiv_def Ap_clock_Bclkdiv_def Ap_clock_Mclko_en_def
  Ap_tx_counter_def Ap_rx_counter_def

text \<open>The constructor of \<^verbatim>\<open>I2s\<close>.\<close>

definition i2s_init :: reg_program where
  "i2s_init = [
     (Ap_control_Gen, 0),
     (Ap_control_Rxen, 0),
     (Ap_control_Txen, 0),
     (Ap_clock_Mclkdiv, 2),
     (Ap_clock_Bclkdiv, 1),
     (Ap_clock_Mclko_en, 1),
     (Ap_format, 0),
     (Ap_fifo_Rxom, 1),
     (Ap_fifo_Txim, 1),
     (Ap_fifo_Frx, 1),
     (Ap_fifo_Ftx, 1),
     (Ap_rx_counter, 0),
     (Ap_tx_counter, 0),
     (Ap_control_Sdo_en, 1),
     (Ap_control_Rxen, 1),
     (Ap_control_Txen, 1),
     (Ap_int_Rx_drq, 1),
     (Ap_int_Tx_drq, 1)]"

definition i2s_enable :: reg_program where "i2s_enable = [(Ap_control_Gen, 1)]"

definition i2s_wr :: "regs \<Rightarrow> field \<Rightarrow> u32 \<Rightarrow> regs" where
  "i2s_wr = w1c_wr {0xc}"

definition rx_overrun :: "regs \<Rightarrow> bool \<times> regs" where
  "rx_overrun m = (let overrun = reg_rd m Ap_int_status_Rxo \<noteq> 0 in
     (overrun, if overrun then i2s_wr m Ap_int_status_Rxo 1 else m))"

definition tx_underrun :: "regs \<Rightarrow> bool \<times> regs" where
  "tx_underrun m = (let underrun = reg_rd m Ap_int_status_Txu \<noteq> 0 in
     (underrun, if underrun then i2s_wr m Ap_int_status_Txu 1 else m))"

section \<open>Descriptors\<close>

definition Config_Src_drq :: field where "Config_Src_drq = Fld 0x0 0 5"
definition Config_Src_mode :: field where "Config_Src_mode = Fld 0x0 5 1"
definition Config_Src_block_size :: field where "Config_Src_block_size = Fld 0x0 6 2"
definition Config_Src_data_width :: field where "Config_Src_data_width = Fld 0x0 9 2"
definition Config_Dst_drq :: field where "Config_Dst_drq = Fld 0x0 16 5"
definition Config_Dst_mode :: field where "Config_Dst_mode = Fld 0x0 21 1"
definition Config_Dst_block_size :: field where "Config_Dst_block_size = Fld 0x0 22 2"
definition Config_Dst_data_width :: field where "Config_Dst_data_width = Fld 0x0 25 2"
definition Src_phys_addr :: field where "Src_phys_addr = whole_reg 0x4"
definition Dst_phys_addr :: field where "Dst_phys_addr = whole_reg 0x8"
definition Length :: field where "Length = whole_reg 0xc"
definition Parameter_Dst_mode :: field where "Parameter_Dst_mode = Fld 0x10 3 1"
definition Next_phys_addr :: field where "Next_phys_addr = whole_reg 0x14"

lemmas descr_field_defs = Config_Src_drq_def Config_Src_mode_def Config_Src_block_size_def
  Config_Src_data_width_def Config_Dst_drq_def Config_Dst_mode_def Config_Dst_block_size_def
  Config_Dst_data_width_def Src_phys_addr_def Dst_phys_addr_def Length_def
  Parameter_Dst_mode_def Next_phys_addr_def

definition SDRAM :: u32 where "SDRAM = 1"
definition AUDIO_CODEC :: u32 where "AUDIO_CODEC = 15"
definition LINEAR :: u32 where "LINEAR = 0"
definition IO :: u32 where "IO = 1"
definition EIGHT :: u32 where "EIGHT = 2"
definition BIT16 :: u32 where "BIT16 = 1"
definition BIT32 :: u32 where "BIT32 = 2"
definition HANDSHAKE :: u32 where "HANDSHAKE = 1"

lemmas descr_const_defs = SDRAM_def AUDIO_CODEC_def LINEAR_def IO_def EIGHT_def BIT16_def
  BIT32_def HANDSHAKE_def

text \<open>
  \<open>de_page\<close> is the page of the descriptor itself, at the device address \<open>de_dma_addr\<close>;
  \<open>de_data\<close> the data buffer, at the device address \<open>de_data_dma_addr\<close>.
\<close>

record 'b descriptor =
  de_page :: regs
  de_dma_addr :: u64
  de_data :: 'b
  de_data_dma_addr :: u64

text \<open>What the processor and its cache do to a buffer of 16-bit samples.\<close>

record 'b buffer_ops =
  cpu_read :: "'b \<Rightarrow> s16 list \<times> 'b"
  cpu_write :: "s16 list \<Rightarrow> 'b \<Rightarrow> 'b"
  cache_clean_invalidate :: "'b \<Rightarrow> 'b"
  cache_invalidate :: "'b \<Rightarrow> 'b"

definition descr_init :: "u64 \<Rightarrow> nat \<Rightarrow> reg_program" where
  "descr_init data_addr n = [
     (Config_Src_block_size, EIGHT),
     (Config_Dst_block_size, EIGHT),
     (Parameter_Dst_mode, HANDSHAKE),
     (Src_phys_addr, ucast data_addr),
     (Dst_phys_addr, ucast data_addr),
     (Length, of_nat n)]"

text \<open>The constructor: the two DMA buffers are given, the data buffer is touched.\<close>

definition descr_construct :: "'b buffer_ops \<Rightarrow> nat \<Rightarrow> 'b descriptor \<Rightarrow> 'b descriptor" where
  "descr_construct C n d = d\<lparr>
     de_page := run_writes reg_wr (descr_init (de_data_dma_addr d) n) (de_page d),
     de_data := snd (cpu_read C (de_data d))\<rparr>"

definition descr_mode :: "u32 \<Rightarrow> u32 \<Rightarrow> reg_program" where
  "descr_mode src dst = [(Config_Src_mode, src), (Config_Dst_mode, dst)]"

definition descr_drq :: "u32 \<Rightarrow> u32 \<Rightarrow> reg_program" where
  "descr_drq src dst = [(Config_Src_drq, src), (Config_Dst_drq, dst)]"

definition descr_width :: "u32 \<Rightarrow> u32 \<Rightarrow> reg_program" where
  "descr_width src dst = [(Config_Src_data_width, src), (Config_Dst_data_width, dst)]"

definition setup_tx_descriptor :: "u64 \<Rightarrow> u64 \<Rightarrow> reg_program" where
  "setup_tx_descriptor tx_addr dma_addr_next =
     descr_mode LINEAR IO @ descr_drq SDRAM AUDIO_CODEC @ descr_width BIT32 BIT16
     @ [(Dst_phys_addr, ucast tx_addr), (Next_phys_addr, ucast dma_addr_next)]"

definition setup_rx_descriptor :: "u64 \<Rightarrow> u64 \<Rightarrow> reg_program" where
  "setup_rx_descriptor rx_addr dma_addr_next =
     descr_mode IO LINEAR @ descr_drq AUDIO_CODEC SDRAM @ descr_width BIT16 BIT32
     @ [(Src_phys_addr, ucast rx_addr), (Next_phys_addr, ucast dma_addr_next)]"

definition descr_length :: "'b descriptor \<Rightarrow> u32" where
  "descr_length d = reg_rd (de_page d) Length"

text \<open>The buffer is as long as the descriptor's length, so the whole buffer is maintained.\<close>

definition cache_maintainance :: "'b buffer_ops \<Rightarrow> 'b descriptor \<Rightarrow> 'b descriptor" where
  "cache_maintainance C d =
     (let d1 = (if reg_rd (de_page d) Config_Src_drq = SDRAM
                then d\<lparr>de_data := cache_clean_invalidate C (de_data d)\<rparr> else d)
      in if reg_rd (de_page d1) Config_Dst_drq = SDRAM
         then d1\<lparr>de_data := cache_invalidate C (de_data d1)\<rparr> else d1)"

section \<open>DMA engine and channels\<close>

definition Irq_enable :: field where "Irq_enable = whole_reg 0x0"
definition Irq_pending :: field where "Irq_pending = whole_reg 0x10"
definition Security_Channels :: field where "Security_Channels = Fld 0x20 0 8"
definition Auto_gate_Mclk_circuit :: field where "Auto_gate_Mclk_circuit = Fld 0x28 2 1"

definition channel_base :: "nat \<Rightarrow> nat" where "channel_base i = 0x100 + i * 0x40"
definition Enable :: "nat \<Rightarrow> field" where "Enable i = whole_reg (channel_base i + 0x0)"
definition Descr_phys_addr :: "nat \<Rightarrow> field" where
  "Descr_phys_addr i = whole_reg (channel_base i + 0x8)"
definition Dma_cur_src :: "nat \<Rightarrow> field" where "Dma_cur_src i = whole_reg (channel_base i + 0x10)"

lemmas dma_field_defs = Irq_enable_def Irq_pending_def Security_Channels_def
  Auto_gate_Mclk_circuit_def channel_base_def Enable_def Descr_phys_addr_def Dma_cur_src_def

definition dma_wr :: "regs \<Rightarrow> field \<Rightarrow> u32 \<Rightarrow> regs" where
  "dma_wr = w1c_wr {0x10}"

definition dma_init :: reg_program where
  "dma_init = [(Auto_gate_Mclk_circuit, 1), (Security_Channels, 0xff)]"

definition FULL_PACKET :: u32 where "FULL_PACKET = 2"

definition irq_enable :: "nat \<Rightarrow> u32 \<Rightarrow> regs \<Rightarrow> regs" where
  "irq_enable i t m = dma_wr m Irq_enable (reg_rd m Irq_enable OR push_bit (4 * i) t)"

definition channel_irq_pending :: "nat \<Rightarrow> u32 \<Rightarrow> regs \<Rightarrow> bool \<times> regs" where
  "channel_irq_pending i t m =
     (let pending = drop_bit (4 * i) (reg_rd m Irq_pending) AND 0x7 in
      if pending AND t = 0 then (False, m)
      else (True, dma_wr m Irq_pending (push_bit (4 * i) pending)))"

definition channel_enable :: "nat \<Rightarrow> regs \<Rightarrow> regs" where
  "channel_enable i m = dma_wr m (Enable i) 1"

definition channel_disable :: "nat \<Rightarrow> regs \<Rightarrow> regs" where
  "channel_disable i m = dma_wr m (Enable i) 0"

definition descr_dma :: "nat \<Rightarrow> u64 \<Rightarrow> regs \<Rightarrow> regs" where
  "descr_dma i addr m = dma_wr m (Descr_phys_addr i) (ucast addr)"

definition cur_src :: "nat \<Rightarrow> regs \<Rightarrow> u32" where
  "cur_src i m = reg_rd m (Dma_cur_src i)"

end
