(* ===== verification/Audio_Main.thy ===== *)
theory Audio_Main
  imports Audio_Dma Config_Node
begin

text \<open>
  \<^verbatim>\<open>src/driver/audio/a64/main.cc\<close>, second half: \<^verbatim>\<open>Audio::Main\<close>. The playback channel and the
  recording channel of the DMA engine have two descriptors each, chained to a ring. The
  state is the record \<open>audio\<close>; a queue holds the indices of the descriptors in order. What
  surrounds the driver is the record \<open>audio_env\<close>: the operations on DMA buffers, the number
  of samples of a packet, the session's answers to \<^verbatim>\<open>play_packet\<close> one after the other
  (\<open>None\<close> for an invalid packet), and the device address of the audio interface.
\<close>

record 'b audio_env =
  ops :: "'b buffer_ops"
  period :: nat
  answers :: "nat \<Rightarrow> s16 list option"
  i2s_addr :: u64

record 'b audio =
  dma_regs :: regs
  i2s_regs :: regs
  tx_descr :: "nat \<Rightarrow> 'b descriptor"
  rx_descr :: "nat \<Rightarrow> 'b descriptor"
  tx_queue :: "nat list"
  rx_queue :: "nat list"
  plays :: nat
  recorded :: "s16 list list"
  dma_acks :: nat
  audio_acks :: nat

section \<open>Device address of the audio interface\<close>

text \<open>
  The constructor of \<^verbatim>\<open>I2s_dma\<close> looks through the platform's devices; \<open>num\<close> converts the
  text of an attribute. Without an address it throws.
\<close>

definition io_mem_addr :: "(string \<Rightarrow> u64 option) \<Rightarrow> node \<Rightarrow> u64 \<Rightarrow> u64" where
  "io_mem_addr num n addr = attribute_as num n ''phys_addr'' 0"

definition device_addr :: "(string \<Rightarrow> u64 option) \<Rightarrow> node \<Rightarrow> u64 \<Rightarrow> u64" where
  "device_addr num n addr =
     (if attribute_string 64 n ''name'' [] \<noteq> ''audio_interface'' then addr
      else fold (io_mem_addr num) (filter (has_type ''io_mem'') (node_subs n)) addr)"

definition i2s_dma :: "(string \<Rightarrow> u64 option) \<Rightarrow> node \<Rightarrow> u64 option" where
  "i2s_dma num n =
     (let addr = fold (device_addr num) (filter (has_type ''device'') (node_subs n)) 0 in
      if addr = 0 then None else Some addr)"

definition rx_addr :: "u64 \<Rightarrow> u64" where "rx_addr addr = addr + 0x10"
definition tx_addr :: "u64 \<Rightarrow> u64" where "tx_addr addr = addr + 0x20"

section \<open>Queues\<close>

definition TX :: nat where "TX = 2"
definition RX :: nat where "RX = 2"
definition tx_chan :: nat where "tx_chan = 0"
definition rx_chan :: nat where "rx_chan = 1"

definition packet_size :: "'b audio_env \<Rightarrow> nat" where
  "packet_size E = period E * 2 * 2"

definition tx_enqueue :: "'b audio_env \<Rightarrow> nat \<Rightarrow> 'b audio \<Rightarrow> 'b audio" where
  "tx_enqueue E i a = a\<lparr>
     tx_descr := (tx_descr a)(i := cache_maintainance (ops E) (tx_descr a i)),
     tx_queue := tx_queue a @ [i]\<rparr>"

definition rx_enqueue :: "'b audio_env \<Rightarrow> nat \<Rightarrow> 'b audio \<Rightarrow> 'b audio" where
  "rx_enqueue E i a = a\<lparr>
     rx_descr := (rx_descr a)(i := cache_maintainance (ops E) (rx_descr a i)),
     rx_queue := rx_queue a @ [i]\<rparr>"

section \<open>Playback\<close>

text \<open>A valid packet has the size of the buffer, so copying it replaces the whole buffer.\<close>

definition fill_content :: "'b audio_env \<Rightarrow> nat \<Rightarrow> s16 list" where
  "fill_content E n =
     (case answers E n of Some d \<Rightarrow> d | None \<Rightarrow> replicate (packet_size E div 2) 0)"

definition audio_fill :: "'b audio_env \<Rightarrow> nat \<Rightarrow> 'b audio \<Rightarrow> 'b audio" where
  "audio_fill E i a = a\<lparr>
     tx_descr := (tx_descr a)(i := (tx_descr a i)\<lparr>
       de_data := cpu_write (ops E) (fill_content E (plays a)) (de_data (tx_descr a i))\<rparr>),
     plays := plays a + 1\<rparr>"

definition audio_tx :: "'b audio_env \<Rightarrow> 'b audio \<Rightarrow> 'b audio" where
  "audio_tx E a = (case tx_queue a of
     [] \<Rightarrow> fold (tx_enqueue E) (rev [0..<TX]) (audio_fill E 0 a)
   | i # q \<Rightarrow> tx_enqueue E i (audio_fill E i (a\<lparr>tx_queue := q\<rparr>)))"

section \<open>Recording\<close>

definition audio_rx :: "'b audio_env \<Rightarrow> 'b audio \<Rightarrow> 'b audio" where
  "audio_rx E a = (case rx_queue a of
     [] \<Rightarrow> a
   | i # q \<Rightarrow>
      (case cpu_read (ops E) (de_data (rx_descr a i)) of (samples, b) \<Rightarrow>
        rx_enqueue E i (a\<lparr>rx_queue := q,
          rx_descr := (rx_descr a)(i := (rx_descr a i)\<lparr>de_data := b\<rparr>),
          recorded := recorded a @ [take (unat (descr_length (rx_descr a i)) div 2) samples]\<rparr>)))"

section \<open>Interrupts\<close>

definition playing_head :: "'b audio \<Rightarrow> nat \<Rightarrow> bool" where
  "playing_head a i \<longleftrightarrow>
     (ucast (cur_src tx_chan (dma_regs a) AND 0xfffff000) :: u64) = de_data_dma_addr (tx_descr a i)"

text \<open>The two halves of \<^verbatim>\<open>handle_dma_irq\<close>.\<close>

definition handle_tx_irq :: "'b audio_env \<Rightarrow> 'b audio \<Rightarrow> 'b audio" where
  "handle_tx_irq E a =
     (let (pending, m) = channel_irq_pending tx_chan FULL_PACKET (dma_regs a);
          a = a\<lparr>dma_regs := m\<rparr>
      in if pending then
           (case tx_queue a of [] \<Rightarrow> a | i # _ \<Rightarrow> if playing_head a i then a else audio_tx E a)
         else a)"

definition handle_rx_irq :: "'b audio_env \<Rightarrow> 'b audio \<Rightarrow> 'b audio" where
  "handle_rx_irq E a =
     (let (pending, m) = channel_irq_pending rx_chan FULL_PACKET (dma_regs a);
          a = a\<lparr>dma_regs := m\<rparr>
      in if pending then audio_rx E a else a)"

definition handle_dma_irq :: "'b audio_env \<Rightarrow> 'b audio \<Rightarrow> 'b audio" where
  "handle_dma_irq E a =
     (let a = handle_rx_irq E (handle_tx_irq E a) in a\<lparr>dma_acks := dma_acks a + 1\<rparr>)"

text \<open>The result says which of the two warnings was printed.\<close>

definition handle_audio_irq :: "'b audio \<Rightarrow> bool \<times> bool \<times> 'b audio" where
  "handle_audio_irq a =
     (let (underrun, m) = tx_underrun (i2s_regs a);
          (overrun, m2) = rx_overrun m
      in (underrun, overrun, a\<lparr>i2s_regs := m2, audio_acks := audio_acks a + 1\<rparr>))"

section \<open>Construction\<close>

definition construct_tx_descr :: "'b audio_env \<Rightarrow> nat \<Rightarrow> 'b audio \<Rightarrow> 'b audio" where
  "construct_tx_descr E i a = a\<lparr>tx_descr := (tx_descr a)
     (i := descr_construct (ops E) (packet_size E) (tx_descr a i))\<rparr>"

definition construct_rx_descr :: "'b audio_env \<Rightarrow> nat \<Rightarrow> 'b audio \<Rightarrow> 'b audio" where
  "construct_rx_descr E i a = a\<lparr>rx_descr := (rx_descr a)
     (i := descr_construct (ops E) (packet_size E) (rx_descr a i))\<rparr>"

definition setup_tx :: "'b audio_env \<Rightarrow> nat \<Rightarrow> 'b audio \<Rightarrow> 'b audio" where
  "setup_tx E i a = a\<lparr>tx_descr := (tx_descr a)(i := (tx_descr a i)\<lparr>de_page :=
     run_writes reg_wr (setup_tx_descriptor (tx_addr (i2s_addr E))
       (de_dma_addr (tx_descr a ((i + 1) mod TX)))) (de_page (tx_descr a i))\<rparr>)\<rparr>"

definition setup_rx :: "'b audio_env \<Rightarrow> nat \<Rightarrow> 'b audio \<Rightarrow> 'b audio" where
  "setup_rx E i a = rx_enqueue E i (a\<lparr>rx_descr := (rx_descr a)(i := (rx_descr a i)\<lparr>de_page :=
     run_writes reg_wr (setup_rx_descriptor (rx_addr (i2s_addr E))
       (de_dma_addr (rx_descr a ((i + 1) mod RX)))) (de_page (rx_descr a i))\<rparr>)\<rparr>)"

definition on_dma :: "(regs \<Rightarrow> regs) \<Rightarrow> 'b audio \<Rightarrow> 'b audio" where
  "on_dma f a = a\<lparr>dma_regs := f (dma_regs a)\<rparr>"

text \<open>The parts of the constructor, in the order of the code.\<close>

definition construct_devices :: "'b audio \<Rightarrow> 'b audio" where
  "construct_devices a = a\<lparr>
     i2s_regs := run_writes i2s_wr i2s_init (i2s_regs a),
     dma_regs := run_writes dma_wr dma_init (dma_regs a),
     tx_queue := [], rx_queue := [], audio_acks := audio_acks a + 1\<rparr>"

definition construct_tx :: "'b audio_env \<Rightarrow> 'b audio \<Rightarrow> 'b audio" where
  "construct_tx E a =
     (let a = fold (setup_tx E) [0..<TX] (fold (construct_tx_descr E) [0..<TX] a) in
      on_dma (irq_enable tx_chan FULL_PACKET)
        (on_dma (descr_dma tx_chan (de_dma_addr (tx_descr a 0))) a))"

definition construct_rx :: "'b audio_env \<Rightarrow> 'b audio \<Rightarrow> 'b audio" where
  "construct_rx E a =
     (let a = fold (setup_rx E) [0..<RX] (fold (construct_rx_descr E) [0..<RX] a) in
      on_dma (irq_enable rx_chan FULL_PACKET)
        (on_dma (descr_dma rx_chan (de_dma_addr (rx_descr a 0))) a))"

definition start_channels :: "'b audio \<Rightarrow> 'b audio" where
  "start_channels a =
     (let a = on_dma (channel_enable rx_chan) (on_dma (channel_enable tx_chan) a) in
      a\<lparr>i2s_regs := run_writes i2s_wr i2s_enable (i2s_regs a)\<rparr>)"

text \<open>The argument is the state with the fresh DMA buffers and registers as they are found.\<close>

definition audio_construct :: "'b audio_env \<Rightarrow> 'b audio \<Rightarrow> 'b audio" where
  "audio_construct E a =
     (let a = construct_rx E (construct_tx E (construct_devices a));
          a = a\<lparr>dma_acks := dma_acks a + 1\<rparr>
      in start_channels (audio_tx E a))"

end
