(* ===== verification/Audio_Ring.thy ===== *)
theory Audio_Ring
  imports Audio_Main "HOL-Library.Sublist"
begin

text \<open>
  The DMA engine and the driver together. The locale \<open>dma_memory\<close> is the contract of buffers
  that the processor reaches through its cache and the engine does not; it is interpreted on
  buffers with an explicit cached copy. The state \<open>ring\<close> adds to the driver's state the
  descriptors the engine is working on, the packets it has begun to play and the packets it
  has written. An event is the engine finishing a descriptor, which sets the channel's
  interrupt bit and goes on to the next descriptor of the chain, the engine's progress within
  a packet, or an interrupt handler of the driver; the events come in any order.
\<close>

section \<open>Buffers behind a cache\<close>

locale dma_memory =
  fixes C :: "'b buffer_ops"
    and dev_read :: "'b \<Rightarrow> s16 list"
    and dev_write :: "s16 list \<Rightarrow> 'b \<Rightarrow> 'b"
    and clean :: "'b \<Rightarrow> bool"
  assumes written_back: "dev_read (cache_clean_invalidate C (cpu_write C d b)) = d"
    and clean_invalidated: "clean (cache_invalidate C b)"
    and dev_write_clean: "clean b \<Longrightarrow> clean (dev_write d b)"
    and dev_read_write: "dev_read (dev_write d b) = d"
    and cpu_read_clean: "clean b \<Longrightarrow> fst (cpu_read C b) = dev_read b"

record cached_buffer =
  memory_content :: "s16 list"
  cache_content :: "s16 list option"

definition cached_ops :: "cached_buffer buffer_ops" where
  "cached_ops = \<lparr>
     cpu_read = (\<lambda>b. case cache_content b of
         Some d \<Rightarrow> (d, b)
       | None \<Rightarrow> (memory_content b, b\<lparr>cache_content := Some (memory_content b)\<rparr>)),
     cpu_write = (\<lambda>d b. b\<lparr>cache_content := Some d\<rparr>),
     cache_clean_invalidate = (\<lambda>b. case cache_content b of
         Some d \<Rightarrow> b\<lparr>memory_content := d, cache_content := None\<rparr>
       | None \<Rightarrow> b),
     cache_invalidate = (\<lambda>b. b\<lparr>cache_content := None\<rparr>)\<rparr>"

definition memory_write :: "s16 list \<Rightarrow> cached_buffer \<Rightarrow> cached_buffer" where
  "memory_write d b = b\<lparr>memory_content := d\<rparr>"

interpretation cached: dma_memory cached_ops memory_content memory_write "\<lambda>b. cache_content b = None"
  by unfold_locales (auto simp: cached_ops_def memory_write_def)

section \<open>The engine\<close>

datatype ring_event =
    Tx_done u32
  | Tx_progress u32
  | Rx_done "s16 list"
  | Dma_irq
  | Audio_irq

record 'b ring =
  drv :: "'b audio"
  tx_cur :: nat
  rx_cur :: nat
  played :: "s16 list list"
  written :: "s16 list list"

definition tx_next :: "'b audio \<Rightarrow> nat \<Rightarrow> nat option" where
  "tx_next a i = List.find (\<lambda>j. reg_rd (de_page (tx_descr a i)) Next_phys_addr
     = ucast (de_dma_addr (tx_descr a j))) [0..<TX]"

definition rx_next :: "'b audio \<Rightarrow> nat \<Rightarrow> nat option" where
  "rx_next a i = List.find (\<lambda>j. reg_rd (de_page (rx_descr a i)) Next_phys_addr
     = ucast (de_dma_addr (rx_descr a j))) [0..<RX]"

text \<open>The read position \<open>off\<close> within the packet, which starts at a page boundary.\<close>

definition tx_position :: "nat \<Rightarrow> u32 \<Rightarrow> 'b audio \<Rightarrow> 'b audio" where
  "tx_position i off = (\<lambda>a. a\<lparr>dma_regs := (dma_regs a)(channel_base tx_chan + 0x10 :=
     ucast (de_data_dma_addr (tx_descr a i)) + take_bit 12 off)\<rparr>)"

definition raise_irq :: "nat \<Rightarrow> 'b audio \<Rightarrow> 'b audio" where
  "raise_irq chan = on_dma (\<lambda>m. m(0x10 := m 0x10 OR push_bit (4 * chan) FULL_PACKET))"

definition play_descr :: "('b \<Rightarrow> s16 list) \<Rightarrow> nat \<Rightarrow> u32 \<Rightarrow> 'b ring \<Rightarrow> 'b ring" where
  "play_descr dev_read j off r = r\<lparr>
     drv := tx_position j off (drv r), tx_cur := j,
     played := played r @ [dev_read (de_data (tx_descr (drv r) j))]\<rparr>"

definition write_descr :: "(s16 list \<Rightarrow> 'b \<Rightarrow> 'b) \<Rightarrow> nat \<Rightarrow> s16 list \<Rightarrow> 'b audio \<Rightarrow> 'b audio" where
  "write_descr dev_write i d a = a\<lparr>rx_descr := (rx_descr a)(i := (rx_descr a i)
     \<lparr>de_data := dev_write d (de_data (rx_descr a i))\<rparr>)\<rparr>"

fun ring_step :: "'b audio_env \<Rightarrow> ('b \<Rightarrow> s16 list) \<Rightarrow> (s16 list \<Rightarrow> 'b \<Rightarrow> 'b) \<Rightarrow> ring_event \<Rightarrow>
    'b ring \<Rightarrow> 'b ring option" where
  "ring_step E dr dw (Tx_done off) r =
     map_option (\<lambda>j. play_descr dr j off (r\<lparr>drv := raise_irq tx_chan (drv r)\<rparr>))
       (tx_next (drv r) (tx_cur r))"
| "ring_step E dr dw (Tx_progress off) r = Some (r\<lparr>drv := tx_position (tx_cur r) off (drv r)\<rparr>)"
| "ring_step E dr dw (Rx_done d) r =
     map_option (\<lambda>j. r\<lparr>drv := raise_irq rx_chan (write_descr dw (rx_cur r) d (drv r)),
         rx_cur := j, written := written r @ [d]\<rparr>) (rx_next (drv r) (rx_cur r))"
| "ring_step E dr dw Dma_irq r = Some (r\<lparr>drv := handle_dma_irq E (drv r)\<rparr>)"
| "ring_step E dr dw Audio_irq r = Some (r\<lparr>drv := snd (snd (handle_audio_irq (drv r)))\<rparr>)"

fun ring_run :: "'b audio_env \<Rightarrow> ('b \<Rightarrow> s16 list) \<Rightarrow> (s16 list \<Rightarrow> 'b \<Rightarrow> 'b) \<Rightarrow> ring_event list \<Rightarrow>
    'b ring \<Rightarrow> 'b ring option" where
  "ring_run E dr dw [] r = Some r"
| "ring_run E dr dw (e # es) r = Option.bind (ring_step E dr dw e r) (ring_run E dr dw es)"

text \<open>
  The constructor enables the channels, which start with the descriptors it has announced:
  the first ones, as \<open>ring_started\<close> shows.
\<close>

definition ring_start :: "'b audio_env \<Rightarrow> ('b \<Rightarrow> s16 list) \<Rightarrow> 'b audio \<Rightarrow> 'b ring" where
  "ring_start E dr a = play_descr dr 0 0
     \<lparr>drv = audio_construct E (a\<lparr>plays := 0, recorded := []\<rparr>), tx_cur = 0, rx_cur = 0, played = [], written = []\<rparr>"

lemma ring_run_append:
  "ring_run E dr dw (es @ fs) r = Option.bind (ring_run E dr dw es r) (ring_run E dr dw fs)"
  by (induction es arbitrary: r) (auto split: bind_split)

section \<open>The wiring of the descriptors\<close>

text \<open>The DMA buffers the platform hands out do not overlap and lie below 4 GB.\<close>

definition buffers_ok :: "'b audio \<Rightarrow> bool" where
  "buffers_ok a \<longleftrightarrow>
     (ucast (de_dma_addr (tx_descr a 0)) :: u32) \<noteq> ucast (de_dma_addr (tx_descr a 1))
   \<and> (ucast (de_dma_addr (rx_descr a 0)) :: u32) \<noteq> ucast (de_dma_addr (rx_descr a 1))
   \<and> de_data_dma_addr (tx_descr a 0) \<noteq> de_data_dma_addr (tx_descr a 1)
   \<and> list_all (\<lambda>i. (ucast ((ucast (de_data_dma_addr (tx_descr a i)) :: u32) AND 0xfffff000) :: u64)
        = de_data_dma_addr (tx_descr a i)) [0, 1]"

definition wiring :: "'b audio \<Rightarrow> (nat \<Rightarrow> regs \<times> u64 \<times> u64) \<times> (nat \<Rightarrow> regs \<times> u64 \<times> u64)" where
  "wiring a = ((\<lambda>i. (de_page (tx_descr a i), de_dma_addr (tx_descr a i), de_data_dma_addr (tx_descr a i))),
               (\<lambda>i. (de_page (rx_descr a i), de_dma_addr (rx_descr a i), de_data_dma_addr (rx_descr a i))))"

definition wired :: "'b audio_env \<Rightarrow> 'b audio \<Rightarrow> bool" where
  "wired E a \<longleftrightarrow> buffers_ok a \<and> list_all (\<lambda>i.
     (let p = de_page (tx_descr a i); q = de_page (rx_descr a i) in
       reg_rd p Config_Src_drq = SDRAM \<and> reg_rd p Config_Dst_drq = AUDIO_CODEC
     \<and> reg_rd p Next_phys_addr = ucast (de_dma_addr (tx_descr a (1 - i)))
     \<and> reg_rd q Config_Src_drq = AUDIO_CODEC \<and> reg_rd q Config_Dst_drq = SDRAM
     \<and> reg_rd q Next_phys_addr = ucast (de_dma_addr (rx_descr a (1 - i)))
     \<and> reg_rd q Length = of_nat (packet_size E))) [0, 1]"

lemma wired_cong: "wiring a = wiring b \<Longrightarrow> wired E a = wired E b"
proof -
  assume eq: "wiring a = wiring b"
  then have "(de_page (tx_descr a i), de_dma_addr (tx_descr a i), de_data_dma_addr (tx_descr a i))
      = (de_page (tx_descr b i), de_dma_addr (tx_descr b i), de_data_dma_addr (tx_descr b i))"
    and "(de_page (rx_descr a i), de_dma_addr (rx_descr a i), de_data_dma_addr (rx_descr a i))
      = (de_page (rx_descr b i), de_dma_addr (rx_descr b i), de_data_dma_addr (rx_descr b i))" for i
    by (auto simp: wiring_def dest: fun_cong [where x = i])
  then show ?thesis by (simp add: wired_def buffers_ok_def)
qed

lemma indices: "[0..<TX] = [0, 1]" "[0..<RX] = [0, 1]"
  "Suc 0 mod TX = Suc 0" "Suc (Suc 0) mod TX = 0" "Suc 0 mod RX = Suc 0" "Suc (Suc 0) mod RX = 0"
  "TX \<noteq> Suc 0" "RX \<noteq> Suc 0"
  by (simp_all add: TX_def RX_def upt_rec)

lemma cache_maintainance_simps [simp]:
  "de_page (cache_maintainance C d) = de_page d"
  "de_dma_addr (cache_maintainance C d) = de_dma_addr d"
  "de_data_dma_addr (cache_maintainance C d) = de_data_dma_addr d"
  by (simp_all add: cache_maintainance_def Let_def)

lemma two_to_32: "(4294967296 :: u32) = 0"
  by simp

lemma page_programs_clean:
  "clean_program (descr_init x n @ setup_tx_descriptor y z)" for x y z
  by (simp add: clean_program_def separates_def descr_init_def setup_tx_descriptor_def descr_mode_def
      descr_drq_def descr_width_def descr_field_defs descr_const_defs wf_field_def disjoint_fields_def
      whole_reg_def take_bit_eq_mod two_to_32)

lemma rx_page_programs_clean:
  "clean_program (descr_init x n @ setup_rx_descriptor y z)" for x y z
  by (simp add: clean_program_def separates_def descr_init_def setup_rx_descriptor_def descr_mode_def
      descr_drq_def descr_width_def descr_field_defs descr_const_defs wf_field_def disjoint_fields_def
      whole_reg_def take_bit_eq_mod two_to_32)

lemmas page_program_defs = descr_init_def setup_tx_descriptor_def setup_rx_descriptor_def
  descr_mode_def descr_drq_def descr_width_def

lemma tx_page_fields:
  fixes p :: regs and x y z :: u64 and n :: nat
  defines "q \<equiv> run_writes reg_wr (setup_tx_descriptor y z) (run_writes reg_wr (descr_init x n) p)"
  shows "reg_rd q Config_Src_drq = SDRAM" and "reg_rd q Config_Dst_drq = AUDIO_CODEC"
    and "reg_rd q Next_phys_addr = ucast z"
proof -
  have q: "q = run_writes reg_wr (descr_init x n @ setup_tx_descriptor y z) p"
    by (simp add: q_def run_writes_append)
  show "reg_rd q Config_Src_drq = SDRAM"
    unfolding q by (rule reg_file.rd_clean_program [OF page_programs_clean])
      (simp add: page_program_defs descr_field_defs whole_reg_def)
  show "reg_rd q Config_Dst_drq = AUDIO_CODEC"
    unfolding q by (rule reg_file.rd_clean_program [OF page_programs_clean])
      (simp add: page_program_defs descr_field_defs whole_reg_def)
  show "reg_rd q Next_phys_addr = ucast z"
    unfolding q by (rule reg_file.rd_clean_program [OF page_programs_clean])
      (simp add: page_program_defs descr_field_defs whole_reg_def)
qed

lemma rx_page_fields:
  fixes p :: regs and x y z :: u64 and n :: nat
  defines "q \<equiv> run_writes reg_wr (setup_rx_descriptor y z) (run_writes reg_wr (descr_init x n) p)"
  shows "reg_rd q Config_Src_drq = AUDIO_CODEC" and "reg_rd q Config_Dst_drq = SDRAM"
    and "reg_rd q Next_phys_addr = ucast z" and "reg_rd q Length = of_nat n"
proof -
  have q: "q = run_writes reg_wr (descr_init x n @ setup_rx_descriptor y z) p"
    by (simp add: q_def run_writes_append)
  show "reg_rd q Config_Src_drq = AUDIO_CODEC"
    unfolding q by (rule reg_file.rd_clean_program [OF rx_page_programs_clean])
      (simp add: page_program_defs descr_field_defs whole_reg_def)
  show "reg_rd q Config_Dst_drq = SDRAM"
    unfolding q by (rule reg_file.rd_clean_program [OF rx_page_programs_clean])
      (simp add: page_program_defs descr_field_defs whole_reg_def)
  show "reg_rd q Next_phys_addr = ucast z"
    unfolding q by (rule reg_file.rd_clean_program [OF rx_page_programs_clean])
      (simp add: page_program_defs descr_field_defs whole_reg_def)
  show "reg_rd q Length = of_nat n"
    unfolding q by (rule reg_file.rd_clean_program [OF rx_page_programs_clean])
      (simp add: page_program_defs descr_field_defs whole_reg_def)
qed

lemma maintain_tx:
  "reg_rd (de_page d) Config_Src_drq = SDRAM \<Longrightarrow> reg_rd (de_page d) Config_Dst_drq = AUDIO_CODEC \<Longrightarrow>
   cache_maintainance C d = d\<lparr>de_data := cache_clean_invalidate C (de_data d)\<rparr>"
  by (simp add: cache_maintainance_def SDRAM_def AUDIO_CODEC_def)

lemma maintain_rx:
  "reg_rd (de_page d) Config_Src_drq = AUDIO_CODEC \<Longrightarrow> reg_rd (de_page d) Config_Dst_drq = SDRAM \<Longrightarrow>
   cache_maintainance C d = d\<lparr>de_data := cache_invalidate C (de_data d)\<rparr>"
  by (simp add: cache_maintainance_def SDRAM_def AUDIO_CODEC_def)

lemma construct_devices_simps [simp]:
  "tx_descr (construct_devices a) = tx_descr a" "rx_descr (construct_devices a) = rx_descr a"
  "tx_queue (construct_devices a) = []" "rx_queue (construct_devices a) = []"
  "plays (construct_devices a) = plays a" "recorded (construct_devices a) = recorded a"
  by (simp_all add: construct_devices_def)

lemma construct_tx_simps [simp]:
  "rx_descr (construct_tx E a) = rx_descr a"
  "tx_queue (construct_tx E a) = tx_queue a" "rx_queue (construct_tx E a) = rx_queue a"
  "plays (construct_tx E a) = plays a" "recorded (construct_tx E a) = recorded a"
  by (simp_all add: construct_tx_def Let_def indices on_dma_def construct_tx_descr_def setup_tx_def)

lemma start_channels_simps [simp]:
  "tx_descr (start_channels a) = tx_descr a" "rx_descr (start_channels a) = rx_descr a"
  "tx_queue (start_channels a) = tx_queue a" "rx_queue (start_channels a) = rx_queue a"
  "plays (start_channels a) = plays a" "recorded (start_channels a) = recorded a"
  by (simp_all add: start_channels_def Let_def on_dma_def)

lemma construct_rx_simps [simp]:
  "tx_descr (construct_rx E a) = tx_descr a" "tx_queue (construct_rx E a) = tx_queue a"
  "rx_queue (construct_rx E a) = rx_queue a @ [0, 1]"
  "plays (construct_rx E a) = plays a" "recorded (construct_rx E a) = recorded a"
  by (simp_all add: construct_rx_def Let_def indices on_dma_def construct_rx_descr_def setup_rx_def
      rx_enqueue_def)

lemma tx_descr_constructed:
  fixes a :: "'b audio" and E :: "'b audio_env"
  defines "t \<equiv> tx_descr (construct_tx E a)"
  assumes "i \<in> {0, 1}"
  shows "de_dma_addr (t i) = de_dma_addr (tx_descr a i)"
    and "de_data_dma_addr (t i) = de_data_dma_addr (tx_descr a i)"
    and "reg_rd (de_page (t i)) Config_Src_drq = SDRAM"
    and "reg_rd (de_page (t i)) Config_Dst_drq = AUDIO_CODEC"
    and "reg_rd (de_page (t i)) Next_phys_addr = ucast (de_dma_addr (tx_descr a (1 - i)))"
  using assms(2)
  by (auto simp: t_def construct_tx_def Let_def indices on_dma_def construct_tx_descr_def
      setup_tx_def descr_construct_def tx_page_fields)

lemma rx_descr_constructed:
  fixes a :: "'b audio" and E :: "'b audio_env"
  defines "t \<equiv> rx_descr (construct_rx E a)"
  assumes "i \<in> {0, 1}"
  shows "de_dma_addr (t i) = de_dma_addr (rx_descr a i)"
    and "reg_rd (de_page (t i)) Config_Src_drq = AUDIO_CODEC"
    and "reg_rd (de_page (t i)) Config_Dst_drq = SDRAM"
    and "reg_rd (de_page (t i)) Next_phys_addr = ucast (de_dma_addr (rx_descr a (1 - i)))"
    and "reg_rd (de_page (t i)) Length = of_nat (packet_size E)"
    and "\<exists>b. de_data (t i) = cache_invalidate (ops E) b"
  using assms(2)
  by (auto simp: t_def construct_rx_def Let_def indices on_dma_def construct_rx_descr_def
      setup_rx_def rx_enqueue_def descr_construct_def rx_page_fields maintain_rx)

lemma wiring_simps:
  "wiring (start_channels a) = wiring a" "wiring (a\<lparr>dma_acks := n\<rparr>) = wiring a"
  "wiring (a\<lparr>dma_regs := m\<rparr>) = wiring a"
  by (simp_all add: wiring_def)

lemma first_tx:
  assumes "tx_queue a = []"
  shows "tx_queue (audio_tx E a) = [1, 0]" and "plays (audio_tx E a) = plays a + 1"
    and "rx_descr (audio_tx E a) = rx_descr a" and "rx_queue (audio_tx E a) = rx_queue a"
    and "recorded (audio_tx E a) = recorded a"
    and "wiring (audio_tx E a) = wiring a"
    and "de_data (tx_descr (audio_tx E a) 0) = de_data (cache_maintainance (ops E)
      ((tx_descr a 0)\<lparr>de_data := cpu_write (ops E) (fill_content E (plays a)) (de_data (tx_descr a 0))\<rparr>))"
  using assms by (auto simp: audio_tx_def indices tx_enqueue_def audio_fill_def wiring_def)

lemma construct_queues:
  "tx_queue (audio_construct E a) = [1, 0]" "rx_queue (audio_construct E a) = [0, 1]"
  "plays (audio_construct E a) = plays a + 1" "recorded (audio_construct E a) = recorded a"
  by (simp_all add: audio_construct_def Let_def first_tx)

lemma construct_wired:
  assumes "buffers_ok a"
  shows "wired E (audio_construct E a)"
proof -
  let ?b = "construct_rx E (construct_tx E (construct_devices a))"
  have "wired E ?b"
    using assms tx_descr_constructed [of _ E "construct_devices a"]
      rx_descr_constructed [of _ E "construct_tx E (construct_devices a)"]
    by (simp add: wired_def buffers_ok_def)
  moreover have "wiring (audio_construct E a) = wiring ?b"
    by (simp add: audio_construct_def Let_def first_tx wiring_simps)
  ultimately show ?thesis using wired_cong by blast
qed

context dma_memory
begin

lemma construct_buffers:
  assumes "ops E = C"
  shows "dev_read (de_data (tx_descr (audio_construct E a) 0)) = fill_content E (plays a)"
    and "i < 2 \<Longrightarrow> clean (de_data (rx_descr (audio_construct E a) i))"
proof -
  show "dev_read (de_data (tx_descr (audio_construct E a) 0)) = fill_content E (plays a)"
    by (simp add: audio_construct_def Let_def first_tx maintain_tx tx_descr_constructed assms written_back)
  show "clean (de_data (rx_descr (audio_construct E a) i))" if "i < 2"
    using that rx_descr_constructed(6) [of i E "construct_tx E (construct_devices a)"]
    by (auto simp: audio_construct_def Let_def first_tx assms clean_invalidated less_2_cases_iff)
qed

end

section \<open>Interrupts\<close>

lemma channel_irq_pending_other: "r \<noteq> 0x10 \<Longrightarrow> snd (channel_irq_pending i t m) r = m r"
  by (simp add: channel_irq_pending_def Let_def dma_wr_def w1c_wr_other Irq_pending_def)

lemma cur_src_after_irq [simp]: "cur_src tx_chan (snd (channel_irq_pending i t m)) = cur_src tx_chan m"
  by (simp add: cur_src_def Dma_cur_src_def channel_base_def tx_chan_def channel_irq_pending_other)

lemma page_of_position:
  fixes d :: u64 and off :: u32
  assumes "ucast ((ucast d :: u32) AND 0xfffff000) = d"
  shows "(ucast ((ucast d + take_bit 12 off :: u32) AND 0xfffff000) :: u64) = d"
proof -
  let ?x = "ucast d :: u32"
  have bits: "bit (0xfffff000 :: u32) n \<longleftrightarrow> 12 \<le> n \<and> n < 32" for n
  proof -
    have m: "(0xfffff000 :: u32) = NOT (mask 12)" by (simp add: mask_eq_exp_minus_1)
    show ?thesis unfolding m by (auto simp: bit_simps)
  qed
  have "?x = ucast (ucast (?x AND 0xfffff000) :: u64)" using assms by simp
  also have "\<dots> = ?x AND 0xfffff000" by (rule bit_eqI) (auto simp: bit_simps dest: bit_imp_le_length)
  finally have x: "?x = ?x AND 0xfffff000" .
  then have low: "\<not> bit ?x n" if "n < 12" for n
    using that bits by (metis bit_and_iff leD)
  then have "?x + take_bit 12 off = ?x OR take_bit 12 off"
    by (intro disjunctive_add) (auto simp: bit_take_bit_iff)
  moreover have "(?x OR take_bit 12 off) AND M = ?x AND M" if "\<And>n. bit M n \<Longrightarrow> 12 \<le> n" for M
    by (rule bit_eqI) (auto simp: bit_and_iff bit_or_iff bit_take_bit_iff dest: that)
  then have "(?x OR take_bit 12 off) AND 0xfffff000 = ?x AND 0xfffff000" using bits by blast
  ultimately show ?thesis using assms by simp
qed

lemma refill_tx:
  assumes "tx_queue a = [h, t]"
  shows "tx_queue (audio_tx E a) = [t, h]" and "plays (audio_tx E a) = plays a + 1"
    and "wiring (audio_tx E a) = wiring a" and "dma_regs (audio_tx E a) = dma_regs a"
    and "rx_descr (audio_tx E a) = rx_descr a" and "rx_queue (audio_tx E a) = rx_queue a"
    and "recorded (audio_tx E a) = recorded a"
    and "i \<noteq> h \<Longrightarrow> tx_descr (audio_tx E a) i = tx_descr a i"
    and "de_data (tx_descr (audio_tx E a) h) = de_data (cache_maintainance (ops E)
      ((tx_descr a h)\<lparr>de_data := cpu_write (ops E) (fill_content E (plays a)) (de_data (tx_descr a h))\<rparr>))"
  using assms by (auto simp: audio_tx_def tx_enqueue_def audio_fill_def wiring_def)

lemma audio_rx_keeps:
  "tx_descr (audio_rx E a) = tx_descr a" "tx_queue (audio_rx E a) = tx_queue a"
  "plays (audio_rx E a) = plays a" "dma_regs (audio_rx E a) = dma_regs a"
  "wiring (audio_rx E a) = wiring a"
  by (auto simp: audio_rx_def rx_enqueue_def wiring_def fun_eq_iff split: list.split prod.split)

lemma handle_rx_keeps:
  "tx_descr (handle_rx_irq E a) = tx_descr a" "tx_queue (handle_rx_irq E a) = tx_queue a"
  "plays (handle_rx_irq E a) = plays a" "wiring (handle_rx_irq E a) = wiring a"
  "cur_src tx_chan (dma_regs (handle_rx_irq E a)) = cur_src tx_chan (dma_regs a)"
  by (auto simp: handle_rx_irq_def audio_rx_keeps wiring_simps Let_def prod.case_eq_if)

section \<open>Playback\<close>

text \<open>
  The queue is the descriptor that is filled next and the one filled last. A descriptor is
  filled only once the one filled last is being played, so all earlier packets have been played.
\<close>

definition tx_inv :: "'b audio_env \<Rightarrow> ('b \<Rightarrow> s16 list) \<Rightarrow> 'b ring \<Rightarrow> bool" where
  "tx_inv E dr r \<longleftrightarrow> (let a = drv r; fc = (\<lambda>n. map (fill_content E) [0..<n]) in
     wired E a \<and> tx_cur r < 2 \<and> rx_cur r < 2 \<and> playing_head a (tx_cur r) \<and> 0 < plays a
   \<and> (\<exists>h t. tx_queue a = [h, t] \<and> h < 2 \<and> t = 1 - h
        \<and> dr (de_data (tx_descr a t)) = fill_content E (plays a - 1)
        \<and> subseq (fc (plays a - 1)) (played r) \<and> (tx_cur r = t \<longrightarrow> subseq (fc (plays a)) (played r))))"

lemma other_descr: "wired E a \<Longrightarrow> i < 2 \<Longrightarrow> tx_next a i = Some (1 - i)"
  by (auto simp: wired_def Let_def tx_next_def indices buffers_ok_def less_2_cases_iff)

lemma other_rx_descr: "wired E a \<Longrightarrow> i < 2 \<Longrightarrow> rx_next a i = Some (1 - i)"
  by (auto simp: wired_def Let_def rx_next_def indices buffers_ok_def less_2_cases_iff)

lemma playing_head_iff:
  assumes "wired E a" and "playing_head a i" and "i < 2" and "j < 2"
  shows "playing_head a j \<longleftrightarrow> j = i"
  using assms by (auto simp: playing_head_def wired_def buffers_ok_def less_2_cases_iff)

lemma playing_head_positioned:
  assumes "wired E a" and "i < 2"
  shows "playing_head (tx_position i off a) i"
  using assms page_of_position [of "de_data_dma_addr (tx_descr a i)" off]
  by (auto simp: playing_head_def tx_position_def cur_src_def Dma_cur_src_def channel_base_def
      tx_chan_def wired_def buffers_ok_def less_2_cases_iff)

lemma subseq_snoc_next:
  "subseq (map f [0..<n]) xs \<Longrightarrow> subseq (map f [0..<Suc n]) (xs @ [f n])"
  by simp

lemma playing_head_cong:
  "cur_src tx_chan (dma_regs a) = cur_src tx_chan (dma_regs b) \<Longrightarrow>
   de_data_dma_addr (tx_descr a i) = de_data_dma_addr (tx_descr b i) \<Longrightarrow>
   playing_head a i = playing_head b i"
  by (simp add: playing_head_def)

lemma wiring_data_addr: "wiring a = wiring b \<Longrightarrow> de_data_dma_addr (tx_descr a i) = de_data_dma_addr (tx_descr b i)"
  by (auto simp: wiring_def dest: fun_cong [where x = i])

context dma_memory
begin

lemma tx_inv_refill:
  assumes "ops E = C" and inv: "tx_inv E dev_read r"
  shows "tx_inv E dev_read (r\<lparr>drv := handle_tx_irq E (drv r)\<rparr>)"
    and "tx_descr (handle_tx_irq E (drv r)) (tx_cur r) = tx_descr (drv r) (tx_cur r)"
proof -
  let ?a = "drv r"
  obtain p m where pm: "channel_irq_pending tx_chan FULL_PACKET (dma_regs ?a) = (p, m)" by fastforce
  let ?b = "?a\<lparr>dma_regs := m\<rparr>"
  from inv obtain h t where q: "tx_queue ?a = [h, t]" "h < 2" "t = 1 - h"
    and w: "wired E ?a" "tx_cur r < 2" "playing_head ?a (tx_cur r)" "0 < plays ?a"
    and c: "dev_read (de_data (tx_descr ?a t)) = fill_content E (plays ?a - 1)"
      "subseq (map (fill_content E) [0..<plays ?a - 1]) (played r)"
      "tx_cur r = t \<longrightarrow> subseq (map (fill_content E) [0..<plays ?a]) (played r)"
    by (auto simp: tx_inv_def Let_def)
  have m: "cur_src tx_chan m = cur_src tx_chan (dma_regs ?a)"
    using pm cur_src_after_irq by (metis snd_conv)
  have wb: "wired E ?b" and hb: "playing_head ?b (tx_cur r)"
    using w wired_cong [OF wiring_simps(3)] m by (auto simp: playing_head_def)
  have head: "playing_head ?b h \<longleftrightarrow> h = tx_cur r"
    using playing_head_iff [OF wb hb w(2) q(2)] .
  have invb: "tx_inv E dev_read (r\<lparr>drv := ?b\<rparr>)"
    using inv wb hb by (auto simp: tx_inv_def Let_def)
  have "tx_inv E dev_read (r\<lparr>drv := handle_tx_irq E ?a\<rparr>)
      \<and> tx_descr (handle_tx_irq E ?a) (tx_cur r) = tx_descr ?a (tx_cur r)"
  proof (cases "p \<and> h \<noteq> tx_cur r")
    case False
    then have "handle_tx_irq E ?a = ?b"
      using pm q head by (auto simp: handle_tx_irq_def Let_def)
    with invb show ?thesis by simp
  next
    case True
    let ?c = "audio_tx E ?b"
    have h: "handle_tx_irq E ?a = ?c"
      using pm q True head by (simp add: handle_tx_irq_def Let_def)
    have qb: "tx_queue ?b = [h, t]" using q by simp
    note c_simps = refill_tx [OF qb, where E = E]
    have cur: "tx_cur r = t" using True q w(2) by linarith
    have wc: "wired E ?c" using wb wired_cong [OF c_simps(3)] by blast
    have "playing_head ?c (tx_cur r)"
      using hb playing_head_cong [of ?c ?b] c_simps(4) wiring_data_addr [OF c_simps(3)] by auto
    moreover have "reg_rd (de_page (tx_descr ?b h)) Config_Src_drq = SDRAM"
      "reg_rd (de_page (tx_descr ?b h)) Config_Dst_drq = AUDIO_CODEC"
      using wb q(2) by (auto simp: wired_def Let_def less_2_cases_iff)
    then have "dev_read (de_data (tx_descr ?c h)) = fill_content E (plays ?a)"
      using assms(1) by (simp add: c_simps maintain_tx written_back)
    ultimately have "tx_inv E dev_read (r\<lparr>drv := ?c\<rparr>)"
      using wc w q c cur True inv by (auto simp: tx_inv_def Let_def c_simps(1-7) less_2_cases_iff)
    moreover have "tx_descr ?c (tx_cur r) = tx_descr ?a (tx_cur r)"
      using c_simps(8) [of "tx_cur r"] True by simp
    ultimately show ?thesis using h by simp
  qed
  then show "tx_inv E dev_read (r\<lparr>drv := handle_tx_irq E (drv r)\<rparr>)"
    and "tx_descr (handle_tx_irq E (drv r)) (tx_cur r) = tx_descr (drv r) (tx_cur r)" by auto
qed

lemma tx_inv_cong:
  assumes "tx_inv E dev_read r" and "wiring b = wiring (drv r)"
    and "cur_src tx_chan (dma_regs b) = cur_src tx_chan (dma_regs (drv r))"
    and "tx_queue b = tx_queue (drv r)" and "plays b = plays (drv r)"
    and "tx_descr b = tx_descr (drv r)"
  shows "tx_inv E dev_read (r\<lparr>drv := b\<rparr>)"
  using assms wired_cong [OF assms(2)] playing_head_cong [of b "drv r"]
  by (simp add: tx_inv_def Let_def)

lemma tx_inv_step:
  assumes "ops E = C" and inv: "tx_inv E dev_read r"
  shows "\<exists>r'. ring_step E dev_read dev_write e r = Some r' \<and> tx_inv E dev_read r'"
proof (cases e)
  case (Tx_done off)
  let ?a = "raise_irq tx_chan (drv r)" and ?j = "1 - tx_cur r"
  from inv have w: "wired E (drv r)" "tx_cur r < 2" by (auto simp: tx_inv_def Let_def)
  have wr: "wiring ?a = wiring (drv r)" by (simp add: raise_irq_def on_dma_def wiring_simps)
  with w(1) have wa: "wired E ?a" using wired_cong by blast
  have j: "?j < 2" by simp
  have pos: "wiring (tx_position ?j off ?a) = wiring ?a"
    by (simp add: tx_position_def wiring_simps)
  have "wired E (tx_position ?j off ?a)" using wa wired_cong [OF pos] by blast
  moreover have "playing_head (tx_position ?j off ?a) ?j" by (rule playing_head_positioned [OF wa j])
  ultimately have "tx_inv E dev_read (play_descr dev_read ?j off (r\<lparr>drv := ?a\<rparr>))"
    using inv w(2) subseq_snoc_next [of "fill_content E" "plays (drv r) - 1" "played r"]
    by (auto simp: tx_inv_def Let_def play_descr_def tx_position_def raise_irq_def on_dma_def
        less_2_cases_iff list_emb_append_mono subseq_append' intro: subseq_rev_drop_many)
  then show ?thesis using other_descr [OF w] Tx_done by simp
next
  case (Tx_progress off)
  from inv have w: "wired E (drv r)" "tx_cur r < 2" by (auto simp: tx_inv_def Let_def)
  let ?a = "tx_position (tx_cur r) off (drv r)"
  have "wired E ?a" unfolding tx_position_def by (rule wired_cong [OF wiring_simps(3), THEN iffD2, OF w(1)])
  with inv playing_head_positioned [OF w, of off] have "tx_inv E dev_read (r\<lparr>drv := ?a\<rparr>)"
    by (auto simp: tx_inv_def Let_def tx_position_def)
  with Tx_progress show ?thesis by simp
next
  case (Rx_done d)
  let ?a = "raise_irq rx_chan (write_descr dev_write (rx_cur r) d (drv r))"
  have "tx_inv E dev_read (r\<lparr>drv := ?a\<rparr>)"
    by (rule tx_inv_cong [OF inv]) (simp_all add: raise_irq_def write_descr_def on_dma_def wiring_def
        fun_eq_iff cur_src_def Dma_cur_src_def channel_base_def tx_chan_def)
  then have "tx_inv E dev_read (r\<lparr>drv := ?a, rx_cur := 1 - rx_cur r, written := written r @ [d]\<rparr>)"
    by (simp add: tx_inv_def Let_def)
  moreover have "rx_next (drv r) (rx_cur r) = Some (1 - rx_cur r)"
    using inv other_rx_descr by (auto simp: tx_inv_def Let_def)
  ultimately show ?thesis using Rx_done by simp
next
  case Dma_irq
  let ?b = "handle_tx_irq E (drv r)"
  have "tx_inv E dev_read (r\<lparr>drv := ?b, drv := handle_dma_irq E (drv r)\<rparr>)"
    by (rule tx_inv_cong [OF tx_inv_refill(1) [OF assms]])
      (simp_all add: handle_dma_irq_def Let_def handle_rx_keeps wiring_simps)
  with Dma_irq show ?thesis by simp
next
  case Audio_irq
  have "tx_inv E dev_read (r\<lparr>drv := snd (snd (handle_audio_irq (drv r)))\<rparr>)"
    by (rule tx_inv_cong [OF inv]) (simp_all add: handle_audio_irq_def prod.case_eq_if wiring_def)
  with Audio_irq show ?thesis by simp
qed

lemma tx_inv_run:
  assumes "ops E = C"
  shows "tx_inv E dev_read r \<Longrightarrow> \<exists>r'. ring_run E dev_read dev_write es r = Some r' \<and> tx_inv E dev_read r'"
proof (induction es arbitrary: r)
  case (Cons e es)
  from tx_inv_step [OF assms Cons.prems] obtain r' where
    "ring_step E dev_read dev_write e r = Some r'" "tx_inv E dev_read r'" by blast
  with Cons.IH show ?case by force
qed simp

lemma tx_inv_start:
  assumes "ops E = C" and "buffers_ok a"
  shows "tx_inv E dev_read (ring_start E dev_read a)"
proof -
  let ?b = "audio_construct E (a\<lparr>plays := 0, recorded := []\<rparr>)"
  have "buffers_ok (a\<lparr>plays := 0, recorded := []\<rparr>)" using assms(2) by (simp add: buffers_ok_def)
  then have w: "wired E ?b" by (rule construct_wired)
  have pos: "wiring (tx_position 0 0 ?b) = wiring ?b" by (simp add: tx_position_def wiring_simps)
  have "wired E (tx_position 0 0 ?b)" by (rule wired_cong [OF pos, THEN iffD2, OF w])
  moreover have "playing_head (tx_position 0 0 ?b) 0" by (rule playing_head_positioned [OF w]) simp
  ultimately show ?thesis
    by (simp add: tx_inv_def Let_def ring_start_def play_descr_def)
      (simp add: tx_position_def construct_queues construct_buffers(1) [OF assms(1)])
qed

end

section \<open>An example\<close>

text \<open>Packets of two samples; the n-th packet of the session consists of the number n.\<close>

definition demo_env :: "cached_buffer audio_env" where
  "demo_env = \<lparr>ops = cached_ops, period = 1, answers = (\<lambda>n. Some [of_nat n, of_nat n]),
     i2s_addr = 0x1c22000\<rparr>"

definition demo_descr :: "u64 \<Rightarrow> cached_buffer descriptor" where
  "demo_descr addr = \<lparr>de_page = (\<lambda>_. 0), de_dma_addr = addr,
     de_data = \<lparr>memory_content = [0, 0], cache_content = None\<rparr>, de_data_dma_addr = addr + 0x1000\<rparr>"

definition demo_audio :: "cached_buffer audio" where
  "demo_audio = \<lparr>dma_regs = (\<lambda>_. 0), i2s_regs = (\<lambda>_. 0),
     tx_descr = (\<lambda>i. if i = 0 then demo_descr 0x40000000 else demo_descr 0x40002000),
     rx_descr = (\<lambda>i. if i = 0 then demo_descr 0x40004000 else demo_descr 0x40006000),
     tx_queue = [], rx_queue = [], plays = 0, recorded = [], dma_acks = 0, audio_acks = 0\<rparr>"

lemma demo_ops: "ops demo_env = cached_ops"
  by (simp add: demo_env_def)

lemma demo_buffers: "buffers_ok demo_audio"
  by (simp add: buffers_ok_def demo_audio_def demo_descr_def)

section \<open>Properties\<close>

text \<open>
  C19: no packet of a session gets lost on the way to the audio interface. Whatever the order
  of the engine's steps and of the interrupts, however late and however spurious, all packets
  the driver has taken from the session but the last one have been played, in their order.
  (A packet is played again if the next one is not there in time.)
\<close>

theorem played_without_loss:
  assumes "dma_memory C dev_read dev_write clean" and "ops E = C" and "buffers_ok a"
  shows "\<exists>r. ring_run E dev_read dev_write es (ring_start E dev_read a) = Some r
     \<and> subseq (map (fill_content E) [0..<plays (drv r) - 1]) (played r)"
proof -
  show ?thesis
    using dma_memory.tx_inv_run [OF assms(1,2) dma_memory.tx_inv_start [OF assms]]
    by (fastforce simp: tx_inv_def Let_def)
qed

text \<open>
  C27: the buffer that is being played is never written: the interrupt handler leaves the
  buffer of the descriptor the engine is reading as it is, cache included.
\<close>

theorem playing_buffer_untouched:
  assumes "dma_memory C dev_read dev_write clean" and "ops E = C" and "buffers_ok a"
    and "ring_run E dev_read dev_write es (ring_start E dev_read a) = Some r"
  shows "tx_descr (handle_dma_irq E (drv r)) (tx_cur r) = tx_descr (drv r) (tx_cur r)"
proof -
  have "tx_inv E dev_read r"
    using dma_memory.tx_inv_run [OF assms(1,2) dma_memory.tx_inv_start [OF assms(1,2,3)], of es]
      assms(4) by auto
  then show ?thesis
    using dma_memory.tx_inv_refill(2) [OF assms(1,2)]
    by (simp add: handle_dma_irq_def Let_def handle_rx_keeps)
qed

text \<open>Three packets are played while one interrupt is spurious and one is missing.\<close>

lemma played_without_loss_witness:
  "\<exists>r. ring_run demo_env memory_content memory_write [Dma_irq, Tx_done 4, Tx_done 0, Dma_irq, Tx_done 8]
        (ring_start demo_env memory_content demo_audio) = Some r
     \<and> subseq (map (fill_content demo_env) [0..<plays (drv r) - 1]) (played r)"
  by (rule played_without_loss [OF cached.dma_memory_axioms demo_ops demo_buffers])

lemma playing_buffer_untouched_witness:
  "\<exists>r. ring_run demo_env memory_content memory_write [Tx_done 4, Tx_done 0, Tx_progress 2]
        (ring_start demo_env memory_content demo_audio) = Some r
     \<and> tx_descr (handle_dma_irq demo_env (drv r)) (tx_cur r) = tx_descr (drv r) (tx_cur r)"
proof -
  from cached.tx_inv_run [OF demo_ops cached.tx_inv_start [OF demo_ops demo_buffers]] obtain r where
    r: "ring_run demo_env memory_content memory_write [Tx_done 4, Tx_done 0, Tx_progress 2]
      (ring_start demo_env memory_content demo_audio) = Some r" by blast
  with playing_buffer_untouched [OF cached.dma_memory_axioms demo_ops demo_buffers r]
  show ?thesis by blast
qed

end
