(* ===== verification/Audio_Record.thy ===== *)
theory Audio_Record
  imports Audio_Ring
begin

text \<open>
  The recording half of the audio driver: what arrives at the session when the interrupt
  handler keeps up with the DMA engine, and what happens after it has been late once.
\<close>

section \<open>Recording\<close>

lemma FULL_PACKET_bit: "bit FULL_PACKET n \<longleftrightarrow> n = 1"
proof -
  have f: "FULL_PACKET = push_bit 1 1" by (simp add: FULL_PACKET_def)
  show ?thesis unfolding f by (auto simp: bit_simps)
qed

lemma seven_bit: "bit (7 :: u32) n \<longleftrightarrow> n < 3"
proof -
  have m: "(7 :: u32) = mask 3" by (simp add: mask_eq_exp_minus_1)
  show ?thesis unfolding m by (auto simp: bit_simps)
qed

text \<open>Acknowledging an interrupt of a channel leaves the other channels' interrupts pending.\<close>

lemma fst_irq_pending:
  "fst (channel_irq_pending i FULL_PACKET m) \<longleftrightarrow> bit (m 0x10) (4 * i + 1)"
proof -
  let ?w = "(drop_bit (4 * i) (m 0x10) AND 7) AND FULL_PACKET"
  have "?w \<noteq> 0 \<longleftrightarrow> (\<exists>n. bit ?w n)" using bit_eqI [of ?w 0] by auto
  also have "\<dots> \<longleftrightarrow> bit (m 0x10) (4 * i + 1)"
    by (auto simp: bit_and_iff seven_bit FULL_PACKET_bit bit_drop_bit_eq add.commute)
  finally show ?thesis by (auto simp: channel_irq_pending_def Let_def Irq_pending_def)
qed

lemma bit_irq_pending:
  "bit (snd (channel_irq_pending i t m) 0x10) n \<longleftrightarrow>
     bit (m 0x10) n \<and> \<not> (fst (channel_irq_pending i t m) \<and> 4 * i \<le> n \<and> n < 4 * i + 3)"
proof (cases "fst (channel_irq_pending i t m)")
  case True
  have "bit (x AND NOT (push_bit j (drop_bit j x AND k))) n \<longleftrightarrow> bit x n \<and> \<not> (j \<le> n \<and> bit k (n - j))"
    for x k :: u32 and j
    by (auto simp: bit_simps dest: bit_imp_le_length)
  note this [of "m 0x10" "4 * i" 7, unfolded seven_bit]
  moreover have "snd (channel_irq_pending i t m) 0x10
      = m 0x10 AND NOT (push_bit (4 * i) (drop_bit (4 * i) (m 0x10) AND 7))"
    using True by (simp add: channel_irq_pending_def Let_def Irq_pending_def dma_wr_def w1c_wr_ack
        del: push_bit_and split: if_splits)
  ultimately show ?thesis using True by auto
next
  case False
  then show ?thesis by (auto simp: channel_irq_pending_def Let_def split: if_splits)
qed

text \<open>
  A run is timely if the interrupt handler runs between any two packets the engine writes;
  \<open>rx_open\<close> is whether a packet is still to be handled at the end.
\<close>

fun rx_timely :: "bool \<Rightarrow> ring_event list \<Rightarrow> bool" where
  "rx_timely p [] = True"
| "rx_timely p (Rx_done d # es) = (\<not> p \<and> rx_timely True es)"
| "rx_timely p (Dma_irq # es) = rx_timely False es"
| "rx_timely p (e # es) = rx_timely p es"

fun rx_open :: "bool \<Rightarrow> ring_event list \<Rightarrow> bool" where
  "rx_open p [] = p"
| "rx_open p (Rx_done d # es) = rx_open True es"
| "rx_open p (Dma_irq # es) = rx_open False es"
| "rx_open p (e # es) = rx_open p es"

text \<open>
  The order of the recording queue: the descriptor handled next is the one the engine has
  just left, or, once an interrupt was \<open>late\<close>, the one it is writing.
\<close>

definition rx_inv :: "'b audio_env \<Rightarrow> bool \<Rightarrow> bool \<Rightarrow> 'b ring \<Rightarrow> bool" where
  "rx_inv E late p r \<longleftrightarrow> (let a = drv r; c = rx_cur r in
     wired E a \<and> c < 2 \<and> rx_queue a = (if p = late then [c, 1 - c] else [1 - c, c])
   \<and> (bit (dma_regs a 0x10) 5 \<longleftrightarrow> p))"

lemma handle_tx_keeps:
  "rx_descr (handle_tx_irq E a) = rx_descr a" "rx_queue (handle_tx_irq E a) = rx_queue a"
  "recorded (handle_tx_irq E a) = recorded a" "wiring (handle_tx_irq E a) = wiring a"
  "bit (dma_regs (handle_tx_irq E a) 0x10) 5 = bit (dma_regs a 0x10) 5"
proof -
  obtain p m where pm: "channel_irq_pending tx_chan FULL_PACKET (dma_regs a) = (p, m)" by fastforce
  have b: "bit (m 0x10) 5 = bit (dma_regs a 0x10) 5"
    using bit_irq_pending [of tx_chan FULL_PACKET "dma_regs a" 5] pm by (simp add: tx_chan_def)
  have *: "rx_descr (audio_tx E a) = rx_descr a \<and> rx_queue (audio_tx E a) = rx_queue a
      \<and> recorded (audio_tx E a) = recorded a \<and> wiring (audio_tx E a) = wiring a
      \<and> dma_regs (audio_tx E a) = dma_regs a" for a :: "'a audio"
    by (auto simp: audio_tx_def tx_enqueue_def audio_fill_def wiring_def indices fun_eq_iff split: list.split)
  from pm b * show
    "rx_descr (handle_tx_irq E a) = rx_descr a" "rx_queue (handle_tx_irq E a) = rx_queue a"
    "recorded (handle_tx_irq E a) = recorded a" "wiring (handle_tx_irq E a) = wiring a"
    "bit (dma_regs (handle_tx_irq E a) 0x10) 5 = bit (dma_regs a 0x10) 5"
    by (auto simp: handle_tx_irq_def Let_def wiring_simps split: list.split)
qed

text \<open>What the recording half of the handler does.\<close>

lemma handle_rx_effect:
  fixes a :: "'b audio" and E :: "'b audio_env"
  defines "b \<equiv> handle_rx_irq E a"
  shows "\<not> bit (dma_regs b 0x10) 5"
    and "\<not> bit (dma_regs a 0x10) 5 \<Longrightarrow> rx_queue b = rx_queue a \<and> rx_descr b = rx_descr a
      \<and> recorded b = recorded a"
    and "bit (dma_regs a 0x10) 5 \<Longrightarrow> rx_queue a = [h, t] \<Longrightarrow>
      (case cpu_read (ops E) (de_data (rx_descr a h)) of (samples, c) \<Rightarrow>
        rx_queue b = [t, h]
      \<and> rx_descr b = (rx_descr a)(h := cache_maintainance (ops E) ((rx_descr a h)\<lparr>de_data := c\<rparr>))
      \<and> recorded b = recorded a @ [take (unat (descr_length (rx_descr a h)) div 2) samples])"
proof -
  obtain p m where pm: "channel_irq_pending rx_chan FULL_PACKET (dma_regs a) = (p, m)" by fastforce
  have p: "p \<longleftrightarrow> bit (dma_regs a 0x10) 5"
    using fst_irq_pending [of rx_chan "dma_regs a"] pm by (simp add: rx_chan_def)
  have "\<not> bit (m 0x10) 5"
    using bit_irq_pending [of rx_chan FULL_PACKET "dma_regs a" 5] pm p by (auto simp: rx_chan_def)
  with pm show "\<not> bit (dma_regs b 0x10) 5"
    by (simp add: b_def handle_rx_irq_def Let_def audio_rx_keeps)
  show "\<not> bit (dma_regs a 0x10) 5 \<Longrightarrow> rx_queue b = rx_queue a \<and> rx_descr b = rx_descr a
      \<and> recorded b = recorded a"
    using pm p by (simp add: b_def handle_rx_irq_def Let_def)
  show "bit (dma_regs a 0x10) 5 \<Longrightarrow> rx_queue a = [h, t] \<Longrightarrow>
      (case cpu_read (ops E) (de_data (rx_descr a h)) of (samples, c) \<Rightarrow>
        rx_queue b = [t, h]
      \<and> rx_descr b = (rx_descr a)(h := cache_maintainance (ops E) ((rx_descr a h)\<lparr>de_data := c\<rparr>))
      \<and> recorded b = recorded a @ [take (unat (descr_length (rx_descr a h)) div 2) samples])"
    using pm p by (simp add: b_def handle_rx_irq_def Let_def audio_rx_def rx_enqueue_def split: prod.split)
qed

text \<open>The content: a packet still to be handled lies in the buffer the engine has just left.\<close>

definition rx_content :: "'b audio_env \<Rightarrow> ('b \<Rightarrow> s16 list) \<Rightarrow> ('b \<Rightarrow> bool) \<Rightarrow> bool \<Rightarrow> 'b ring \<Rightarrow> bool" where
  "rx_content E dr clean p r \<longleftrightarrow> (let a = drv r; c = rx_cur r in
     clean (de_data (rx_descr a 0)) \<and> clean (de_data (rx_descr a 1))
   \<and> written r = recorded a @ (if p then [dr (de_data (rx_descr a (1 - c)))] else [])
   \<and> (p \<longrightarrow> length (dr (de_data (rx_descr a (1 - c)))) = packet_size E div 2))"

lemma rx_inv_same:
  assumes "rx_inv E late p r" and "wiring (drv r') = wiring (drv r)" and "rx_cur r' = rx_cur r"
    and "rx_queue (drv r') = rx_queue (drv r)"
    and "bit (dma_regs (drv r') 0x10) 5 = bit (dma_regs (drv r) 0x10) 5"
  shows "rx_inv E late p r'"
  using assms wired_cong [OF assms(2)] by (simp add: rx_inv_def Let_def)

lemma rx_content_same:
  assumes "rx_content E dr clean p r" and "rx_descr (drv r') = rx_descr (drv r)"
    and "rx_cur r' = rx_cur r" and "recorded (drv r') = recorded (drv r)" and "written r' = written r"
  shows "rx_content E dr clean p r'"
  using assms by (auto simp: rx_content_def Let_def split: if_splits)

lemma raise_irq_bit:
  "bit (dma_regs (raise_irq tx_chan a) 0x10) 5 = bit (dma_regs a 0x10) 5"
  "bit (dma_regs (raise_irq rx_chan a) 0x10) 5"
  by (simp_all add: raise_irq_def on_dma_def tx_chan_def rx_chan_def bit_or_iff bit_push_bit_iff
      FULL_PACKET_bit)

text \<open>The steps that do not concern recording.\<close>

lemma other_steps:
  assumes "\<not> (\<exists>d. e = Rx_done d)" and "e \<noteq> Dma_irq" and "ring_step E dr dw e r = Some r'"
  shows "wiring (drv r') = wiring (drv r) \<and> rx_cur r' = rx_cur r \<and> rx_queue (drv r') = rx_queue (drv r)
    \<and> bit (dma_regs (drv r') 0x10) 5 = bit (dma_regs (drv r) 0x10) 5
    \<and> rx_descr (drv r') = rx_descr (drv r) \<and> recorded (drv r') = recorded (drv r)
    \<and> written r' = written r"
proof (cases e)
  case (Tx_done off)
  have "bit (dma_regs (raise_irq tx_chan (drv r)) 0x10) 5 = bit (dma_regs (drv r) 0x10) 5"
    by (rule raise_irq_bit)
  with Tx_done assms show ?thesis
    by (auto simp: play_descr_def tx_position_def raise_irq_def on_dma_def wiring_def
        channel_base_def tx_chan_def)
next
  case (Tx_progress off)
  with assms show ?thesis
    by (auto simp: tx_position_def wiring_def channel_base_def tx_chan_def)
next
  case Audio_irq
  with assms show ?thesis
    by (auto simp: handle_audio_irq_def prod.case_eq_if wiring_def)
qed (use assms in auto)

lemma rx_inv_done:
  assumes "rx_inv E late p r" and "ring_step E dr dw (Rx_done d) r = Some r'"
  shows "rx_inv E (if p then \<not> late else late) True r'"
proof -
  let ?a = "raise_irq rx_chan (write_descr dw (rx_cur r) d (drv r))"
  have w: "wired E (drv r)" "rx_cur r < 2" using assms(1) by (auto simp: rx_inv_def Let_def)
  have r': "r' = r\<lparr>drv := ?a, rx_cur := 1 - rx_cur r, written := written r @ [d]\<rparr>"
    using assms(2) other_rx_descr [OF w] by simp
  have "wiring ?a = wiring (drv r)"
    by (simp add: raise_irq_def on_dma_def wiring_simps) (simp add: write_descr_def wiring_def fun_eq_iff)
  then have "wired E ?a" using w(1) wired_cong by blast
  moreover have "rx_queue ?a = rx_queue (drv r)" by (simp add: raise_irq_def on_dma_def write_descr_def)
  ultimately show ?thesis
    using assms(1) raise_irq_bit(2) unfolding r'
    by (auto simp: rx_inv_def Let_def less_2_cases_iff)
qed

lemma rx_inv_irq:
  assumes "rx_inv E late p r"
  shows "rx_inv E late False (r\<lparr>drv := handle_dma_irq E (drv r)\<rparr>)"
proof -
  let ?b = "handle_tx_irq E (drv r)"
  have inv: "wired E (drv r)" "rx_cur r < 2" "bit (dma_regs ?b 0x10) 5 = p"
    "rx_queue ?b = (if p = late then [rx_cur r, 1 - rx_cur r] else [1 - rx_cur r, rx_cur r])"
    using assms by (auto simp: rx_inv_def Let_def handle_tx_keeps)
  have w: "wired E (handle_rx_irq E ?b)"
    using inv(1) wired_cong [of "handle_rx_irq E ?b" "drv r" E] by (simp add: handle_rx_keeps handle_tx_keeps)
  note eff = handle_rx_effect [where E = E and a = ?b]
  have "rx_queue (handle_rx_irq E ?b) = (if late then [1 - rx_cur r, rx_cur r] else [rx_cur r, 1 - rx_cur r])"
  proof (cases p)
    case True
    then show ?thesis using inv(3,4) eff(3) by (cases late) (auto split: prod.splits)
  next
    case False
    then show ?thesis using inv(3,4) eff(2) by auto
  qed
  with w inv(2) eff(1) show ?thesis
    by (simp add: rx_inv_def Let_def handle_dma_irq_def)
      (simp add: wired_def buffers_ok_def)
qed

lemma rx_inv_run:
  assumes "tx_inv E dev_read r" and "dma_memory C dev_read dev_write clean" and "ops E = C"
    and "rx_inv E late p r" and "rx_timely p es" and "ring_run E dev_read dev_write es r = Some r'"
  shows "rx_inv E late (rx_open p es) r'"
  using assms(1,4-)
proof (induction es arbitrary: p r)
  case (Cons e es)
  from Cons.prems(4) obtain s where s: "ring_step E dev_read dev_write e r = Some s"
    "ring_run E dev_read dev_write es s = Some r'" by (auto split: bind_splits)
  have tx: "tx_inv E dev_read s"
    using dma_memory.tx_inv_step [OF assms(2,3) Cons.prems(1), of e] s(1) by auto
  show ?case
  proof (cases "(\<exists>d. e = Rx_done d) \<or> e = Dma_irq")
    case True
    then show ?thesis
      using Cons.prems(2,3) s Cons.IH [OF tx] rx_inv_done [of E late p r] rx_inv_irq [of E late p r] by auto
  next
    case False
    then have "rx_inv E late p s"
      using other_steps [OF _ _ s(1)] rx_inv_same [OF Cons.prems(2)] by blast
    moreover have "rx_timely p es" "rx_open p (e # es) = rx_open p es"
      using False Cons.prems(3) by (cases e; simp)+
    ultimately show ?thesis using Cons.IH [OF tx] s(2) by simp
  qed
qed simp

lemma construct_regs: "dma_regs (audio_construct E a) 0x10 = dma_regs a 0x10"
proof -
  have keeps: "on_dma (irq_enable i t) b = b\<lparr>dma_regs := irq_enable i t (dma_regs b)\<rparr>"
    "irq_enable i t m 0x10 = m 0x10" "descr_dma i d m 0x10 = m 0x10" "channel_enable i m 0x10 = m 0x10"
    for i t d m and b :: "'a audio"
    by (simp_all add: on_dma_def irq_enable_def descr_dma_def channel_enable_def dma_wr_def
        w1c_wr_other dma_field_defs)
  have "dma_regs (audio_tx E b) = dma_regs b" for b :: "'a audio"
    by (auto simp: audio_tx_def tx_enqueue_def audio_fill_def indices split: list.split)
  then show ?thesis
    by (simp add: audio_construct_def Let_def start_channels_def construct_rx_def construct_tx_def
        construct_devices_def on_dma_def keeps indices setup_rx_def setup_tx_def construct_rx_descr_def
        construct_tx_descr_def rx_enqueue_def dma_init_def dma_wr_def w1c_wr_other
        Auto_gate_Mclk_circuit_def Security_Channels_def)
qed

context dma_memory
begin

lemma rx_content_done:
  assumes "rx_inv E late False r" and "rx_content E dev_read clean False r"
    and "length d = packet_size E div 2"
    and "ring_step E dev_read dev_write (Rx_done d) r = Some r'"
  shows "rx_content E dev_read clean True r'"
  using assms other_rx_descr [of E "drv r" "rx_cur r"]
  by (auto simp: rx_content_def rx_inv_def Let_def raise_irq_def on_dma_def write_descr_def
      less_2_cases_iff dev_read_write dev_write_clean)

lemma rx_content_irq:
  assumes "ops E = C" and "packet_size E < 2 ^ 32" and "rx_inv E False p r" and "rx_content E dev_read clean p r"
  shows "rx_content E dev_read clean False (r\<lparr>drv := handle_dma_irq E (drv r)\<rparr>)"
proof -
  let ?b = "handle_tx_irq E (drv r)" and ?h = "1 - rx_cur r"
  note eff = handle_rx_effect [where E = E and a = ?b]
  have inv: "rx_cur r < 2" "bit (dma_regs ?b 0x10) 5 = p" "wired E ?b"
    using assms(3) wired_cong [of ?b "drv r" E] by (auto simp: rx_inv_def Let_def handle_tx_keeps)
  show ?thesis
  proof (cases p)
    case False
    with eff(2) inv assms(4) show ?thesis
      by (auto simp: rx_content_def Let_def handle_dma_irq_def handle_tx_keeps)
  next
    case True
    have q: "rx_queue ?b = [?h, rx_cur r]" using assms(3) True by (simp add: rx_inv_def Let_def handle_tx_keeps)
    have h: "?h < 2" by simp
    have page: "reg_rd (de_page (rx_descr ?b ?h)) Config_Src_drq = AUDIO_CODEC"
      "reg_rd (de_page (rx_descr ?b ?h)) Config_Dst_drq = SDRAM"
      "descr_length (rx_descr ?b ?h) = of_nat (packet_size E)"
      using inv(1,3) by (auto simp: wired_def Let_def descr_length_def less_2_cases_iff)
    obtain x c where rd: "cpu_read (ops E) (de_data (rx_descr ?b ?h)) = (x, c)" by fastforce
    have cl: "clean (de_data (rx_descr ?b 0))" "clean (de_data (rx_descr ?b 1))"
      "clean (de_data (rx_descr ?b ?h))"
      using assms(4) inv(1) by (auto simp: rx_content_def Let_def handle_tx_keeps less_2_cases_iff)
    have x: "x = dev_read (de_data (rx_descr ?b ?h))"
      using cpu_read_clean [OF cl(3)] rd assms(1) by (metis fst_conv)
    have l: "length x = packet_size E div 2" and wr: "written r = recorded (drv r) @ [x]"
      using assms(4) True x by (auto simp: rx_content_def Let_def handle_tx_keeps)
    have "unat (descr_length (rx_descr ?b ?h)) = packet_size E"
      unfolding page(3) using assms(2) by (simp add: unsigned_of_nat take_bit_nat_eq_self)
    with eff(3) [OF _ q] rd True inv(2) l page assms(1)
    have "rx_descr (handle_rx_irq E ?b) = (rx_descr ?b)(?h := (rx_descr ?b ?h)\<lparr>de_data := cache_invalidate C c\<rparr>)"
      "recorded (handle_rx_irq E ?b) = recorded ?b @ [x]"
      by (simp_all add: maintain_rx)
    with cl wr clean_invalidated show ?thesis
      by (auto simp: rx_content_def Let_def handle_dma_irq_def handle_tx_keeps)
  qed
qed

lemma rx_content_run:
  assumes "ops E = C" and "packet_size E < 2 ^ 32"
    and "tx_inv E dev_read r" and "rx_inv E False p r" and "rx_content E dev_read clean p r"
    and "rx_timely p es" and "\<forall>d. Rx_done d \<in> set es \<longrightarrow> length d = packet_size E div 2"
    and "ring_run E dev_read dev_write es r = Some r'"
  shows "rx_content E dev_read clean (rx_open p es) r'"
  using assms(3-)
proof (induction es arbitrary: p r)
  case (Cons e es)
  from Cons.prems(6) obtain s where s: "ring_step E dev_read dev_write e r = Some s"
    "ring_run E dev_read dev_write es s = Some r'" by (auto split: bind_splits)
  have tx: "tx_inv E dev_read s" using tx_inv_step [OF assms(1) Cons.prems(1), of e] s(1) by auto
  note IH = Cons.IH [OF tx _ _ _ _ s(2)]
  show ?case
  proof (cases "(\<exists>d. e = Rx_done d) \<or> e = Dma_irq")
    case True
    then show ?thesis
      using Cons.prems(2-5) s(1) IH rx_inv_done [of E False p r] rx_inv_irq [of E False p r]
        rx_content_done [where E = E and r = r]
        rx_content_irq [OF assms(1,2), where p = p and r = r] by auto
  next
    case False
    then have "rx_inv E False p s" "rx_content E dev_read clean p s"
      using other_steps [OF _ _ s(1)] rx_inv_same [OF Cons.prems(2)] rx_content_same [OF Cons.prems(3)]
      by blast+
    moreover have "rx_timely p es" "rx_open p (e # es) = rx_open p es"
      using False Cons.prems(4) by (cases e; simp)+
    ultimately show ?thesis using IH Cons.prems(5) by simp
  qed
qed simp

lemma rx_start:
  assumes "ops E = C" and "buffers_ok a" and "\<not> bit (dma_regs a 0x10) 5"
  shows "rx_inv E False False (ring_start E dev_read a)"
    and "rx_content E dev_read clean False (ring_start E dev_read a)"
proof -
  let ?c = "a\<lparr>plays := 0, recorded := []\<rparr>"
  let ?b = "audio_construct E ?c"
  have "buffers_ok ?c" using assms(2) by (simp add: buffers_ok_def)
  then have w: "wired E ?b" by (rule construct_wired)
  have pos: "wiring (tx_position 0 0 ?b) = wiring ?b" by (simp add: tx_position_def wiring_simps)
  have "wired E (tx_position 0 0 ?b)" by (rule wired_cong [OF pos, THEN iffD2, OF w])
  moreover have "dma_regs ?b 0x10 = dma_regs a 0x10"
    by (simp add: construct_regs)
  ultimately show "rx_inv E False False (ring_start E dev_read a)"
    using assms(3)
    by (simp add: rx_inv_def Let_def ring_start_def play_descr_def)
      (simp add: tx_position_def construct_queues channel_base_def tx_chan_def)
  show "rx_content E dev_read clean False (ring_start E dev_read a)"
    using construct_buffers(2) [OF assms(1), of 0 ?c] construct_buffers(2) [OF assms(1), of 1 ?c]
    by (simp add: rx_content_def Let_def ring_start_def play_descr_def)
      (simp add: tx_position_def construct_queues)
qed

end

section \<open>Properties\<close>

text \<open>
  C20: as long as the interrupt handler runs between any two packets the engine writes, the
  session gets exactly the packets the engine has written, in their order and with their
  content, and the handler never reads the buffer the engine is writing.
\<close>

theorem recorded_in_order:
  assumes "dma_memory C dev_read dev_write clean" and "ops E = C" and "buffers_ok a"
    and "\<not> bit (dma_regs a 0x10) 5" and "packet_size E < 2 ^ 32"
    and "rx_timely False es" and "\<forall>d. Rx_done d \<in> set es \<longrightarrow> length d = packet_size E div 2"
  shows "\<exists>r. ring_run E dev_read dev_write es (ring_start E dev_read a) = Some r
     \<and> written r = recorded (drv r) @ (if rx_open False es then [last (written r)] else [])
     \<and> (rx_open False es \<longrightarrow> hd (rx_queue (drv r)) \<noteq> rx_cur r)"
proof -
  note tx = dma_memory.tx_inv_start [OF assms(1,2,3)]
  note rx = dma_memory.rx_start [OF assms(1,2,3,4)]
  from dma_memory.tx_inv_run [OF assms(1,2) tx] obtain r where
    r: "ring_run E dev_read dev_write es (ring_start E dev_read a) = Some r" by blast
  have "rx_content E dev_read clean (rx_open False es) r"
    by (rule dma_memory.rx_content_run [OF assms(1,2,5) tx rx assms(6,7) r])
  moreover have "rx_inv E False (rx_open False es) r"
    by (rule rx_inv_run [OF tx assms(1,2) rx(1) assms(6) r])
  ultimately have "written r = recorded (drv r) @ (if rx_open False es then [last (written r)] else [])"
    "rx_open False es \<longrightarrow> hd (rx_queue (drv r)) \<noteq> rx_cur r"
    by (auto simp: rx_content_def rx_inv_def Let_def less_2_cases_iff)
  with r show ?thesis by blast
qed

text \<open>
  C21: recording does not recover from a late interrupt. If the engine finishes two packets
  before the handler runs once, then from then on, however timely the handler is, it always
  reads the buffer that the engine is just writing.
\<close>

theorem late_interrupt_desynchronises:
  assumes "dma_memory C dev_read dev_write clean" and "ops E = C" and "buffers_ok a"
    and "\<not> bit (dma_regs a 0x10) 5"
    and "rx_timely False es" and "\<not> rx_open False es" and "rx_timely False fs" and "rx_open False fs"
  shows "\<exists>r. ring_run E dev_read dev_write (es @ [Rx_done d, Rx_done d', Dma_irq] @ fs)
        (ring_start E dev_read a) = Some r \<and> hd (rx_queue (drv r)) = rx_cur r"
proof -
  note tx = dma_memory.tx_inv_start [OF assms(1,2,3)]
  note run = dma_memory.tx_inv_run [OF assms(1,2)]
  from run [OF tx, of es] obtain r1 where r1: "ring_run E dev_read dev_write es (ring_start E dev_read a) = Some r1"
    "tx_inv E dev_read r1" by blast
  from run [OF r1(2), of "[Rx_done d]"] obtain r2 where r2: "ring_step E dev_read dev_write (Rx_done d) r1 = Some r2"
    "tx_inv E dev_read r2" by (auto split: bind_splits)
  from run [OF r2(2), of "[Rx_done d']"] obtain r3 where r3: "ring_step E dev_read dev_write (Rx_done d') r2 = Some r3"
    "tx_inv E dev_read r3" by (auto split: bind_splits)
  let ?r4 = "r3\<lparr>drv := handle_dma_irq E (drv r3)\<rparr>"
  have r4: "ring_step E dev_read dev_write Dma_irq r3 = Some ?r4" by simp
  have tx4: "tx_inv E dev_read ?r4" using run [OF r3(2), of "[Dma_irq]"] by simp
  from run [OF tx4, of fs] obtain r where r: "ring_run E dev_read dev_write fs ?r4 = Some r" by blast
  have "rx_inv E False False r1"
    using rx_inv_run [OF tx assms(1,2) dma_memory.rx_start(1) [OF assms(1-4)] assms(5) r1(1)] assms(6) by simp
  from rx_inv_done [OF rx_inv_done [OF this r2(1)], of dev_read dev_write d' r3] r3(1)
  have "rx_inv E True True r3" by simp
  from rx_inv_run [OF tx4 assms(1,2) rx_inv_irq [OF this] assms(7) r] assms(8)
  have "rx_inv E True True r" by simp
  moreover have "ring_run E dev_read dev_write (es @ [Rx_done d, Rx_done d', Dma_irq] @ fs)
      (ring_start E dev_read a) = Some r"
    using r1(1) r2(1) r3(1) r4 r by (simp add: ring_run_append del: ring_step.simps)
  ultimately show ?thesis by (auto simp: rx_inv_def Let_def)
qed

text \<open>At concrete runs: two packets in time, and two packets before one interrupt.\<close>

lemma recorded_in_order_witness:
  "\<exists>r. ring_run demo_env memory_content memory_write [Rx_done [1, 2], Dma_irq, Rx_done [3, 4]]
        (ring_start demo_env memory_content demo_audio) = Some r
     \<and> written r = recorded (drv r) @ [last (written r)] \<and> hd (rx_queue (drv r)) \<noteq> rx_cur r"
  using recorded_in_order [OF cached.dma_memory_axioms demo_ops demo_buffers,
      where es = "[Rx_done [1, 2], Dma_irq, Rx_done [3, 4]]"]
  by (simp add: demo_audio_def demo_env_def packet_size_def)

lemma late_interrupt_desynchronises_witness:
  "\<exists>r. ring_run demo_env memory_content memory_write
        [Rx_done [1, 2], Rx_done [3, 4], Dma_irq, Rx_done [5, 6], Dma_irq, Rx_done [7, 8]]
        (ring_start demo_env memory_content demo_audio) = Some r
     \<and> hd (rx_queue (drv r)) = rx_cur r"
  using late_interrupt_desynchronises [OF cached.dma_memory_axioms demo_ops demo_buffers,
      where es = "[]" and d = "[1, 2]" and d' = "[3, 4]"
        and fs = "[Rx_done [5, 6], Dma_irq, Rx_done [7, 8]]"]
  by (simp add: demo_audio_def del: ring_run.simps(2))

end
