(* ===== verification/Audio_Session.thy ===== *)
theory Audio_Session
  imports Complex_Main Audio_Dma
begin

text \<open>
  \<^verbatim>\<open>src/driver/audio/a64/session.cc\<close>: the two interfaces through which the audio driver
  gets the packets to play and hands out the packets recorded. The streams of the legacy
  sessions and the record and play connections are Genode's: their operations are the
  parameters \<open>S\<close> and \<open>R\<close>. A float is a rational number; \<open>rnd\<close> rounds a product to a float. The
  conversion of a number outside of 16 bits is undefined in C++ and \<open>None\<close> here.
\<close>

section \<open>Samples\<close>

text \<open>\<^verbatim>\<open>int16_t(v)\<close>: the fraction is cut off.\<close>

definition truncate_rat :: "rat \<Rightarrow> int" where
  "truncate_rat v = (if v < 0 then - \<lfloor>- v\<rfloor> else \<lfloor>v\<rfloor>)"

definition to_int16 :: "rat \<Rightarrow> s16 option" where
  "to_int16 v = (let i = truncate_rat v in
     if - 32768 \<le> i \<and> i \<le> 32767 then Some (of_int i) else None)"

definition clamped :: "rat \<Rightarrow> rat" where
  "clamped v = (if 1 < v then 1 else if v < - 1 then - 1 else v)"

definition float_to_s16 :: "rat \<Rightarrow> s16 option" where
  "float_to_s16 v = to_int16 (clamped v * 32767)"

lemma truncate_rat_bounds:
  "- 1 < v - of_int (truncate_rat v)" "v - of_int (truncate_rat v) < 1"
  "\<bar>v\<bar> \<le> of_int n \<Longrightarrow> \<bar>truncate_rat v\<bar> \<le> n"
  unfolding truncate_rat_def by (auto simp: abs_le_iff le_floor_iff floor_le_iff) linarith+

lemma truncate_rat_mono: "v \<le> w \<Longrightarrow> truncate_rat v \<le> truncate_rat w"
  unfolding truncate_rat_def
  by (auto simp: floor_mono intro: order_trans [of _ 0])

section \<open>Playback through audio-out sessions\<close>

datatype channel_number = LEFT | RIGHT

text \<open>\<^verbatim>\<open>Out::channel_number\<close> and \<^verbatim>\<open>In::channel_number\<close>: \<open>None\<close> is \<^verbatim>\<open>INVALID\<close>.\<close>

definition out_channel_number :: "string \<Rightarrow> channel_number option" where
  "out_channel_number name = map_of
     [(''left'', LEFT), (''front left'', LEFT), (''right'', RIGHT), (''front right'', RIGHT)] name"

definition in_channel_number :: "string \<Rightarrow> unit option" where
  "in_channel_number name = map_of [(''left'', ())] name"

text \<open>\<^verbatim>\<open>channel_acquired\<close> and the sessions there are, by number, with their channels.\<close>

record out_root =
  out_sessions :: "nat \<Rightarrow> channel_number option"
  out_acquired :: "channel_number \<Rightarrow> nat option"

datatype session_error = INSUFFICIENT_RAM | DENIED

text \<open>The arguments of a session request: the quota and the channel, if there is one.\<close>

definition channel_name :: "string option \<Rightarrow> string" where
  "channel_name arg = genode_string 16 (case arg of None \<Rightarrow> ''left'' | Some c \<Rightarrow> c)"

definition insufficient :: "nat \<Rightarrow> nat \<Rightarrow> nat \<Rightarrow> bool" where
  "insufficient session_size stream_size quota \<longleftrightarrow>
     quota < session_size \<or> quota - session_size < stream_size"

definition out_aquire :: "nat \<Rightarrow> nat \<Rightarrow> nat \<Rightarrow> string option \<Rightarrow> out_root \<Rightarrow> session_error option" where
  "out_aquire session_size stream_size quota arg st =
     (if insufficient session_size stream_size quota then Some INSUFFICIENT_RAM
      else case out_channel_number (channel_name arg) of
        None \<Rightarrow> Some DENIED
      | Some c \<Rightarrow> if out_acquired st c \<noteq> None then Some DENIED else None)"

text \<open>
  The constructor and the destructor of \<^verbatim>\<open>Session_component\<close>. With an invalid channel,
  \<open>_create_session\<close> would write past the end of the array: \<open>None\<close>.
\<close>

definition out_create_session :: "nat \<Rightarrow> string option \<Rightarrow> out_root \<Rightarrow> out_root option" where
  "out_create_session i arg st = (case out_channel_number (channel_name arg) of
     None \<Rightarrow> None
   | Some c \<Rightarrow> Some (st\<lparr>out_sessions := (out_sessions st)(i \<mapsto> c),
                        out_acquired := (out_acquired st)(c \<mapsto> i)\<rparr>))"

definition out_destroy_session :: "nat \<Rightarrow> out_root \<Rightarrow> out_root" where
  "out_destroy_session i st = (case out_sessions st i of
     None \<Rightarrow> st
   | Some c \<Rightarrow> st\<lparr>out_sessions := (out_sessions st)(i := None),
                   out_acquired := (out_acquired st)(c := None)\<rparr>)"

text \<open>A session request as the root component handles it: the policy first.\<close>

definition out_session_request :: "nat \<Rightarrow> nat \<Rightarrow> nat \<Rightarrow> nat \<Rightarrow> string option \<Rightarrow> out_root \<Rightarrow>
    (session_error + out_root) option" where
  "out_session_request session_size stream_size i quota arg st =
     (case out_aquire session_size stream_size quota arg st of
        Some e \<Rightarrow> Some (Inl e)
      | None \<Rightarrow> map_option Inr (out_create_session i arg st))"

text \<open>A stream of a session, as far as the driver uses it, and the signals to its client.\<close>

record 's stream_ops =
  st_pos :: "'s \<Rightarrow> nat"
  st_get :: "'s \<Rightarrow> nat \<Rightarrow> nat"
  st_packet_position :: "'s \<Rightarrow> nat \<Rightarrow> nat"
  st_full :: "'s \<Rightarrow> bool"
  st_valid :: "'s \<Rightarrow> nat \<Rightarrow> bool"
  st_content :: "'s \<Rightarrow> nat \<Rightarrow> rat list"
  st_invalidate :: "nat \<Rightarrow> 's \<Rightarrow> 's"
  st_mark_as_played :: "nat \<Rightarrow> 's \<Rightarrow> 's"
  st_set_pos :: "nat \<Rightarrow> 's \<Rightarrow> 's"
  st_increment_position :: "'s \<Rightarrow> 's"

record 's out_client =
  oc_stream :: 's
  oc_alloc_submits :: nat
  oc_progress_submits :: nat

definition on_stream :: "('s \<Rightarrow> 's) \<Rightarrow> 's out_client \<Rightarrow> 's out_client" where
  "on_stream f c = c\<lparr>oc_stream := f (oc_stream c)\<rparr>"

text \<open>\<^verbatim>\<open>_advance_position\<close>, for one of the two channels; the channels do not interact.\<close>

definition advance_position :: "'s stream_ops \<Rightarrow> nat \<Rightarrow> 's out_client \<Rightarrow> 's out_client" where
  "advance_position S p c =
     (let full = st_full S (oc_stream c);
          c = on_stream (\<lambda>s. st_set_pos S (st_packet_position S s p) s) c;
          c = on_stream (st_increment_position S) c
      in if full then c\<lparr>oc_alloc_submits := oc_alloc_submits c + 1\<rparr> else c)"

definition float_to_s16_unclamped :: "(rat \<Rightarrow> rat) \<Rightarrow> rat \<Rightarrow> s16 option" where
  "float_to_s16_unclamped rnd v = to_int16 (rnd (v * 32767))"

definition interleave :: "'a list \<Rightarrow> 'a list \<Rightarrow> 'a list" where
  "interleave xs ys = concat (map (\<lambda>(x, y). [x, y]) (zip xs ys))"

definition play_from :: "'s stream_ops \<Rightarrow> nat \<Rightarrow> 's out_client \<Rightarrow> 's out_client" where
  "play_from S p c =
     (let c = advance_position S p (on_stream (st_mark_as_played S p) (on_stream (st_invalidate S p) c))
      in c\<lparr>oc_progress_submits := oc_progress_submits c + 1\<rparr>)"

text \<open>\<^verbatim>\<open>Out::play_packet\<close> with the left and the right session; the result is the packet's data.\<close>

definition out_play_packet :: "'s stream_ops \<Rightarrow> (rat \<Rightarrow> rat) \<Rightarrow> 's out_client \<times> 's out_client \<Rightarrow>
    (s16 list option \<times> 's out_client \<times> 's out_client) option" where
  "out_play_packet S rnd = (\<lambda>(l, r).
     let p = st_get S (oc_stream l) (st_pos S (oc_stream l));
         q = st_get S (oc_stream r) (st_pos S (oc_stream r)) in
     if st_valid S (oc_stream l) p \<and> st_valid S (oc_stream r) q then
       (case those (map (float_to_s16_unclamped rnd)
           (interleave (st_content S (oc_stream l) p) (st_content S (oc_stream r) q))) of
          None \<Rightarrow> None
        | Some d \<Rightarrow> Some (Some d, play_from S p l, play_from S q r))
     else Some (None, l, r))"

text \<open>
  \<^verbatim>\<open>Audio_aggregator::play_packet\<close>: \<open>active\<close> is the state of the clients' sessions; the streams
  are those of the sessions that acquired the channels.
\<close>

definition audio_out_active :: "(nat \<Rightarrow> bool) \<Rightarrow> out_root \<Rightarrow> bool" where
  "audio_out_active active st \<longleftrightarrow> (case (out_acquired st LEFT, out_acquired st RIGHT) of
     (Some i, Some j) \<Rightarrow> active i \<and> active j | _ \<Rightarrow> False)"

definition aggregator_play_packet :: "'s stream_ops \<Rightarrow> (rat \<Rightarrow> rat) \<Rightarrow> (nat \<Rightarrow> bool) \<Rightarrow> out_root \<Rightarrow>
    's out_client \<times> 's out_client \<Rightarrow> (s16 list option \<times> 's out_client \<times> 's out_client) option" where
  "aggregator_play_packet S rnd active st c =
     (if audio_out_active active st then out_play_packet S rnd c else Some (None, c))"

section \<open>Recording through an audio-in session\<close>

record 's in_ops =
  in_overrun :: "'s \<Rightarrow> bool"
  in_alloc :: "'s \<Rightarrow> nat \<times> 's"
  in_set_content :: "nat \<Rightarrow> rat list \<Rightarrow> 's \<Rightarrow> 's"
  in_submit :: "nat \<Rightarrow> 's \<Rightarrow> 's"

record 's in_client =
  ic_stream :: 's
  ic_active :: bool
  ic_progress_submits :: nat
  ic_overrun_submits :: nat

text \<open>\<^verbatim>\<open>In::channel_acquired\<close> is the client, if any.\<close>

definition in_aquire :: "nat \<Rightarrow> nat \<Rightarrow> nat \<Rightarrow> string option \<Rightarrow> 's in_client option \<Rightarrow>
    session_error option" where
  "in_aquire session_size stream_size quota arg acquired =
     (if insufficient session_size stream_size quota then Some INSUFFICIENT_RAM
      else case in_channel_number (channel_name arg) of
        None \<Rightarrow> Some DENIED
      | Some c \<Rightarrow> if acquired \<noteq> None then Some DENIED else None)"

text \<open>The constructor and the destructor of the session component.\<close>

definition in_create_session :: "'s in_client \<Rightarrow> 's in_client option \<Rightarrow> 's in_client option" where
  "in_create_session c acquired = Some c"

definition in_destroy_session :: "'s in_client option \<Rightarrow> 's in_client option" where
  "in_destroy_session acquired = None"

text \<open>Two interleaved samples are mixed to one.\<close>

fun mix_down :: "s16 list \<Rightarrow> rat list" where
  "mix_down (l # r # xs) = of_int (sint l + sint r) / 65536 # mix_down xs"
| "mix_down _ = []"

definition in_record_packet :: "'s in_ops \<Rightarrow> s16 list \<Rightarrow> 's in_client option \<Rightarrow> 's in_client option" where
  "in_record_packet S data acquired = (case acquired of
     None \<Rightarrow> None
   | Some c \<Rightarrow>
      if \<not> ic_active c then Some c
      else
        let overrun = in_overrun S (ic_stream c);
            (p, s) = in_alloc S (ic_stream c);
            s = in_submit S p (in_set_content S p (mix_down data) s);
            c = c\<lparr>ic_stream := s, ic_progress_submits := ic_progress_submits c + 1\<rparr>
        in Some (if overrun then c\<lparr>ic_overrun_submits := ic_overrun_submits c + 1\<rparr> else c))"

section \<open>Record and play sessions\<close>

text \<open>
  \<open>put_channel c xs data\<close> stores samples as the left (0) or right (1) ones of \<open>data\<close>.
\<close>

definition put_channel :: "nat \<Rightarrow> s16 list \<Rightarrow> s16 list \<Rightarrow> s16 list" where
  "put_channel c xs data = fold (\<lambda>i d. d[i * 2 + c := xs ! i]) [0..<length xs] data"

text \<open>
  \<^verbatim>\<open>from_record_sessions\<close>: \<open>left\<close> is the answer of the left session, a time window and as many
  samples as asked for, or \<open>None\<close> if there is nothing; \<open>right\<close> answers for a time window.
\<close>

definition from_record_sessions :: "('w \<times> rat list) option \<Rightarrow> ('w \<Rightarrow> rat list) \<Rightarrow> s16 list \<Rightarrow> s16 list" where
  "from_record_sessions left right data = (case left of
     None \<Rightarrow> replicate (length data) 0
   | Some (tw, samples) \<Rightarrow>
       put_channel 1 (map (the \<circ> float_to_s16) (right tw))
         (put_channel 0 (map (the \<circ> float_to_s16) samples) data))"

text \<open>
  \<^verbatim>\<open>from_packet\<close>: \<open>schedule\<close> yields the time window for the next frames of the left session;
  the result is what is enqueued at the two sessions, and the new time window.
\<close>

fun for_each_frame :: "s16 list \<Rightarrow> (rat \<times> rat) list" where
  "for_each_frame (l # r # xs) = (of_int (sint l) / 32768, of_int (sint r) / 32768) # for_each_frame xs"
| "for_each_frame _ = []"

definition from_packet :: "('w \<Rightarrow> 'w) \<Rightarrow> s16 list option \<Rightarrow> 'w \<Rightarrow>
    ('w \<times> rat list \<times> rat list) option \<times> 'w" where
  "from_packet schedule packet tw = (case packet of
     None \<Rightarrow> (None, tw)
   | Some data \<Rightarrow>
      let frames = for_each_frame data; tw = schedule tw
      in (Some (tw, map fst frames, map snd frames), tw))"

section \<open>Properties\<close>

lemma sint_of_int_16: "- 32768 \<le> i \<Longrightarrow> i \<le> 32767 \<Longrightarrow> sint (of_int i :: s16) = i"
  by (simp add: signed_of_int signed_take_bit_int_eq_self)

lemma clamped_bounds: "\<bar>clamped v\<bar> \<le> 1"
  by (simp add: clamped_def abs_le_iff)

lemma float_to_s16_some:
  "\<exists>s. float_to_s16 v = Some s \<and> sint s = truncate_rat (clamped v * 32767) \<and> \<bar>sint s\<bar> \<le> 32767"
proof -
  have "\<bar>clamped v * 32767\<bar> \<le> of_int 32767"
    using clamped_bounds [of v] by (simp add: abs_mult)
  then have "\<bar>truncate_rat (clamped v * 32767)\<bar> \<le> 32767" by (rule truncate_rat_bounds(3))
  then show ?thesis
    by (auto simp: float_to_s16_def to_int16_def Let_def abs_le_iff sint_of_int_16)
qed

lemma length_put_channel [simp]: "length (put_channel c xs data) = length data"
proof -
  have "length (fold (\<lambda>i d. d[i * 2 + c := xs ! i]) js data) = length data" for js
    by (induction js arbitrary: data) auto
  then show ?thesis by (simp add: put_channel_def)
qed

lemma put_channel_nth:
  assumes "c < 2" and "k < length data"
  shows "put_channel c xs data ! k =
    (if k mod 2 = c \<and> k div 2 < length xs then xs ! (k div 2) else data ! k)"
proof -
  have "fold (\<lambda>i d. d[i * 2 + c := xs ! i]) [0..<n] data ! k =
      (if k mod 2 = c \<and> k div 2 < n then xs ! (k div 2) else data ! k)
      \<and> length (fold (\<lambda>i d. d[i * 2 + c := xs ! i]) [0..<n] data) = length data" for n
  proof (induction n)
    case (Suc n)
    have "n * 2 + c = k \<longleftrightarrow> k mod 2 = c \<and> k div 2 = n" using assms(1) by auto
    with Suc assms show ?case by (auto simp: nth_list_update less_Suc_eq)
  qed simp
  then show ?thesis by (simp add: put_channel_def)
qed

lemma length_interleave: "length xs = length ys \<Longrightarrow> length (interleave xs ys) = 2 * length xs"
  by (induction xs ys rule: list_induct2) (auto simp: interleave_def)

lemma interleave_nth:
  "length xs = length ys \<Longrightarrow> k < 2 * length xs \<Longrightarrow>
   interleave xs ys ! k = (if k mod 2 = 0 then xs ! (k div 2) else ys ! (k div 2))"
proof (induction xs ys arbitrary: k rule: list_induct2)
  case (Cons x xs y ys)
  have step: "interleave (x # xs) (y # ys) = x # y # interleave xs ys" by (simp add: interleave_def)
  consider "k = 0" | "k = 1" | j where "k = Suc (Suc j)"
    by (metis One_nat_def not0_implies_Suc)
  then show ?case using Cons step by cases auto
qed simp

text \<open>
  A packet for playback from the record sessions holds the left and the right samples
  interleaved. Every sample is the number in \<open>[-1, 1]\<close> next to the float, scaled to 16 bits
  with an error of less than one, so no conversion overflows.
\<close>

theorem stereo_packet_faithful:
  assumes "length l = n" and "length (right tw) = n" and "length data = 2 * n" and "i < n"
  shows "\<exists>a b. from_record_sessions (Some (tw, l)) right data ! (2 * i) = a
     \<and> from_record_sessions (Some (tw, l)) right data ! (2 * i + 1) = b
     \<and> float_to_s16 (l ! i) = Some a \<and> float_to_s16 (right tw ! i) = Some b
     \<and> \<bar>of_int (sint a) - clamped (l ! i) * 32767\<bar> < 1 \<and> \<bar>sint a\<bar> \<le> 32767
     \<and> \<bar>of_int (sint b) - clamped (right tw ! i) * 32767\<bar> < 1 \<and> \<bar>sint b\<bar> \<le> 32767"
proof -
  have err: "\<exists>s. float_to_s16 v = Some s \<and> \<bar>of_int (sint s) - clamped v * 32767\<bar> < 1 \<and> \<bar>sint s\<bar> \<le> 32767"
    for v
  proof -
    obtain s where s: "float_to_s16 v = Some s" "\<bar>sint s\<bar> \<le> 32767"
      and t: "sint s = truncate_rat (clamped v * 32767)" using float_to_s16_some by blast
    have "\<bar>of_int (sint s) - clamped v * 32767\<bar> < 1"
      unfolding t using truncate_rat_bounds(1,2) [of "clamped v * 32767"] by linarith
    with s show ?thesis by blast
  qed
  obtain a where a: "float_to_s16 (l ! i) = Some a" "\<bar>of_int (sint a) - clamped (l ! i) * 32767\<bar> < 1"
    "\<bar>sint a\<bar> \<le> 32767" using err by blast
  obtain b where b: "float_to_s16 (right tw ! i) = Some b"
    "\<bar>of_int (sint b) - clamped (right tw ! i) * 32767\<bar> < 1" "\<bar>sint b\<bar> \<le> 32767" using err by blast
  have "from_record_sessions (Some (tw, l)) right data ! (2 * i) = a"
    "from_record_sessions (Some (tw, l)) right data ! (2 * i + 1) = b"
    using assms a(1) b(1) by (simp_all add: from_record_sessions_def put_channel_nth)
  with a b show ?thesis by blast
qed

lemma stereo_packet_faithful_witness:
  "\<exists>a b. from_record_sessions (Some ((), [1/2, 3])) (\<lambda>_. [-1, 1/4]) [0, 0, 0, 0] ! 2 = a
     \<and> from_record_sessions (Some ((), [1/2, 3])) (\<lambda>_. [-1, 1/4]) [0, 0, 0, 0] ! 3 = b
     \<and> \<bar>of_int (sint a) - clamped 3 * 32767\<bar> < 1 \<and> \<bar>of_int (sint b) - clamped (1/4) * 32767\<bar> < 1"
  using stereo_packet_faithful [of "[1/2, 3]" 2 "\<lambda>_. [-1, 1/4]" "()" "[0, 0, 0, 0]" 1]
  by (auto simp: eval_nat_numeral)

text \<open>The states of the root component: sessions are requested and closed.\<close>

inductive out_reach :: "nat \<Rightarrow> nat \<Rightarrow> out_root \<Rightarrow> bool" for sz st where
  out_start: "out_reach sz st \<lparr>out_sessions = (\<lambda>_. None), out_acquired = (\<lambda>_. None)\<rparr>"
| out_request: "out_reach sz st x \<Longrightarrow> out_sessions x i = None \<Longrightarrow>
    out_session_request sz st i quota arg x = Some (Inr y) \<Longrightarrow> out_reach sz st y"
| out_close: "out_reach sz st x \<Longrightarrow> out_reach sz st (out_destroy_session i x)"

lemma request_result:
  "out_session_request sz st i quota arg x \<noteq> None"
  "out_session_request sz st i quota arg x = Some (Inr y) \<Longrightarrow>
     \<exists>c. out_channel_number (channel_name arg) = Some c \<and> out_acquired x c = None
       \<and> y = x\<lparr>out_sessions := (out_sessions x)(i \<mapsto> c), out_acquired := (out_acquired x)(c \<mapsto> i)\<rparr>"
  by (auto simp: out_session_request_def out_aquire_def out_create_session_def
      split: option.splits if_splits)

text \<open>
  C28: in every reachable state each playback channel is marked as acquired by exactly the
  session that plays on it, so no two sessions share a channel; a request is answered, never
  with a channel out of range.
\<close>

theorem channel_has_one_owner:
  assumes "out_reach sz st x"
  shows "(\<forall>c i. out_acquired x c = Some i \<longleftrightarrow> out_sessions x i = Some c)
     \<and> out_session_request sz st j quota arg x \<noteq> None"
proof -
  have "\<forall>c i. out_acquired x c = Some i \<longleftrightarrow> out_sessions x i = Some c"
    using assms
  proof induction
    case (out_request x i quota arg y)
    from request_result(2) [OF out_request.hyps(3)] show ?case
      using out_request.IH out_request.hyps(2)
      by (auto split: if_splits) (metis option.distinct(1))+
  next
    case (out_close x i)
    then show ?case by (auto simp: out_destroy_session_def split: option.splits) (metis option.inject)
  qed auto
  then show ?thesis using request_result(1) by blast
qed

lemma channel_has_one_owner_witness:
  "(\<forall>c i. out_acquired (out_destroy_session 4 \<lparr>out_sessions = [3 \<mapsto> LEFT], out_acquired = [LEFT \<mapsto> 3]\<rparr>) c = Some i
      \<longleftrightarrow> out_sessions (out_destroy_session 4 \<lparr>out_sessions = [3 \<mapsto> LEFT], out_acquired = [LEFT \<mapsto> 3]\<rparr>) i = Some c)"
proof -
  have "out_reach 0 0 \<lparr>out_sessions = [3 \<mapsto> LEFT], out_acquired = [LEFT \<mapsto> 3]\<rparr>"
    by (rule out_request [OF out_start, where i = 3 and quota = 0 and arg = None])
      (simp_all add: out_session_request_def out_aquire_def insufficient_def channel_name_def
        out_channel_number_def out_create_session_def)
  from channel_has_one_owner [OF out_close [OF this]] show ?thesis by blast
qed

end
