(* ===== verification/Touch_Input.thy ===== *)
theory Touch_Input
  imports Prelude
begin

text \<open>
  \<^verbatim>\<open>src/driver/touch/goodix/input.c\<close>: the emulation of the Linux input subsystem for the
  touch screen. The Linux driver records the values of a frame with \<^verbatim>\<open>input_event\<close> and ends
  the frame with \<^verbatim>\<open>input_mt_sync_frame\<close>, which turns the values into touch and release
  events of Genode. The flags in \<^verbatim>\<open>input_mt_slot::key\<close> are three truth values; the numbers
  of types and codes and the sizes of structures are those of Linux. \<open>room\<close> is the number of
  usable bytes \<^verbatim>\<open>kzalloc\<close> returns for a request; the allocations of the setup succeed. An
  operation that accesses a slot behind the allocated bytes has the result \<open>None\<close>.
\<close>

section \<open>State\<close>

definition EV_KEY :: nat where "EV_KEY = 1"
definition EV_ABS :: nat where "EV_ABS = 3"
definition ABS_MT_SLOT :: nat where "ABS_MT_SLOT = 0x2f"
definition ABS_MT_FIRST :: nat where "ABS_MT_FIRST = 0x30"
definition ABS_MT_WIDTH_MAJOR :: nat where "ABS_MT_WIDTH_MAJOR = 0x32"
definition ABS_MT_POSITION_X :: nat where "ABS_MT_POSITION_X = 0x35"
definition ABS_MT_POSITION_Y :: nat where "ABS_MT_POSITION_Y = 0x36"
definition ABS_MT_TOOL_Y :: nat where "ABS_MT_TOOL_Y = 0x3d"

record input_value =
  val_type :: nat
  val_code :: nat
  val_value :: int

record mt_slot =
  slot_abs :: "nat \<Rightarrow> int"
  key_changed :: bool
  key_present :: bool
  key_updated :: bool

record input_dev =
  max_vals :: nat
  vals :: "input_value list"
  slots :: "mt_slot list"
  mt_room :: nat
  evbit :: "nat set"
  keybit :: "nat set"
  absbit :: "nat set"
  absinfo :: "nat option"
  grab :: bool

datatype touch_event = Touch nat int int int | Touch_release nat

section \<open>Setup\<close>

definition devm_input_allocate_device :: input_dev where
  "devm_input_allocate_device = \<lparr>max_vals = 256, vals = [], slots = [], mt_room = 0, evbit = {}, keybit = {},
     absbit = {}, absinfo = None, grab = False\<rparr>"

definition empty_slot :: mt_slot where
  "empty_slot = \<lparr>slot_abs = (\<lambda>_. 0), key_changed = False, key_present = False, key_updated = False\<rparr>"

text \<open>
  The sizes of \<^verbatim>\<open>struct input_mt\<close> and of \<^verbatim>\<open>struct input_mt_slot\<close> (14 axes, frame, and key). The
  request is for the former and, for each slot, the size of the function
  \<^verbatim>\<open>input_mt_init_slots\<close>, which is one byte. \<open>mt_room\<close> is what is usable for the slots.
\<close>

definition MT_SIZE :: nat where "MT_SIZE = 32"
definition SLOT_SIZE :: nat where "SLOT_SIZE = 64"

definition input_mt_init_slots :: "(nat \<Rightarrow> nat) \<Rightarrow> nat \<Rightarrow> input_dev \<Rightarrow> input_dev" where
  "input_mt_init_slots room num_slots dev =
     dev\<lparr>slots := replicate num_slots empty_slot, mt_room := room (MT_SIZE + num_slots * 1) - MT_SIZE\<rparr>"

text \<open>
  \<open>alloc\<close>: the allocation of the information on an axis succeeds. There is room for one axis;
  its information is a number, 0 when it is allocated.
\<close>

definition input_set_capability :: "bool \<Rightarrow> nat \<Rightarrow> nat \<Rightarrow> input_dev \<Rightarrow> input_dev" where
  "input_set_capability alloc type code dev =
     (if type = EV_KEY then dev\<lparr>keybit := insert code (keybit dev), evbit := insert type (evbit dev)\<rparr>
      else if type = EV_ABS then
        (let dev = dev\<lparr>absinfo := (if alloc then Some 0 else None)\<rparr> in
         if \<not> alloc then dev
         else dev\<lparr>absbit := insert code (absbit dev), evbit := insert type (evbit dev)\<rparr>)
      else dev)"

text \<open>The result of copying is \<open>None\<close> if it reads or writes behind the information on the one axis.\<close>

definition input_copy_abs :: "bool \<Rightarrow> input_dev \<Rightarrow> nat \<Rightarrow> input_dev \<Rightarrow> nat \<Rightarrow> input_dev option" where
  "input_copy_abs alloc dst dst_axis src src_axis =
     (if \<not> (EV_ABS \<in> evbit src \<and> src_axis \<in> absbit src) then Some dst
      else if absinfo src = None then Some dst
      else
        let dst = input_set_capability alloc EV_ABS dst_axis dst in
        if absinfo dst = None then Some dst
        else if 0 < dst_axis \<or> 0 < src_axis then None
        else Some (dst\<lparr>absinfo := absinfo src\<rparr>))"

section \<open>Recording the values of a frame\<close>

definition input_event :: "nat \<Rightarrow> nat \<Rightarrow> int \<Rightarrow> input_dev \<Rightarrow> input_dev" where
  "input_event type code value dev =
     (if length (vals dev) = max_vals dev then dev
      else if type \<noteq> EV_ABS then dev
      else dev\<lparr>vals := vals dev @ [\<lparr>val_type = type, val_code = code, val_value = value\<rparr>]\<rparr>)"

section \<open>The events of a frame\<close>

definition clear_frame_flags :: "mt_slot \<Rightarrow> mt_slot" where
  "clear_frame_flags s = s\<lparr>key_changed := False, key_updated := False\<rparr>"

definition update_slot :: "nat \<Rightarrow> int \<Rightarrow> mt_slot \<Rightarrow> mt_slot" where
  "update_slot code value slot =
     (if ABS_MT_FIRST \<le> code \<and> code \<le> ABS_MT_TOOL_Y then
        (let a = code - ABS_MT_FIRST;
             slot = slot\<lparr>key_updated := True\<rparr>;
             slot = (if slot_abs slot a \<noteq> value
                     then slot\<lparr>slot_abs := (slot_abs slot)(a := value), key_changed := True\<rparr> else slot)
         in slot\<lparr>slot_abs := (slot_abs slot)(a := value)\<rparr>)
      else slot)"

fun update_slots :: "input_value list \<Rightarrow> int \<Rightarrow> mt_slot list \<Rightarrow> mt_slot list" where
  "update_slots [] cur ss = ss"
| "update_slots (v # vs) cur ss =
     (if val_type v \<noteq> EV_ABS then update_slots vs cur ss
      else
        let cur = (if val_code v = ABS_MT_SLOT then val_value v else cur);
            ss = (if 0 \<le> cur \<and> cur < int (length ss)
                  then ss[nat cur := update_slot (val_code v) (val_value v) (ss ! nat cur)] else ss)
        in update_slots vs cur ss)"

definition touch_args :: "nat \<Rightarrow> mt_slot \<Rightarrow> touch_event" where
  "touch_args i slot = Touch i (slot_abs slot (ABS_MT_POSITION_X - ABS_MT_FIRST))
     (slot_abs slot (ABS_MT_POSITION_Y - ABS_MT_FIRST)) (slot_abs slot (ABS_MT_WIDTH_MAJOR - ABS_MT_FIRST))"

definition detect :: "nat \<Rightarrow> mt_slot \<Rightarrow> mt_slot \<times> touch_event list" where
  "detect i slot =
     (let present = key_present slot; changed = key_changed slot; updated = key_updated slot;
          new_finger = (\<not> present \<and> updated);
          moved_finger = (present \<and> updated \<and> changed);
          (slot, out) = (if new_finger \<or> moved_finger
                         then (slot\<lparr>key_present := True\<rparr>, [touch_args i slot]) else (slot, []))
      in if present \<and> \<not> updated
         then (slot\<lparr>key_changed := False, key_present := False, key_updated := False\<rparr>, out @ [Touch_release i])
         else (slot, out))"

definition frame_events :: "input_dev \<Rightarrow> input_dev \<times> touch_event list" where
  "frame_events dev =
     (let ss = update_slots (vals dev) (- 1) (map clear_frame_flags (slots dev));
          res = map (\<lambda>(i, s). detect i s) (enumerate 0 ss)
      in (dev\<lparr>slots := map fst res, vals := []\<rparr>, concat (map snd res)))"

text \<open>The first loop accesses every slot.\<close>

definition event_generator :: "input_dev \<Rightarrow> (input_dev \<times> touch_event list) option" where
  "event_generator dev =
     (if mt_room dev < length (slots dev) * SLOT_SIZE then None else Some (frame_events dev))"

definition input_mt_sync_frame :: "input_dev \<Rightarrow> (input_dev \<times> touch_event list) option" where
  "input_mt_sync_frame dev = event_generator (dev\<lparr>grab := True\<rparr>)"

section \<open>Runs\<close>

datatype input_call = Event nat nat int | Sync

fun input_step :: "input_call \<Rightarrow> (input_dev \<times> touch_event list) option \<Rightarrow> (input_dev \<times> touch_event list) option" where
  "input_step c None = None"
| "input_step (Event t k v) (Some (dev, outs)) = Some (input_event t k v dev, outs)"
| "input_step Sync (Some (dev, outs)) = (case input_mt_sync_frame dev of None \<Rightarrow> None
     | Some (dev, new) \<Rightarrow> Some (dev, outs @ new))"

definition input_run :: "(nat \<Rightarrow> nat) \<Rightarrow> nat \<Rightarrow> input_call list \<Rightarrow> (input_dev \<times> touch_event list) option" where
  "input_run room n cs = fold input_step cs (Some (input_mt_init_slots room n devm_input_allocate_device, []))"

text \<open>
  The view of the client: the position and width of every finger that is down. Every release
  must be the release of a finger that is down.
\<close>

definition client_event :: "touch_event \<Rightarrow> (nat \<Rightarrow> (int \<times> int \<times> int) option) \<Rightarrow>
    (nat \<Rightarrow> (int \<times> int \<times> int) option)" where
  "client_event e d = (case e of Touch i x y w \<Rightarrow> d(i \<mapsto> (x, y, w)) | Touch_release i \<Rightarrow> d(i := None))"

lemma client_event_simps [simp]:
  "client_event (Touch i x y w) d = d(i \<mapsto> (x, y, w))"
  "client_event (Touch_release i) d = d(i := None)"
  by (simp_all add: client_event_def)




text \<open>
  What the Linux driver reports, read off its calls alone: the values of a frame are the first
  256 of type \<open>EV_ABS\<close> since the last end of a frame; \<open>reports\<close> are the values of the fingers,
  as finger, code, and value. Code \<open>0x2f\<close> selects the finger for the following values of the
  frame. The value of an axis of a finger is the one reported last.
\<close>

fun record_call :: "input_call \<Rightarrow> (nat \<times> int) list list \<times> (nat \<times> int) list
    \<Rightarrow> (nat \<times> int) list list \<times> (nat \<times> int) list" where
  "record_call (Event t c v) (frames, cur) =
     (frames, if t = 3 \<and> length cur < 256 then cur @ [(c, v)] else cur)"
| "record_call Sync (frames, cur) = (frames @ [cur], [])"

definition recorded :: "input_call list \<Rightarrow> (nat \<times> int) list list \<times> (nat \<times> int) list" where
  "recorded cs = fold record_call cs ([], [])"


definition axis_value :: "nat \<Rightarrow> nat \<Rightarrow> (nat \<times> nat \<times> int) list \<Rightarrow> int \<Rightarrow> int" where
  "axis_value i c rs old = fold (\<lambda>(j, k, v) old. if j = i \<and> k = c then v else old) rs old"




text \<open>The information on any axis but the first is copied behind what was allocated for it.\<close>

lemma copied_axis_out_of_bounds:
  assumes "EV_ABS \<in> evbit src" and "axis \<in> absbit src" and "absinfo src \<noteq> None" and "axis \<noteq> 0"
  shows "input_copy_abs True dst axis src axis = None"
  using assms by (simp add: input_copy_abs_def input_set_capability_def EV_KEY_def EV_ABS_def Let_def)

lemma length_update_slots [simp]: "length (update_slots vs cur ss) = length ss"
  by (induction vs cur ss rule: update_slots.induct) (auto simp: Let_def)

text \<open>What the values of a frame do to a slot.\<close>

definition slot_step :: "mt_slot \<Rightarrow> mt_slot \<Rightarrow> bool" where
  "slot_step s t \<longleftrightarrow> key_present t = key_present s
     \<and> (\<not> key_changed t \<longrightarrow> \<not> key_changed s \<and> slot_abs t = slot_abs s)"

lemma slot_step_refl [simp]: "slot_step s s"
  by (simp add: slot_step_def)







lemma axis_value_simps [simp]:
  "axis_value i c [] old = old"
  "axis_value i c ((j, k, v) # rs) old = axis_value i c rs (if j = i \<and> k = c then v else old)"
  "axis_value i c (rs @ rs') old = axis_value i c rs' (axis_value i c rs old)"
  by (simp_all add: axis_value_def)








section \<open>Properties\<close>





lemma recorded_simps [simp]:
  "recorded [] = ([], [])" "recorded (cs @ [c]) = record_call c (recorded cs)"
  by (simp_all add: recorded_def)

lemma input_run_simps [simp]:
  "input_run room n [] = Some (input_mt_init_slots room n devm_input_allocate_device, [])"
  "input_run room n (cs @ [c]) = input_step c (input_run room n cs)"
  by (simp_all add: input_run_def)





text \<open>
  If the allocation returns just what is asked for, the first frame already accesses slots
  behind it.
\<close>

theorem slots_out_of_bounds:
  assumes "0 < n"
  shows "input_run (\<lambda>b. b) n [Sync] = None"
  using assms by (simp add: input_run_def input_mt_sync_frame_def event_generator_def
      input_mt_init_slots_def SLOT_SIZE_def)

lemma slots_out_of_bounds_witness: "input_run (\<lambda>b. b) 10 [Sync] = None"
  by (rule slots_out_of_bounds) simp

end
