(* ===== verification/Camera_Config.thy ===== *)
theory Camera_Config
  imports Config_Node
begin

text \<open>
  The configuration of the camera driver: \<^verbatim>\<open>src/driver/camera/pinephone/main.cc\<close> and
  \<^verbatim>\<open>lx_user.h\<close>. Numbers of type \<^verbatim>\<open>unsigned\<close> are natural numbers; the conversion of an
  attribute's text to a number or a truth value is Genode's (\<open>num_of\<close>, \<open>bool_of\<close>).
\<close>

definition MAX_WIDTH :: nat where "MAX_WIDTH = 1280"
definition MAX_HEIGHT :: nat where "MAX_HEIGHT = 720"
definition MAX_FPS :: nat where "MAX_FPS = 30"
definition MIN_WIDTH :: nat where "MIN_WIDTH = 160"
definition MIN_HEIGHT :: nat where "MIN_HEIGHT = 120"
definition MIN_FPS :: nat where "MIN_FPS = 1"
definition MIN_BUFFER :: nat where "MIN_BUFFER = 4"
definition MAX_BUFFER :: nat where "MAX_BUFFER = 16"

datatype camera_format = FMT_YUV | FMT_SBGRR8

datatype camera_side = CAMERA_FRONT | CAMERA_REAR

record lx_user_config =
  cfg_width :: nat
  cfg_height :: nat
  cfg_fps :: nat
  cfg_format :: camera_format
  cfg_camera :: camera_side
  cfg_num_buffer :: nat
  cfg_rotate :: bool
  cfg_convert :: bool
  cfg_gray :: bool
  cfg_skip_frames :: nat
  cfg_valid :: bool

text \<open>The static configuration before the first update: all zero.\<close>

definition initial_config :: lx_user_config where
  "initial_config = \<lparr>cfg_width = 0, cfg_height = 0, cfg_fps = 0, cfg_format = FMT_YUV,
     cfg_camera = CAMERA_FRONT, cfg_num_buffer = 0, cfg_rotate = False, cfg_convert = False,
     cfg_gray = False, cfg_skip_frames = 0, cfg_valid = False\<rparr>"

definition check_and_constrain_value ::
  "(string \<Rightarrow> nat option) \<Rightarrow> node \<Rightarrow> string \<Rightarrow> nat \<Rightarrow> nat \<Rightarrow> nat" where
  "check_and_constrain_value num_of n attr low high =
     (let value = attribute_as num_of n attr low in
      if value < low then low else if high < value then high else value)"

text \<open>\<open>rom\<close> is \<^verbatim>\<open>None\<close> while the configuration ROM is not valid.\<close>

definition update_camera_config ::
  "(string \<Rightarrow> nat option) \<Rightarrow> (string \<Rightarrow> bool option) \<Rightarrow> node option \<Rightarrow> lx_user_config \<Rightarrow> lx_user_config" where
  "update_camera_config num_of bool_of rom c = (case rom of None \<Rightarrow> c | Some config \<Rightarrow>
     (let c = c\<lparr>cfg_width := check_and_constrain_value num_of config ''width'' MIN_WIDTH MAX_WIDTH\<rparr>;
          c = c\<lparr>cfg_height := check_and_constrain_value num_of config ''height'' MIN_HEIGHT MAX_HEIGHT\<rparr>;
          c = c\<lparr>cfg_fps := check_and_constrain_value num_of config ''fps'' MIN_FPS MAX_FPS\<rparr>;
          c = c\<lparr>cfg_num_buffer := check_and_constrain_value num_of config ''num_buffer'' MIN_BUFFER MAX_BUFFER\<rparr>;
          c = c\<lparr>cfg_skip_frames := check_and_constrain_value num_of config ''skip_frames'' 0 (cfg_fps c)\<rparr>;
          c = c\<lparr>cfg_convert := attribute_as bool_of config ''convert'' True\<rparr>;
          c = c\<lparr>cfg_gray := attribute_as bool_of config ''gray'' True\<rparr>;
          c = c\<lparr>cfg_rotate := attribute_as bool_of config ''rotate'' True\<rparr>;
          format = attribute_string 8 config ''format'' ''yuv'';
          c = (if format = ''yuv'' then c\<lparr>cfg_format := FMT_YUV\<rparr> else c);
          cam = attribute_string 16 config ''camera'' ''front'';
          c = (if cam = ''front'' then c\<lparr>cfg_camera := CAMERA_FRONT\<rparr>
               else if cam = ''rear'' then c\<lparr>cfg_camera := CAMERA_REAR\<rparr> else c)
      in c\<lparr>cfg_valid := True\<rparr>))"

definition camera_config ::
  "(string \<Rightarrow> nat option) \<Rightarrow> (string \<Rightarrow> bool option) \<Rightarrow> node option \<Rightarrow> lx_user_config" where
  "camera_config num_of bool_of rom = update_camera_config num_of bool_of rom initial_config"

lemmas camera_limits = MAX_WIDTH_def MAX_HEIGHT_def MAX_FPS_def MIN_WIDTH_def MIN_HEIGHT_def MIN_FPS_def
  MIN_BUFFER_def MAX_BUFFER_def

lemma constrained:
  "low \<le> high \<Longrightarrow> low \<le> check_and_constrain_value num_of n attr low high"
  "low \<le> high \<Longrightarrow> check_and_constrain_value num_of n attr low high \<le> high"
  by (auto simp: check_and_constrain_value_def Let_def)

text \<open>What the rest of the driver relies on.\<close>

definition config_in_bounds :: "lx_user_config \<Rightarrow> bool" where
  "config_in_bounds c \<longleftrightarrow> MIN_WIDTH \<le> cfg_width c \<and> cfg_width c \<le> MAX_WIDTH
     \<and> MIN_HEIGHT \<le> cfg_height c \<and> cfg_height c \<le> MAX_HEIGHT
     \<and> MIN_FPS \<le> cfg_fps c \<and> cfg_fps c \<le> MAX_FPS
     \<and> MIN_BUFFER \<le> cfg_num_buffer c \<and> cfg_num_buffer c \<le> MAX_BUFFER
     \<and> cfg_skip_frames c \<le> cfg_fps c \<and> cfg_format c = FMT_YUV"

lemma valid_config_in_bounds:
  "cfg_valid (camera_config num_of bool_of rom) \<longleftrightarrow> rom \<noteq> None"
  "rom \<noteq> None \<Longrightarrow> config_in_bounds (camera_config num_of bool_of rom)"
  by (auto simp: camera_config_def update_camera_config_def initial_config_def config_in_bounds_def Let_def
      constrained camera_limits split: option.splits)

lemma config_fits_buffer:
  "config_in_bounds c \<Longrightarrow> cfg_width c * cfg_height c \<le> MAX_WIDTH * MAX_HEIGHT"
  by (auto simp: config_in_bounds_def intro: mult_le_mono)

end
