(* ===== verification/Camera_Image.thy ===== *)
theory Camera_Image
  imports Prelude
begin

text \<open>
  The conversion of the pictures of the camera driver (\<^verbatim>\<open>src/driver/camera/pinephone\<close>) from
  YUV420 to pixels: \<^verbatim>\<open>yuv_rgb.c\<close> and \<^verbatim>\<open>yuv_rgb_std_func.h\<close>, as instantiated for
  \<^verbatim>\<open>yuv420_abgr_std\<close>, the only conversion the driver uses. The captured bytes are a function
  \<open>mem\<close> of the address, the pixels a function of the pixel number; pointers are numbers. What
  lies outside of the table of \<^verbatim>\<open>clampU8\<close> is the parameter \<open>beyond\<close>. The loop bounds of the
  code wrap around for a picture without pixels; the driver's pictures have at least 160 by 120.
\<close>

unbundle bit_operations_syntax

section \<open>Conversion of a pixel\<close>

text \<open>\<^verbatim>\<open>V(value)\<close>, for a value in ten-thousandths; \<^verbatim>\<open>PRECISION_FACTOR\<close> is 64.\<close>

definition PRECISION_FACTOR :: int where "PRECISION_FACTOR = 64"

definition V_fix :: "int \<Rightarrow> int" where
  "V_fix value = (value * PRECISION_FACTOR + 5000) div 10000"

record yuv_param =
  y_shift :: int
  y_factor :: int
  v_r_factor :: int
  u_g_factor :: int
  v_g_factor :: int
  u_b_factor :: int

datatype ycbcr_type = YCBCR_JPEG | YCBCR_601 | YCBCR_709

fun YUV2RGB :: "ycbcr_type \<Rightarrow> yuv_param" where
  "YUV2RGB YCBCR_JPEG = \<lparr>y_shift = 0, y_factor = V_fix 10000, v_r_factor = V_fix 14020,
     u_g_factor = - V_fix 3441, v_g_factor = - V_fix 7141, u_b_factor = V_fix 17720\<rparr>"
| "YUV2RGB YCBCR_601 = \<lparr>y_shift = 16, y_factor = V_fix 11644, v_r_factor = V_fix 15960,
     u_g_factor = - V_fix 3918, v_g_factor = - V_fix 8130, u_b_factor = V_fix 20172\<rparr>"
| "YUV2RGB YCBCR_709 = \<lparr>y_shift = 16, y_factor = V_fix 11644, v_r_factor = V_fix 17927,
     u_g_factor = - V_fix 2132, v_g_factor = - V_fix 5329, u_b_factor = V_fix 21124\<rparr>"

definition clamp_lut :: "u8 list" where
  "clamp_lut = replicate 128 0 @ map of_nat [0..<256] @ replicate 128 255"

definition clamp_index :: "int \<Rightarrow> int" where
  "clamp_index v = (v + 128 * PRECISION_FACTOR) div 64"

definition clampU8 :: "(int \<Rightarrow> u8) \<Rightarrow> int \<Rightarrow> u8" where
  "clampU8 beyond v = (let i = clamp_index v in
     if 0 \<le> i \<and> i < 512 then clamp_lut ! nat i else beyond i)"

definition r_tmp :: "yuv_param \<Rightarrow> u8 \<Rightarrow> u8 \<Rightarrow> int" where
  "r_tmp p u v = (uint v - 128) * v_r_factor p"

definition g_tmp :: "yuv_param \<Rightarrow> u8 \<Rightarrow> u8 \<Rightarrow> int" where
  "g_tmp p u v = (uint u - 128) * u_g_factor p + (uint v - 128) * v_g_factor p"

definition b_tmp :: "yuv_param \<Rightarrow> u8 \<Rightarrow> u8 \<Rightarrow> int" where
  "b_tmp p u v = (uint u - 128) * u_b_factor p"

definition y_tmp :: "yuv_param \<Rightarrow> u8 \<Rightarrow> int" where
  "y_tmp p y = (uint y - y_shift p) * y_factor p"

text \<open>\<^verbatim>\<open>PACK_PIXEL\<close> for ABGR\<close>

definition pack_abgr :: "u8 \<Rightarrow> u8 \<Rightarrow> u8 \<Rightarrow> u32" where
  "pack_abgr r g b = 0xFF000000 OR push_bit 16 (ucast b) OR push_bit 8 (ucast g) OR ucast r"

definition abgr_pixel :: "(int \<Rightarrow> u8) \<Rightarrow> yuv_param \<Rightarrow> u8 \<Rightarrow> u8 \<Rightarrow> u8 \<Rightarrow> u32" where
  "abgr_pixel beyond p y u v = pack_abgr (clampU8 beyond (y_tmp p y + r_tmp p u v))
     (clampU8 beyond (y_tmp p y + g_tmp p u v)) (clampU8 beyond (y_tmp p y + b_tmp p u v))"

section \<open>Conversion of a picture\<close>

text \<open>
  The loops, with the pointers the code advances; \<open>f\<close> is the pixel made of the bytes at three
  addresses. Two lines share their colours, as do two neighbours in a line. First two lines,
  then the last line of a picture with an odd number of lines.
\<close>

definition put2 :: "nat \<Rightarrow> 'a \<Rightarrow> 'a \<Rightarrow> (nat \<Rightarrow> 'a) \<Rightarrow> (nat \<Rightarrow> 'a)" where
  "put2 p a b dst = dst(p := a, p + 1 := b)"

definition put1 :: "nat \<Rightarrow> 'a \<Rightarrow> (nat \<Rightarrow> 'a) \<Rightarrow> (nat \<Rightarrow> 'a)" where
  "put1 p a dst = dst(p := a)"

function convert_two_lines :: "(nat \<Rightarrow> nat \<Rightarrow> nat \<Rightarrow> u32) \<Rightarrow> nat \<Rightarrow> nat \<Rightarrow> nat \<Rightarrow> nat \<Rightarrow> nat \<Rightarrow> nat \<Rightarrow>
    nat \<Rightarrow> nat \<Rightarrow> (nat \<Rightarrow> u32) \<Rightarrow> (nat \<Rightarrow> u32)" where
  "convert_two_lines f width x y1 y2 u v rgb1 rgb2 dst =
     (if x < width - 1 then
        convert_two_lines f width (x + 2) (y1 + 2) (y2 + 2) (u + 1) (v + 1) (rgb1 + 2) (rgb2 + 2)
          (put2 rgb2 (f y2 u v) (f (y2 + 1) u v) (put2 rgb1 (f y1 u v) (f (y1 + 1) u v) dst))
      else if x = width - 1 then put1 rgb2 (f y2 u v) (put1 rgb1 (f y1 u v) dst)
      else dst)"
  by pat_completeness auto
termination by (relation "measure (\<lambda>(f, width, x, _). width - x)") auto

function convert_last_line :: "(nat \<Rightarrow> nat \<Rightarrow> nat \<Rightarrow> u32) \<Rightarrow> nat \<Rightarrow> nat \<Rightarrow> nat \<Rightarrow> nat \<Rightarrow> nat \<Rightarrow>
    nat \<Rightarrow> (nat \<Rightarrow> u32) \<Rightarrow> (nat \<Rightarrow> u32)" where
  "convert_last_line f width x y1 u v rgb1 dst =
     (if x < width - 1 then
        convert_last_line f width (x + 2) (y1 + 2) (u + 1) (v + 1) (rgb1 + 2)
          (put2 rgb1 (f y1 u v) (f (y1 + 1) u v) dst)
      else if x = width - 1 then put1 rgb1 (f y1 u v) dst
      else dst)"
  by pat_completeness auto
termination by (relation "measure (\<lambda>(f, width, x, _). width - x)") auto

text \<open>The strides are those of the call: a line of pixels and of \<open>Y\<close> is \<open>width\<close> long.\<close>

function convert_lines :: "(nat \<Rightarrow> nat \<Rightarrow> nat \<Rightarrow> u32) \<Rightarrow> nat \<Rightarrow> nat \<Rightarrow> nat \<Rightarrow> nat \<Rightarrow> nat \<Rightarrow> nat \<Rightarrow> nat \<Rightarrow>
    nat \<Rightarrow> (nat \<Rightarrow> u32) \<Rightarrow> (nat \<Rightarrow> u32)" where
  "convert_lines f width height uv_stride Y U V' rgb y dst =
     (if y < height - 1 then
        convert_lines f width height uv_stride Y U V' rgb (y + 2)
          (convert_two_lines f width 0 (Y + y * width) (Y + (y + 1) * width)
            (U + (y div 2) * uv_stride) (V' + (y div 2) * uv_stride)
            (rgb + y * width) (rgb + (y + 1) * width) dst)
      else if y = height - 1 then
        convert_last_line f width 0 (Y + y * width) (U + (y div 2) * uv_stride)
          (V' + (y div 2) * uv_stride) (rgb + y * width) dst
      else dst)"
  by pat_completeness auto
termination by (relation "measure (\<lambda>(f, width, height, _, _, _, _, _, y, _). height - y)") auto

definition yuv420_abgr_std :: "(int \<Rightarrow> u8) \<Rightarrow> (nat \<Rightarrow> u8) \<Rightarrow> nat \<Rightarrow> nat \<Rightarrow> nat \<Rightarrow> nat \<Rightarrow> nat \<Rightarrow> nat \<Rightarrow>
    nat \<Rightarrow> ycbcr_type \<Rightarrow> (nat \<Rightarrow> u32) \<Rightarrow> (nat \<Rightarrow> u32)" where
  "yuv420_abgr_std beyond mem width height Y U V' uv_stride rgb yuv_type =
     convert_lines (\<lambda>y u v. abgr_pixel beyond (YUV2RGB yuv_type) (mem y) (mem u) (mem v))
       width height uv_stride Y U V' rgb 0"

declare convert_two_lines.simps [simp del] convert_last_line.simps [simp del] convert_lines.simps [simp del]

text \<open>A range of an array.\<close>

definition put_range :: "nat \<Rightarrow> nat \<Rightarrow> (nat \<Rightarrow> 'a) \<Rightarrow> (nat \<Rightarrow> 'a) \<Rightarrow> (nat \<Rightarrow> 'a)" where
  "put_range p n xs dst = (\<lambda>k. if p \<le> k \<and> k < p + n then xs (k - p) else dst k)"

lemma put_range_0 [simp]: "put_range p 0 xs dst = dst"
  by (rule ext) (auto simp: put_range_def)

lemma put_range_cong: "(\<And>i. i < n \<Longrightarrow> xs i = ys i) \<Longrightarrow> put_range p n xs dst = put_range p n ys dst"
  by (auto simp: put_range_def fun_eq_iff)

lemma put_range_1: "put_range p 1 xs dst = put1 p (xs 0) dst"
  by (auto simp: put_range_def put1_def fun_eq_iff)

lemma put_range_2:
  "put_range (p + 2) n (\<lambda>i. xs (i + 2)) (put2 p (xs 0) (xs 1) dst) = put_range p (n + 2) xs dst"
proof (rule ext)
  fix k
  consider "k < p" | "k = p" | "k = p + 1" | "p + 2 \<le> k" by linarith
  then show "put_range (p + 2) n (\<lambda>i. xs (i + 2)) (put2 p (xs 0) (xs 1) dst) k = put_range p (n + 2) xs dst k"
  proof cases
    case 4
    then obtain j where "k = p + 2 + j" using le_Suc_ex by blast
    then show ?thesis by (simp add: put_range_def put2_def add.commute)
  qed (auto simp: put_range_def put2_def)
qed

lemma put_range_commute2:
  "p + n \<le> q \<Longrightarrow> put_range p n xs (put2 q a b dst) = put2 q a b (put_range p n xs dst)"
  by (auto simp: put_range_def put2_def fun_eq_iff)

lemma put_range_split:
  "put_range (p + n) m (\<lambda>i. xs (n + i)) (put_range p n xs dst) = put_range p (n + m) xs dst"
  by (auto simp: put_range_def fun_eq_iff)

lemma convert_last_line_range:
  assumes "0 < width"
  shows "convert_last_line f width x y1 u v rgb1 dst =
    put_range rgb1 (width - x) (\<lambda>i. f (y1 + i) (u + i div 2) (v + i div 2)) dst"
  using assms
proof (induction f width x y1 u v rgb1 dst rule: convert_last_line.induct)
  case (1 f width x y1 u v rgb1 dst)
  show ?case
  proof (cases "x < width - 1")
    case True
    let ?xs = "\<lambda>i. f (y1 + i) (u + i div 2) (v + i div 2)"
    have n: "width - x = (width - (x + 2)) + 2" using True by simp
    have "convert_last_line f width x y1 u v rgb1 dst =
        put_range (rgb1 + 2) (width - (x + 2)) (\<lambda>i. ?xs (i + 2)) (put2 rgb1 (?xs 0) (?xs 1) dst)"
      using 1(1) [OF True] 1(2) True by (subst convert_last_line.simps) (simp add: ac_simps)
    then show ?thesis unfolding put_range_2 [where xs = ?xs] n .
  next
    case False
    then consider "x = width - 1" | "width \<le> x" by linarith
    then show ?thesis
    proof cases
      case last: 1
      then have "width - x = 1" using 1(2) by arith
      with last False show ?thesis by (subst convert_last_line.simps) (simp add: put_range_1 [simplified])
    next
      case 2
      with 1(2) False show ?thesis by (subst convert_last_line.simps) auto
    qed
  qed
qed

lemma convert_two_lines_range:
  assumes "0 < width" and "rgb1 + (width - x) \<le> rgb2"
  shows "convert_two_lines f width x y1 y2 u v rgb1 rgb2 dst =
    put_range rgb2 (width - x) (\<lambda>i. f (y2 + i) (u + i div 2) (v + i div 2))
      (put_range rgb1 (width - x) (\<lambda>i. f (y1 + i) (u + i div 2) (v + i div 2)) dst)"
  using assms
proof (induction f width x y1 y2 u v rgb1 rgb2 dst rule: convert_two_lines.induct)
  case (1 f width x y1 y2 u v rgb1 rgb2 dst)
  let ?xs = "\<lambda>y i. f (y + i) (u + i div 2) (v + i div 2)"
  show ?case
  proof (cases "x < width - 1")
    case True
    have n: "width - x = (width - (x + 2)) + 2" using True by simp
    have far: "rgb1 + 2 + (width - (x + 2)) \<le> rgb2" using 1(3) n by linarith
    have "convert_two_lines f width x y1 y2 u v rgb1 rgb2 dst =
        put_range (rgb2 + 2) (width - (x + 2)) (\<lambda>i. ?xs y2 (i + 2))
         (put_range (rgb1 + 2) (width - (x + 2)) (\<lambda>i. ?xs y1 (i + 2))
          (put2 rgb2 (?xs y2 0) (?xs y2 1) (put2 rgb1 (?xs y1 0) (?xs y1 1) dst)))"
      using 1(1) [OF True] 1(2) far True by (subst convert_two_lines.simps) (simp add: ac_simps)
    also have "put_range (rgb1 + 2) (width - (x + 2)) (\<lambda>i. ?xs y1 (i + 2))
          (put2 rgb2 (?xs y2 0) (?xs y2 1) (put2 rgb1 (?xs y1 0) (?xs y1 1) dst))
        = put2 rgb2 (?xs y2 0) (?xs y2 1) (put_range (rgb1 + 2) (width - (x + 2)) (\<lambda>i. ?xs y1 (i + 2))
            (put2 rgb1 (?xs y1 0) (?xs y1 1) dst))"
      using far by (rule put_range_commute2)
    finally show ?thesis unfolding put_range_2 [where xs = "?xs y1"] put_range_2 [where xs = "?xs y2"] n .
  next
    case False
    then consider "x = width - 1" | "width \<le> x" by linarith
    then show ?thesis
    proof cases
      case last: 1
      then have "width - x = 1" using 1(2) by arith
      with last False show ?thesis by (subst convert_two_lines.simps) (simp add: put_range_1 [simplified])
    next
      case 2
      with 1(2) False show ?thesis by (subst convert_two_lines.simps) auto
    qed
  qed
qed

text \<open>
  The reference: pixel \<open>x\<close> of line \<open>y\<close> is made of the brightness at the same place and the
  colours at half of its coordinates.
\<close>

definition reference_pixel :: "(nat \<Rightarrow> nat \<Rightarrow> nat \<Rightarrow> u32) \<Rightarrow> nat \<Rightarrow> nat \<Rightarrow> nat \<Rightarrow> nat \<Rightarrow> nat \<Rightarrow> nat \<Rightarrow> u32" where
  "reference_pixel f width uv_stride Y U V' i =
     (let y = i div width; x = i mod width in
      f (Y + i) (U + (y div 2) * uv_stride + x div 2) (V' + (y div 2) * uv_stride + x div 2))"

lemma line_pixels:
  fixes width :: nat
  assumes "i < width"
  shows "(y * width + i) div width = y" and "(y * width + i) mod width = i"
  using assms by (cases "width = 0"; simp)+

lemma convert_lines_range:
  assumes "0 < width" and "0 < height"
  shows "even y \<Longrightarrow> y \<le> height \<Longrightarrow> convert_lines f width height uv_stride Y U V' rgb y dst =
    put_range (rgb + y * width) ((height - y) * width)
      (\<lambda>i. reference_pixel f width uv_stride Y U V' (y * width + i)) dst"
proof (induction "height - y" arbitrary: y dst rule: less_induct)
  case less
  let ?ref = "\<lambda>y i. reference_pixel f width uv_stride Y U V' (y * width + i)"
  have one: "put_range p width (\<lambda>i. f (Y + y' * width + i) (U + (y div 2) * uv_stride + i div 2)
        (V' + (y div 2) * uv_stride + i div 2)) d = put_range p width (?ref y') d"
    if "y' div 2 = y div 2" for p y' d
  proof (rule put_range_cong)
    fix i assume "i < width"
    from line_pixels [OF this, of y'] that
    show "f (Y + y' * width + i) (U + (y div 2) * uv_stride + i div 2)
        (V' + (y div 2) * uv_stride + i div 2) = ?ref y' i"
      by (simp only: reference_pixel_def Let_def add.assoc)
  qed
  consider "y < height - 1" | "y = height - 1" | "y = height" using less.prems(2) by linarith
  then show ?case
  proof cases
    case 1
    have odd: "(y + 1) div 2 = y div 2" using less.prems(1) by simp
    let ?d = "put_range (rgb + (y + 1) * width) width (?ref (y + 1))
        (put_range (rgb + y * width) width (?ref y) dst)"
    have lines: "convert_two_lines f width 0 (Y + y * width) (Y + (y + 1) * width)
            (U + (y div 2) * uv_stride) (V' + (y div 2) * uv_stride)
            (rgb + y * width) (rgb + (y + 1) * width) dst = ?d"
      using convert_two_lines_range [OF assms(1), of "rgb + y * width" 0 "rgb + (y + 1) * width"]
        one [of y] one [OF odd] by simp
    have "convert_lines f width height uv_stride Y U V' rgb y dst =
        put_range (rgb + (y + 2) * width) ((height - (y + 2)) * width) (?ref (y + 2)) ?d"
      using less.hyps [of "y + 2"] less.prems 1
      by (subst convert_lines.simps) (simp add: lines del: One_nat_def)
    also have "?d = put_range (rgb + y * width) (width + width) (?ref y) dst"
      using put_range_split [of "rgb + y * width" width width "?ref y" dst]
      by (simp add: algebra_simps)
    also have "put_range (rgb + (y + 2) * width) ((height - (y + 2)) * width) (?ref (y + 2)) \<dots>
        = put_range (rgb + y * width) (width + width + (height - (y + 2)) * width) (?ref y) dst"
      using put_range_split [of "rgb + y * width" "width + width" "(height - (y + 2)) * width" "?ref y" dst]
      by (simp only: add_mult_distrib add.assoc mult_2)
    also have "width + width + (height - (y + 2)) * width = (height - y) * width"
    proof -
      have "height - y = 2 + (height - (y + 2))" using 1 by simp
      then show ?thesis by (simp add: add_mult_distrib)
    qed
    finally show ?thesis .
  next
    case 2
    then have "height - y = 1" using assms(2) by simp
    with 2 convert_last_line_range [OF assms(1), of f 0] one [of y] show ?thesis
      by (subst convert_lines.simps) simp
  next
    case 3
    moreover have "height \<noteq> height - 1" and "\<not> height < height - 1" using assms(2) by arith+
    ultimately show ?thesis by (subst convert_lines.simps) simp
  qed
qed

lemma yuv420_range:
  assumes "0 < width" and "0 < height"
  shows "yuv420_abgr_std beyond mem width height Y U V' uv_stride rgb t dst = put_range rgb (height * width)
    (reference_pixel (\<lambda>y u v. abgr_pixel beyond (YUV2RGB t) (mem y) (mem u) (mem v)) width uv_stride Y U V') dst"
  using convert_lines_range [OF assms, of 0] by (simp add: yuv420_abgr_std_def)

text \<open>
  C35: the conversion of a picture works pixel by pixel, also for odd sizes. Whatever pairs of
  lines and columns the loops go by, pixel \<open>(x, y)\<close> is made of the brightness at the same place
  and the colours at half of its coordinates, and nothing outside of the picture is written.
\<close>

theorem yuv420_converts_pixelwise:
  assumes "x < width" and "y < height"
  shows "yuv420_abgr_std beyond mem width height Y U V' uv_stride rgb t dst (rgb + y * width + x)
      = abgr_pixel beyond (YUV2RGB t) (mem (Y + y * width + x)) (mem (U + (y div 2) * uv_stride + x div 2))
          (mem (V' + (y div 2) * uv_stride + x div 2))
    \<and> (\<forall>k. k < rgb \<or> rgb + height * width \<le> k \<longrightarrow>
         yuv420_abgr_std beyond mem width height Y U V' uv_stride rgb t dst k = dst k)"
proof -
  have pos: "0 < width" "0 < height" using assms by simp_all
  have "y * width + x < Suc y * width" using assms(1) by simp
  also have "\<dots> \<le> height * width" using assms(2) by (intro mult_le_mono1) simp
  finally have "y * width + x < height * width" .
  then show ?thesis
    using line_pixels [OF assms(1), of y]
    by (auto simp: yuv420_range [OF pos] put_range_def reference_pixel_def Let_def ac_simps)
qed

text \<open>At a concrete picture of three lines of three pixels.\<close>

theorem yuv420_converts_pixelwise_witness:
  "yuv420_abgr_std (\<lambda>_. 0) of_nat 3 3 0 9 13 2 0 YCBCR_601 (\<lambda>_. 0) 8
    = abgr_pixel (\<lambda>_. 0) (YUV2RGB YCBCR_601) 8 12 16
   \<and> yuv420_abgr_std (\<lambda>_. 0) of_nat 3 3 0 9 13 2 0 YCBCR_601 (\<lambda>_. 0) 9 = 0"
  using yuv420_converts_pixelwise [of 2 3 2 3 "\<lambda>_. 0" of_nat 0 9 13 2 0 YCBCR_601 "\<lambda>_. 0"] by simp

lemma clamp_lut_nth:
  assumes "n < 512"
  shows "clamp_lut ! n = (if n < 128 then 0 else if n < 384 then of_nat (n - 128) else 255)"
proof (cases "n < 128")
  case False
  then obtain k where k: "n = 128 + k" using le_Suc_ex by fastforce
  then have "clamp_lut ! n = (map of_nat [0..<256] @ replicate 128 255) ! k"
    by (simp add: clamp_lut_def nth_append)
  then show ?thesis using k assms by (simp add: nth_append)
qed (simp add: clamp_lut_def nth_append)

lemma clamped_in_range:
  assumes "- 128 * PRECISION_FACTOR \<le> v" and "v < 384 * PRECISION_FACTOR"
  shows "clampU8 beyond v = of_int (min 255 (max 0 (v div PRECISION_FACTOR)))"
proof -
  have i: "clamp_index v = v div 64 + 128"
    by (simp add: clamp_index_def PRECISION_FACTOR_def)
  have range: "- 128 \<le> v div 64" "v div 64 < 384" using assms by (auto simp: PRECISION_FACTOR_def)
  then obtain n where n: "v div 64 + 128 = int n"
    by (metis add.commute nonneg_int_cases add_le_cancel_left add.right_inverse)
  then have v: "v div 64 = int n - 128" by simp
  have small: "n < 512" using range n by simp
  have "clampU8 beyond v = clamp_lut ! n"
    using small by (simp add: clampU8_def Let_def i n)
  then show ?thesis
    using clamp_lut_nth [OF small] small by (auto simp: PRECISION_FACTOR_def v of_nat_diff)
qed

text \<open>
  The table of \<^verbatim>\<open>clampU8\<close> is long enough for pictures that stem from \<open>RGB\<close> values, but not for
  every captured picture: bright pixels of a strong colour are looked up behind its end.
\<close>

lemma bright_pixel_beyond_table:
  "clamp_index (y_tmp (YUV2RGB YCBCR_601) 235 + b_tmp (YUV2RGB YCBCR_601) 240 v) = 610"
  "clamp_index (y_tmp (YUV2RGB YCBCR_601) 255 + r_tmp (YUV2RGB YCBCR_601) u 255) = 610"
  by (simp_all add: clamp_index_def y_tmp_def b_tmp_def r_tmp_def V_fix_def PRECISION_FACTOR_def)

end
