(* ===== verification/Camera_Gui.thy ===== *)
theory Camera_Gui
  imports Camera_Config Camera_Image
begin

text \<open>
  What the camera driver shows: the painting of a picture into one half of the framebuffer
  while the other half is shown (\<^verbatim>\<open>lx_user.c\<close>), and the GUI session it uses (\<^verbatim>\<open>gui.cc\<close>). A
  framebuffer is a function of the pixel number; the bytes of a captured picture are a function
  of the address relative to its buffer, of which the code may read more than the picture.
\<close>

unbundle bit_operations_syntax

section \<open>GUI session\<close>

record genode_gui =
  gui_mode :: "nat \<times> nat"
  gui_fb :: "nat \<Rightarrow> u32"
  gui_geometry :: "nat \<times> nat"
  gui_offset :: "int \<times> int"
  gui_refreshed :: "((int \<times> int) \<times> (nat \<times> nat)) list"

record genode_gui_view =
  view_x :: int
  view_y :: int
  view_width :: nat
  view_height :: nat

definition genode_gui_create :: "(nat \<Rightarrow> u32) \<Rightarrow> nat \<Rightarrow> nat \<Rightarrow> genode_gui" where
  "genode_gui_create fb width height = \<lparr>gui_mode = (width, height), gui_fb = fb, gui_geometry = (0, 0),
     gui_offset = (0, 0), gui_refreshed = []\<rparr>"

definition genode_gui_swap_view :: "genode_gui_view \<Rightarrow> genode_gui \<Rightarrow> genode_gui" where
  "genode_gui_swap_view view g = (let area = (view_width view, view_height view) in
     g\<lparr>gui_geometry := area, gui_offset := (view_x view, view_y view),
       gui_refreshed := gui_refreshed g @ [((view_x view, - view_y view), area)]\<rparr>)"

text \<open>
  What Genode's GUI server shows at a place of the view: the buffer moved by the offset. The
  buffer has lines of the mode's width.
\<close>

definition shown_at :: "genode_gui \<Rightarrow> nat \<Rightarrow> nat \<Rightarrow> u32" where
  "shown_at g x y = gui_fb g
     (nat (int y - snd (gui_offset g)) * fst (gui_mode g) + nat (int x - fst (gui_offset g)))"

section \<open>Painting\<close>

text \<open>A captured picture: the bytes of the buffer and its size.\<close>

record capture_buffer =
  buf_base :: "nat \<Rightarrow> u8"
  buf_size :: nat

record refresh_context =
  ctx_buffer :: capture_buffer
  ctx_width :: nat
  ctx_height :: nat
  ctx_view_flip :: bool
  ctx_convert :: bool
  ctx_rotate :: bool
  ctx_gray :: bool

definition gray_pixel :: "u8 \<Rightarrow> u32" where
  "gray_pixel v = 0xff000000 OR ucast v OR push_bit 8 (ucast v) OR push_bit 16 (ucast v)"

text \<open>The two nested loops that copy columns of the source to lines of the destination.\<close>

primrec rotate_column :: "(nat \<Rightarrow> 'p) \<Rightarrow> nat \<Rightarrow> nat \<Rightarrow> nat \<Rightarrow> nat \<Rightarrow> nat \<Rightarrow> (nat \<Rightarrow> 'p) \<Rightarrow> (nat \<Rightarrow> 'p)" where
  "rotate_column src width w_offset 0 h_offset d dst = dst"
| "rotate_column src width w_offset (Suc n) h_offset d dst =
     rotate_column src width w_offset n (h_offset + width) (d + 1) (put1 d (src (w_offset + h_offset)) dst)"

primrec rotate_columns :: "(nat \<Rightarrow> 'p) \<Rightarrow> nat \<Rightarrow> nat \<Rightarrow> nat \<Rightarrow> nat \<Rightarrow> nat \<Rightarrow> (nat \<Rightarrow> 'p) \<Rightarrow> (nat \<Rightarrow> 'p)" where
  "rotate_columns src width height 0 w_offset d dst = dst"
| "rotate_columns src width height (Suc n) w_offset d dst =
     rotate_columns src width height n (w_offset - 1) (d + height)
       (rotate_column src width w_offset height 0 d dst)"

definition rotate_y_as_gray :: "(nat \<Rightarrow> u8) \<Rightarrow> nat \<Rightarrow> nat \<Rightarrow> nat \<Rightarrow> (nat \<Rightarrow> u32) \<Rightarrow> (nat \<Rightarrow> u32)" where
  "rotate_y_as_gray y width height = rotate_columns (\<lambda>a. gray_pixel (y a)) width height width width"

text \<open>\<^verbatim>\<open>memcpy\<close> of \<open>n\<close> bytes to pixels; the last pixel may be written in part.\<close>

definition pixel_byte :: "nat \<Rightarrow> u32 \<Rightarrow> u8" where
  "pixel_byte j w = ucast (drop_bit (8 * j) w)"

definition pixel_of_bytes :: "(nat \<Rightarrow> u8) \<Rightarrow> u32" where
  "pixel_of_bytes b = ucast (b 0) OR push_bit 8 (ucast (b 1)) OR push_bit 16 (ucast (b 2))
     OR push_bit 24 (ucast (b 3))"

definition memcpy_bytes :: "nat \<Rightarrow> (nat \<Rightarrow> u8) \<Rightarrow> nat \<Rightarrow> (nat \<Rightarrow> u32) \<Rightarrow> (nat \<Rightarrow> u32)" where
  "memcpy_bytes p mem n dst = (\<lambda>k. if k < p \<or> n \<le> 4 * (k - p) then dst k
     else pixel_of_bytes (\<lambda>j. if 4 * (k - p) + j < n then mem (4 * (k - p) + j) else pixel_byte j (dst k)))"

definition memcpy_pixels :: "nat \<Rightarrow> (nat \<Rightarrow> u32) \<Rightarrow> nat \<Rightarrow> (nat \<Rightarrow> u32) \<Rightarrow> (nat \<Rightarrow> u32)" where
  "memcpy_pixels p src n dst = (\<lambda>k. if p \<le> k \<and> k < p + n then src (k - p) else dst k)"

text \<open>\<^verbatim>\<open>_gui_show\<close>, on the static \<^verbatim>\<open>_convert_buffer\<close> and the framebuffer of \<open>fb_size\<close> bytes.\<close>

definition gui_show :: "(int \<Rightarrow> u8) \<Rightarrow> refresh_context \<Rightarrow> nat \<Rightarrow> (nat \<Rightarrow> u32) \<times> (nat \<Rightarrow> u32) \<Rightarrow>
    (nat \<Rightarrow> u32) \<times> (nat \<Rightarrow> u32)" where
  "gui_show beyond ctx fb_size st = (case st of (conv, dst) \<Rightarrow>
     let b = ctx_buffer ctx; width = ctx_width ctx; height = ctx_height ctx;
         pixels = width * height;
         y = 0; v = y + pixels; u = v + pixels div 4;
         y_stride = width; uv_stride = width div 2;
         p = (if ctx_view_flip ctx then pixels else 0);
         n = (if fb_size < buf_size b then fb_size else buf_size b)
     in if \<not> ctx_convert ctx \<and> \<not> ctx_rotate ctx then (conv, memcpy_bytes p (buf_base b) n dst)
        else if ctx_convert ctx \<and> ctx_rotate ctx \<and> ctx_gray ctx then
          (conv, rotate_y_as_gray (buf_base b) width height p dst)
        else
          let conv = (if ctx_convert ctx
                      then yuv420_abgr_std beyond (buf_base b) width height y u v uv_stride 0 YCBCR_601 conv
                      else memcpy_bytes 0 (buf_base b) n conv)
          in if ctx_rotate ctx then (conv, rotate_columns conv width height width width p dst)
             else (conv, memcpy_pixels p conv pixels dst))"

definition gui_set_view :: "refresh_context \<Rightarrow> genode_gui_view" where
  "gui_set_view ctx = \<lparr>
     view_x = (if ctx_view_flip ctx then 0 else if ctx_rotate ctx then 0 else - int (ctx_width ctx)),
     view_y = (if ctx_view_flip ctx then 0 else if ctx_rotate ctx then - int (ctx_width ctx) else 0),
     view_width = (if ctx_rotate ctx then ctx_height ctx else ctx_width ctx),
     view_height = (if ctx_rotate ctx then ctx_width ctx else ctx_height ctx)\<rparr>"

definition create_gui :: "(nat \<Rightarrow> u32) \<Rightarrow> lx_user_config \<Rightarrow> genode_gui" where
  "create_gui fb config = genode_gui_create fb
     (if cfg_rotate config then cfg_height config else cfg_width config * 2)
     (if cfg_rotate config then cfg_width config * 2 else cfg_height config)"

definition refresh_ctx :: "capture_buffer \<Rightarrow> lx_user_config \<Rightarrow> bool \<Rightarrow> refresh_context" where
  "refresh_ctx b config view_flip = \<lparr>ctx_buffer = b, ctx_width = cfg_width config,
     ctx_height = cfg_height config, ctx_view_flip = view_flip, ctx_convert = cfg_convert config,
     ctx_rotate = cfg_rotate config, ctx_gray = cfg_gray config\<rparr>"

text \<open>The size of a framebuffer is four bytes for each of its pixels.\<close>

definition genode_gui_refresh :: "(nat \<Rightarrow> (nat \<Rightarrow> u32) \<times> (nat \<Rightarrow> u32) \<Rightarrow> (nat \<Rightarrow> u32) \<times> (nat \<Rightarrow> u32)) \<Rightarrow>
    (nat \<Rightarrow> u32) \<times> genode_gui \<Rightarrow> (nat \<Rightarrow> u32) \<times> genode_gui" where
  "genode_gui_refresh paint s = (case s of (conv, g) \<Rightarrow>
     (case paint (fst (gui_mode g) * snd (gui_mode g) * 4) (conv, gui_fb g) of
        (conv, fb) \<Rightarrow> (conv, g\<lparr>gui_fb := fb\<rparr>)))"

definition gui_display_image :: "(int \<Rightarrow> u8) \<Rightarrow> lx_user_config \<Rightarrow> capture_buffer \<Rightarrow> bool \<Rightarrow>
    (nat \<Rightarrow> u32) \<times> genode_gui \<Rightarrow> (nat \<Rightarrow> u32) \<times> genode_gui" where
  "gui_display_image beyond config b view_flip s = (case s of (conv, g) \<Rightarrow>
     let ctx = refresh_ctx b config view_flip
     in genode_gui_refresh (gui_show beyond ctx) (conv, genode_gui_swap_view (gui_set_view ctx) g))"

section \<open>The painted half\<close>

lemma rotate_column_range:
  "rotate_column src width w n h d dst = put_range d n (\<lambda>i. src (w + h + i * width)) dst"
proof (induction n arbitrary: h d dst)
  case (Suc n)
  have "put_range d (n + 1) (\<lambda>i. src (w + h + i * width)) dst
      = put_range (d + 1) n (\<lambda>i. src (w + h + (1 + i) * width)) (put_range d 1 (\<lambda>i. src (w + h + i * width)) dst)"
    using put_range_split [of d 1 n "\<lambda>i. src (w + h + i * width)" dst] by (simp only: add.commute)
  then show ?case using Suc by (simp add: put_range_1 [simplified] algebra_simps)
qed simp

lemma rotate_columns_range:
  assumes "0 < height" and "n \<le> w"
  shows "rotate_columns src width height n w d dst =
    put_range d (n * height) (\<lambda>i. src (w - i div height + (i mod height) * width)) dst"
  using assms(2)
proof (induction n arbitrary: w d dst)
  case (Suc n)
  let ?xs = "\<lambda>i. src (w - i div height + (i mod height) * width)"
  have col: "rotate_column src width w height 0 d dst = put_range d height ?xs dst"
    unfolding rotate_column_range by (rule put_range_cong) simp
  have "rotate_columns src width height (Suc n) w d dst =
      put_range (d + height) (n * height)
        (\<lambda>i. src (w - 1 - i div height + (i mod height) * width)) (put_range d height ?xs dst)"
    using Suc by (simp add: col)
  also have "\<dots> = put_range (d + height) (n * height) (\<lambda>i. ?xs (height + i)) (put_range d height ?xs dst)"
    by (rule put_range_cong) (use assms(1) in \<open>simp add: div_add_self1\<close>)
  also have "\<dots> = put_range d (height + n * height) ?xs dst" by (rule put_range_split)
  finally show ?case by simp
qed simp

lemma put_range_in: "p \<le> k \<Longrightarrow> k < p + n \<Longrightarrow> put_range p n xs dst k = xs (k - p)"
  by (simp add: put_range_def)

lemma put_range_out: "k < p \<or> p + n \<le> k \<Longrightarrow> put_range p n xs dst k = dst k"
  by (auto simp: put_range_def)

lemma memcpy_pixels_range: "memcpy_pixels p src n dst = put_range p n src dst"
  by (simp add: memcpy_pixels_def put_range_def)

lemma put_range_twice: "put_range p n (put_range 0 n f conv) dst = put_range p n f dst"
  by (rule put_range_cong) (simp add: put_range_def)

text \<open>
  The pixels of a captured picture, by their number: gray, in colour, or as they were captured.
  Behind the last pixel they are what follows in memory.
\<close>

definition colour_pixel :: "(int \<Rightarrow> u8) \<Rightarrow> capture_buffer \<Rightarrow> nat \<Rightarrow> nat \<Rightarrow> nat \<Rightarrow> u32" where
  "colour_pixel beyond b width height = reference_pixel
     (\<lambda>y u v. abgr_pixel beyond (YUV2RGB YCBCR_601) (buf_base b y) (buf_base b u) (buf_base b v))
     width (width div 2) 0 (width * height + width * height div 4) (width * height)"

definition captured_pixel :: "(int \<Rightarrow> u8) \<Rightarrow> lx_user_config \<Rightarrow> capture_buffer \<Rightarrow> nat \<Rightarrow> (nat \<Rightarrow> u32) \<Rightarrow> nat \<Rightarrow> u32" where
  "captured_pixel beyond config b fb_size conv k =
     (if cfg_convert config then
        if cfg_rotate config \<and> cfg_gray config then gray_pixel (buf_base b k)
        else if k < cfg_width config * cfg_height config
             then colour_pixel beyond b (cfg_width config) (cfg_height config) k else conv k
      else memcpy_bytes 0 (buf_base b) (min fb_size (buf_size b)) conv k)"

definition painted_from :: "lx_user_config \<Rightarrow> bool \<Rightarrow> nat" where
  "painted_from config flip = (if flip then cfg_width config * cfg_height config else 0)"

lemma show_rotated:
  assumes "cfg_rotate config" and "0 < cfg_width config" and "0 < cfg_height config"
  shows "snd (gui_show beyond (refresh_ctx b config flip) n (conv, dst)) =
    put_range (painted_from config flip) (cfg_width config * cfg_height config)
      (\<lambda>i. captured_pixel beyond config b n conv
        (cfg_width config - i div cfg_height config + (i mod cfg_height config) * cfg_width config)) dst"
proof -
  have conv: "yuv420_abgr_std beyond (buf_base b) (cfg_width config) (cfg_height config) 0
      (cfg_width config * cfg_height config + cfg_width config * cfg_height config div 4)
      (cfg_width config * cfg_height config) (cfg_width config div 2) 0 YCBCR_601 conv k =
    (if k < cfg_width config * cfg_height config
     then colour_pixel beyond b (cfg_width config) (cfg_height config) k else conv k)" for k
    unfolding yuv420_range [OF assms(2,3)] by (simp add: put_range_def colour_pixel_def mult.commute)
  show ?thesis
    using assms
    by (simp add: gui_show_def refresh_ctx_def rotate_y_as_gray_def rotate_columns_range painted_from_def
        captured_pixel_def conv Let_def min_def not_less)
qed

lemma show_unrotated:
  assumes "\<not> cfg_rotate config" and "cfg_convert config" and "0 < cfg_width config" and "0 < cfg_height config"
  shows "snd (gui_show beyond (refresh_ctx b config flip) n (conv, dst)) =
    put_range (painted_from config flip) (cfg_width config * cfg_height config)
      (colour_pixel beyond b (cfg_width config) (cfg_height config)) dst"
  using assms
  by (simp add: gui_show_def refresh_ctx_def painted_from_def Let_def memcpy_pixels_range yuv420_range
      put_range_twice colour_pixel_def mult.commute [of "cfg_height config"])

lemma display_fields:
  "gui_mode (snd (gui_display_image beyond config b flip (conv, g))) = gui_mode g"
  "gui_offset (snd (gui_display_image beyond config b flip (conv, g))) =
     (view_x (gui_set_view (refresh_ctx b config flip)), view_y (gui_set_view (refresh_ctx b config flip)))"
  "gui_fb (snd (gui_display_image beyond config b flip (conv, g))) =
     snd (gui_show beyond (refresh_ctx b config flip) (fst (gui_mode g) * snd (gui_mode g) * 4) (conv, gui_fb g))"
  by (simp_all add: gui_display_image_def genode_gui_refresh_def genode_gui_swap_view_def Let_def
      split: prod.splits)

text \<open>
  Double buffering with rotated pictures. While the next picture is painted, the client
  sees the previous one, complete: place \<open>(x, y)\<close> of the view shows the pixel of number
  \<open>width - y + x * width\<close>. (It should be \<open>width - 1 - y + x * width\<close>: the topmost line shows the
  first column moved by one line, and at its end what lies behind the picture.)
\<close>

theorem rotated_view_shows_previous:
  assumes "cfg_rotate config" and "gui_mode g = (cfg_height config, cfg_width config * 2)"
    and "x < cfg_height config" and "y < cfg_width config"
  shows "let s = gui_display_image beyond config b flip (conv, g);
             g' = snd (gui_display_image beyond config b' (\<not> flip) s)
         in shown_at g' x y = captured_pixel beyond config b (cfg_height config * (cfg_width config * 2) * 4) conv
              (cfg_width config - y + x * cfg_width config)"
proof -
  let ?w = "cfg_width config" and ?h = "cfg_height config"
  let ?i = "y * ?h + x" and ?n = "?h * (?w * 2) * 4"
  obtain conv' g' where s: "gui_display_image beyond config b flip (conv, g) = (conv', g')"
    by (cases "gui_display_image beyond config b flip (conv, g)")
  note f1 = display_fields [of beyond config b flip conv g, unfolded s snd_conv]
  have pos: "0 < ?w" "0 < ?h" using assms(3,4) by simp_all
  have small: "?i < ?w * ?h"
  proof -
    have "?i < Suc y * ?h" using assms(3) by simp
    also have "\<dots> \<le> ?w * ?h" using assms(4) by (intro mult_le_mono1) simp
    finally show ?thesis .
  qed
  have index: "shown_at (snd (gui_display_image beyond config b' (\<not> flip) (conv', g'))) x y =
      gui_fb (snd (gui_display_image beyond config b' (\<not> flip) (conv', g'))) (painted_from config flip + ?i)"
    using assms(1,2) by (simp add: shown_at_def display_fields f1 gui_set_view_def refresh_ctx_def
        painted_from_def nat_add_distrib algebra_simps flip: of_nat_add)
  also have "\<dots> = gui_fb g' (painted_from config flip + ?i)"
    unfolding display_fields show_rotated [OF assms(1) pos]
    by (rule put_range_out) (use small in \<open>auto simp: painted_from_def\<close>)
  also have "\<dots> = captured_pixel beyond config b ?n conv (?w - ?i div ?h + (?i mod ?h) * ?w)"
    unfolding f1 show_rotated [OF assms(1) pos] assms(2) fst_conv snd_conv
    by (subst put_range_in) (use small in simp_all)
  finally show ?thesis unfolding s Let_def line_pixels [OF assms(3)] .
qed

text \<open>At a concrete place: the topmost line of the view of a picture of two lines.\<close>

definition small_config :: lx_user_config where
  "small_config = initial_config\<lparr>cfg_width := 4, cfg_height := 2, cfg_convert := True, cfg_rotate := True,
     cfg_gray := True\<rparr>"

definition counting_buffer :: capture_buffer where
  "counting_buffer = \<lparr>buf_base = of_nat, buf_size = 12\<rparr>"

theorem rotated_view_shows_previous_witness:
  "shown_at (snd (gui_display_image (\<lambda>_. 0) small_config counting_buffer False
      (gui_display_image (\<lambda>_. 0) small_config counting_buffer True (\<lambda>_. 0, create_gui (\<lambda>_. 0) small_config)))) 1 0
    = gray_pixel 8"
  using rotated_view_shows_previous [of small_config "create_gui (\<lambda>_. 0) small_config" 1 0 "\<lambda>_. 0" counting_buffer
      True "\<lambda>_. 0" counting_buffer]
  by (simp add: small_config_def counting_buffer_def create_gui_def genode_gui_create_def captured_pixel_def Let_def)

text \<open>
  Without rotation the view is torn. The lines of the framebuffer are twice as long as those
  of the picture, but pictures are painted as if they were not: from the middle of the view
  downwards the client sees every second line of the picture that is just being painted.
\<close>

theorem unrotated_view_torn:
  assumes "\<not> cfg_rotate config" and "cfg_convert config"
    and "gui_mode g = (cfg_width config * 2, cfg_height config)"
    and "x < cfg_width config" and "y < cfg_height config" and "cfg_height config \<le> 2 * y"
  shows "shown_at (snd (gui_display_image beyond config b True (conv, g))) x y
    = colour_pixel beyond b (cfg_width config) (cfg_height config)
        ((2 * y - cfg_height config) * cfg_width config + x)"
proof -
  let ?w = "cfg_width config" and ?h = "cfg_height config"
  have pos: "0 < ?w" "0 < ?h" using assms(4,5) by simp_all
  obtain d where d: "2 * y = ?h + d" using assms(6) le_Suc_ex by blast
  have i: "y * (?w * 2) + x = ?w * ?h + (d * ?w + x)"
  proof -
    have "y * (?w * 2) = (2 * y) * ?w" by simp
    then show ?thesis unfolding d by (simp add: algebra_simps)
  qed
  have small: "d * ?w + x < ?w * ?h"
  proof -
    have "d * ?w + x < Suc d * ?w" using assms(4) by simp
    also have "\<dots> \<le> ?h * ?w" using assms(5) d by (intro mult_le_mono1) linarith
    finally show ?thesis by (simp add: mult.commute)
  qed
  have "shown_at (snd (gui_display_image beyond config b True (conv, g))) x y
      = gui_fb (snd (gui_display_image beyond config b True (conv, g))) (?w * ?h + (d * ?w + x))"
    using assms(1,3) by (simp add: shown_at_def display_fields gui_set_view_def refresh_ctx_def
        i [simplified] algebra_simps)
  also have "\<dots> = colour_pixel beyond b ?w ?h (d * ?w + x)"
    unfolding display_fields show_unrotated [OF assms(1,2) pos] painted_from_def if_True
    by (subst put_range_in) (use small in simp_all)
  finally show ?thesis using d by simp
qed

theorem unrotated_view_torn_witness:
  "shown_at (snd (gui_display_image (\<lambda>_. 0) (small_config\<lparr>cfg_rotate := False\<rparr>) counting_buffer True
      (\<lambda>_. 0, create_gui (\<lambda>_. 0) (small_config\<lparr>cfg_rotate := False\<rparr>)))) 3 1
    = colour_pixel (\<lambda>_. 0) counting_buffer 4 2 3"
  using unrotated_view_torn [of "small_config\<lparr>cfg_rotate := False\<rparr>"
      "create_gui (\<lambda>_. 0) (small_config\<lparr>cfg_rotate := False\<rparr>)" 3 1 "\<lambda>_. 0" counting_buffer "\<lambda>_. 0"]
  by (simp add: small_config_def create_gui_def genode_gui_create_def)

end
