(* ===== verification/Camera_Capture.thy ===== *)
theory Camera_Capture
  imports Camera_Gui
begin

text \<open>
  The capture task of the camera driver (\<^verbatim>\<open>lx_user.c\<close>) and the emulation of the device table
  and of DMA addresses (\<^verbatim>\<open>lx_emul.c\<close>). The video drivers of Linux are the parameter \<open>V\<close>: the
  reply to a call, depending on the calls before. \<open>trace\<close> is the list of calls with their
  replies. A failed allocation is a reply with an error.
\<close>

section \<open>Devices\<close>

text \<open>The table of character devices, by major and minor number, has six entries.\<close>

type_synonym cdev_table = "(nat \<times> nat) list"

definition cdev_add :: "nat \<times> nat \<Rightarrow> cdev_table \<Rightarrow> int \<times> cdev_table" where
  "cdev_add dev cdevs = (if length cdevs < 6 then (0, cdevs @ [dev]) else (- 1, cdevs))"

definition lx_emul_get_cdev :: "cdev_table \<Rightarrow> nat \<Rightarrow> nat \<Rightarrow> nat option" where
  "lx_emul_get_cdev cdevs major minor =
     List.find (\<lambda>i. cdevs ! i = (major, minor)) [0..<length cdevs]"

definition MEDIA0_MAJOR :: nat where "MEDIA0_MAJOR = 253"
definition VIDEO_MAJOR :: nat where "VIDEO_MAJOR = 81"

section \<open>Calls\<close>

datatype topology_part = Entities | Interfaces | Pads | Links

datatype camera_file = Capture_filp | Bridge_filp | Subdev_filp

datatype camera_dev = Video0 | Video3 | Subdev_ov5640 | Subdev_gc2145

datatype v4l_call =
    G_topology
  | Krealloc topology_part nat
  | Kfree topology_part
  | Setup_link bool "nat \<times> nat" "nat \<times> nat"
  | Open_file camera_dev camera_file
  | S_frame_interval camera_file nat nat
  | Subdev_s_fmt camera_file nat nat camera_format
  | Querycap
  | S_fmt nat nat camera_format
  | Reqbufs nat
  | Querybuf nat
  | Mmap nat
  | Qbuf nat
  | Dqbuf
  | Streamon
  | Streamoff

record v4l_reply =
  v_err :: int
  v_counts :: "topology_part \<Rightarrow> nat"
  v_pads :: "nat \<Rightarrow> nat \<times> nat"
  v_count :: nat
  v_offset :: nat
  v_range :: "nat \<times> nat"
  v_index :: nat

type_synonym trace = "(v4l_call \<times> v4l_reply) list"

type_synonym v4l2 = "trace \<Rightarrow> v4l_call \<Rightarrow> v4l_reply"

definition ask :: "v4l2 \<Rightarrow> v4l_call \<Rightarrow> trace \<Rightarrow> v4l_reply \<times> trace" where
  "ask V c tr = (let r = V tr c in (r, tr @ [(c, r)]))"

text \<open>A sequence of calls up to the first error.\<close>

primrec run_calls :: "v4l2 \<Rightarrow> v4l_call list \<Rightarrow> trace \<Rightarrow> int \<times> trace" where
  "run_calls V [] tr = (0, tr)"
| "run_calls V (c # cs) tr = (case ask V c tr of (r, tr) \<Rightarrow>
     if v_err r \<noteq> 0 then (v_err r, tr) else run_calls V cs tr)"

section \<open>Setup\<close>

primrec alloc_parts :: "v4l2 \<Rightarrow> (topology_part \<Rightarrow> nat) \<Rightarrow> topology_part list \<Rightarrow> topology_part list \<Rightarrow>
    trace \<Rightarrow> int \<times> trace" where
  "alloc_parts V counts [] done_parts tr = (0, tr)"
| "alloc_parts V counts (p # ps) done_parts tr = (case ask V (Krealloc p (counts p)) tr of (r, tr) \<Rightarrow>
     if v_err r \<noteq> 0 then (- 1, fold (\<lambda>q tr. snd (ask V (Kfree q) tr)) done_parts tr)
     else alloc_parts V counts ps (p # done_parts) tr)"

definition alloc_topology :: "v4l2 \<Rightarrow> (topology_part \<Rightarrow> nat) \<Rightarrow> trace \<Rightarrow> int \<times> trace" where
  "alloc_topology V counts = alloc_parts V counts [Entities, Interfaces, Pads, Links] []"

text \<open>The topology is its pads, each with the entity and the index.\<close>

definition query_media_device :: "v4l2 \<Rightarrow> trace \<Rightarrow> (int + (nat \<Rightarrow> nat \<times> nat)) \<times> trace" where
  "query_media_device V tr = (case ask V G_topology tr of (r, tr) \<Rightarrow>
     if v_err r \<noteq> 0 then (Inl (v_err r), tr) else
     (case alloc_topology V (v_counts r) tr of (err, tr) \<Rightarrow>
      if err \<noteq> 0 then (Inl (- 1), tr) else
      (case ask V G_topology tr of (r, tr) \<Rightarrow>
       if v_err r \<noteq> 0 then (Inl (v_err r), tr) else (Inr (v_pads r), tr))))"

definition setup_link :: "v4l2 \<Rightarrow> (nat \<Rightarrow> nat \<times> nat) \<Rightarrow> bool \<Rightarrow> trace \<Rightarrow> int \<times> trace" where
  "setup_link V pads front_camera = run_calls V
     [Setup_link (\<not> front_camera) (pads 2) (pads 0), Setup_link front_camera (pads 3) (pads 0)]"

definition open_video_device :: "v4l2 \<Rightarrow> trace \<Rightarrow> int \<times> trace" where
  "open_video_device V = run_calls V [Open_file Video3 Capture_filp, Open_file Video0 Bridge_filp]"

definition query_video_device :: "v4l2 \<Rightarrow> trace \<Rightarrow> int \<times> trace" where
  "query_video_device V = run_calls V [Querycap]"

definition setup_subdev_fmt :: "v4l2 \<Rightarrow> lx_user_config \<Rightarrow> bool \<Rightarrow> trace \<Rightarrow> int \<times> trace" where
  "setup_subdev_fmt V config front_camera = run_calls V
     [Open_file (if front_camera then Subdev_gc2145 else Subdev_ov5640) Subdev_filp,
      S_frame_interval Subdev_filp 1 (cfg_fps config),
      Subdev_s_fmt Subdev_filp (cfg_width config) (cfg_height config) (cfg_format config),
      S_frame_interval Subdev_filp 1 (cfg_fps config),
      Subdev_s_fmt Bridge_filp (cfg_width config) (cfg_height config) (cfg_format config)]"

definition setup_video_fmt :: "v4l2 \<Rightarrow> lx_user_config \<Rightarrow> trace \<Rightarrow> int \<times> trace" where
  "setup_video_fmt V config = run_calls V [S_fmt (cfg_width config) (cfg_height config) (cfg_format config)]"

definition configure_capture :: "v4l2 \<Rightarrow> lx_user_config \<Rightarrow> trace \<Rightarrow> int \<times> trace" where
  "configure_capture V config tr = (let front_camera = (cfg_camera config = CAMERA_FRONT) in
     case query_media_device V tr of (Inl err, tr) \<Rightarrow> (err, tr) | (Inr pads, tr) \<Rightarrow>
     (case setup_link V pads front_camera tr of (err, tr) \<Rightarrow> if err \<noteq> 0 then (err, tr) else
      (case open_video_device V tr of (err, tr) \<Rightarrow> if err \<noteq> 0 then (err, tr) else
       (case query_video_device V tr of (err, tr) \<Rightarrow> if err \<noteq> 0 then (err, tr) else
        (case setup_subdev_fmt V config front_camera tr of (err, tr) \<Rightarrow> if err \<noteq> 0 then (err, tr) else
         setup_video_fmt V config tr)))))"

record buffer_info =
  b_index :: nat
  b_base :: nat
  b_size :: nat
  b_pgoff :: nat

definition blank_buffer_info :: buffer_info where
  "blank_buffer_info = \<lparr>b_index = 0, b_base = 0, b_size = 0, b_pgoff = 0\<rparr>"

definition PAGE_SHIFT :: nat where "PAGE_SHIFT = 12"
definition ENOMEM :: int where "ENOMEM = 12"

text \<open>The loop over the buffers, from number \<open>i\<close> for \<open>n\<close> of them.\<close>

primrec map_buffers :: "v4l2 \<Rightarrow> nat \<Rightarrow> nat \<Rightarrow> (nat \<Rightarrow> buffer_info) \<Rightarrow> trace \<Rightarrow>
    int \<times> (nat \<Rightarrow> buffer_info) \<times> trace" where
  "map_buffers V 0 i buffer tr = (0, buffer, tr)"
| "map_buffers V (Suc n) i buffer tr = (case ask V (Querybuf i) tr of (r, tr) \<Rightarrow>
     if v_err r \<noteq> 0 then (v_err r, buffer, tr) else
     let pgoff = v_offset r div 2 ^ PAGE_SHIFT in
     (case ask V (Mmap pgoff) tr of (r, tr) \<Rightarrow>
      if v_err r \<noteq> 0 then (v_err r, buffer, tr) else
      map_buffers V n (i + 1) (buffer(i := \<lparr>b_index = i, b_base = fst (v_range r),
        b_size = snd (v_range r) - fst (v_range r), b_pgoff = pgoff\<rparr>)) tr))"

definition request_buffers :: "v4l2 \<Rightarrow> nat \<Rightarrow> trace \<Rightarrow> int \<times> (nat \<Rightarrow> buffer_info) \<times> trace" where
  "request_buffers V num_buffer tr = (case ask V (Reqbufs num_buffer) tr of (r, tr) \<Rightarrow>
     if v_err r \<noteq> 0 then (v_err r, \<lambda>_. blank_buffer_info, tr)
     else if v_count r < 2 \<or> v_count r \<noteq> num_buffer then (- ENOMEM, \<lambda>_. blank_buffer_info, tr)
     else map_buffers V (v_count r) 0 (\<lambda>_. blank_buffer_info) tr)"

definition queue_buffers :: "v4l2 \<Rightarrow> nat \<Rightarrow> (nat \<Rightarrow> buffer_info) \<Rightarrow> trace \<Rightarrow> int \<times> trace" where
  "queue_buffers V num_buffer buffer = run_calls V (map (\<lambda>i. Qbuf (b_index (buffer i))) [0..<num_buffer])"

text \<open>
  Waiting for the media device: \<open>tables i\<close> is the device table at the \<open>i\<close>-th look. The result
  is true after ten looks in vain; with it comes the number of the last look.
\<close>

primrec wait_for_media_cdev :: "(nat \<Rightarrow> cdev_table) \<Rightarrow> nat \<Rightarrow> nat \<Rightarrow> bool \<times> nat" where
  "wait_for_media_cdev tables 0 i = (True, i)"
| "wait_for_media_cdev tables (Suc n) i =
     (if lx_emul_get_cdev (tables i) MEDIA0_MAJOR 0 \<noteq> None then (False, i)
      else wait_for_media_cdev tables n (i + 1))"

text \<open>\<open>Fault\<close>: the driver follows a null pointer.\<close>

datatype setup_result = Ready "nat \<Rightarrow> buffer_info" | Failed | Fault

definition setup_camera :: "v4l2 \<Rightarrow> (nat \<Rightarrow> cdev_table) \<Rightarrow> lx_user_config \<Rightarrow> setup_result \<times> trace" where
  "setup_camera V tables config = (case wait_for_media_cdev tables 10 0 of (timeout, i) \<Rightarrow>
     if timeout then (Failed, []) else
     let cdev = lx_emul_get_cdev (tables i);
         media0 = cdev MEDIA0_MAJOR 0; video0 = cdev VIDEO_MAJOR 0; video3 = cdev VIDEO_MAJOR 3;
         v4l_subdev_ov5640 = cdev VIDEO_MAJOR 1; v4l_subdev_gc2145 = cdev VIDEO_MAJOR 2
     in if media0 = None \<or> video3 = None \<or> v4l_subdev_gc2145 = None \<or> v4l_subdev_ov5640 = None
        then (Failed, [])
        else if video0 = None then (Fault, [])
        else (case configure_capture V config [] of (err, tr) \<Rightarrow> if err \<noteq> 0 then (Failed, tr) else
              (case request_buffers V (cfg_num_buffer config) tr of (err, buffer, tr) \<Rightarrow>
               if err \<noteq> 0 then (Failed, tr) else
               (case queue_buffers V (cfg_num_buffer config) buffer tr of (err, tr) \<Rightarrow>
                if err \<noteq> 0 then (Failed, tr) else (Ready buffer, tr)))))"

section \<open>Capturing\<close>

text \<open>\<open>cap_shown\<close> lists the pictures shown: the number of the buffer and the half painted.\<close>

record capture =
  cap_trace :: trace
  cap_conv :: "nat \<Rightarrow> u32"
  cap_gui :: genode_gui
  cap_flip :: bool
  cap_skip :: nat
  cap_shown :: "(nat \<times> bool) list"

definition get_buffer :: "v4l2 \<Rightarrow> trace \<Rightarrow> nat option \<times> trace" where
  "get_buffer V tr = (case ask V Dqbuf tr of (r, tr) \<Rightarrow> if v_err r \<noteq> 0 then (None, tr) else (Some (v_index r), tr))"

definition put_buffer :: "v4l2 \<Rightarrow> buffer_info \<Rightarrow> trace \<Rightarrow> trace" where
  "put_buffer V b tr = snd (ask V (Qbuf (b_index b)) tr)"

definition control_camera :: "v4l2 \<Rightarrow> bool \<Rightarrow> trace \<Rightarrow> int \<times> trace" where
  "control_camera V start = run_calls V [if start then Streamon else Streamoff]"

text \<open>\<open>mem\<close> is what is in memory at a time: the bytes the camera wrote.\<close>

definition captured :: "(trace \<Rightarrow> nat \<Rightarrow> u8) \<Rightarrow> buffer_info \<Rightarrow> trace \<Rightarrow> capture_buffer" where
  "captured mem b tr = \<lparr>buf_base = (\<lambda>a. mem tr (b_base b + a)), buf_size = b_size b\<rparr>"

definition show_frame :: "(int \<Rightarrow> u8) \<Rightarrow> (trace \<Rightarrow> nat \<Rightarrow> u8) \<Rightarrow> lx_user_config \<Rightarrow> nat \<Rightarrow> buffer_info \<Rightarrow>
    capture \<Rightarrow> capture" where
  "show_frame beyond mem config i b s = (if cfg_skip_frames config \<le> cap_skip s then
       (case gui_display_image beyond config (captured mem b (cap_trace s)) (cap_flip s) (cap_conv s, cap_gui s) of
          (conv, gui) \<Rightarrow> s\<lparr>cap_conv := conv, cap_gui := gui, cap_shown := cap_shown s @ [(i, cap_flip s)],
            cap_flip := (if cap_flip s then False else True), cap_skip := 0\<rparr>)
     else s)"

text \<open>One round of the loop, \<open>None\<close> if it is left, and \<open>n\<close> rounds.\<close>

definition capture_round :: "v4l2 \<Rightarrow> (int \<Rightarrow> u8) \<Rightarrow> (trace \<Rightarrow> nat \<Rightarrow> u8) \<Rightarrow> lx_user_config \<Rightarrow>
    (nat \<Rightarrow> buffer_info) \<Rightarrow> capture \<Rightarrow> bool \<times> capture" where
  "capture_round V beyond mem config buffer s = (case get_buffer V (cap_trace s) of
     (None, tr) \<Rightarrow> (False, s\<lparr>cap_trace := tr\<rparr>)
   | (Some i, tr) \<Rightarrow>
       let s = show_frame beyond mem config i (buffer i) (s\<lparr>cap_trace := tr\<rparr>);
           s = s\<lparr>cap_skip := cap_skip s + 1\<rparr>
       in (True, s\<lparr>cap_trace := put_buffer V (buffer i) (cap_trace s)\<rparr>))"

primrec capture_loop :: "v4l2 \<Rightarrow> (int \<Rightarrow> u8) \<Rightarrow> (trace \<Rightarrow> nat \<Rightarrow> u8) \<Rightarrow> lx_user_config \<Rightarrow>
    (nat \<Rightarrow> buffer_info) \<Rightarrow> nat \<Rightarrow> capture \<Rightarrow> bool \<times> capture" where
  "capture_loop V beyond mem config buffer 0 s = (True, s)"
| "capture_loop V beyond mem config buffer (Suc n) s =
     (case capture_loop V beyond mem config buffer n s of (go_on, s) \<Rightarrow>
        if go_on then capture_round V beyond mem config buffer s else (False, s))"

text \<open>
  The task: how it ended after \<open>n\<close> rounds of the loop (\<open>True\<close>: it is still capturing). It gives
  up for good if the configuration, the setup, the GUI session (\<open>gui_ok\<close>) or the start fails.
\<close>

definition start_capture :: "genode_gui \<Rightarrow> trace \<Rightarrow> capture" where
  "start_capture gui tr = \<lparr>cap_trace = tr, cap_conv = (\<lambda>_. 0), cap_gui = gui, cap_flip = True, cap_skip = 0,
     cap_shown = []\<rparr>"

definition capture_task_function :: "v4l2 \<Rightarrow> (nat \<Rightarrow> cdev_table) \<Rightarrow> bool \<Rightarrow> (int \<Rightarrow> u8) \<Rightarrow> (trace \<Rightarrow> nat \<Rightarrow> u8) \<Rightarrow>
    (nat \<Rightarrow> u32) \<Rightarrow> lx_user_config \<Rightarrow> nat \<Rightarrow> bool \<times> capture" where
  "capture_task_function V tables gui_ok beyond mem fb config n =
     (let gui = create_gui fb config in
      if \<not> cfg_valid config then (False, start_capture gui []) else
      case setup_camera V tables config of (Failed, tr) \<Rightarrow> (False, start_capture gui tr)
      | (Fault, tr) \<Rightarrow> (False, start_capture gui tr)
      | (Ready buffer, tr) \<Rightarrow>
          if \<not> gui_ok then (False, start_capture gui tr) else
          (case control_camera V True tr of (err, tr) \<Rightarrow>
             if err \<noteq> 0 then (False, start_capture gui tr) else
             (case capture_loop V beyond mem config buffer n (start_capture gui tr) of (go_on, s) \<Rightarrow>
                if go_on then (True, s)
                else (False, s\<lparr>cap_trace := snd (control_camera V False (cap_trace s))\<rparr>))))"

section \<open>DMA addresses\<close>

definition PHYS_OFFSET :: u64 where "PHYS_OFFSET = 0x40000000"

text \<open>\<open>alloc\<close> is what Linux allocated, \<open>virt\<close> is \<^verbatim>\<open>lx_emul_mem_virt_addr\<close>.\<close>

definition quirk_dma_alloc_attrs :: "(u64 \<times> u64) option \<Rightarrow> (u64 \<times> u64) option" where
  "quirk_dma_alloc_attrs alloc = (case alloc of None \<Rightarrow> None
     | Some (addr, dma_handle) \<Rightarrow> Some (addr, dma_handle - PHYS_OFFSET))"

definition dma_mmap_attrs :: "(u64 \<Rightarrow> u64) \<Rightarrow> u64 \<Rightarrow> u64 \<Rightarrow> u64 \<times> u64" where
  "dma_mmap_attrs virt dma_addr len =
     (let adjust_dma_addr = (if dma_addr < PHYS_OFFSET then dma_addr + PHYS_OFFSET else dma_addr);
          addr = virt adjust_dma_addr
      in (addr, addr + len))"

end
