(* ===== verification/Camera_Props.thy ===== *)
theory Camera_Props
  imports Camera_Capture
begin

text \<open>
  Properties of the camera driver: what it asks of the video drivers before it starts the
  camera, which pictures it shows, what stays within the buffers, and the DMA addresses.
\<close>

section \<open>The calls of the setup\<close>

text \<open>The calls \<open>cs\<close> were made in this order, and none failed.\<close>

definition succeeded :: "v4l_call list \<Rightarrow> trace \<Rightarrow> bool" where
  "succeeded cs tr \<longleftrightarrow> map fst tr = cs \<and> (\<forall>(c, r) \<in> set tr. v_err r = 0)"

lemma succeeded_simps [simp]:
  "succeeded [] tr \<longleftrightarrow> tr = []"
  "succeeded (c # cs) tr \<longleftrightarrow> (\<exists>r new. tr = (c, r) # new \<and> v_err r = 0 \<and> succeeded cs new)"
  by (auto simp: succeeded_def Cons_eq_map_conv map_eq_Cons_conv)

lemma succeeded_append:
  "succeeded cs a \<Longrightarrow> succeeded ds b \<Longrightarrow> succeeded (cs @ ds) (a @ b)"
  by (auto simp: succeeded_def)

lemma run_calls_ok:
  "run_calls V cs tr = (0, tr') \<Longrightarrow> \<exists>new. tr' = tr @ new \<and> succeeded cs new"
proof (induction cs arbitrary: tr)
  case (Cons c cs)
  then have err: "v_err (V tr c) = 0" and "run_calls V cs (tr @ [(c, V tr c)]) = (0, tr')"
    by (auto simp: ask_def Let_def split: if_splits)
  with Cons.IH obtain new where "tr' = (tr @ [(c, V tr c)]) @ new" "succeeded cs new" by blast
  with err show ?case by (intro exI [of _ "(c, V tr c) # new"]) simp
qed simp

lemma alloc_parts_ok:
  "alloc_parts V counts ps ds tr = (0, tr') \<Longrightarrow>
    \<exists>new. tr' = tr @ new \<and> succeeded (map (\<lambda>p. Krealloc p (counts p)) ps) new"
proof (induction ps arbitrary: ds tr)
  case (Cons p ps)
  let ?c = "Krealloc p (counts p)"
  from Cons.prems have err: "v_err (V tr ?c) = 0"
    and "alloc_parts V counts ps (p # ds) (tr @ [(?c, V tr ?c)]) = (0, tr')"
    by (auto simp: ask_def Let_def split: if_splits)
  with Cons.IH obtain new where "tr' = (tr @ [(?c, V tr ?c)]) @ new"
    "succeeded (map (\<lambda>p. Krealloc p (counts p)) ps) new" by blast
  with err show ?case by (intro exI [of _ "(?c, V tr ?c) # new"]) simp
qed simp

definition query_calls :: "(topology_part \<Rightarrow> nat) \<Rightarrow> v4l_call list" where
  "query_calls counts =
     G_topology # map (\<lambda>p. Krealloc p (counts p)) [Entities, Interfaces, Pads, Links] @ [G_topology]"

lemma query_media_device_ok:
  assumes "query_media_device V tr = (Inr pads, tr')"
  shows "\<exists>new counts. tr' = tr @ new \<and> succeeded (query_calls counts) new"
proof -
  let ?tr1 = "tr @ [(G_topology, V tr G_topology)]" and ?counts = "v_counts (V tr G_topology)"
  from assms obtain tr2 where err1: "v_err (V tr G_topology) = 0"
    and alloc: "alloc_topology V ?counts ?tr1 = (0, tr2)"
    and err2: "v_err (V tr2 G_topology) = 0" and tr': "tr' = tr2 @ [(G_topology, V tr2 G_topology)]"
    by (auto simp: query_media_device_def ask_def Let_def split: if_splits prod.splits)
  from alloc_parts_ok [OF alloc [unfolded alloc_topology_def]] obtain new where
    "tr2 = ?tr1 @ new" and new: "succeeded (map (\<lambda>p. Krealloc p (?counts p)) [Entities, Interfaces, Pads, Links]) new"
    by blast
  moreover have "succeeded (query_calls ?counts)
      ((G_topology, V tr G_topology) # new @ [(G_topology, V tr2 G_topology)])"
    unfolding query_calls_def using err1 err2 succeeded_append [OF new, of "[G_topology]"] by simp
  ultimately show ?thesis using tr' by (intro exI) auto
qed

definition format_calls :: "lx_user_config \<Rightarrow> (nat \<Rightarrow> nat \<times> nat) \<Rightarrow> v4l_call list" where
  "format_calls config pads = (let front = (cfg_camera config = CAMERA_FRONT);
       w = cfg_width config; h = cfg_height config in
     [Setup_link (\<not> front) (pads 2) (pads 0), Setup_link front (pads 3) (pads 0),
      Open_file Video3 Capture_filp, Open_file Video0 Bridge_filp, Querycap,
      Open_file (if front then Subdev_gc2145 else Subdev_ov5640) Subdev_filp,
      S_frame_interval Subdev_filp 1 (cfg_fps config), Subdev_s_fmt Subdev_filp w h (cfg_format config),
      S_frame_interval Subdev_filp 1 (cfg_fps config), Subdev_s_fmt Bridge_filp w h (cfg_format config),
      S_fmt w h (cfg_format config)])"

lemma query_media_device_error: "query_media_device V tr = (Inl e, tr') \<Longrightarrow> e \<noteq> 0"
  by (auto simp: query_media_device_def Let_def split: if_splits prod.splits)

lemma configure_capture_ok:
  assumes "configure_capture V config tr = (0, tr')"
  shows "\<exists>new counts pads. tr' = tr @ new \<and> succeeded (query_calls counts @ format_calls config pads) new"
proof -
  let ?front = "cfg_camera config = CAMERA_FRONT"
  from assms obtain pads tr1 tr2 tr3 tr4 tr5 where
    q: "query_media_device V tr = (Inr pads, tr1)" and l: "setup_link V pads ?front tr1 = (0, tr2)"
    and o: "open_video_device V tr2 = (0, tr3)" and v: "query_video_device V tr3 = (0, tr4)"
    and s: "setup_subdev_fmt V config ?front tr4 = (0, tr5)" and f: "setup_video_fmt V config tr5 = (0, tr')"
    by (auto simp: configure_capture_def Let_def dest: query_media_device_error
        split: if_splits prod.splits sum.splits)
  from query_media_device_ok [OF q] obtain n1 counts where 1: "tr1 = tr @ n1" "succeeded (query_calls counts) n1"
    by blast
  from run_calls_ok [OF l [unfolded setup_link_def]] run_calls_ok [OF o [unfolded open_video_device_def]]
    run_calls_ok [OF v [unfolded query_video_device_def]] run_calls_ok [OF s [unfolded setup_subdev_fmt_def]]
    run_calls_ok [OF f [unfolded setup_video_fmt_def]]
  obtain n2 n3 n4 n5 n6 where
    "tr2 = tr1 @ n2" "tr3 = tr2 @ n3" "tr4 = tr3 @ n4" "tr5 = tr4 @ n5" "tr' = tr5 @ n6"
    "succeeded (format_calls config pads) (n2 @ n3 @ n4 @ n5 @ n6)"
    by (auto simp: format_calls_def Let_def)
  with 1 show ?thesis
    by (intro exI [of _ "n1 @ n2 @ n3 @ n4 @ n5 @ n6"] exI) (auto intro: succeeded_append)
qed

lemma map_buffers_ok:
  "map_buffers V n i buffer tr = (0, buffer', tr') \<Longrightarrow>
    \<exists>new pg. tr' = tr @ new \<and> succeeded (concat (map (\<lambda>j. [Querybuf j, Mmap (pg j)]) [i..<i + n])) new
      \<and> (\<forall>j. i \<le> j \<and> j < i + n \<longrightarrow> b_index (buffer' j) = j) \<and> (\<forall>j < i. buffer' j = buffer j)"
proof (induction n arbitrary: i buffer tr)
  case (Suc n)
  let ?r = "V tr (Querybuf i)"
  let ?pg = "v_offset ?r div 2 ^ PAGE_SHIFT" and ?tr1 = "tr @ [(Querybuf i, ?r)]"
  let ?r2 = "V ?tr1 (Mmap ?pg)" and ?c2 = "Mmap ?pg"
  from Suc.prems have err: "v_err ?r = 0" "v_err ?r2 = 0"
    and rest: "map_buffers V n (i + 1) (buffer(i := \<lparr>b_index = i, b_base = fst (v_range ?r2),
        b_size = snd (v_range ?r2) - fst (v_range ?r2), b_pgoff = ?pg\<rparr>)) (?tr1 @ [(?c2, ?r2)]) = (0, buffer', tr')"
    by (auto simp: ask_def Let_def split: if_splits)
  from Suc.IH [OF rest] obtain new pg where new: "tr' = (?tr1 @ [(?c2, ?r2)]) @ new"
    "succeeded (concat (map (\<lambda>j. [Querybuf j, Mmap (pg j)]) [i + 1..<i + 1 + n])) new"
    and ix: "\<forall>j. i + 1 \<le> j \<and> j < i + 1 + n \<longrightarrow> b_index (buffer' j) = j"
    and old: "\<forall>j < i + 1. buffer' j = (buffer(i := \<lparr>b_index = i, b_base = fst (v_range ?r2),
        b_size = snd (v_range ?r2) - fst (v_range ?r2), b_pgoff = ?pg\<rparr>)) j" by blast
  let ?pg' = "pg(i := ?pg)"
  have later: "map (\<lambda>j. [Querybuf j, Mmap (?pg' j)]) [i + 1..<i + 1 + n]
      = map (\<lambda>j. [Querybuf j, Mmap (pg j)]) [i + 1..<i + 1 + n]" by simp
  have "[i..<i + Suc n] = i # [i + 1..<i + 1 + n]" by (simp add: upt_conv_Cons)
  then have "concat (map (\<lambda>j. [Querybuf j, Mmap (?pg' j)]) [i..<i + Suc n])
      = Querybuf i # ?c2 # concat (map (\<lambda>j. [Querybuf j, Mmap (pg j)]) [i + 1..<i + 1 + n])"
    by (simp only: list.map concat.simps later append.simps fun_upd_same)
  then have "succeeded (concat (map (\<lambda>j. [Querybuf j, Mmap (?pg' j)]) [i..<i + Suc n]))
      ((Querybuf i, ?r) # (?c2, ?r2) # new)"
    using new(2) err by (simp del: upt_Suc)
  moreover have "b_index (buffer' j) = j" if "i \<le> j \<and> j < i + Suc n" for j
  proof (cases "j = i")
    case True
    from spec [OF old, of i] show ?thesis by (simp add: True)
  next
    case False
    with ix that show ?thesis by simp
  qed
  moreover have "\<forall>j < i. buffer' j = buffer j" using old by simp
  ultimately show ?case using new(1) by (intro exI [of _ "(Querybuf i, ?r) # (?c2, ?r2) # new"] exI [of _ ?pg']) simp
qed simp

definition setup_calls :: "lx_user_config \<Rightarrow> (topology_part \<Rightarrow> nat) \<Rightarrow> (nat \<Rightarrow> nat \<times> nat) \<Rightarrow> (nat \<Rightarrow> nat) \<Rightarrow>
    v4l_call list" where
  "setup_calls config counts pads pg = (let n = cfg_num_buffer config in
     query_calls counts @ format_calls config pads @ [Reqbufs n]
     @ concat (map (\<lambda>i. [Querybuf i, Mmap (pg i)]) [0..<n]) @ map Qbuf [0..<n])"

lemma setup_camera_ready:
  assumes "setup_camera V tables config = (Ready buffer, tr)"
  shows "\<exists>counts pads pg. succeeded (setup_calls config counts pads pg) tr"
    and "i < cfg_num_buffer config \<Longrightarrow> b_index (buffer i) = i"
proof -
  let ?n = "cfg_num_buffer config"
  from assms obtain tr1 tr2 where c: "configure_capture V config [] = (0, tr1)"
    and r: "request_buffers V ?n tr1 = (0, buffer, tr2)" and q: "queue_buffers V ?n buffer tr2 = (0, tr)"
    by (auto simp: setup_camera_def Let_def split: if_splits prod.splits)
  from configure_capture_ok [OF c] obtain counts pads where
    1: "succeeded (query_calls counts @ format_calls config pads) tr1" by auto
  let ?r = "V tr1 (Reqbufs ?n)"
  from r have err: "v_err ?r = 0"
    and m: "map_buffers V ?n 0 (\<lambda>_. blank_buffer_info) (tr1 @ [(Reqbufs ?n, ?r)]) = (0, buffer, tr2)"
    by (auto simp: request_buffers_def ask_def Let_def ENOMEM_def split: if_splits)
  from map_buffers_ok [OF m] obtain n2 pg where 2: "tr2 = (tr1 @ [(Reqbufs ?n, ?r)]) @ n2"
    "succeeded (concat (map (\<lambda>i. [Querybuf i, Mmap (pg i)]) [0..<?n])) n2"
    and ix: "\<forall>j < ?n. b_index (buffer j) = j" by auto
  from run_calls_ok [OF q [unfolded queue_buffers_def]] obtain n3 where
    3: "tr = tr2 @ n3" "succeeded (map (\<lambda>i. Qbuf (b_index (buffer i))) [0..<?n]) n3" by blast
  have "map (\<lambda>i. Qbuf (b_index (buffer i))) [0..<?n] = map Qbuf [0..<?n]" using ix by simp
  with 3 have 3: "tr = tr2 @ n3" "succeeded (map Qbuf [0..<?n]) n3" by simp_all
  have "succeeded [Reqbufs ?n] [(Reqbufs ?n, ?r)]" using err by simp
  from succeeded_append [OF 1 succeeded_append [OF this succeeded_append [OF 2(2) 3(2)]]]
  have "succeeded (setup_calls config counts pads pg) tr"
    by (simp add: setup_calls_def Let_def 2(1) 3(1))
  then show "\<exists>counts pads pg. succeeded (setup_calls config counts pads pg) tr" by blast
  show "i < ?n \<Longrightarrow> b_index (buffer i) = i" using ix by simp
qed

text \<open>Nothing of the setup starts the camera, also if it fails.\<close>

definition quiet_camera :: "trace \<Rightarrow> bool" where
  "quiet_camera tr \<longleftrightarrow> Streamon \<notin> fst ` set tr"

lemma quiet_camera_simps [simp]:
  "quiet_camera []"
  "quiet_camera (x # tr) \<longleftrightarrow> fst x \<noteq> Streamon \<and> quiet_camera tr"
  "quiet_camera (tr @ tr') \<longleftrightarrow> quiet_camera tr \<and> quiet_camera tr'"
  by (auto simp: quiet_camera_def)

lemma quiet_run_calls:
  "run_calls V cs tr = (e, tr') \<Longrightarrow> Streamon \<notin> set cs \<Longrightarrow> quiet_camera tr \<Longrightarrow> quiet_camera tr'"
  by (induction cs arbitrary: tr) (auto simp: ask_def Let_def split: if_splits)

lemma quiet_fold_free:
  "quiet_camera tr \<Longrightarrow> quiet_camera (fold (\<lambda>q tr. tr @ [(Kfree q, V tr (Kfree q))]) ps tr)"
  by (induction ps arbitrary: tr) auto

lemma quiet_alloc_parts:
  "alloc_parts V counts ps ds tr = (e, tr') \<Longrightarrow> quiet_camera tr \<Longrightarrow> quiet_camera tr'"
  by (induction ps arbitrary: ds tr)
    (auto simp: ask_def Let_def split: if_splits intro!: quiet_fold_free)

lemma quiet_query_media_device:
  "query_media_device V tr = (p, tr') \<Longrightarrow> quiet_camera tr \<Longrightarrow> quiet_camera tr'"
  by (auto simp: query_media_device_def alloc_topology_def ask_def Let_def
      split: prod.splits if_splits dest!: quiet_alloc_parts)

lemma quiet_setup_calls:
  "setup_link V pads front tr = (e, tr') \<Longrightarrow> quiet_camera tr \<Longrightarrow> quiet_camera tr'"
  "open_video_device V tr = (e, tr') \<Longrightarrow> quiet_camera tr \<Longrightarrow> quiet_camera tr'"
  "query_video_device V tr = (e, tr') \<Longrightarrow> quiet_camera tr \<Longrightarrow> quiet_camera tr'"
  "setup_subdev_fmt V config front tr = (e, tr') \<Longrightarrow> quiet_camera tr \<Longrightarrow> quiet_camera tr'"
  "setup_video_fmt V config tr = (e, tr') \<Longrightarrow> quiet_camera tr \<Longrightarrow> quiet_camera tr'"
  "queue_buffers V n buffer tr = (e, tr') \<Longrightarrow> quiet_camera tr \<Longrightarrow> quiet_camera tr'"
  unfolding setup_link_def open_video_device_def query_video_device_def setup_subdev_fmt_def
    setup_video_fmt_def queue_buffers_def
  by (erule quiet_run_calls; auto)+

lemma quiet_configure_capture:
  "configure_capture V config tr = (err, tr') \<Longrightarrow> quiet_camera tr \<Longrightarrow> quiet_camera tr'"
  unfolding configure_capture_def Let_def
  by (auto split: prod.splits sum.splits if_splits dest!: quiet_query_media_device quiet_setup_calls(1-5))

lemma quiet_map_buffers:
  "map_buffers V n i buffer tr = (e, buffer', tr') \<Longrightarrow> quiet_camera tr \<Longrightarrow> quiet_camera tr'"
  by (induction n arbitrary: i buffer tr) (auto simp: ask_def Let_def split: if_splits)

lemma quiet_request_buffers:
  "request_buffers V n tr = (e, buffer', tr') \<Longrightarrow> quiet_camera tr \<Longrightarrow> quiet_camera tr'"
  by (auto simp: request_buffers_def ask_def Let_def split: if_splits dest!: quiet_map_buffers)

lemma quiet_setup_camera: "setup_camera V tables config = (res, tr) \<Longrightarrow> quiet_camera tr"
  by (auto simp: setup_camera_def Let_def split: if_splits prod.splits
      dest!: quiet_configure_capture quiet_request_buffers quiet_setup_calls(6))

lemma capture_round_extends:
  "capture_round V beyond mem config buffer s = (b, s') \<Longrightarrow> \<exists>more. cap_trace s' = cap_trace s @ more"
  by (auto simp: capture_round_def get_buffer_def put_buffer_def ask_def Let_def show_frame_def
      split: if_splits prod.splits)

lemma capture_loop_extends:
  "capture_loop V beyond mem config buffer n s = (b, s') \<Longrightarrow> \<exists>more. cap_trace s' = cap_trace s @ more"
proof (induction n arbitrary: b s')
  case (Suc n)
  obtain b1 s1 where l: "capture_loop V beyond mem config buffer n s = (b1, s1)"
    by (cases "capture_loop V beyond mem config buffer n s")
  from Suc.IH [OF this] obtain more where "cap_trace s1 = cap_trace s @ more" ..
  with Suc.prems l show ?case by (auto split: if_splits dest: capture_round_extends)
qed simp

text \<open>
  C36: the camera is started only after its setup is complete. Every call before \<^verbatim>\<open>STREAMON\<close>
  succeeded; the links to the two sensors were switched so that exactly the configured one is
  enabled; sensor, bridge and capture device got the same format, that of the configuration; and
  exactly the requested buffers were mapped and queued, in order.
\<close>

theorem camera_configured_before_start:
  assumes "Streamon \<in> fst ` set (cap_trace (snd (capture_task_function V tables gui_ok beyond mem fb config n)))"
  shows "\<exists>counts pads pg before r' after.
      cap_trace (snd (capture_task_function V tables gui_ok beyond mem fb config n)) = before @ (Streamon, r') # after
    \<and> Streamon \<notin> set (map fst before) \<and> succeeded (setup_calls config counts pads pg) before"
proof -
  let ?res = "capture_task_function V tables gui_ok beyond mem fb config n"
  obtain res tr where ready: "setup_camera V tables config = (res, tr)"
    by (cases "setup_camera V tables config")
  have quiet: "Streamon \<notin> fst ` set tr"
    using quiet_setup_camera [OF ready] by (simp add: quiet_camera_def)
  with assms ready obtain buffer where res: "res = Ready buffer"
    by (auto simp: capture_task_function_def start_capture_def Let_def split: setup_result.splits if_splits)
  let ?s = "V tr Streamon"
  have "\<exists>more. cap_trace (snd ?res) = (tr @ [(Streamon, ?s)]) @ more"
    using assms quiet ready res
    by (auto simp: capture_task_function_def control_camera_def start_capture_def ask_def Let_def
        split: if_splits prod.splits dest!: capture_loop_extends)
  then obtain more where "cap_trace (snd ?res) = tr @ (Streamon, ?s) # more" by auto
  moreover obtain counts pads pg where "succeeded (setup_calls config counts pads pg) tr"
    using setup_camera_ready(1) [OF ready [unfolded res]] by blast
  ultimately show ?thesis using quiet
    by (intro exI [of _ counts] exI [of _ pads] exI [of _ pg] exI [of _ tr] exI [of _ ?s] exI [of _ more]) simp
qed

text \<open>A device that accepts every call.\<close>

definition willing :: "v4l2 \<Rightarrow> (nat \<Rightarrow> cdev_table) \<Rightarrow> lx_user_config \<Rightarrow> bool" where
  "willing V tables config \<longleftrightarrow> (\<forall>tr c. v_err (V tr c) = 0)
     \<and> (\<forall>tr. v_count (V tr (Reqbufs (cfg_num_buffer config))) = cfg_num_buffer config)
     \<and> lx_emul_get_cdev (tables 0) MEDIA0_MAJOR 0 \<noteq> None
     \<and> (\<forall>minor < 4. lx_emul_get_cdev (tables 0) VIDEO_MAJOR minor \<noteq> None)"

lemma run_calls_willing: "(\<And>tr c. v_err (V tr c) = 0) \<Longrightarrow> \<exists>tr'. run_calls V cs tr = (0, tr')"
  by (induction cs arbitrary: tr) (auto simp: ask_def Let_def)

lemma alloc_parts_willing:
  "(\<And>tr c. v_err (V tr c) = 0) \<Longrightarrow> \<exists>tr'. alloc_parts V counts ps ds tr = (0, tr')"
  by (induction ps arbitrary: ds tr) (auto simp: ask_def Let_def)

lemma map_buffers_willing:
  "(\<And>tr c. v_err (V tr c) = 0) \<Longrightarrow> \<exists>buffer' tr'. map_buffers V n i buffer tr = (0, buffer', tr')"
  by (induction n arbitrary: i buffer tr) (auto simp: ask_def Let_def)

lemma query_media_device_willing:
  assumes "\<And>tr c. v_err (V tr c) = 0"
  shows "\<exists>pads tr'. query_media_device V tr = (Inr pads, tr')"
  using alloc_parts_willing [where V = V, OF assms, of "v_counts (V tr G_topology)" "[Entities, Interfaces, Pads, Links]" "[]"
      "tr @ [(G_topology, V tr G_topology)]"] assms
  by (auto simp: query_media_device_def alloc_topology_def ask_def Let_def)

lemma configure_capture_willing:
  assumes err: "\<And>tr c. v_err (V tr c) = 0"
  shows "\<exists>tr'. configure_capture V config tr = (0, tr')"
proof -
  note calls = run_calls_willing [where V = V, OF err]
  let ?front = "cfg_camera config = CAMERA_FRONT"
  obtain pads tr1 where q: "query_media_device V tr = (Inr pads, tr1)"
    using query_media_device_willing [where V = V, OF err] by blast
  obtain tr2 where l: "setup_link V pads ?front tr1 = (0, tr2)" unfolding setup_link_def using calls by blast
  obtain tr3 where o: "open_video_device V tr2 = (0, tr3)" unfolding open_video_device_def using calls by blast
  obtain tr4 where v: "query_video_device V tr3 = (0, tr4)" unfolding query_video_device_def using calls by blast
  obtain tr5 where s: "setup_subdev_fmt V config ?front tr4 = (0, tr5)"
    unfolding setup_subdev_fmt_def using calls by blast
  obtain tr6 where "setup_video_fmt V config tr5 = (0, tr6)" unfolding setup_video_fmt_def using calls by blast
  then show ?thesis by (simp add: configure_capture_def Let_def q l o v s)
qed

lemma capture_loop_goes_on:
  "(\<And>tr. v_err (V tr Dqbuf) = 0) \<Longrightarrow> fst (capture_loop V beyond mem config buffer n s)"
proof (induction n)
  case (Suc n)
  then show ?case by (auto simp: capture_round_def get_buffer_def ask_def Let_def split: prod.splits)
qed simp

lemma willing_setup:
  assumes "willing V tables config" and "2 \<le> cfg_num_buffer config"
  shows "\<exists>buffer tr. setup_camera V tables config = (Ready buffer, tr)"
proof -
  have err: "v_err (V tr c) = 0" for tr c using assms(1) by (simp add: willing_def)
  let ?n = "cfg_num_buffer config"
  obtain tr1 where c: "configure_capture V config [] = (0, tr1)"
    using configure_capture_willing [where V = V, OF err] by blast
  obtain buffer tr2 where "map_buffers V ?n 0 (\<lambda>_. blank_buffer_info) (tr1 @ [(Reqbufs ?n, V tr1 (Reqbufs ?n))])
      = (0, buffer, tr2)" using map_buffers_willing [where V = V, OF err] by blast
  with assms have r: "request_buffers V ?n tr1 = (0, buffer, tr2)"
    by (simp add: request_buffers_def ask_def Let_def err willing_def)
  obtain tr3 where "queue_buffers V ?n buffer tr2 = (0, tr3)"
    unfolding queue_buffers_def using run_calls_willing [where V = V, OF err] by blast
  moreover have "wait_for_media_cdev tables 10 0 = (False, 0)"
    using assms(1) by (simp add: willing_def numeral_eq_Suc)
  ultimately show ?thesis using assms(1) c r by (simp add: setup_camera_def Let_def willing_def)
qed

lemma willing_task:
  assumes "willing V tables config" and "2 \<le> cfg_num_buffer config" and "cfg_valid config"
  shows "fst (capture_task_function V tables True beyond mem fb config n)
    \<and> Streamon \<in> fst ` set (cap_trace (snd (capture_task_function V tables True beyond mem fb config n)))"
proof -
  have err: "v_err (V tr c) = 0" for tr c using assms(1) by (simp add: willing_def)
  obtain buffer tr where ready: "setup_camera V tables config = (Ready buffer, tr)"
    using willing_setup [OF assms(1,2)] by blast
  let ?tr = "tr @ [(Streamon, V tr Streamon)]"
  have start: "control_camera V True tr = (0, ?tr)" by (simp add: control_camera_def ask_def Let_def err)
  let ?s = "start_capture (create_gui fb config) ?tr"
  have "fst (capture_loop V beyond mem config buffer n ?s)" by (rule capture_loop_goes_on) (rule err)
  then obtain s where loop: "capture_loop V beyond mem config buffer n ?s = (True, s)"
    by (cases "capture_loop V beyond mem config buffer n ?s") simp
  from capture_loop_extends [OF this] have "Streamon \<in> fst ` set (cap_trace s)"
    by (auto simp: start_capture_def)
  then show ?thesis by (simp add: capture_task_function_def Let_def assms(3) ready start loop)
qed

text \<open>
  With a willing device the camera is started and captures for ever: whatever the number of
  pictures asked for, the task has not given up.
\<close>

theorem willing_device_captures:
  assumes "willing V tables config" and "2 \<le> cfg_num_buffer config" and "cfg_valid config"
  shows "fst (capture_task_function V tables True beyond mem fb config n)
    \<and> Streamon \<in> fst ` set (cap_trace (snd (capture_task_function V tables True beyond mem fb config n)))"
  using willing_task [OF assms] .

text \<open>At a concrete device, which accepts every call and delivers the buffers in turn.\<close>

definition fine_device :: v4l2 where
  "fine_device tr c = \<lparr>v_err = 0, v_counts = (\<lambda>_. 4), v_pads = (\<lambda>i. (i, 0)), v_count = 4, v_offset = 0,
     v_range = (0, 32), v_index = (length tr div 2) mod 4\<rparr>"

definition fine_table :: cdev_table where
  "fine_table = [(254, 0), (253, 0), (81, 0), (81, 1), (81, 2), (81, 3)]"

definition fine_config :: lx_user_config where
  "fine_config = small_config\<lparr>cfg_fps := 15, cfg_num_buffer := 4, cfg_valid := True\<rparr>"

lemma fine_devices: "lx_emul_get_cdev fine_table MEDIA0_MAJOR 0 \<noteq> None"
  "\<forall>minor < 4. lx_emul_get_cdev fine_table VIDEO_MAJOR minor \<noteq> None"
  by code_simp+

lemma fine_device_willing: "willing fine_device (\<lambda>_. fine_table) fine_config" "2 \<le> cfg_num_buffer fine_config"
  "cfg_valid fine_config"
  using fine_devices by (simp_all add: willing_def fine_device_def fine_config_def)

theorem willing_device_captures_witness:
  "fst (capture_task_function fine_device (\<lambda>_. fine_table) True (\<lambda>_. 0) (\<lambda>_ _. 0) (\<lambda>_. 0) fine_config 1000)"
  using willing_device_captures [OF fine_device_willing, of "\<lambda>_. 0" "\<lambda>_ _. 0" "\<lambda>_. 0" 1000] ..

lemma started_at_fine_device:
  "Streamon \<in> fst ` set (cap_trace (snd (capture_task_function fine_device (\<lambda>_. fine_table) True
      (\<lambda>_. 0) (\<lambda>_ _. 0) (\<lambda>_. 0) fine_config 0)))"
  using willing_task [OF fine_device_willing] by blast

theorem camera_configured_before_start_witness:
  "\<exists>counts pads pg before r' after.
      cap_trace (snd (capture_task_function fine_device (\<lambda>_. fine_table) True (\<lambda>_. 0) (\<lambda>_ _. 0) (\<lambda>_. 0) fine_config 0))
        = before @ (Streamon, r') # after
    \<and> Streamon \<notin> set (map fst before) \<and> succeeded (setup_calls fine_config counts pads pg) before"
  by (rule camera_configured_before_start, rule started_at_fine_device)

section \<open>The pictures shown\<close>

definition dequeued :: "trace \<Rightarrow> nat list" where
  "dequeued tr = map (v_index \<circ> snd) (filter (\<lambda>(c, r). c = Dqbuf) tr)"

definition frame_shown :: "nat \<Rightarrow> nat \<Rightarrow> bool" where
  "frame_shown skip k \<longleftrightarrow> skip \<le> k \<and> (k - skip) mod max 1 skip = 0"

text \<open>The frames since the last picture.\<close>

definition skip_count :: "nat \<Rightarrow> nat \<Rightarrow> nat" where
  "skip_count skip n = (if n \<le> skip then n else if skip = 0 then 1 else (n - skip - 1) mod skip + 1)"

lemma frame_shown_count: "frame_shown skip n \<longleftrightarrow> skip \<le> skip_count skip n"
proof (cases "n \<le> skip")
  case False
  then obtain d where n: "n = skip + Suc d" using less_imp_Suc_add not_le by (metis add_Suc_right)
  show ?thesis
  proof (cases "skip = 0")
    case False
    then have "d mod skip < skip" by simp
    then have "Suc (d mod skip) = skip \<longleftrightarrow> skip \<le> Suc (d mod skip)" by linarith
    then show ?thesis using False n by (auto simp: frame_shown_def skip_count_def mod_Suc max_def)
  qed (simp add: frame_shown_def skip_count_def n)
qed (auto simp: frame_shown_def skip_count_def max_def)

lemma skip_count_Suc: "skip_count skip (Suc n) = (if frame_shown skip n then 1 else skip_count skip n + 1)"
proof (cases "n \<le> skip")
  case False
  then obtain d where n: "n = skip + Suc d" using less_imp_Suc_add not_le by (metis add_Suc_right)
  show ?thesis
  proof (cases "skip = 0")
    case False
    then show ?thesis using n by (auto simp: frame_shown_def skip_count_def mod_Suc max_def)
  qed (simp add: frame_shown_def skip_count_def n)
next
  case True
  then show ?thesis by (cases "n = skip") (auto simp: frame_shown_def skip_count_def max_def)
qed

lemma dequeued_simps [simp]:
  "dequeued [] = []"
  "dequeued ((c, r) # tr) = (if c = Dqbuf then v_index r # dequeued tr else dequeued tr)"
  "dequeued (a @ b) = dequeued a @ dequeued b"
  by (simp_all add: dequeued_def)

definition loop_calls :: "(nat \<Rightarrow> buffer_info) \<Rightarrow> nat list \<Rightarrow> v4l_call list" where
  "loop_calls buffer idx = concat (map (\<lambda>i. [Dqbuf, Qbuf (b_index (buffer i))]) idx)"

definition loop_inv :: "lx_user_config \<Rightarrow> (nat \<Rightarrow> buffer_info) \<Rightarrow> trace \<Rightarrow> nat \<Rightarrow> capture \<Rightarrow> bool" where
  "loop_inv config buffer tr0 n s \<longleftrightarrow> (\<exists>new. cap_trace s = tr0 @ new \<and> length (dequeued new) = n
     \<and> map fst new = loop_calls buffer (dequeued new)
     \<and> map fst (cap_shown s) = map ((!) (dequeued new)) (filter (frame_shown (cfg_skip_frames config)) [0..<n])
     \<and> map snd (cap_shown s) = map even [0..<length (cap_shown s)]
     \<and> cap_flip s = even (length (cap_shown s)) \<and> cap_skip s = skip_count (cfg_skip_frames config) n)"

lemma show_frame_effect:
  "cap_trace (show_frame beyond mem config i b s) = cap_trace s"
  "cfg_skip_frames config \<le> cap_skip s \<Longrightarrow> cap_shown (show_frame beyond mem config i b s) = cap_shown s @ [(i, cap_flip s)]
     \<and> cap_flip (show_frame beyond mem config i b s) = (\<not> cap_flip s) \<and> cap_skip (show_frame beyond mem config i b s) = 0"
  "\<not> cfg_skip_frames config \<le> cap_skip s \<Longrightarrow> show_frame beyond mem config i b s = s"
  by (auto simp: show_frame_def split: prod.splits)

lemma capture_round_inv:
  assumes "loop_inv config buffer tr0 n s" and "capture_round V beyond mem config buffer s = (True, s')"
  shows "loop_inv config buffer tr0 (Suc n) s'"
proof -
  let ?skip = "cfg_skip_frames config"
  from assms(1) obtain new where inv: "cap_trace s = tr0 @ new" "length (dequeued new) = n"
    "map fst new = loop_calls buffer (dequeued new)"
    "map fst (cap_shown s) = map ((!) (dequeued new)) (filter (frame_shown ?skip) [0..<n])"
    "map snd (cap_shown s) = map even [0..<length (cap_shown s)]"
    "cap_flip s = even (length (cap_shown s))" "cap_skip s = skip_count ?skip n"
    unfolding loop_inv_def by blast
  let ?r = "V (cap_trace s) Dqbuf"
  let ?i = "v_index ?r"
  let ?t = "s\<lparr>cap_trace := cap_trace s @ [(Dqbuf, ?r)]\<rparr>"
  let ?u = "show_frame beyond mem config ?i (buffer ?i) ?t"
  let ?q = "Qbuf (b_index (buffer ?i))"
  let ?r2 = "V (cap_trace ?u) ?q"
  from assms(2) have s': "s' = ?u\<lparr>cap_skip := cap_skip ?u + 1, cap_trace := cap_trace ?u @ [(?q, ?r2)]\<rparr>"
    by (auto simp: capture_round_def get_buffer_def put_buffer_def ask_def Let_def split: if_splits)
  let ?new = "new @ [(Dqbuf, ?r), (?q, ?r2)]"
  have deq: "dequeued ?new = dequeued new @ [?i]" by simp
  have old: "map ((!) (dequeued ?new)) (filter P [0..<n]) = map ((!) (dequeued new)) (filter P [0..<n])" for P
    by (rule map_cong) (use inv(2) in \<open>auto simp: deq nth_append\<close>)
  have nth: "dequeued ?new ! n = ?i" unfolding deq using inv(2) by (simp add: nth_append)
  have calls: "map fst ?new = loop_calls buffer (dequeued ?new)"
    using inv(3) by (simp add: deq loop_calls_def)
  have trace: "cap_trace s' = tr0 @ ?new" by (simp add: s' show_frame_effect inv(1))
  show ?thesis
  proof (cases "frame_shown ?skip n")
    case True
    with inv(7) have "?skip \<le> cap_skip ?t" by (simp add: frame_shown_count)
    note eff = show_frame_effect(2) [OF this]
    show ?thesis unfolding loop_inv_def
      by (rule exI [of _ ?new]) (use True calls trace inv(2,4-6) old nth eff in
        \<open>simp add: s' skip_count_Suc deq\<close>)
  next
    case False
    with inv(7) have "\<not> ?skip \<le> cap_skip ?t" by (simp add: frame_shown_count)
    note eff = show_frame_effect(3) [OF this]
    show ?thesis unfolding loop_inv_def
      by (rule exI [of _ ?new]) (use False calls trace inv old eff in \<open>simp add: s' skip_count_Suc deq\<close>)
  qed
qed

lemma capture_loop_inv:
  "capture_loop V beyond mem config buffer n (start_capture gui tr0) = (True, s) \<Longrightarrow> loop_inv config buffer tr0 n s"
proof (induction n arbitrary: s)
  case 0
  then show ?case by (auto simp: loop_inv_def start_capture_def dequeued_def loop_calls_def skip_count_def)
next
  case (Suc n)
  then show ?case by (auto intro: capture_round_inv split: prod.splits if_splits)
qed

text \<open>
  C37: which pictures are shown. While the camera keeps capturing, of the pictures \<open>0, 1, ...\<close>
  taken from the device exactly those are shown whose number is a multiple of the configured
  \<open>skip\<close>, from \<open>skip\<close> on (all of them if \<open>skip\<close> is 0), painted alternately into the second and
  the first half of the framebuffer; and every buffer is given back before the next is taken.
\<close>

theorem pictures_shown:
  assumes "capture_loop V beyond mem config buffer n (start_capture gui tr0) = (True, s)"
  shows "\<exists>new. cap_trace s = tr0 @ new \<and> length (dequeued new) = n
     \<and> map fst new = concat (map (\<lambda>i. [Dqbuf, Qbuf (b_index (buffer i))]) (dequeued new))
     \<and> map fst (cap_shown s) = map ((!) (dequeued new)) (filter (frame_shown (cfg_skip_frames config)) [0..<n])
     \<and> map snd (cap_shown s) = map even [0..<length (cap_shown s)]"
  using capture_loop_inv [OF assms] unfolding loop_inv_def loop_calls_def by blast

text \<open>At six pictures of a device that does not fail, every second of which is shown.\<close>

theorem pictures_shown_witness:
  "\<exists>s. capture_loop fine_device (\<lambda>_. 0) (\<lambda>_ _. 0) (fine_config\<lparr>cfg_skip_frames := 2\<rparr>) (\<lambda>_. blank_buffer_info) 6
      (start_capture (create_gui (\<lambda>_. 0) fine_config) []) = (True, s) \<and> map snd (cap_shown s) = [True, False]"
proof -
  let ?loop = "capture_loop fine_device (\<lambda>_. 0) (\<lambda>_ _. 0) (fine_config\<lparr>cfg_skip_frames := 2\<rparr>) (\<lambda>_. blank_buffer_info) 6
      (start_capture (create_gui (\<lambda>_. 0) fine_config) [])"
  have "fst ?loop" by (rule capture_loop_goes_on) (simp add: fine_device_def)
  then obtain s where loop: "?loop = (True, s)" by (cases ?loop) simp
  from pictures_shown [OF this] obtain new :: trace where
    shown: "map fst (cap_shown s) = map ((!) (dequeued new)) (filter (frame_shown 2) [0..<6])"
      "map snd (cap_shown s) = map even [0..<length (cap_shown s)]" by auto
  have "filter (frame_shown 2) [0..<6] = [2, 4]" by code_simp
  with shown(1) have "length (cap_shown s) = 2" by (metis length_map length_Cons list.size(3) numeral_2_eq_2)
  with loop shown(2) show ?thesis by (simp add: upt_rec)
qed

section \<open>Buffers\<close>

lemma put_range_above: "p + n \<le> k \<Longrightarrow> put_range p n xs dst k = dst k"
  by (simp add: put_range_def)

lemma memcpy_bytes_above:
  assumes "n \<le> 4 * m" and "p + m \<le> k"
  shows "memcpy_bytes p mem n dst k = dst k"
proof -
  have "n \<le> 4 * (k - p)" using assms by linarith
  then show ?thesis by (simp add: memcpy_bytes_def)
qed

lemma min_if: "(if (n :: nat) < m then n else m) = min n m"
  by simp

lemma painted_from_le: "painted_from config flip + cfg_width config * cfg_height config
    \<le> 2 * (cfg_width config * cfg_height config)"
  by (simp add: painted_from_def)

lemma gui_show_framebuffer:
  assumes "0 < cfg_width config" and "0 < cfg_height config"
    and "buf_size b \<le> 4 * (cfg_width config * cfg_height config)"
    and "2 * (cfg_width config * cfg_height config) \<le> k"
  shows "snd (gui_show beyond (refresh_ctx b config flip) n (conv, dst)) k = dst k"
proof -
  have above: "painted_from config flip + cfg_width config * cfg_height config \<le> k"
    using painted_from_le assms(4) by (rule order_trans)
  consider "cfg_rotate config" | "\<not> cfg_rotate config" "cfg_convert config"
    | "\<not> cfg_rotate config" "\<not> cfg_convert config" by blast
  then show ?thesis
  proof cases
    case 1
    then show ?thesis using above by (simp add: show_rotated assms(1,2) put_range_above)
  next
    case 2
    then show ?thesis using above by (simp add: show_unrotated assms(1,2) put_range_above)
  next
    case 3
    have "min n (buf_size b) \<le> 4 * (cfg_width config * cfg_height config)" using assms(3) by simp
    then have "memcpy_bytes (painted_from config flip) (buf_base b) (min n (buf_size b)) dst k = dst k"
      using above by (rule memcpy_bytes_above)
    then show ?thesis using 3 by (simp add: gui_show_def refresh_ctx_def painted_from_def min_if Let_def)
  qed
qed

lemma gui_show_converted:
  assumes "0 < cfg_width config" and "0 < cfg_height config"
    and "buf_size b \<le> 4 * (cfg_width config * cfg_height config)"
    and "cfg_width config * cfg_height config \<le> i"
  shows "fst (gui_show beyond (refresh_ctx b config flip) n (conv, dst)) i = conv i"
proof -
  have "min n (buf_size b) \<le> 4 * (cfg_width config * cfg_height config)" using assms(3) by simp
  then have "memcpy_bytes 0 (buf_base b) (min n (buf_size b)) conv i = conv i"
    by (rule memcpy_bytes_above) (use assms(4) in simp)
  then show ?thesis
    using assms by (simp add: gui_show_def refresh_ctx_def yuv420_range put_range_above min_if Let_def
        mult.commute)
qed

text \<open>
  C38: painting a picture stays within the buffers. Whatever the configuration states, for a
  picture of at most four bytes for each configured pixel (the driver checks nothing of the kind,
  the size comes from the device) nothing is written behind the static conversion buffer of the
  largest picture or behind the framebuffer.
\<close>

theorem painting_stays_in_buffers:
  assumes "config = camera_config num_of bool_of (Some rom)" and "gui_mode g = gui_mode (create_gui fb config)"
    and "buf_size b \<le> 4 * (cfg_width config * cfg_height config)"
    and "MAX_WIDTH * MAX_HEIGHT \<le> i" and "fst (gui_mode g) * snd (gui_mode g) \<le> k"
  shows "fst (gui_display_image beyond config b flip (conv, g)) i = conv i
    \<and> gui_fb (snd (gui_display_image beyond config b flip (conv, g))) k = gui_fb g k"
proof
  have bounds: "config_in_bounds config" unfolding assms(1) by (rule valid_config_in_bounds) simp
  then have pos: "0 < cfg_width config" "0 < cfg_height config"
    by (auto simp: config_in_bounds_def camera_limits)
  have "cfg_width config * cfg_height config \<le> i"
    using config_fits_buffer [OF bounds] assms(4) by linarith
  then have "fst (gui_show beyond (refresh_ctx b config flip) n (conv, dst)) i = conv i" for n dst
    by (rule gui_show_converted [OF pos assms(3)])
  then show "fst (gui_display_image beyond config b flip (conv, g)) i = conv i"
    by (simp add: gui_display_image_def genode_gui_refresh_def Let_def split: prod.splits) (metis fst_conv)
  have "2 * (cfg_width config * cfg_height config) \<le> k"
    using assms(2,5) by (simp add: create_gui_def genode_gui_create_def algebra_simps split: if_splits)
  then show "gui_fb (snd (gui_display_image beyond config b flip (conv, g))) k = gui_fb g k"
    unfolding display_fields by (rule gui_show_framebuffer [OF pos assms(3)])
qed

text \<open>At the smallest pictures the configuration allows.\<close>

theorem painting_stays_in_buffers_witness:
  "let config = camera_config (\<lambda>_. None) (\<lambda>_. None) (Some (Node ''config'' [] [] []));
       s = gui_display_image (\<lambda>_. 0) config (counting_buffer\<lparr>buf_size := 28800\<rparr>) True (\<lambda>_. 7, create_gui (\<lambda>_. 5) config)
   in fst s 921600 = 7 \<and> gui_fb (snd s) 38400 = 5"
proof -
  let ?config = "camera_config (\<lambda>_. None) (\<lambda>_. None) (Some (Node ''config'' [] [] []))"
  have size: "cfg_width ?config = 160" "cfg_height ?config = 120" "cfg_rotate ?config"
    by (simp_all add: camera_config_def update_camera_config_def initial_config_def check_and_constrain_value_def
        attribute_as_def attribute_def camera_limits Let_def)
  from painting_stays_in_buffers [OF refl, where num_of = "\<lambda>_. None" and bool_of = "\<lambda>_. None"
      and rom = "Node ''config'' [] [] []" and g = "create_gui (\<lambda>_. 5) ?config" and fb = "\<lambda>_. 5"
      and b = "counting_buffer\<lparr>buf_size := 28800\<rparr>" and i = 921600 and k = 38400 and beyond = "\<lambda>_. 0"
      and flip = True and conv = "\<lambda>_. 7"]
  show ?thesis by (simp add: Let_def create_gui_def genode_gui_create_def camera_limits size)
qed

section \<open>DMA addresses\<close>

text \<open>
  The address under which a DMA buffer is mapped again is the one Linux allocated exactly
  if the buffer lies in the first gigabyte of memory, from 0x40000000 to 0x7fffffff.
\<close>

theorem dma_mapping_covers_first_gigabyte:
  "map_option (\<lambda>(addr, dma_handle). fst (dma_mmap_attrs id dma_handle len)) (quirk_dma_alloc_attrs (Some (addr, h)))
     = Some h \<longleftrightarrow> 0x40000000 \<le> h \<and> h < 0x80000000"
proof -
  have "h - 0x40000000 < 0x40000000 \<longleftrightarrow> 0x40000000 \<le> h \<and> h < (0x80000000 :: u64)"
    by (unat_arith; auto)
  then show ?thesis by (simp add: quirk_dma_alloc_attrs_def dma_mmap_attrs_def PHYS_OFFSET_def Let_def)
qed

end
