(* ===== verification/Uart.thy ===== *)
theory Uart
  imports Config_Node Mmio
begin

text \<open>
  The UART driver: \<^verbatim>\<open>src/driver/uart/ns16550\<close>. The device is the record \<open>ns16550\<close> with the
  documented behaviour of a 16550: register 0 is the receive buffer when read and the
  transmitter when written, and with the divisor latch bit set registers 0 and 4 are the
  divisor. Whenever the line status is read, the next batch of \<open>incoming\<close> has arrived in
  the FIFO, and the transmitter is one step closer to being empty. The size of the FIFO is left
  out. A bit field is written by reading its register first (\<^verbatim>\<open>Genode::Mmio\<close>).
\<close>

unbundle bit_operations_syntax

section \<open>Device\<close>

record ns16550 =
  rx_fifo :: "u8 list"
  incoming :: "u8 list list"
  tx_busy :: nat
  tx_sent :: "u8 list"
  dll :: u32
  dlh :: u32
  ier :: u32
  fcr :: u32
  lcr :: u32
  mcr :: u32

definition dlab :: "ns16550 \<Rightarrow> bool" where
  "dlab d \<longleftrightarrow> bit (lcr d) 7"

text \<open>\<open>latency\<close>: how often the transmitter is seen busy after a character.\<close>

definition dev_read :: "nat \<Rightarrow> ns16550 \<Rightarrow> u32 \<times> ns16550" where
  "dev_read off d =
     (if off = 0x0 then
        if dlab d then (dll d, d)
        else (case rx_fifo d of [] \<Rightarrow> (0, d) | c # cs \<Rightarrow> (ucast c, d\<lparr>rx_fifo := cs\<rparr>))
      else if off = 0x4 then (if dlab d then dlh d else ier d, d)
      else if off = 0x8 then (0, d)
      else if off = 0xc then (lcr d, d)
      else if off = 0x10 then (mcr d, d)
      else
        let d = d\<lparr>rx_fifo := rx_fifo d @ (if incoming d = [] then [] else hd (incoming d)), incoming := tl (incoming d)\<rparr>
        in (of_bool (rx_fifo d \<noteq> []) OR (if tx_busy d = 0 then 0x20 else 0), d\<lparr>tx_busy := tx_busy d - 1\<rparr>))"

definition dev_write :: "nat \<Rightarrow> nat \<Rightarrow> u32 \<Rightarrow> ns16550 \<Rightarrow> ns16550" where
  "dev_write latency off v d =
     (if off = 0x0 then
        if dlab d then d\<lparr>dll := v\<rparr> else d\<lparr>tx_sent := tx_sent d @ [ucast v], tx_busy := latency\<rparr>
      else if off = 0x4 then (if dlab d then d\<lparr>dlh := v\<rparr> else d\<lparr>ier := v\<rparr>)
      else if off = 0x8 then d\<lparr>fcr := v, rx_fifo := (if bit v 1 then [] else rx_fifo d)\<rparr>
      else if off = 0xc then d\<lparr>lcr := v\<rparr>
      else if off = 0x10 then d\<lparr>mcr := v\<rparr>
      else d)"

section \<open>Register access\<close>

definition field_of :: "field \<Rightarrow> u32 \<Rightarrow> u32" where
  "field_of f v = take_bit (f_width f) (drop_bit (f_shift f) v)"

definition with_field :: "field \<Rightarrow> u32 \<Rightarrow> u32 \<Rightarrow> u32" where
  "with_field f x v = (v AND NOT (push_bit (f_shift f) (mask (f_width f)))) OR push_bit (f_shift f) (take_bit (f_width f) x)"

definition uart_rd :: "field \<Rightarrow> ns16550 \<Rightarrow> u32 \<times> ns16550" where
  "uart_rd f d = (case dev_read (f_reg f) d of (v, d) \<Rightarrow> (field_of f v, d))"

definition uart_wr :: "nat \<Rightarrow> field \<Rightarrow> u32 \<Rightarrow> ns16550 \<Rightarrow> ns16550" where
  "uart_wr latency f x d = (case dev_read (f_reg f) d of (v, d) \<Rightarrow> dev_write latency (f_reg f) (with_field f x v) d)"

section \<open>Driver\<close>

definition Dll_Data :: field where "Dll_Data = Fld 0x0 0 8"
definition Dlh_Data :: field where "Dlh_Data = Fld 0x4 0 8"
definition Ier_Erbfi :: field where "Ier_Erbfi = Fld 0x4 0 1"
definition Thr_Data :: field where "Thr_Data = Fld 0x0 0 8"
definition Fcr_Enable :: field where "Fcr_Enable = Fld 0x8 0 1"
definition Fcr_Reset_rx :: field where "Fcr_Reset_rx = Fld 0x8 1 1"
definition Fcr_Reset_tx :: field where "Fcr_Reset_tx = Fld 0x8 2 1"
definition Lcr_Dls :: field where "Lcr_Dls = Fld 0xc 0 2"
definition Lcr_Dlab :: field where "Lcr_Dlab = Fld 0xc 7 1"
definition Mcr_Dts :: field where "Mcr_Dts = Fld 0x10 0 1"
definition Mcr_Rts :: field where "Mcr_Rts = Fld 0x10 1 1"
definition Lsr_Thr_empty :: field where "Lsr_Thr_empty = Fld 0x14 5 1"
definition Lsr_Dr :: field where "Lsr_Dr = Fld 0x14 0 1"

lemmas uart_fields = Dll_Data_def Dlh_Data_def Ier_Erbfi_def Thr_Data_def Fcr_Enable_def Fcr_Reset_rx_def
  Fcr_Reset_tx_def Lcr_Dls_def Lcr_Dlab_def Mcr_Dts_def Mcr_Rts_def Lsr_Thr_empty_def Lsr_Dr_def

text \<open>Reading the line status.\<close>

definition status_read :: "ns16550 \<Rightarrow> ns16550" where
  "status_read d = d\<lparr>rx_fifo := rx_fifo d @ (if incoming d = [] then [] else hd (incoming d)), incoming := tl (incoming d),
     tx_busy := tx_busy d - 1\<rparr>"

lemma line_status:
  "uart_rd Lsr_Thr_empty d = (of_bool (tx_busy d = 0), status_read d)"
  "uart_rd Lsr_Dr d = (of_bool (rx_fifo (status_read d) \<noteq> []), status_read d)"
  by (auto simp: uart_rd_def dev_read_def uart_fields field_of_def status_read_def Let_def)

function wait_thr_empty :: "ns16550 \<Rightarrow> ns16550" where
  "wait_thr_empty d = (case uart_rd Lsr_Thr_empty d of (e, d') \<Rightarrow> if e = 0 then wait_thr_empty d' else d')"
  by pat_completeness auto
termination
  by (relation "measure tx_busy") (auto simp: line_status status_read_def split: if_splits)

declare wait_thr_empty.simps [simp del]

definition fifo_control :: u32 where
  "fifo_control = with_field Fcr_Reset_tx 1 (with_field Fcr_Reset_rx 1 (with_field Fcr_Enable 1 0))"

definition ns16550_uart :: "nat \<Rightarrow> u32 \<Rightarrow> u32 \<Rightarrow> ns16550 \<Rightarrow> ns16550" where
  "ns16550_uart latency clock baud d =
     (let d = wait_thr_empty d;
          d = dev_write latency 0x4 0 d;
          d = uart_wr latency Mcr_Dts 0 d;
          d = uart_wr latency Mcr_Rts 0 d;
          d = dev_write latency 0x8 fifo_control d;
          d = uart_wr latency Lcr_Dls 0x3 d;
          d = uart_wr latency Lcr_Dlab 1 d;
          divisor = clock div (16 * baud);
          d = uart_wr latency Dll_Data divisor d;
          d = uart_wr latency Dlh_Data (drop_bit 8 divisor) d
      in uart_wr latency Lcr_Dlab 0 d)"

definition enable_irq :: "nat \<Rightarrow> ns16550 \<Rightarrow> ns16550" where
  "enable_irq latency = uart_wr latency Ier_Erbfi 1"

definition put_char :: "nat \<Rightarrow> u8 \<Rightarrow> ns16550 \<Rightarrow> ns16550" where
  "put_char latency c d = uart_wr latency Thr_Data (ucast c) (wait_thr_empty d)"

definition char_avail :: "ns16550 \<Rightarrow> bool \<times> ns16550" where
  "char_avail d = (case uart_rd Lsr_Dr d of (v, d) \<Rightarrow> (v = 1, d))"

definition get_char :: "ns16550 \<Rightarrow> u8 \<times> ns16550" where
  "get_char d = (case uart_rd Thr_Data d of (v, d) \<Rightarrow> (ucast v, d))"

text \<open>
  \<^verbatim>\<open>_handle_read\<close>: the chunks the terminal hands out until it has no more, each of at most 32
  bytes, are sent.
\<close>

definition newline :: u8 where "newline = 10"
definition carriage_return :: u8 where "carriage_return = 13"

definition send_chars :: "nat \<Rightarrow> bool \<Rightarrow> u8 list \<Rightarrow> ns16550 \<Rightarrow> ns16550" where
  "send_chars latency cr buf = fold (\<lambda>c d. let d = put_char latency c d in
     if cr \<and> c = newline then put_char latency carriage_return d else d) buf"

definition handle_read :: "nat \<Rightarrow> bool \<Rightarrow> u8 list list \<Rightarrow> ns16550 \<Rightarrow> ns16550" where
  "handle_read latency cr chunks = fold (\<lambda>buf. send_chars latency cr buf) chunks"

text \<open>The number of characters that are in the FIFO or still arrive.\<close>

definition pending_chars :: "ns16550 \<Rightarrow> nat" where
  "pending_chars d = length (rx_fifo d) + length (concat (incoming d))"

text \<open>The inner loop: at most \<open>room\<close> more characters. The outer loop, with the chunks it writes to the terminal.\<close>

primrec read_chars :: "nat \<Rightarrow> ns16550 \<Rightarrow> u8 list \<times> ns16550" where
  "read_chars 0 d = ([], snd (char_avail d))"
| "read_chars (Suc room) d = (case char_avail d of (avail, d) \<Rightarrow>
     if avail then case get_char d of (c, d) \<Rightarrow> case read_chars room d of (cs, d) \<Rightarrow> (c # cs, d)
     else ([], d))"

partial_function (option) forward_chars :: "ns16550 \<Rightarrow> (u8 list list \<times> ns16550) option" where
  "forward_chars d = (case char_avail d of (avail, d) \<Rightarrow>
     if avail then case read_chars 100 d of (buf, d) \<Rightarrow>
       Option.bind (forward_chars d) (\<lambda>(out, d). Some (buf # out, d))
     else Some ([], d))"

text \<open>\<^verbatim>\<open>_handle_irq\<close>: the chunks written to the terminal.\<close>

definition uart_handle_irq :: "ns16550 \<Rightarrow> (u8 list list \<times> ns16550) option" where
  "uart_handle_irq d = forward_chars d"

section \<open>Receiving\<close>

text \<open>What was received and not yet read, and what is still to come.\<close>

definition stream :: "ns16550 \<Rightarrow> u8 list" where
  "stream d = rx_fifo d @ concat (incoming d)"

lemma status_read_simps [simp]:
  "stream (status_read d) = stream d"
  "dlab (status_read d) = dlab d"
  "tx_sent (status_read d) = tx_sent d"
  "lcr (status_read d) = lcr d"
  by (cases "incoming d"; simp add: status_read_def stream_def dlab_def)+

lemma dlab_update [simp]:
  "dlab (d\<lparr>rx_fifo := cs\<rparr>) = dlab d" "dlab (d\<lparr>tx_sent := cs, tx_busy := n\<rparr>) = dlab d"
  by (simp_all add: dlab_def)

lemma char_avail_eq: "char_avail d = (rx_fifo (status_read d) \<noteq> [], status_read d)"
  by (simp add: char_avail_def line_status)

lemma ucast_take_8: "ucast (take_bit 8 (ucast (c :: u8) :: u32)) = c"
  by (rule bit_eqI) (auto simp: bit_simps)

lemma get_char_eq:
  "\<not> dlab d \<Longrightarrow> rx_fifo d = c # cs \<Longrightarrow> get_char d = (c, d\<lparr>rx_fifo := cs\<rparr>)"
  by (simp add: get_char_def uart_rd_def uart_fields dev_read_def field_of_def ucast_take_8)

lemma read_chars_effect:
  "\<not> dlab d \<Longrightarrow> read_chars n d = (cs, d') \<Longrightarrow>
    stream d = cs @ stream d' \<and> \<not> dlab d' \<and> length cs \<le> n \<and> (rx_fifo d \<noteq> [] \<and> 0 < n \<longrightarrow> cs \<noteq> [])"
proof (induction n arbitrary: d cs)
  case 0
  then show ?case by (auto simp: char_avail_eq)
next
  case (Suc n)
  let ?d = "status_read d"
  show ?case
  proof (cases "rx_fifo ?d")
    case Nil
    with Suc.prems have "cs = []" "d' = ?d" by (auto simp: char_avail_eq)
    moreover have "rx_fifo d = []" using Nil by (simp add: status_read_def split: if_splits)
    ultimately show ?thesis using Suc.prems(1) by simp
  next
    case (Cons c rest)
    let ?e = "?d\<lparr>rx_fifo := rest\<rparr>"
    have e: "\<not> dlab ?e" using Suc.prems(1) by (simp add: dlab_def)
    obtain cs' where cs: "read_chars n ?e = (cs', d')" "cs = c # cs'"
      using Suc.prems Cons get_char_eq [of ?d c rest] by (auto simp: char_avail_eq split: prod.splits)
    have "stream ?d = c # stream ?e" using Cons by (simp add: stream_def)
    with Suc.IH [OF e cs(1)] cs(2) show ?thesis by simp
  qed
qed

text \<open>
  C39: an interrupt of the UART hands everything received to the terminal. The handler returns,
  with the FIFO empty; the chunks it wrote are together what was in the FIFO and what arrived
  meanwhile, in order, none of them empty or longer than the buffer.
\<close>

theorem uart_irq_forwards_everything:
  assumes "\<not> dlab d"
  shows "\<exists>out d'. uart_handle_irq d = Some (out, d') \<and> rx_fifo d' = []
    \<and> concat out @ concat (incoming d') = rx_fifo d @ concat (incoming d)
    \<and> (\<forall>buf \<in> set out. buf \<noteq> [] \<and> length buf \<le> 100)"
proof -
  have "\<exists>out d'. forward_chars d = Some (out, d') \<and> rx_fifo d' = [] \<and> concat out @ stream d' = stream d
    \<and> (\<forall>buf \<in> set out. buf \<noteq> [] \<and> length buf \<le> 100)"
    using assms
  proof (induction "length (stream d)" arbitrary: d rule: less_induct)
    case less
    let ?d = "status_read d"
    show ?case
    proof (cases "rx_fifo ?d = []")
      case True
      then show ?thesis by (subst forward_chars.simps) (simp add: char_avail_eq)
    next
      case False
      obtain buf d1 where r: "read_chars 100 ?d = (buf, d1)" by (cases "read_chars 100 ?d")
      have eff: "stream d = buf @ stream d1" "\<not> dlab d1" "length buf \<le> 100" "buf \<noteq> []"
        using read_chars_effect [OF _ r] less.prems False by auto
      then obtain out d' where "forward_chars d1 = Some (out, d')" "rx_fifo d' = []"
        "concat out @ stream d' = stream d1" "\<forall>buf \<in> set out. buf \<noteq> [] \<and> length buf \<le> 100"
        using less.hyps [of d1] by auto
      with eff r False show ?thesis by (subst forward_chars.simps) (simp add: char_avail_eq)
    qed
  qed
  then show ?thesis by (auto simp: uart_handle_irq_def stream_def)
qed

text \<open>At a device with one character in the FIFO and two on the line.\<close>

definition idle_uart :: ns16550 where
  "idle_uart = \<lparr>rx_fifo = [65], incoming = [[66, 67]], tx_busy = 2, tx_sent = [], dll = 0, dlh = 0, ier = 1,
     fcr = 1, lcr = 3, mcr = 0\<rparr>"

lemma idle_uart_latch [simp]: "\<not> dlab (idle_uart\<lparr>rx_fifo := cs, incoming := is\<rparr>)" "\<not> dlab idle_uart"
  by (simp_all add: dlab_def idle_uart_def)

theorem uart_irq_forwards_everything_witness:
  "\<exists>out d'. uart_handle_irq idle_uart = Some (out, d') \<and> rx_fifo d' = [] \<and> concat out @ concat (incoming d') = [65, 66, 67]"
proof -
  have "rx_fifo idle_uart @ concat (incoming idle_uart) = [65, 66, 67]" by (simp add: idle_uart_def)
  with uart_irq_forwards_everything [OF idle_uart_latch(2)] show ?thesis by auto
qed

section \<open>Sending\<close>

lemma wait_thr_empty_simps [simp]:
  "dlab (wait_thr_empty d) = dlab d" "tx_sent (wait_thr_empty d) = tx_sent d"
  "incoming d = [] \<Longrightarrow> rx_fifo (wait_thr_empty d) = rx_fifo d"
  "incoming d = [] \<Longrightarrow> incoming (wait_thr_empty d) = []"
  by (induction d rule: wait_thr_empty.induct)
    (subst wait_thr_empty.simps, auto simp: line_status status_read_def dlab_def)+

lemma transmitted_char: "ucast (with_field Thr_Data (ucast c) v) = (c :: u8)"
  by (rule bit_eqI) (auto simp: with_field_def uart_fields bit_simps)

lemma put_char_effect:
  assumes "\<not> dlab d"
  shows "\<not> dlab (put_char latency c d)" and "tx_sent (put_char latency c d) = tx_sent d @ [c]"
    and "incoming d = [] \<Longrightarrow> rx_fifo (put_char latency c d) = tl (rx_fifo d) \<and> incoming (put_char latency c d) = []"
proof -
  have reg: "f_reg Thr_Data = 0" by (simp add: uart_fields)
  let ?w = "wait_thr_empty d"
  show "\<not> dlab (put_char latency c d)" "tx_sent (put_char latency c d) = tx_sent d @ [c]"
    using assms by (auto simp: put_char_def uart_wr_def reg dev_read_def dev_write_def transmitted_char
        split: list.splits)
  show "incoming d = [] \<Longrightarrow> rx_fifo (put_char latency c d) = tl (rx_fifo d) \<and> incoming (put_char latency c d) = []"
    using assms by (auto simp: put_char_def uart_wr_def reg dev_read_def dev_write_def
        split: list.splits)
qed

text \<open>The characters sent for those of the terminal.\<close>

definition expanded :: "bool \<Rightarrow> u8 list \<Rightarrow> u8 list" where
  "expanded cr buf = concat (map (\<lambda>c. if cr \<and> c = newline then [c, carriage_return] else [c]) buf)"

lemma expanded_simps [simp]:
  "expanded cr [] = []"
  "expanded cr (c # cs) = (if cr \<and> c = newline then [c, carriage_return] else [c]) @ expanded cr cs"
  "expanded cr (a @ b) = expanded cr a @ expanded cr b"
  by (simp_all add: expanded_def)

lemma send_chars_effect:
  "\<not> dlab d \<Longrightarrow> \<not> dlab (send_chars latency cr buf d)
    \<and> tx_sent (send_chars latency cr buf d) = tx_sent d @ expanded cr buf
    \<and> (incoming d = [] \<longrightarrow> incoming (send_chars latency cr buf d) = []
        \<and> rx_fifo (send_chars latency cr buf d) = drop (length (expanded cr buf)) (rx_fifo d))"
proof (induction buf arbitrary: d)
  case (Cons c buf)
  let ?d = "if cr \<and> c = newline then put_char latency carriage_return (put_char latency c d) else put_char latency c d"
  have step: "send_chars latency cr (c # buf) d = send_chars latency cr buf ?d"
    by (simp add: send_chars_def Let_def)
  have "\<not> dlab ?d" using Cons.prems by (simp add: put_char_effect)
  from Cons.IH [OF this] Cons.prems show ?case
    unfolding step by (auto simp: put_char_effect drop_Suc)
qed (simp add: send_chars_def)

text \<open>
  What the UART sends: the characters of the terminal in order, each newline followed by a
  carriage return if so configured. But every character sent takes one that was received and not
  yet read out of the FIFO, because the transmitter is written as a bit field of the register
  that the receiver shares.
\<close>

theorem sending_swallows_received:
  assumes "\<not> dlab d" and "incoming d = []"
  shows "tx_sent (handle_read latency cr chunks d) = tx_sent d @ expanded cr (concat chunks)
    \<and> rx_fifo (handle_read latency cr chunks d) = drop (length (expanded cr (concat chunks))) (rx_fifo d)"
proof -
  have "\<not> dlab (handle_read latency cr chunks d) \<and> incoming (handle_read latency cr chunks d) = []
    \<and> tx_sent (handle_read latency cr chunks d) = tx_sent d @ expanded cr (concat chunks)
    \<and> rx_fifo (handle_read latency cr chunks d) = drop (length (expanded cr (concat chunks))) (rx_fifo d)"
    using assms
  proof (induction chunks arbitrary: d)
    case (Cons buf chunks)
    have "handle_read latency cr (buf # chunks) d = handle_read latency cr chunks (send_chars latency cr buf d)"
      by (simp add: handle_read_def)
    with Cons send_chars_effect [of d latency cr buf] show ?case by (simp add: add.commute)
  qed (simp add: handle_read_def)
  then show ?thesis by blast
qed

text \<open>At three received characters and one newline to send.\<close>

theorem sending_swallows_received_witness:
  "let d' = handle_read 1 True [[newline]] (idle_uart\<lparr>rx_fifo := [1, 2, 3], incoming := []\<rparr>)
   in tx_sent d' = [newline, carriage_return] \<and> rx_fifo d' = [3]"
  using sending_swallows_received [where d = "idle_uart\<lparr>rx_fifo := [1, 2, 3], incoming := []\<rparr>" and latency = 1 and cr = True
      and chunks = "[[newline]]"]
  by (simp add: Let_def idle_uart_def dlab_def)

section \<open>Initialisation\<close>

lemma bit_u32: "bit (v :: u32) n \<Longrightarrow> n < 32"
  using bit_imp_le_length [of v n] by simp

lemma halves:
  assumes "(v :: u32) < 0x10000"
  shows "take_bit 8 v OR push_bit 8 (take_bit 8 (drop_bit 8 v)) = v"
proof (rule bit_eqI)
  fix n
  have "unat v < 2 ^ 16" using unat_mono [OF assms] by simp
  then have "take_bit 16 v = v" by (simp add: word_unat_eq_iff unsigned_take_bit_eq take_bit_nat_eq_self)
  then have "bit v n \<longleftrightarrow> n < 16 \<and> bit v n" by (metis bit_take_bit_iff)
  then show "bit (take_bit 8 v OR push_bit 8 (take_bit 8 (drop_bit 8 v))) n \<longleftrightarrow> bit v n"
    by (cases "n < 8") (auto simp: bit_simps dest: bit_u32)
qed

lemma field_of_with_field:
  "f_shift f + f_width f \<le> 32 \<Longrightarrow> field_of f (with_field f x v) = take_bit (f_width f) x"
  by (rule bit_eqI) (auto simp: field_of_def with_field_def bit_simps)

lemma field_of_with_other_field:
  "f_shift f + f_width f \<le> f_shift g \<or> f_shift g + f_width g \<le> f_shift f \<Longrightarrow>
    field_of f (with_field g x v) = field_of f v"
  by (rule bit_eqI) (auto simp: field_of_def with_field_def bit_simps dest: bit_u32)

lemma bit_with_field:
  "n < 32 \<Longrightarrow> bit (with_field f x v) n \<longleftrightarrow>
    (if f_shift f \<le> n \<and> n < f_shift f + f_width f then bit x (n - f_shift f) else bit v n)"
  by (auto simp: with_field_def bit_simps)

lemma uart_wr_plain:
  "f_reg f = 0xc \<Longrightarrow> uart_wr latency f x d = d\<lparr>lcr := with_field f x (lcr d)\<rparr>"
  "f_reg f = 0x10 \<Longrightarrow> uart_wr latency f x d = d\<lparr>mcr := with_field f x (mcr d)\<rparr>"
  "f_reg f = 0 \<Longrightarrow> dlab d \<Longrightarrow> uart_wr latency f x d = d\<lparr>dll := with_field f x (dll d)\<rparr>"
  "f_reg f = 4 \<Longrightarrow> dlab d \<Longrightarrow> uart_wr latency f x d = d\<lparr>dlh := with_field f x (dlh d)\<rparr>"
  by (auto simp: uart_wr_def dev_read_def dev_write_def)

text \<open>
  The constructor of the UART sets 8 data bits, switches interrupts and modem control off,
  programs the divisor \<open>clock / (16 * baud)\<close> and ends with the divisor latch closed again and the
  FIFO enabled, whatever else was configured before.
\<close>

theorem uart_initialised:
  assumes "\<not> dlab d" and "clock div (16 * baud) < 0x10000"
  shows "let d' = ns16550_uart latency clock baud d in
     field_of Lcr_Dls (lcr d') = 3 \<and> \<not> dlab d' \<and> ier d' = 0
   \<and> field_of Mcr_Dts (mcr d') = 0 \<and> field_of Mcr_Rts (mcr d') = 0 \<and> bit (fcr d') 0
   \<and> field_of Dll_Data (dll d') OR push_bit 8 (field_of Dlh_Data (dlh d')) = clock div (16 * baud)"
proof -
  have regs: "f_reg Lcr_Dls = 0xc" "f_reg Lcr_Dlab = 0xc" "f_reg Mcr_Dts = 0x10" "f_reg Mcr_Rts = 0x10"
    "f_reg Dll_Data = 0" "f_reg Dlh_Data = 4" by (simp_all add: uart_fields)
  let ?w = "wait_thr_empty d" and ?div = "clock div (16 * baud)"
  let ?lcr = "with_field Lcr_Dlab 1 (with_field Lcr_Dls 3 (lcr ?w))"
  have closed: "\<not> bit (lcr ?w) 7" using assms(1) wait_thr_empty_simps(1) [of d] by (simp add: dlab_def)
  have latch: "bit ?lcr 7" by (simp add: bit_with_field uart_fields)
  have "ns16550_uart latency clock baud d = ?w\<lparr>ier := 0,
      mcr := with_field Mcr_Rts 0 (with_field Mcr_Dts 0 (mcr ?w)), fcr := fifo_control,
      rx_fifo := (if bit fifo_control 1 then [] else rx_fifo ?w), lcr := with_field Lcr_Dlab 0 ?lcr,
      dll := with_field Dll_Data ?div (dll ?w), dlh := with_field Dlh_Data (drop_bit 8 ?div) (dlh ?w)\<rparr>"
    using closed latch by (simp add: ns16550_uart_def Let_def regs uart_wr_plain dev_write_def dlab_def)
  then show ?thesis
    by (simp add: halves [OF assms(2)] Let_def dlab_def bit_with_field field_of_with_field field_of_with_other_field uart_fields
        fifo_control_def)
qed

text \<open>At the clock and the baud rate of the driver.\<close>

theorem uart_initialised_witness:
  "let d' = ns16550_uart 1 25000000 115200 idle_uart
   in field_of Dll_Data (dll d') OR push_bit 8 (field_of Dlh_Data (dlh d')) = 13 \<and> \<not> dlab d'"
  using uart_initialised [OF idle_uart_latch(2), of 25000000 115200 1] by (simp add: Let_def)

end
