(* ===== verification/Button.thy ===== *)
theory Button
  imports Mmio
begin

text \<open>
  The driver of the volume buttons: \<^verbatim>\<open>src/driver/button/pinephone/main.cc\<close>. The key ADC is a
  register file with a status register that is cleared by writing ones; the events submitted to
  the event session are the output of the handler.
\<close>

unbundle bit_operations_syntax

definition Keyadc_En :: field where "Keyadc_En = Fld 0x0 0 1"
definition Intc_Down_en :: field where "Intc_Down_en = Fld 0x4 1 1"
definition Intc_Up_en :: field where "Intc_Up_en = Fld 0x4 4 1"
definition Ints :: field where "Ints = whole_reg 0x8"
definition Data_Bits :: field where "Data_Bits = Fld 0xc 0 5"

definition keyadc_wr :: "regs \<Rightarrow> field \<Rightarrow> u32 \<Rightarrow> regs" where
  "keyadc_wr = w1c_wr {0x8}"

text \<open>The constructor of \<^verbatim>\<open>Keyadc\<close>\<close>

definition keyadc_init :: reg_program where
  "keyadc_init = [(Keyadc_En, 1), (Intc_Down_en, 1), (Intc_Up_en, 1), (Ints, - 1)]"

text \<open>\<^verbatim>\<open>handle_data\<close>: the data handed to the driver, and the registers with the interrupts cleared.\<close>

definition keyadc_handle_data :: "regs \<Rightarrow> u32 \<times> regs" where
  "keyadc_handle_data m = (let data = reg_rd m Data_Bits in (data, keyadc_wr m Ints (reg_rd m Ints)))"

datatype keycode = KEY_VOLUMEUP | KEY_VOLUMEDOWN

datatype key_event = Press keycode | Release keycode

record key_state =
  volume_down :: bool
  volume_up :: bool

definition no_key :: key_state where
  "no_key = \<lparr>volume_down = False, volume_up = False\<rparr>"

definition submit_change :: "bool \<Rightarrow> bool \<Rightarrow> keycode \<Rightarrow> key_event list" where
  "submit_change orig cur key = (if \<not> orig \<and> cur then [Press key] else []) @ (if orig \<and> \<not> cur then [Release key] else [])"

definition decode_key :: "u32 \<Rightarrow> key_state" where
  "decode_key data = (if data < 0x08 then no_key\<lparr>volume_up := True\<rparr>
     else if data < 0x10 then no_key\<lparr>volume_down := True\<rparr> else no_key)"

definition handle_keyadc :: "key_state \<times> regs \<Rightarrow> key_event list \<times> key_state \<times> regs" where
  "handle_keyadc s = (case s of (orig, m) \<Rightarrow> case keyadc_handle_data m of (data, m) \<Rightarrow>
     let state = decode_key data in
       (submit_change (volume_up orig) (volume_up state) KEY_VOLUMEUP
         @ submit_change (volume_down orig) (volume_down state) KEY_VOLUMEDOWN, state, m))"

text \<open>
  A run: the registers the hardware shows at each interrupt. The result are all events so far
  and the state of the driver.
\<close>

definition key_run :: "regs list \<Rightarrow> key_event list \<times> key_state" where
  "key_run ms = fold (\<lambda>m (es, st). case handle_keyadc (st, m) of (new, st, _) \<Rightarrow> (es @ new, st)) ms ([], no_key)"

text \<open>The view of the client: the keys that are down, if every press and release makes sense.\<close>

fun key_step :: "key_event \<Rightarrow> keycode set option \<Rightarrow> keycode set option" where
  "key_step e None = None"
| "key_step (Press k) (Some ks) = (if k \<in> ks then None else Some (insert k ks))"
| "key_step (Release k) (Some ks) = (if k \<in> ks then Some (ks - {k}) else None)"

definition keys_down :: "key_event list \<Rightarrow> keycode set option" where
  "keys_down es = fold key_step es (Some {})"

definition pressed :: "key_state \<Rightarrow> keycode set" where
  "pressed st = (if volume_up st then {KEY_VOLUMEUP} else {}) \<union> (if volume_down st then {KEY_VOLUMEDOWN} else {})"

lemma handle_keyadc_client:
  assumes "handle_keyadc (st, m) = (new, st', m')"
  shows "fold key_step new (Some (pressed st)) = Some (pressed st')" and "st' = decode_key (reg_rd m Data_Bits)"
  using assms by (auto simp: handle_keyadc_def keyadc_handle_data_def submit_change_def pressed_def Let_def)

lemma key_run_snoc:
  "key_run (ms @ [m]) = (case key_run ms of (es, st) \<Rightarrow> case handle_keyadc (st, m) of (new, st, _) \<Rightarrow> (es @ new, st))"
  by (simp add: key_run_def split_beta)

lemma key_run_client: "keys_down (fst (key_run ms)) = Some (pressed (snd (key_run ms)))"
proof (induction ms rule: rev_induct)
  case Nil
  show ?case by (simp add: key_run_def keys_down_def pressed_def no_key_def)
next
  case (snoc m ms)
  obtain es st where r: "key_run ms = (es, st)" by (cases "key_run ms")
  obtain new st' m' where h: "handle_keyadc (st, m) = (new, st', m')" by (cases "handle_keyadc (st, m)")
  have "keys_down (es @ new) = fold key_step new (keys_down es)" by (simp add: keys_down_def)
  with snoc r handle_keyadc_client(1) [OF h] show ?case by (simp add: key_run_snoc h)
qed

text \<open>
  C40: the client of the volume buttons gets presses and releases that alternate for each key.
  After every interrupt exactly the key is down that the voltage at the ADC stands for, never
  both, and the interrupts seen are cleared.
\<close>

theorem volume_keys_alternate:
  "let data = reg_rd m Data_Bits in
   keys_down (fst (key_run (ms @ [m]))) =
     Some (if data < 0x08 then {KEY_VOLUMEUP} else if data < 0x10 then {KEY_VOLUMEDOWN} else {})
   \<and> snd (snd (handle_keyadc (snd (key_run ms), m))) 0x8 = 0"
proof -
  obtain es st where r: "key_run ms = (es, st)" by (cases "key_run ms")
  obtain new st' m' where h: "handle_keyadc (st, m) = (new, st', m')" by (cases "handle_keyadc (st, m)")
  have "snd (key_run (ms @ [m])) = decode_key (reg_rd m Data_Bits)"
    using handle_keyadc_client(2) [OF h] by (simp add: key_run_snoc r h)
  with key_run_client [of "ms @ [m]"] have keys: "keys_down (fst (key_run (ms @ [m]))) =
      Some (if reg_rd m Data_Bits < 0x08 then {KEY_VOLUMEUP} else if reg_rd m Data_Bits < 0x10 then {KEY_VOLUMEDOWN} else {})"
    by (auto simp: decode_key_def pressed_def no_key_def)
  have "snd (snd (handle_keyadc (st, m))) 0x8 = 0"
    by (simp add: handle_keyadc_def keyadc_handle_data_def keyadc_wr_def w1c_wr_ack Ints_def Let_def)
  with keys show ?thesis by (simp add: Let_def r)
qed

end
