(* ===== verification/De_Clock.thy ===== *)
theory De_Clock
  imports Prelude
begin

text \<open>
  The clocks and resets of the display engine for the Linux framebuffer driver:
  \<^verbatim>\<open>src/driver/framebuffer/de/clock.c\<close> and \<^verbatim>\<open>reset.c\<close>. A clock and a hardware clock of Linux are
  numbers, a null pointer is \<open>None\<close>. \<open>get\<close> is \<^verbatim>\<open>lx_emul_clock_get\<close>: the clock of a name at a
  node of the device tree. Where the code stops the driver (\<^verbatim>\<open>lx_emul_trace_and_stop\<close>) the
  result is \<open>None\<close>.
\<close>

section \<open>Clocks\<close>

record de_clock_mapping =
  client_match_compatible :: string
  client_con_id :: string
  clock_name :: string
  map_clk :: "nat option"
  map_hw :: "nat option"

record de_clocks =
  mappings :: "de_clock_mapping list"
  tcon_clk :: "nat option"
  tcon_hw :: "nat option"

record fb_device =
  fd_compatible :: "string list"
  fd_node :: nat
  fd_parent_node :: nat

definition MIXER_0 :: string where "MIXER_0 = ''allwinner,sun50i-a64-de2-mixer-0''"
definition MIXER_1 :: string where "MIXER_1 = ''allwinner,sun50i-a64-de2-mixer-1''"
definition DE2_CLK :: string where "DE2_CLK = ''allwinner,sun50i-a64-de2-clk''"

definition mapping :: "string \<Rightarrow> string \<Rightarrow> string \<Rightarrow> de_clock_mapping" where
  "mapping client con name = \<lparr>client_match_compatible = client, client_con_id = con, clock_name = name,
     map_clk = None, map_hw = None\<rparr>"

definition de_clock_mappings :: "de_clock_mapping list" where
  "de_clock_mappings = [mapping MIXER_0 ''bus'' ''bus-mixer0'', mapping MIXER_0 ''mod'' ''mixer0'',
     mapping MIXER_1 ''bus'' ''bus-mixer1'', mapping MIXER_1 ''mod'' ''mixer1'']"

definition de_clocks_init :: de_clocks where
  "de_clocks_init = \<lparr>mappings = de_clock_mappings, tcon_clk = None, tcon_hw = None\<rparr>"

type_synonym clock_get = "nat \<Rightarrow> string \<Rightarrow> nat option"

definition mapping_matches :: "fb_device \<Rightarrow> string \<Rightarrow> de_clock_mapping \<Rightarrow> bool" where
  "mapping_matches dev con_id m \<longleftrightarrow>
     client_match_compatible m \<in> set (fd_compatible dev) \<and> con_id = client_con_id m"

text \<open>The loop over the mappings: the clock of the first that matches, looked up once.\<close>

fun mapped_clock :: "clock_get \<Rightarrow> fb_device \<Rightarrow> string \<Rightarrow> nat option \<Rightarrow> de_clock_mapping list \<Rightarrow>
    nat option \<times> de_clock_mapping list" where
  "mapped_clock get dev con_id res [] = (res, [])"
| "mapped_clock get dev con_id res (m # ms) =
     (if mapping_matches dev con_id m then
        (let m = (if map_clk m = None then m\<lparr>map_clk := get (fd_parent_node dev) (clock_name m)\<rparr> else m)
         in (map_clk m, m # ms))
      else case mapped_clock get dev con_id res ms of (res, ms) \<Rightarrow> (res, m # ms))"

definition clk_get :: "clock_get \<Rightarrow> fb_device \<Rightarrow> string \<Rightarrow> de_clocks \<Rightarrow> nat option \<times> de_clocks" where
  "clk_get get dev con_id s =
     (let res = (if DE2_CLK \<in> set (fd_compatible dev) then get (fd_parent_node dev) con_id else None)
      in case mapped_clock get dev con_id res (mappings s) of (res, ms) \<Rightarrow>
         (if res = None then get (fd_node dev) con_id else res, s\<lparr>mappings := ms\<rparr>))"

definition clk_register :: "clock_get \<Rightarrow> nat \<Rightarrow> nat \<Rightarrow> string \<Rightarrow> de_clocks \<Rightarrow> nat option \<times> de_clocks" where
  "clk_register get node hw name s =
     (if name = ''tcon-data-clock'' then
        (let s = (if tcon_clk s = None then s\<lparr>tcon_hw := Some hw, tcon_clk := get node name\<rparr> else s)
         in (tcon_clk s, s))
      else (None, s))"

text \<open>\<^verbatim>\<open>clk_hw_register\<close>; \<open>de2\<close>: the node is the clock unit of the display engine.\<close>

definition of_clk_hw_register :: "bool \<Rightarrow> nat \<Rightarrow> string \<Rightarrow> de_clocks \<Rightarrow> de_clocks" where
  "of_clk_hw_register de2 hw name s =
     (if de2 then s\<lparr>mappings := map (\<lambda>m. if clock_name m \<noteq> name then m else m\<lparr>map_hw := Some hw\<rparr>) (mappings s)\<rparr>
      else s)"

definition lookup_internal_clk_hw :: "nat option \<Rightarrow> de_clocks \<Rightarrow> nat option" where
  "lookup_internal_clk_hw clk s = (case List.find (\<lambda>m. map_clk m = clk) (mappings s) of
     Some m \<Rightarrow> map_hw m
   | None \<Rightarrow> if clk = tcon_clk s then tcon_hw s else None)"

datatype hw_op = Enable nat | Set_rate nat nat nat

definition clk_enable :: "nat option \<Rightarrow> de_clocks \<Rightarrow> hw_op list" where
  "clk_enable clk s = (case lookup_internal_clk_hw clk s of None \<Rightarrow> [] | Some hw \<Rightarrow> [Enable hw])"

text \<open>\<open>rate_of\<close> is \<^verbatim>\<open>lx_emul_clock_get_rate\<close>; the result is \<open>None\<close> if the driver is stopped.\<close>

definition clk_set_rate :: "(nat option \<Rightarrow> nat) \<Rightarrow> nat option \<Rightarrow> nat \<Rightarrow> de_clocks \<Rightarrow> hw_op list option" where
  "clk_set_rate rate_of clk rate s = (case lookup_internal_clk_hw clk s of
     Some hw \<Rightarrow> Some [Set_rate hw rate 275625000]
   | None \<Rightarrow> if rate_of clk \<noteq> rate then None else Some [])"

section \<open>Resets\<close>

definition de2_clk_resets :: "(string \<times> nat) list" where
  "de2_clk_resets = [(MIXER_0, 0), (MIXER_1, 1)]"

definition devm_reset_control_get :: "fb_device \<Rightarrow> string option" where
  "devm_reset_control_get dev =
     map_option fst (List.find (\<lambda>(name, line). name \<in> set (fd_compatible dev)) de2_clk_resets)"

definition EPROBE_DEFER :: int where "EPROBE_DEFER = 517"

text \<open>The lines deasserted at the reset controller, if one is registered.\<close>

definition reset_control_deassert :: "bool \<Rightarrow> string option \<Rightarrow> int \<times> nat list" where
  "reset_control_deassert registered rstc = (case rstc of None \<Rightarrow> (0, [])
     | Some name \<Rightarrow> if \<not> registered then (- EPROBE_DEFER, [])
         else (0, map snd (filter (\<lambda>(n, line). name = n) de2_clk_resets)))"

definition reset_controller_register :: "string option \<Rightarrow> bool \<Rightarrow> bool option" where
  "reset_controller_register compatible registered =
     (if compatible = Some DE2_CLK then Some True else None)"

section \<open>Properties\<close>

datatype clock_event = Clk_get fb_device string | Clk_register nat nat string | Hw_register bool nat string

fun clock_step :: "clock_get \<Rightarrow> clock_event \<Rightarrow> de_clocks \<Rightarrow> de_clocks" where
  "clock_step get (Clk_get dev con_id) s = snd (clk_get get dev con_id s)"
| "clock_step get (Clk_register node hw name) s = snd (clk_register get node hw name s)"
| "clock_step get (Hw_register de2 hw name) s = of_clk_hw_register de2 hw name s"

definition clock_run :: "clock_get \<Rightarrow> clock_event list \<Rightarrow> de_clocks" where
  "clock_run get es = fold (clock_step get) es de_clocks_init"

text \<open>The hardware clock registered last under a name.\<close>

definition note_hw :: "clock_event \<Rightarrow> (string \<Rightarrow> nat option) \<Rightarrow> (string \<Rightarrow> nat option)" where
  "note_hw e hw = (case e of Hw_register de2 h name \<Rightarrow> if de2 then hw(name := Some h) else hw | _ \<Rightarrow> hw)"

definition registered_hw :: "clock_event list \<Rightarrow> string \<Rightarrow> nat option" where
  "registered_hw es = fold note_hw es (\<lambda>_. None)"

text \<open>What stays of a mapping, and where its clock comes from.\<close>

definition mapping_key :: "de_clock_mapping \<Rightarrow> string \<times> string \<times> string" where
  "mapping_key m = (client_match_compatible m, client_con_id m, clock_name m)"

definition clocks_inv :: "clock_get \<Rightarrow> (string \<Rightarrow> nat option) \<Rightarrow> de_clocks \<Rightarrow> bool" where
  "clocks_inv get hw s \<longleftrightarrow> map mapping_key (mappings s) = map mapping_key de_clock_mappings
     \<and> (\<forall>m \<in> set (mappings s). map_hw m = hw (clock_name m))
     \<and> (\<forall>m \<in> set (mappings s). \<forall>c. map_clk m = Some c \<longrightarrow> (\<exists>node. get node (clock_name m) = Some c))"

lemma mapped_clock_keeps:
  "mapped_clock get dev con_id res ms = (res', ms') \<Longrightarrow> map mapping_key ms' = map mapping_key ms
    \<and> (\<forall>m \<in> set ms'. \<exists>m0 \<in> set ms. clock_name m = clock_name m0 \<and> map_hw m = map_hw m0
        \<and> (map_clk m = map_clk m0 \<or> map_clk m = get (fd_parent_node dev) (clock_name m)))"
proof (induction ms arbitrary: ms')
  case (Cons m ms)
  show ?case
  proof (cases "mapping_matches dev con_id m")
    case True
    with Cons.prems show ?thesis by (auto simp: Let_def mapping_key_def split: if_splits)
  next
    case False
    with Cons.prems obtain ms1 where "mapped_clock get dev con_id res ms = (res', ms1)" "ms' = m # ms1"
      by (auto split: prod.splits)
    with Cons.IH show ?thesis by force
  qed
qed simp

lemma clocks_inv_step:
  assumes "clocks_inv get hw s"
  shows "clocks_inv get (note_hw e hw) (clock_step get e s)"
proof (cases e)
  case (Clk_get dev con_id)
  obtain res ms where m: "mapped_clock get dev con_id
      (if DE2_CLK \<in> set (fd_compatible dev) then get (fd_parent_node dev) con_id else None) (mappings s) = (res, ms)"
    by fastforce
  have "clocks_inv get hw (s\<lparr>mappings := ms\<rparr>)"
    using mapped_clock_keeps [OF m] assms unfolding clocks_inv_def by fastforce
  then show ?thesis by (simp add: Clk_get clk_get_def m note_hw_def)
next
  case (Clk_register node h name)
  with assms show ?thesis by (auto simp: clocks_inv_def clk_register_def Let_def note_hw_def)
next
  case (Hw_register de2 h name)
  let ?f = "\<lambda>m. if clock_name m \<noteq> name then m else m\<lparr>map_hw := Some h\<rparr>"
  have keys: "mapping_key (?f m) = mapping_key m" "clock_name (?f m) = clock_name m" "map_clk (?f m) = map_clk m" for m
    by (simp_all add: mapping_key_def)
  have "map mapping_key (map ?f (mappings s)) = map mapping_key (mappings s)" by (simp add: keys(1) del: if_not_P)
  moreover have "\<forall>m \<in> set (mappings s). map_hw (?f m) = (hw(name := Some h)) (clock_name (?f m))"
    using assms by (simp add: clocks_inv_def)
  moreover have "\<forall>m \<in> set (mappings s). \<forall>c. map_clk (?f m) = Some c \<longrightarrow> (\<exists>node. get node (clock_name (?f m)) = Some c)"
    using assms unfolding keys clocks_inv_def by blast
  ultimately show ?thesis
    using assms by (simp only: Hw_register clocks_inv_def of_clk_hw_register_def note_hw_def clock_step.simps
        clock_event.case list.set_map ball_simps de_clocks.simps split: if_split) auto
qed

lemma clocks_inv_run: "clocks_inv get (registered_hw es) (clock_run get es)"
proof (induction es rule: rev_induct)
  case Nil
  show ?case by (auto simp: clocks_inv_def clock_run_def de_clocks_init_def registered_hw_def note_hw_def
        de_clock_mappings_def mapping_def)
next
  case (snoc e es)
  then show ?case using clocks_inv_step [of get "registered_hw es" "clock_run get es" e]
    by (simp add: clock_run_def registered_hw_def)
qed

lemma mapped_clock_result:
  "mapped_clock get dev con_id res ms = (r, ms') \<Longrightarrow> \<exists>m \<in> set ms. mapping_matches dev con_id m \<Longrightarrow>
    \<exists>m \<in> set ms'. mapping_matches dev con_id m \<and> map_clk m = r
      \<and> (r = None \<longrightarrow> get (fd_parent_node dev) (clock_name m) = None)"
proof (induction ms arbitrary: ms')
  case (Cons m ms)
  then show ?case by (auto simp: mapping_matches_def Let_def split: if_splits prod.splits)
qed simp

lemma mapping_keys_unique:
  "list_all (\<lambda>k. list_all (\<lambda>k'. fst k = fst k' \<and> fst (snd k) = fst (snd k') \<longrightarrow> k = k')
     (map mapping_key de_clock_mappings)) (map mapping_key de_clock_mappings)"
  by code_simp

lemma matching_name:
  assumes "mapping_key m \<in> mapping_key ` set de_clock_mappings" and "(client, con_id, name) \<in> mapping_key ` set de_clock_mappings"
    and "client_match_compatible m = client" and "client_con_id m = con_id"
  shows "clock_name m = name"
proof -
  have unique: "k = k'" if "k \<in> mapping_key ` set de_clock_mappings" "k' \<in> mapping_key ` set de_clock_mappings"
    "fst k = fst k'" "fst (snd k) = fst (snd k')" for k k'
    using mapping_keys_unique that unfolding list_all_iff set_map by blast
  have "mapping_key m = (client, con_id, name)"
    by (rule unique [OF assms(1,2)]) (simp_all add: mapping_key_def assms(3,4))
  then show ?thesis by (simp add: mapping_key_def)
qed

text \<open>
  Enabling a clock of the display engine reaches the right hardware clock. Whatever was
  looked up and registered before, a clock that a mixer gets for one of its two uses is enabled
  by enabling the hardware clock that the clock unit registered last under the name the table
  gives for this use. It is required that names have clocks of their own.
\<close>

theorem enabled_clock_is_registered:
  assumes names: "\<And>node n node' n' c. get node n = Some c \<Longrightarrow> get node' n' = Some c \<Longrightarrow> n = n'"
    and mapped: "(client, con_id, name) \<in> mapping_key ` set de_clock_mappings"
    and dev: "fd_compatible dev = [client]" and exists: "get (fd_parent_node dev) name \<noteq> None"
  shows "let (clk, s) = clk_get get dev con_id (clock_run get es)
    in clk \<noteq> None \<and> clk_enable clk s = (case registered_hw es name of None \<Rightarrow> [] | Some hw \<Rightarrow> [Enable hw])"
proof -
  let ?s0 = "clock_run get es"
  obtain r ms where m: "mapped_clock get dev con_id
      (if DE2_CLK \<in> set (fd_compatible dev) then get (fd_parent_node dev) con_id else None) (mappings ?s0) = (r, ms)"
    by fastforce
  have run: "?s0\<lparr>mappings := ms\<rparr> = clock_run get (es @ [Clk_get dev con_id])"
    by (simp add: clock_run_def clk_get_def m [unfolded clock_run_def])
  have inv: "clocks_inv get (registered_hw es) (?s0\<lparr>mappings := ms\<rparr>)"
    using clocks_inv_run [of get "es @ [Clk_get dev con_id]"] unfolding run
    by (simp add: registered_hw_def note_hw_def)
  have keys: "mapping_key ` set ms = mapping_key ` set de_clock_mappings"
    "mapping_key ` set (mappings ?s0) = mapping_key ` set de_clock_mappings"
    using arg_cong [OF conjunct1 [OF inv [unfolded clocks_inv_def]], of set]
      arg_cong [OF conjunct1 [OF clocks_inv_run [unfolded clocks_inv_def], of get es], of set] by simp_all
  obtain m0 where m0: "m0 \<in> set (mappings ?s0)" "mapping_key m0 = (client, con_id, name)"
    using mapped unfolding keys(2) [symmetric] image_iff by metis
  then have "mapping_matches dev con_id m0" by (simp add: mapping_key_def mapping_matches_def dev)
  with m0(1) have "\<exists>m \<in> set (mappings ?s0). mapping_matches dev con_id m" ..
  note result = mapped_clock_result [OF m this]
  obtain m' where m': "m' \<in> set ms" "mapping_matches dev con_id m'"
    "map_clk m' = r" "r = None \<longrightarrow> get (fd_parent_node dev) (clock_name m') = None"
    using result by (elim bexE conjE)
  have key: "mapping_key m' \<in> mapping_key ` set de_clock_mappings" using m'(1) keys(1) by blast
  have name: "clock_name m' = name"
    using matching_name [OF key mapped] m'(2) by (simp add: mapping_matches_def dev)
  with m'(4) exists obtain c where r: "r = Some c" by (cases r) auto
  have hw: "map_hw x = registered_hw es (clock_name x)" if "x \<in> set ms" for x
    using inv that by (simp add: clocks_inv_def)
  have from_get: "\<exists>node. get node (clock_name x) = Some c" if "x \<in> set ms" "map_clk x = Some c" for x
    using inv that by (simp add: clocks_inv_def)
  have same: "clock_name x = name" if "x \<in> set ms" "map_clk x = Some c" for x
    using from_get [OF that] from_get [OF m'(1)] m'(3) r name names by metis
  have "List.find (\<lambda>m. map_clk m = Some c) ms \<noteq> None"
    using m'(1,3) r by (auto simp: find_None_iff)
  then obtain x where x: "List.find (\<lambda>m. map_clk m = Some c) ms = Some x" by blast
  from find_SomeD [OF x] same hw have "map_hw x = registered_hw es name" by auto
  then have "lookup_internal_clk_hw (Some c) (?s0\<lparr>mappings := ms\<rparr>) = registered_hw es name"
    by (simp add: lookup_internal_clk_hw_def x)
  then show ?thesis by (simp add: clk_get_def m r clk_enable_def Let_def)
qed

text \<open>At a device tree whose clocks are numbered by their names.\<close>

definition clock_number :: "nat \<Rightarrow> string \<Rightarrow> nat option" where
  "clock_number node name = (if name = ''mixer0'' then Some 6 else if name = ''bus-mixer0'' then Some 0 else None)"

theorem enabled_clock_is_registered_witness:
  "let (clk, s) = clk_get clock_number \<lparr>fd_compatible = [MIXER_0], fd_node = 2, fd_parent_node = 1\<rparr> ''mod''
       (clock_run clock_number [Hw_register True 77 ''mixer0''])
   in clk \<noteq> None \<and> clk_enable clk s = [Enable 77]"
proof -
  let ?dev = "\<lparr>fd_compatible = [MIXER_0], fd_node = 2, fd_parent_node = 1\<rparr>"
  have names: "n = n'" if "clock_number node n = Some c" "clock_number node' n' = Some c" for node n node' n' c
    using that by (auto simp: clock_number_def split: if_splits)
  have mapped: "(MIXER_0, ''mod'', ''mixer0'') \<in> mapping_key ` set de_clock_mappings"
    by (simp add: de_clock_mappings_def mapping_def mapping_key_def)
  have exists: "clock_number (fd_parent_node ?dev) ''mixer0'' \<noteq> None" by (simp add: clock_number_def)
  have "registered_hw [Hw_register True 77 ''mixer0''] ''mixer0'' = Some 77"
    by (simp add: registered_hw_def note_hw_def)
  with enabled_clock_is_registered [where get = clock_number and dev = ?dev and es = "[Hw_register True 77 ''mixer0'']", OF names mapped _ exists]
  show ?thesis by (simp add: Let_def)
qed

text \<open>A mixer's reset line is deasserted by its number, once the controller is registered.\<close>

lemma mixer_reset_line:
  "i < 2 \<Longrightarrow> fd_compatible dev = [if i = 0 then MIXER_0 else MIXER_1] \<Longrightarrow>
    reset_control_deassert registered (devm_reset_control_get dev) = (if registered then (0, [i]) else (- EPROBE_DEFER, []))"
  by (auto simp: devm_reset_control_get_def de2_clk_resets_def reset_control_deassert_def MIXER_0_def MIXER_1_def)

end
