(* ===== verification/Lx_Glue.thy ===== *)
theory Lx_Glue
  imports Prelude
begin

text \<open>
  Glue of the Linux drivers: the pin controller and the interrupt controllers of the A64 as Linux
  sees them (\<^verbatim>\<open>src/lib/lx_emul/a64/pio.c\<close>, \<^verbatim>\<open>r_intc.c\<close>, \<^verbatim>\<open>reset.cc\<close>), and the clocks of the GPU,
  SD-card, Wifi and camera drivers (\<^verbatim>\<open>gpu/lima/clock.c\<close>, \<^verbatim>\<open>sd_card/a64/clock.c\<close>,
  \<^verbatim>\<open>lib/a64_wifi/clock.c\<close>, \<^verbatim>\<open>camera/pinephone/clock.c\<close>). Where the code stops the driver the
  result is \<open>None\<close>.
\<close>

section \<open>Pins\<close>

definition PINS_PER_BANK :: nat where "PINS_PER_BANK = 32"
definition NUM_BANKS :: nat where "NUM_BANKS = 16"
definition NUM_PINS :: nat where "NUM_PINS = NUM_BANKS * PINS_PER_BANK"

text \<open>The output of \<^verbatim>\<open>%d\<close> for a natural number.\<close>

fun decimal_text :: "nat \<Rightarrow> string" where
  "decimal_text n = (if n < 10 then [char_of (48 + n)] else decimal_text (n div 10) @ [char_of (48 + n mod 10)])"

declare decimal_text.simps [simp del]

text \<open>
  \<^verbatim>\<open>sunxi_pinctrl_pin_name\<close>: what a buffer of \<open>len\<close> bytes holds. The bound given to
  \<^verbatim>\<open>snprintf\<close> is the size of the variable \<open>len\<close>, which is 8, not its value.
\<close>

definition sunxi_pinctrl_pin_name :: "nat \<Rightarrow> nat \<Rightarrow> string" where
  "sunxi_pinctrl_pin_name len pin_number =
     (let bank = pin_number div PINS_PER_BANK; pin = pin_number mod PINS_PER_BANK in
      if len = 0 then []
      else take (len - 1) (take (8 - 1) (''P'' @ [char_of (65 + bank)] @ decimal_text pin)))"

definition sunxi_pinctrl_irq_of_xlate :: "nat list \<Rightarrow> nat \<times> nat" where
  "sunxi_pinctrl_irq_of_xlate intspec = (let base_bank = intspec ! 0; pin = intspec ! 1 in
     (base_bank * PINS_PER_BANK + pin, intspec ! 2))"

definition sunxi_pinctrl_gpio_of_xlate :: "nat list \<Rightarrow> nat \<times> nat" where
  "sunxi_pinctrl_gpio_of_xlate args = (let bank = args ! 0; pin = args ! 1 in
     (bank * PINS_PER_BANK + pin, args ! 2))"

text \<open>The pins as the platform sees them: the levels set by name, in order, and the levels sensed.\<close>

type_synonym pin_log = "(string \<times> int) list"

definition sunxi_pinctrl_gpio_set :: "nat \<Rightarrow> int \<Rightarrow> pin_log \<Rightarrow> pin_log" where
  "sunxi_pinctrl_gpio_set offset value pins = pins @ [(sunxi_pinctrl_pin_name 16 offset, value)]"

definition sunxi_pinctrl_gpio_direction_output :: "nat \<Rightarrow> int \<Rightarrow> pin_log \<Rightarrow> int \<times> pin_log" where
  "sunxi_pinctrl_gpio_direction_output offset value pins = (0, sunxi_pinctrl_gpio_set offset value pins)"

definition sunxi_pinctrl_gpio_get :: "(string \<Rightarrow> int) \<Rightarrow> nat \<Rightarrow> int" where
  "sunxi_pinctrl_gpio_get sense offset = (let name = sunxi_pinctrl_pin_name 16 offset in
     if name = ''PE12'' \<or> name = ''PE13'' then sense name
     else if name = ''PD3'' then sense name
     else 0)"

definition sunxi_pinctrl_gpio_direction_input :: "(string \<Rightarrow> int) \<Rightarrow> nat \<Rightarrow> int" where
  "sunxi_pinctrl_gpio_direction_input = sunxi_pinctrl_gpio_get"

text \<open>
  The interrupts of pins: \<open>gic\<close> is the interrupt of the controller if it is known. A mapping is
  created for the touch screen's pin only; other pins have the interrupt 0.
\<close>

definition touchscreen_pin :: nat where "touchscreen_pin = 228"

definition sunxi_pinctrl_irq_unmask :: "nat option \<Rightarrow> nat \<Rightarrow> (nat \<times> nat \<times> string) option" where
  "sunxi_pinctrl_irq_unmask gic hwirq =
     map_option (\<lambda>g. (g, hwirq, sunxi_pinctrl_pin_name 16 hwirq)) gic"

definition sunxi_pinctrl_irq_handler :: "(nat \<Rightarrow> nat option) \<Rightarrow> nat \<Rightarrow> nat" where
  "sunxi_pinctrl_irq_handler domain last_irq = (case domain last_irq of None \<Rightarrow> 0 | Some irq \<Rightarrow> irq)"

definition a64_pinctrl_domain :: "nat \<Rightarrow> nat \<Rightarrow> nat option" where
  "a64_pinctrl_domain irqno = [touchscreen_pin \<mapsto> irqno]"

section \<open>Interrupts of the R_INTC\<close>

text \<open>The sense bits of an interrupt type are its four lowest bits.\<close>

definition sun6i_r_intc_domain_translate :: "nat list \<Rightarrow> nat \<times> nat" where
  "sun6i_r_intc_domain_translate param = (param ! 1, param ! 2 mod 16)"

text \<open>
  \<open>alloc\<close> is the allocation at the parent domain (the first virtual interrupt, the number of
  them and the parameters); the result holds the pairs of virtual and hardware interrupts.
\<close>

definition GIC_SPI :: nat where "GIC_SPI = 0"

definition sun6i_r_intc_domain_alloc :: "(nat \<Rightarrow> nat \<Rightarrow> nat list \<Rightarrow> int) \<Rightarrow> nat \<Rightarrow> nat \<Rightarrow> nat list \<Rightarrow>
    int \<times> (nat \<times> nat) list" where
  "sun6i_r_intc_domain_alloc alloc virq nr_irqs param =
     (case sun6i_r_intc_domain_translate param of (hwirq, type) \<Rightarrow>
        let ret = alloc virq nr_irqs [GIC_SPI, hwirq, type] in
        if ret \<noteq> 0 then (ret, []) else (0, map (\<lambda>i. (virq + i, hwirq + i)) [0..<nr_irqs]))"

section \<open>Resets\<close>

text \<open>The devices that are enabled: those compatible with the reset pin of the name.\<close>

definition lx_emul_reset_deassert :: "string \<Rightarrow> string list \<Rightarrow> nat list" where
  "lx_emul_reset_deassert name devices =
     filter (\<lambda>i. genode_string 64 (''reset-pin,'' @ name) = devices ! i) [0..<length devices]"

section \<open>Clocks\<close>

text \<open>
  A table from the names a driver uses to those of the platform. The hardware clock of an entry
  is null and is never set.
\<close>

record clock_entry =
  ce_con_id :: string
  ce_clock_name :: string
  ce_clk :: "nat option"
  ce_hw :: "nat option"

definition mk_clock_entry :: "string \<Rightarrow> string \<Rightarrow> clock_entry" where
  "mk_clock_entry con name = \<lparr>ce_con_id = con, ce_clock_name = name, ce_clk = None, ce_hw = None\<rparr>"

definition gpu_clock_mappings :: "clock_entry list" where
  "gpu_clock_mappings = [mk_clock_entry ''bus'' ''bus-gpu'', mk_clock_entry ''core'' ''gpu-clk'']"

definition mmc_clock_mappings :: "clock_entry list" where
  "mmc_clock_mappings = [mk_clock_entry ''ahb'' ''bus-mmc0'', mk_clock_entry ''mmc'' ''mmc0'']"

definition wifi_clock_mappings :: "clock_entry list" where
  "wifi_clock_mappings = [mk_clock_entry ''ahb'' ''bus-mmc1'', mk_clock_entry ''mmc'' ''mmc1'',
     mk_clock_entry ''ext_clock'' ''ext_clock'']"

fun table_clock :: "(nat \<Rightarrow> string \<Rightarrow> nat option) \<Rightarrow> nat \<Rightarrow> string \<Rightarrow> clock_entry list \<Rightarrow>
    nat option \<times> clock_entry list" where
  "table_clock get parent con_id [] = (None, [])"
| "table_clock get parent con_id (e # es) =
     (if con_id \<noteq> ce_con_id e then (case table_clock get parent con_id es of (res, es) \<Rightarrow> (res, e # es))
      else let e = (if ce_clk e = None then e\<lparr>ce_clk := get parent (ce_clock_name e)\<rparr> else e) in (ce_clk e, e # es))"

definition table_clk_get :: "(nat \<Rightarrow> string \<Rightarrow> nat option) \<Rightarrow> nat \<times> nat \<Rightarrow> string \<Rightarrow> clock_entry list \<Rightarrow>
    nat option \<times> clock_entry list" where
  "table_clk_get get nodes con_id es = (case nodes of (node, parent) \<Rightarrow>
     case table_clock get parent con_id es of (res, es) \<Rightarrow>
       (if res = None then get node con_id else res, es))"

definition table_lookup_hw :: "nat option \<Rightarrow> clock_entry list \<Rightarrow> nat option" where
  "table_lookup_hw clk es = Option.bind (List.find (\<lambda>e. ce_clk e = clk) es) ce_hw"

definition table_clk_enable :: "nat option \<Rightarrow> clock_entry list \<Rightarrow> nat list" where
  "table_clk_enable clk es = (case table_lookup_hw clk es of None \<Rightarrow> [] | Some hw \<Rightarrow> [hw])"

text \<open>The drivers of the SD card and of Wifi have the same functions, over their own tables.\<close>

definition mmc_clk_get :: "(nat \<Rightarrow> string \<Rightarrow> nat option) \<Rightarrow> nat \<times> nat \<Rightarrow> string \<Rightarrow> clock_entry list \<Rightarrow>
    nat option \<times> clock_entry list" where
  "mmc_clk_get = table_clk_get"

definition mmc_clk_enable :: "nat option \<Rightarrow> clock_entry list \<Rightarrow> nat list" where
  "mmc_clk_enable = table_clk_enable"

definition wifi_clk_get :: "(nat \<Rightarrow> string \<Rightarrow> nat option) \<Rightarrow> nat \<times> nat \<Rightarrow> string \<Rightarrow> clock_entry list \<Rightarrow>
    nat option \<times> clock_entry list" where
  "wifi_clk_get = table_clk_get"

definition wifi_clk_enable :: "nat option \<Rightarrow> clock_entry list \<Rightarrow> nat list" where
  "wifi_clk_enable = table_clk_enable"

definition mmc_clk_set_rate :: "nat \<Rightarrow> int" where
  "mmc_clk_set_rate rate = 0"

text \<open>A rate can not be changed: the GPU driver stops at the attempt, the others ignore it.\<close>

definition gpu_clk_set_rate :: "(nat option \<Rightarrow> nat) \<Rightarrow> nat option \<Rightarrow> nat \<Rightarrow> int option" where
  "gpu_clk_set_rate rate_of clk rate = (if rate_of clk \<noteq> rate then None else Some 0)"

definition camera_clocks :: "(string \<times> nat) list" where
  "camera_clocks = [(''bus'', 200000000), (''mod'', 300000000), (''ram'', 1056000000), (''xclk'', 24000000)]"

definition camera_clk_get :: "string \<Rightarrow> nat option" where
  "camera_clk_get con_id = List.find (\<lambda>i. con_id = fst (camera_clocks ! i)) [0..<length camera_clocks]"

definition camera_clk_get_rate :: "nat option \<Rightarrow> nat" where
  "camera_clk_get_rate clk = (case clk of None \<Rightarrow> 0
     | Some i \<Rightarrow> if i < length camera_clocks then snd (camera_clocks ! i) else 0)"

definition camera_clk_name :: "nat option \<Rightarrow> string" where
  "camera_clk_name clk = (case clk of None \<Rightarrow> ''unknown-clk''
     | Some i \<Rightarrow> if i < length camera_clocks then fst (camera_clocks ! i) else ''unknown-clk'')"

section \<open>Properties\<close>

lemma decimal_text_small: "n < 10 \<Longrightarrow> decimal_text n = [char_of (48 + n)]"
  by (subst decimal_text.simps) simp

lemma decimal_text_two:
  "10 \<le> n \<Longrightarrow> n < 100 \<Longrightarrow> decimal_text n = [char_of (48 + n div 10), char_of (48 + n mod 10)]"
  by (subst decimal_text.simps) (simp add: decimal_text_small)

lemma length_decimal_text: "n < 100 \<Longrightarrow> length (decimal_text n) \<le> 2"
  by (cases "n < 10") (simp_all add: decimal_text_small decimal_text_two)

text \<open>The number a text of digits stands for.\<close>

definition number_of_text :: "string \<Rightarrow> nat" where
  "number_of_text s = foldl (\<lambda>n c. 10 * n + (of_char c - 48)) 0 s"

lemma number_of_decimal_text: "n < 100 \<Longrightarrow> number_of_text (decimal_text n) = n"
  by (cases "n < 10") (simp_all add: number_of_text_def decimal_text_small decimal_text_two)

text \<open>
  The pins of Linux have names of their own. The name given for bank and pin of the device
  tree is that of the pin controller, the letter of the bank followed by the number of the pin,
  unabridged, and two pins with the same name are the same.
\<close>

theorem pin_names:
  assumes "bank < NUM_BANKS" and "pin < PINS_PER_BANK"
  shows "sunxi_pinctrl_pin_name 16 (fst (sunxi_pinctrl_gpio_of_xlate [bank, pin, flags]))
      = ''P'' @ [char_of (65 + bank)] @ decimal_text pin
    \<and> (\<forall>n < NUM_PINS. sunxi_pinctrl_pin_name 16 n = ''P'' @ [char_of (65 + bank)] @ decimal_text pin
         \<longrightarrow> n = bank * PINS_PER_BANK + pin)"
proof -
  have name: "sunxi_pinctrl_pin_name 16 n = ''P'' @ [char_of (65 + n div 32)] @ decimal_text (n mod 32)" for n
  proof -
    have "n mod 32 < 32" by simp
    then have "length (decimal_text (n mod 32)) \<le> 2" using length_decimal_text [of "n mod 32"] by linarith
    then show ?thesis by (simp add: sunxi_pinctrl_pin_name_def PINS_PER_BANK_def Let_def)
  qed
  have "n = bank * 32 + pin" if "n < 512" "char_of (65 + n div 32) = (char_of (65 + bank) :: char)"
    "decimal_text (n mod 32) = decimal_text pin" for n
  proof -
    have "(of_char (char_of (65 + n div 32) :: char) :: nat) = of_char (char_of (65 + bank) :: char)" using that(2) by simp
    moreover have "n div 32 < 16" using that(1) by simp
    ultimately have "n div 32 = bank" using assms(1) by (simp add: NUM_BANKS_def)
    moreover have "n mod 32 = pin"
      using that(3) number_of_decimal_text [of "n mod 32"] number_of_decimal_text [of pin] assms(2)
      by (simp add: PINS_PER_BANK_def)
    ultimately show ?thesis by (metis div_mult_mod_eq)
  qed
  then show ?thesis
    using assms(2) by (auto simp: name sunxi_pinctrl_gpio_of_xlate_def NUM_PINS_def NUM_BANKS_def PINS_PER_BANK_def Let_def)
qed

text \<open>At the first reset line of the rear camera.\<close>

theorem pin_names_witness:
  "sunxi_pinctrl_pin_name 16 (fst (sunxi_pinctrl_gpio_of_xlate [3, 3, 0])) = ''PD3''
   \<and> (\<forall>n < 512. sunxi_pinctrl_pin_name 16 n = ''PD3'' \<longrightarrow> n = 99)"
proof -
  have "''P'' @ [char_of (65 + 3 :: nat)] @ decimal_text 3 = ''PD3''" by code_simp
  with pin_names [of 3 3 0] show ?thesis by (simp add: NUM_BANKS_def PINS_PER_BANK_def NUM_PINS_def)
qed

text \<open>The pin of the touch screen's interrupt is \<^verbatim>\<open>PH4\<close>.\<close>

lemma touchscreen_pin_name: "sunxi_pinctrl_pin_name 16 touchscreen_pin = ''PH4''"
  by code_simp

lemma table_clock_no_hw:
  "list_all (\<lambda>e. ce_hw e = None) es \<Longrightarrow> list_all (\<lambda>e. ce_hw e = None) (snd (table_clock get parent con_id es))"
  by (induction get parent con_id es rule: table_clock.induct) (auto simp: Let_def split: prod.splits)

lemma table_clk_enable_nothing:
  "list_all (\<lambda>e. ce_hw e = None) es \<Longrightarrow> table_clk_enable clk es = []"
  by (auto simp: table_clk_enable_def table_lookup_hw_def list_all_iff split: option.splits bind_splits
      dest: find_SomeD)

text \<open>Whatever clocks were looked up before, enabling one does nothing: the clocks are switched by the platform driver.\<close>

lemma clock_tables_enable_nothing:
  assumes "es \<in> {gpu_clock_mappings, mmc_clock_mappings, wifi_clock_mappings}"
  shows "table_clk_enable clk (fold (\<lambda>(nodes, con_id) es. snd (table_clk_get get nodes con_id es)) lookups es) = []"
proof (rule table_clk_enable_nothing)
  have "list_all (\<lambda>e. ce_hw e = None) es"
    using assms by (auto simp: gpu_clock_mappings_def mmc_clock_mappings_def wifi_clock_mappings_def mk_clock_entry_def)
  then show "list_all (\<lambda>e. ce_hw e = None)
      (fold (\<lambda>(nodes, con_id) es. snd (table_clk_get get nodes con_id es)) lookups es)"
  proof (induction lookups arbitrary: es)
    case (Cons l ls)
    obtain node parent con_id where l: "l = ((node, parent), con_id)" by (cases l) auto
    have "list_all (\<lambda>e. ce_hw e = None) (snd (table_clk_get get (node, parent) con_id es))"
      using table_clock_no_hw [OF Cons.prems, of get parent con_id]
      by (cases "table_clock get parent con_id es") (simp add: table_clk_get_def)
    with Cons.IH show ?case by (simp add: l)
  qed simp
qed

text \<open>A clock of the camera has the name it was asked for by, and an unknown name has no clock.\<close>

lemma camera_clock_names:
  "camera_clk_get con_id = Some i \<Longrightarrow> camera_clk_name (Some i) = con_id"
  "camera_clk_get con_id = None \<longleftrightarrow> con_id \<notin> fst ` set camera_clocks"
  by (auto simp: camera_clk_get_def camera_clk_name_def camera_clocks_def upt_rec split: if_splits)

end
