(* ===== verification/At_Terminal.thy ===== *)
theory At_Terminal
  imports At_Control
begin

text \<open>
  The terminal front end of the AT driver: \<^verbatim>\<open>src/driver/modem/at_protocol/terminal_modem.h\<close>.
  \<open>write\<close> is the terminal session's answer to a text, the number of bytes it took; \<open>received\<close>
  is what the terminal has to read.
\<close>

definition command_capacity :: nat where "command_capacity = 256"

definition eol :: string where "eol = [CHR 0x0D, CHR 0x0A]"

definition command_with_eol :: "string \<Rightarrow> string" where
  "command_with_eol cmd = genode_string command_capacity (cmd @ eol)"

datatype terminal_warning = Command_truncated | Command_too_large

text \<open>The text written, and the warnings.\<close>

definition send_command_to_modem :: "(string \<Rightarrow> nat) \<Rightarrow> string \<Rightarrow> string \<times> terminal_warning list" where
  "send_command_to_modem write cmd =
     (let text = command_with_eol cmd; len = length text in
      (take (write text) text,
       (if len = command_capacity then [Command_truncated] else [])
         @ (if write text \<noteq> len then [Command_too_large] else [])))"

definition read_from_modem :: "nat \<Rightarrow> string \<Rightarrow> string \<times> string" where
  "read_from_modem buf_len received = (take buf_len received, drop buf_len received)"

text \<open>
  A command that is too long for its line end is sent without it, and nobody is warned. A
  command ends in carriage return and newline exactly if it leaves room for them; the warning of
  a truncated command is never given, because the length of a text is always less than the
  capacity it is compared with.
\<close>

theorem truncation_unnoticed:
  assumes "length cmd < command_capacity" and "write (command_with_eol cmd) = length (command_with_eol cmd)"
  shows "snd (send_command_to_modem write cmd) = []
    \<and> (fst (send_command_to_modem write cmd) = cmd @ eol \<longleftrightarrow> length cmd \<le> command_capacity - 3)
    \<and> (length cmd = command_capacity - 1 \<longrightarrow> fst (send_command_to_modem write cmd) = cmd)"
proof -
  have "fst (send_command_to_modem write cmd) = command_with_eol cmd"
    by (simp add: send_command_to_modem_def Let_def assms(2) del: length_genode_string)
  then have sent: "fst (send_command_to_modem write cmd) = take 255 (cmd @ eol)"
    by (simp add: command_with_eol_def genode_string_def command_capacity_def)
  have unwarned: "snd (send_command_to_modem write cmd) = []"
    using assms(2) by (simp add: send_command_to_modem_def command_with_eol_def command_capacity_def Let_def)
  have "take 255 (cmd @ eol) = cmd @ eol \<longleftrightarrow> length cmd \<le> 253"
  proof
    assume "take 255 (cmd @ eol) = cmd @ eol"
    then have "length (take 255 (cmd @ eol)) = length (cmd @ eol)" by simp
    then show "length cmd \<le> 253" by (simp add: eol_def)
  qed (simp add: eol_def)
  then show ?thesis
    using assms(1) sent unwarned by (simp add: command_capacity_def)
qed

text \<open>The configured text of a ring operation may be that long.\<close>

theorem truncation_unnoticed_witness:
  "let cmd = mk_command (replicate 300 (CHR ''A''))
   in fst (send_command_to_modem length cmd) = cmd \<and> snd (send_command_to_modem length cmd) = []"
  using truncation_unnoticed [of "mk_command (replicate 300 (CHR ''A''))" length]
  by (simp add: command_capacity_def genode_string_def Let_def)

end
