(* ===== verification/Pin_Pulse.thy ===== *)
theory Pin_Pulse
  imports Complex_Main Config_Node
begin

text \<open>
  The pin-pulse application: \<^verbatim>\<open>src/app/pin_pulse/main.cc\<close>, which dims an LED by pulse-width
  modulation with a ratio that goes up and down. Floating-point numbers are rational numbers; the
  step of the ratio is infinite (\<open>None\<close>) if a pulse is shorter than a period. The output of the
  handlers is the time-out in microseconds and the level of the pin.
\<close>

record pin_pulse =
  pcm_period_ms :: nat
  pulse_ms :: nat
  direction_up :: bool
  curr_signal :: bool
  low_high_ratio :: rat

definition pulse_init :: pin_pulse where
  "pulse_init = \<lparr>pcm_period_ms = 0, pulse_ms = 0, direction_up = True, curr_signal = False, low_high_ratio = 0\<rparr>"

definition periods_per_pulse :: "pin_pulse \<Rightarrow> nat" where
  "periods_per_pulse s = pulse_ms s div pcm_period_ms s"

definition ratio_step :: "pin_pulse \<Rightarrow> rat option" where
  "ratio_step s = (if periods_per_pulse s = 0 then None else Some (1 / of_nat (periods_per_pulse s)))"

text \<open>The ratio of the next period; a sum with an infinite step is beyond every bound.\<close>

definition next_ratio :: "pin_pulse \<Rightarrow> pin_pulse" where
  "next_ratio s =
     (if direction_up s then
        case ratio_step s of None \<Rightarrow> s\<lparr>low_high_ratio := 1, direction_up := False\<rparr>
        | Some st \<Rightarrow> let r = low_high_ratio s + st in
            if r > 1 then s\<lparr>low_high_ratio := 1, direction_up := False\<rparr> else s\<lparr>low_high_ratio := r\<rparr>
      else
        case ratio_step s of None \<Rightarrow> s\<lparr>low_high_ratio := 0, direction_up := True\<rparr>
        | Some st \<Rightarrow> let r = low_high_ratio s - st in
            if r < 0 then s\<lparr>low_high_ratio := 0, direction_up := True\<rparr> else s\<lparr>low_high_ratio := r\<rparr>)"

definition pulse_handle_timer :: "pin_pulse \<Rightarrow> (int \<times> bool) option \<times> pin_pulse" where
  "pulse_handle_timer s =
     (if pcm_period_ms s = 0 \<or> pulse_ms s = 0 then (None, s) else
      let (us, s) = (if \<not> curr_signal s
            then let s = next_ratio s in (\<lfloor>1000 * of_nat (pcm_period_ms s) * low_high_ratio s\<rfloor>, s)
            else (\<lfloor>1000 * of_nat (pcm_period_ms s) * (1 - low_high_ratio s)\<rfloor>, s));
          s = s\<lparr>curr_signal := \<not> curr_signal s\<rparr>
      in (Some (us, curr_signal s), s))"

definition pulse_handle_config :: "(string \<Rightarrow> nat option) \<Rightarrow> node \<Rightarrow> pin_pulse \<Rightarrow> (int \<times> bool) option \<times> pin_pulse" where
  "pulse_handle_config num_of config s = pulse_handle_timer
     (s\<lparr>pcm_period_ms := attribute_as num_of config ''pcm_period_ms'' 15,
        pulse_ms := attribute_as num_of config ''pulse_ms'' 500\<rparr>)"

section \<open>Properties\<close>

datatype pulse_event = Timer | Config node

fun pulse_step :: "(string \<Rightarrow> nat option) \<Rightarrow> pulse_event \<Rightarrow> pin_pulse \<Rightarrow> (int \<times> bool) option \<times> pin_pulse" where
  "pulse_step num_of Timer s = pulse_handle_timer s"
| "pulse_step num_of (Config n) s = pulse_handle_config num_of n s"

text \<open>A run, starting with the first configuration.\<close>

definition pulse_run :: "(string \<Rightarrow> nat option) \<Rightarrow> pulse_event list \<Rightarrow> pin_pulse" where
  "pulse_run num_of es = fold (\<lambda>e s. snd (pulse_step num_of e s)) es pulse_init"

definition ratio_ok :: "pin_pulse \<Rightarrow> bool" where
  "ratio_ok s \<longleftrightarrow> 0 \<le> low_high_ratio s \<and> low_high_ratio s \<le> 1"

lemma next_ratio_ok: "ratio_ok s \<Longrightarrow> ratio_ok (next_ratio s) \<and> pcm_period_ms (next_ratio s) = pcm_period_ms s
    \<and> curr_signal (next_ratio s) = curr_signal s"
proof -
  assume ok: "ratio_ok s"
  have "0 \<le> st" if "ratio_step s = Some st" for st
    using that by (auto simp: ratio_step_def split: if_splits)
  with ok show ?thesis by (auto simp: next_ratio_def ratio_ok_def Let_def split: option.splits)
qed

lemma pulse_handle_timer_ok:
  assumes "ratio_ok s" and "pulse_handle_timer s = (out, s')"
  shows "ratio_ok s'" and "out = Some (us, level) \<Longrightarrow> 0 \<le> us \<and> us \<le> 1000 * int (pcm_period_ms s) \<and> level = (\<not> curr_signal s)"
proof -
  have bounds: "0 \<le> \<lfloor>1000 * of_nat p * r\<rfloor> \<and> \<lfloor>1000 * of_nat p * r\<rfloor> \<le> 1000 * int p" if "0 \<le> r" "r \<le> 1" for p and r :: rat
  proof -
    have "1000 * of_nat p * r \<le> 1000 * of_nat p * (1 :: rat)" using that by (intro mult_left_mono) simp_all
    then have "\<lfloor>1000 * of_nat p * r\<rfloor> \<le> \<lfloor>of_int (1000 * int p) :: rat\<rfloor>" by (intro floor_mono) simp
    then have "\<lfloor>1000 * of_nat p * r\<rfloor> \<le> 1000 * int p" by (simp only: floor_of_int)
    with that show ?thesis by simp
  qed
  note next_ok = next_ratio_ok [OF assms(1)]
  show "ratio_ok s'"
    using assms next_ok by (auto simp: pulse_handle_timer_def ratio_ok_def Let_def split: if_splits)
  show "out = Some (us, level) \<Longrightarrow> 0 \<le> us \<and> us \<le> 1000 * int (pcm_period_ms s) \<and> level = (\<not> curr_signal s)"
    using assms(2) next_ok assms(1) bounds [of "low_high_ratio (next_ratio s)" "pcm_period_ms s"]
      bounds [of "1 - low_high_ratio s" "pcm_period_ms s"]
    by (auto simp: pulse_handle_timer_def ratio_ok_def Let_def split: if_splits)
qed

lemma ratio_ok_config: "ratio_ok s \<Longrightarrow> ratio_ok (s\<lparr>pcm_period_ms := a, pulse_ms := b\<rparr>)"
  by (simp add: ratio_ok_def)

lemma ratio_ok_run: "ratio_ok (pulse_run num_of es)"
proof (induction es rule: rev_induct)
  case Nil
  show ?case by (simp add: pulse_run_def pulse_init_def ratio_ok_def)
next
  case (snoc e es)
  have "ratio_ok (snd (pulse_handle_timer s))" if "ratio_ok s" for s
    using pulse_handle_timer_ok(1) [OF that, of "fst (pulse_handle_timer s)"] by simp
  with snoc show ?case
    by (cases e) (simp_all add: pulse_run_def pulse_handle_config_def ratio_ok_config)
qed

text \<open>
  The modulation stays within its bounds, whatever the configuration is changed to and even
  if a pulse is shorter than a period: the ratio of low and high is between 0 and 1, every
  time-out is between 0 and a whole period, and the level of the pin is inverted each time.
\<close>

theorem pulse_within_period:
  assumes "pulse_handle_timer (pulse_run num_of es) = (Some (us, level), s')"
  shows "0 \<le> low_high_ratio (pulse_run num_of es) \<and> low_high_ratio (pulse_run num_of es) \<le> 1
    \<and> 0 \<le> us \<and> us \<le> 1000 * int (pcm_period_ms (pulse_run num_of es))
    \<and> level = (\<not> curr_signal (pulse_run num_of es)) \<and> curr_signal s' = level"
proof -
  have "curr_signal s' = level"
    using assms next_ratio_ok [OF ratio_ok_run, of num_of es]
    by (auto simp: pulse_handle_timer_def Let_def split: if_splits)
  with pulse_handle_timer_ok(2) [OF ratio_ok_run assms refl] ratio_ok_run [of num_of es]
  show ?thesis by (simp add: ratio_ok_def)
qed

text \<open>At the default configuration: after its rising edge the level falls after the rest of the period.\<close>

theorem pulse_within_period_witness:
  "0 \<le> low_high_ratio (pulse_run (\<lambda>_. None) [Config (Node ''config'' [] [] [])])
    \<and> low_high_ratio (pulse_run (\<lambda>_. None) [Config (Node ''config'' [] [] [])]) \<le> 1"
proof -
  let ?s = "pulse_run (\<lambda>_. None) [Config (Node ''config'' [] [] [])]"
  have "pcm_period_ms ?s = 15" "pulse_ms ?s = 500"
    by (simp_all add: pulse_run_def pulse_handle_config_def pulse_handle_timer_def next_ratio_def
        attribute_as_def attribute_def pulse_init_def ratio_step_def periods_per_pulse_def Let_def)
  then obtain us level s' where "pulse_handle_timer ?s = (Some (us, level), s')"
    by (cases "curr_signal ?s") (auto simp: pulse_handle_timer_def Let_def)
  from pulse_within_period [OF this] show ?thesis by simp
qed

end
