(* ===== verification/At_Settled.thy ===== *)
theory At_Settled
  imports At_Outstanding
begin

text \<open>
  The AT driver comes to rest: after a command was sent, applying the same configuration again
  sends nothing as long as the modem is silent. \<open>rests s config c\<close> collects what a pass of
  \<open>apply_config\<close> establishes and the next pass needs in order to leave the submitted operation
  alone.
\<close>

section \<open>What a pass establishes\<close>

definition driven_ops :: "status \<Rightarrow> control \<Rightarrow> bool" where
  "driven_ops s c \<longleftrightarrow> \<not> constructed c Reboot \<and> rdy s"

definition pin_entered :: "status \<Rightarrow> node \<Rightarrow> control \<Rightarrow> bool" where
  "pin_entered s config c \<longleftrightarrow> (let pin = attribute_string 8 config ''pin'' [] in
     constructed c Set_pin \<and> cpin s = Some ''SIM PIN'' \<and> 1 < str_length (Some pin)
       \<longrightarrow> pin = current_pin c)"

definition rests :: "status \<Rightarrow> node \<Rightarrow> control \<Rightarrow> bool" where
  "rests s config c \<longleftrightarrow> (constructed c Check_ready \<longrightarrow> \<not> at_ok s)
     \<and> (driven_ops s c \<longrightarrow> (constructed c Disable_echo \<longrightarrow> \<not> echo_disabled s \<and> at_ok s)
         \<and> (echo_disabled s \<longrightarrow> \<not> reboot_needed (st_qcfg s) \<and> pin_entered s config c
             \<and> (constructed c Request_call_list \<longrightarrow> \<not> (ready_for_telephony s \<and> clcc_up_to_date s))
             \<and> (has_sub_node ''ring'' config \<longrightarrow> current_ring_count c = ring_count s)))"

lemmas late_step_defs = apply_power_def apply_hang_up_def apply_call_def apply_ring_def

lemma pin_entered_apply_pin: "pin_entered s config (apply_pin s (attribute_string 8 config ''pin'' []) c)"
  by (auto simp: pin_entered_def apply_pin_def Let_def split: option.split)

lemma pin_entered_later:
  "pin_entered s config (apply_power s p c) = pin_entered s config c"
  "pin_entered s config (apply_hang_up s config' c) = pin_entered s config c"
  "pin_entered s config (keep_call_list_up_to_date s c) = pin_entered s config c"
  "pin_entered s config (apply_call s call c) = pin_entered s config c"
  "pin_entered s config (apply_ring s ring c) = pin_entered s config c"
  by (auto simp: pin_entered_def late_step_defs keep_call_list_up_to_date_def Let_def split: option.split)

lemma constructed_later:
  "y \<noteq> Power_down \<Longrightarrow> constructed (apply_power s p c) y = constructed c y"
  "y \<noteq> Hang_up \<Longrightarrow> constructed (apply_hang_up s config c) y = constructed c y"
  "y \<noteq> Request_call_list \<Longrightarrow> constructed (keep_call_list_up_to_date s c) y = constructed c y"
  "y \<noteq> Accept_call \<Longrightarrow> y \<noteq> Initiate_call \<Longrightarrow> constructed (apply_call s call c) y = constructed c y"
  "y \<noteq> Ring \<Longrightarrow> constructed (apply_ring s ring c) y = constructed c y"
  "y \<notin> {Request_pin_state, Set_pin, Request_pin_count} \<Longrightarrow> constructed (apply_pin s p c) y = constructed c y"
  by (auto simp: late_step_defs keep_call_list_up_to_date_def apply_pin_def Let_def split: option.split)

lemma apply_qcfg_reboot:
  "constructed (apply_qcfg s c) Reboot \<or> \<not> reboot_needed (st_qcfg s)"
  "constructed (apply_qcfg s c) Disable_echo \<Longrightarrow> constructed c Disable_echo"
  by (auto simp: apply_qcfg_def Let_def split: option.splits if_splits)

lemma ring_count_apply_ring: "current_ring_count (apply_ring s ring c) = ring_count s"
  by (simp add: apply_ring_def)

lemma call_list_kept:
  "constructed (keep_call_list_up_to_date s c) Request_call_list
     \<Longrightarrow> \<not> (ready_for_telephony s \<and> clcc_up_to_date s) \<or> \<not> ready_for_telephony s"
  by (auto simp: keep_call_list_up_to_date_def split: if_splits)

text \<open>The three ways through \<open>apply_config_ops\<close>.\<close>

definition late_ops :: "status \<Rightarrow> node \<Rightarrow> control \<Rightarrow> control" where
  "late_ops s config c = keep_call_list_up_to_date s (apply_hang_up s config
     (apply_power s (attribute_string 16 config ''power'' []) c))"

definition call_and_ring :: "status \<Rightarrow> node \<Rightarrow> control \<Rightarrow> control" where
  "call_and_ring s config c =
     (let c7 = (case sub_node ''call'' config of None \<Rightarrow> c | Some call \<Rightarrow> apply_call s call c)
      in case sub_node ''ring'' config of None \<Rightarrow> c7 | Some ring \<Rightarrow> apply_ring s ring c7)"

lemma apply_config_ops_cases:
  "\<not> driven_ops s c \<Longrightarrow> apply_config_ops s config c = c"
  "driven_ops s c \<Longrightarrow> \<not> echo_disabled s \<Longrightarrow>
    apply_config_ops s config c = conditional (at_ok s) Disable_echo disable_echo_command c"
  "driven_ops s c \<Longrightarrow> echo_disabled s \<Longrightarrow>
    apply_config_ops s config c = call_and_ring s config (late_ops s config
      (apply_pin s (attribute_string 8 config ''pin'' [])
        (apply_qcfg s (conditional False Disable_echo disable_echo_command c))))"
  unfolding driven_ops_def apply_config_ops_def late_ops_def call_and_ring_def Let_def
  by (simp_all split: option.split)

lemma rests_prepared: "rests s config (prepared s config c)"
proof -
  let ?c0 = "conditional (\<not> at_ok s) Check_ready check_ready_command (complete_operation s c)"
  let ?p = "prepared s config c"
  have ready: "constructed ?p Check_ready \<longrightarrow> \<not> at_ok s"
    using check_ready_not_constructed by blast
  consider (stop) "\<not> driven_ops s ?c0"
    | (echo) "driven_ops s ?c0" "\<not> echo_disabled s"
    | (all) "driven_ops s ?c0" "echo_disabled s" by blast
  then show ?thesis
  proof cases
    case stop
    then have "?p = ?c0" by (simp only: prepared_def apply_config_ops_cases simp_thms)
    then show ?thesis using stop by (simp only: rests_def constructed_conditional) simp
  next
    case echo
    then have "?p = conditional (at_ok s) Disable_echo disable_echo_command ?c0"
      by (simp only: prepared_def apply_config_ops_cases simp_thms)
    then show ?thesis using echo by (simp only: rests_def constructed_conditional) simp
  next
    case all
    define c2 where "c2 = apply_qcfg s (conditional False Disable_echo disable_echo_command ?c0)"
    define c3 where "c3 = apply_pin s (attribute_string 8 config ''pin'' []) c2"
    define c6 where "c6 = late_ops s config c3"
    have p: "?p = call_and_ring s config c6"
      using all by (simp only: prepared_def apply_config_ops_cases simp_thms c2_def c3_def c6_def)
    have same: "constructed ?p y = constructed c6 y" if "y \<in> {Reboot, Disable_echo, Request_call_list}" for y
      using that by (auto simp: p call_and_ring_def Let_def constructed_later split: option.split)
    have c6: "constructed c6 y = constructed c2 y" if "y \<in> {Reboot, Disable_echo}" for y
      using that by (auto simp: c6_def c3_def late_ops_def constructed_later)
    have echo: "\<not> constructed c2 Disable_echo"
      using apply_qcfg_reboot(2) unfolding c2_def by fastforce
    have reboot: "constructed c2 Reboot \<or> \<not> reboot_needed (st_qcfg s)"
      unfolding c2_def by (rule apply_qcfg_reboot(1))
    have pin: "pin_entered s config ?p"
      using pin_entered_apply_pin [of s config c2]
      by (simp add: p call_and_ring_def late_ops_def Let_def c6_def c3_def pin_entered_later split: option.split)
    have list: "constructed c6 Request_call_list \<Longrightarrow> \<not> (ready_for_telephony s \<and> clcc_up_to_date s)"
      using call_list_kept unfolding c6_def late_ops_def by blast
    have ring: "has_sub_node ''ring'' config \<Longrightarrow> current_ring_count ?p = ring_count s"
      by (auto simp: p call_and_ring_def Let_def has_sub_node_def ring_count_apply_ring split: option.split)
    show ?thesis
      using ready same c6 echo reboot pin list ring by (auto simp: rests_def driven_ops_def)
  qed
qed

section \<open>The next pass\<close>

text \<open>The status after the command \<open>a\<close> was sent, as far as the control part looks at it.\<close>

lemma submitted_constructed: "submitted c x \<Longrightarrow> constructed c x"
  by (auto simp: submitted_def constructed_def split: option.splits)

lemma submitted_step:
  assumes "submitted c x"
  shows "x = y \<longrightarrow> b \<Longrightarrow> submitted (conditional b y cmd c) x"
    and "\<not> st_error s \<Longrightarrow> submitted (apply_power s p c) x"
    and "submitted (apply_hang_up s config c) x"
    and "x \<noteq> Request_call_list \<or> \<not> (ready_for_telephony s \<and> clcc_up_to_date s)
      \<Longrightarrow> submitted (keep_call_list_up_to_date s c) x"
    and "submitted (apply_call s call c) x"
    and "current_ring_count c = ring_count s \<Longrightarrow> submitted (apply_ring s ring c) x"
  using assms submitted_constructed [OF assms]
  by (auto simp: conditional_def late_step_defs keep_call_list_up_to_date_def Let_def split: option.split)

lemma submitted_apply_qcfg:
  "submitted c x \<Longrightarrow> \<not> st_error s \<Longrightarrow> \<not> reboot_needed (st_qcfg s) \<Longrightarrow> submitted (apply_qcfg s c) x"
  "\<not> reboot_needed (st_qcfg s) \<Longrightarrow> current_pin (apply_qcfg s c) = current_pin c
     \<and> current_ring_count (apply_qcfg s c) = current_ring_count c
     \<and> (constructed (apply_qcfg s c) Set_pin \<longleftrightarrow> constructed c Set_pin)"
  using submitted_constructed [of c x]
  by (auto simp: apply_qcfg_def Let_def split: option.split)

lemma submitted_apply_pin:
  assumes "submitted c x" and "cme_error s = None" and "pin_entered s config c"
  shows "submitted (apply_pin s (attribute_string 8 config ''pin'' []) c) x"
    "current_ring_count (apply_pin s p c) = current_ring_count c"
  using assms submitted_constructed [OF assms(1)]
  by (cases "x = Set_pin"; auto simp: apply_pin_def pin_entered_def Let_def split: option.split)+

lemma ring_count_steps:
  "current_ring_count (apply_power s q c) = current_ring_count c"
  "current_ring_count (apply_hang_up s config c) = current_ring_count c"
  "current_ring_count (keep_call_list_up_to_date s c) = current_ring_count c"
  "current_ring_count (apply_call s call c) = current_ring_count c"
  using ring_steps by auto

lemma rests_keeps_submitted:
  assumes "rests s config c" and "submitted c x" and "\<not> ok s" and "\<not> st_error s" and "cme_error s = None"
  shows "submitted (prepared s config c) x"
proof -
  note step = submitted_step
  have con: "constructed c x" by (rule submitted_constructed [OF assms(2)])
  let ?c0 = "conditional (\<not> at_ok s) Check_ready check_ready_command (complete_operation s c)"
  have idle: "complete_operation s c = c" using assms(3) by (simp add: complete_operation_def)
  have c0: "submitted ?c0 x"
    unfolding idle by (rule step(1) [OF assms(2)]) (use assms(1) con in \<open>auto simp: rests_def\<close>)
  have driven: "driven_ops s ?c0 = driven_ops s c" by (simp add: driven_ops_def idle)
  consider (stop) "\<not> driven_ops s c"
    | (echo) "driven_ops s c" "\<not> echo_disabled s"
    | (all) "driven_ops s c" "echo_disabled s" by blast
  then show ?thesis
  proof cases
    case stop
    then have "prepared s config c = ?c0"
      using driven by (simp only: prepared_def apply_config_ops_cases simp_thms)
    with c0 show ?thesis by simp
  next
    case echo
    then have "prepared s config c = conditional (at_ok s) Disable_echo disable_echo_command ?c0"
      using driven by (simp only: prepared_def apply_config_ops_cases simp_thms)
    moreover have "x = Disable_echo \<longrightarrow> at_ok s"
      using echo assms(1) con by (auto simp: rests_def)
    ultimately show ?thesis using step(1) [OF c0] by (simp only:)
  next
    case all
    let ?pin = "attribute_string 8 config ''pin'' []"
    define c1 where "c1 = conditional False Disable_echo disable_echo_command ?c0"
    define c2 where "c2 = apply_qcfg s c1"
    define c3 where "c3 = apply_pin s ?pin c2"
    define c6 where "c6 = late_ops s config c3"
    have p: "prepared s config c = call_and_ring s config c6"
      using all driven
      by (simp only: prepared_def apply_config_ops_cases simp_thms c1_def c2_def c3_def c6_def)
    have facts: "\<not> reboot_needed (st_qcfg s)" "pin_entered s config c" "x \<noteq> Disable_echo"
      "x \<noteq> Request_call_list \<or> \<not> (ready_for_telephony s \<and> clcc_up_to_date s)"
      "has_sub_node ''ring'' config \<Longrightarrow> current_ring_count c = ring_count s"
      using all assms(1) con by (auto simp: rests_def)
    have c1: "submitted c1 x" "current_pin c1 = current_pin c" "current_ring_count c1 = current_ring_count c"
      "constructed c1 Set_pin = constructed c Set_pin"
      using step(1) [OF c0] facts(3) by (auto simp: c1_def idle)
    have c2: "submitted c2 x" "pin_entered s config c2" "current_ring_count c2 = current_ring_count c"
      using submitted_apply_qcfg(1) [OF c1(1) assms(4) facts(1)] submitted_apply_qcfg(2) [OF facts(1), of c1] c1 facts(2)
      by (auto simp: c2_def pin_entered_def Let_def)
    have c3: "submitted c3 x" "current_ring_count c3 = current_ring_count c"
      using submitted_apply_pin [OF c2(1) assms(5) c2(2)] c2(3) by (simp_all add: c3_def)
    have c6: "submitted c6 x" "current_ring_count c6 = current_ring_count c"
      unfolding c6_def late_ops_def using c3(2)
      by (auto simp: ring_count_steps intro!: step(4) step(3) step(2) c3(1) assms(4) facts(4))
    define c7 where "c7 = (case sub_node ''call'' config of None \<Rightarrow> c6 | Some call \<Rightarrow> apply_call s call c6)"
    have c7: "submitted c7 x" "current_ring_count c7 = current_ring_count c"
      using c6 step(5) [OF c6(1)] by (simp_all add: c7_def ring_count_steps split: option.split)
    have "sub_node ''ring'' config = Some ring \<Longrightarrow> submitted (apply_ring s ring c7) x" for ring
      using step(6) [OF c7(1)] c7(2) facts(5) by (simp add: has_sub_node_def)
    then show ?thesis
      using c7(1) by (simp add: p call_and_ring_def Let_def flip: c7_def split: option.split)
  qed
qed

text \<open>After a command was sent, the same configuration sends nothing.\<close>

lemma no_second_command:
  assumes "apply_config s config c = (c', Some a)"
  shows "apply_config (command_submitted a s) config c' = (prepared (command_submitted a s) config c', None)"
proof -
  let ?s = "command_submitted a s" and ?p = "prepared s config c"
  obtain x where x: "op_pending ?p x" and sub: "submitted c' x"
    and same: "\<And>y. y \<noteq> x \<Longrightarrow> slots c' y = slots ?p y" and pin: "current_pin c' = current_pin ?p"
    and ring: "current_ring_count c' = current_ring_count ?p"
    using submit_one_Some [OF apply_config_Some(2) [OF assms]] by metis
  have con: "constructed c' y = constructed ?p y" for y
    using x submitted_constructed [OF sub] same [of y]
    by (cases "y = x") (auto simp: constructed_def op_pending_def split: option.splits)
  have "rests s config c'"
    using rests_prepared [of s config c]
    by (simp add: rests_def driven_ops_def pin_entered_def con pin ring Let_def)
  then have "rests ?s config c'"
    by (auto simp: rests_def driven_ops_def pin_entered_def ready_for_telephony_def command_submitted_fields)
  then have "submitted (prepared ?s config c') x"
    by (rule rests_keeps_submitted [OF _ sub]) (simp_all add: command_submitted_fields)
  then show ?thesis
    by (auto simp: apply_config_prepared any_in_flight_iff)
qed

section \<open>Progress of a call of the driver\<close>

definition amount :: "string list \<Rightarrow> nat" where
  "amount segs = sum_list (map length segs)"

lemma amount_append [simp]: "amount (xs @ ys) = amount xs + amount ys"
  by (simp add: amount_def)

lemma receive_amount:
  "receive mll fn buf s segs = (buf', s', segs') \<Longrightarrow>
    amount segs' \<le> amount segs \<and> (s' = s \<or> amount segs' < amount segs)"
proof (induction mll fn buf s segs arbitrary: buf' s' segs' rule: receive.induct)
  case (1 mll fn buf s segs)
  obtain r b1 segs1 where f: "fill mll buf segs = (r, b1, segs1)" by (cases "fill mll buf segs")
  have le: "amount segs1 + (if r = DATA then 1 else 0) \<le> amount segs"
    using f by (auto simp: fill_def Let_def amount_def Suc_le_eq split: prod.splits if_splits
      dest!: chan_read_length simp flip: length_greater_0_conv)
  show ?case
  proof (cases r)
    case DATA
    obtain b2 s2 where c: "consume_lines mll fn b1 s = (b2, s2)" by fastforce
    then have "receive mll fn b2 s2 segs1 = (buf', s', segs')"
      using "1.prems" f DATA by (simp add: receive.simps [of mll fn buf])
    then show ?thesis using "1.IH" [OF f [symmetric]] DATA c le by fastforce
  next
    case DONE
    then show ?thesis using "1.prems" f le by (simp add: receive.simps [of mll fn buf])
  qed
qed

text \<open>
  A call of the AT driver takes something from the modem, or changes nothing, or sends a
  command and has nothing more to send.
\<close>

definition would_send :: "node \<Rightarrow> driver \<Rightarrow> bool" where
  "would_send config d \<longleftrightarrow> snd (apply_config (drv_status d) config (drv_control d)) \<noteq> None"

lemma drv_apply_progress:
  assumes "drv_apply scan mll config segs d = (d', cmd, rest)"
  shows "amount rest \<le> amount segs"
    and "amount rest < amount segs \<or> version (drv_status d') = version (drv_status d)
      \<or> (would_send config d \<and> \<not> would_send config d')"
proof -
  obtain buf s ctl where r: "receive mll (apply_line scan) (read_buffer d) (drv_status d) segs = (buf, s, rest)"
    and c: "apply_config s config (drv_control d) = (ctl, cmd)"
    and d': "drv_status d' = filter_command cmd s" "drv_control d' = ctl"
    using assms by (elim drv_apply_parts)
  show "amount rest \<le> amount segs" using receive_amount [OF r] by simp
  show "amount rest < amount segs \<or> version (drv_status d') = version (drv_status d)
      \<or> (would_send config d \<and> \<not> would_send config d')"
  proof (cases "s = drv_status d")
    case True
    then show ?thesis
      using c d' no_second_command [of s config "drv_control d" ctl]
      by (cases cmd) (simp_all add: filter_command_def would_send_def)
  qed (use receive_amount [OF r] in simp)
qed

end
