(* ===== verification/Modem_Termination.thy ===== *)
theory Modem_Termination
  imports Modem_Props At_Settled
begin

text \<open>
  The loop of the modem driver's configuration handler (\<^verbatim>\<open>_handle_config\<close> in
  \<^verbatim>\<open>src/driver/modem/pinephone/main.cc\<close>) has no bound of its own: it repeats until neither the
  power sequence nor the AT protocol makes progress. It returns if the modem falls silent, and it
  does not if the modem keeps talking.
\<close>

section \<open>What is left to receive\<close>

definition pending_data :: "world \<Rightarrow> nat \<Rightarrow> modem \<Rightarrow> nat" where
  "pending_data w N m = amount (md_unread m) + (\<Sum>n = md_received m..<N. amount (w_arrivals w n))"

lemma at_apply_progress:
  assumes "md_driver m = Some d" and "\<forall>n \<ge> N. w_arrivals w n = []"
  obtains d' where "md_driver (at_apply w config m) = Some d'"
    and "pending_data w N (at_apply w config m) \<le> pending_data w N m"
    and "pending_data w N (at_apply w config m) < pending_data w N m
      \<or> version (drv_status d') = version (drv_status d) \<or> (would_send config d \<and> \<not> would_send config d')"
proof -
  let ?segs = "md_unread m @ w_arrivals w (md_received m)"
  obtain d' cmd rest where a: "drv_apply (w_tokens w) 256 config ?segs d = (d', cmd, rest)"
    by (cases "drv_apply (w_tokens w) 256 config ?segs d")
  have m': "md_driver (at_apply w config m) = Some d'" "md_unread (at_apply w config m) = rest"
    "md_received (at_apply w config m) = md_received m + 1"
    using assms(1) a by (simp_all add: at_apply_def)
  have "amount (w_arrivals w (md_received m)) + (\<Sum>n = md_received m + 1..<N. amount (w_arrivals w n))
      = (\<Sum>n = md_received m..<N. amount (w_arrivals w n))"
  proof (cases "md_received m < N")
    case True
    then show ?thesis by (simp add: sum.atLeast_Suc_lessThan)
  next
    case False
    then show ?thesis using assms(2) by (simp add: amount_def)
  qed
  then have "pending_data w N (at_apply w config m) + amount ?segs = pending_data w N m + amount rest"
    by (simp add: pending_data_def m')
  then show ?thesis
    using drv_apply_progress [OF a] m'(1) by (intro that [of d']) auto
qed

section \<open>The order of the states\<close>

text \<open>
  With a fixed configuration the states are passed in one direction: towards power-off if it
  asks for that, otherwise towards power-on, through power-off if a shutdown is under way.
\<close>

fun rank :: "bool \<Rightarrow> power_state \<Rightarrow> nat" where
  "rank True POWERING_ON = 5"
| "rank True AT_PROTOCOL = 4"
| "rank True AT_BUSY = 4"
| "rank True POWER_ON = 4"
| "rank True AT_SHUTDOWN = 3"
| "rank True AT_GRACE_DELAY = 2"
| "rank True POWERING_OFF = 1"
| "rank True POWER_OFF = 0"
| "rank True UNKNOWN = 0"
| "rank False AT_SHUTDOWN = 6"
| "rank False AT_GRACE_DELAY = 5"
| "rank False POWERING_OFF = 4"
| "rank False POWER_OFF = 3"
| "rank False UNKNOWN = 3"
| "rank False POWERING_ON = 2"
| "rank False AT_PROTOCOL = 1"
| "rank False AT_BUSY = 1"
| "rank False POWER_ON = 1"

definition going_off :: "world \<Rightarrow> node \<Rightarrow> bool" where
  "going_off w config \<longleftrightarrow> \<not> config_flag w config ''power'' True"

lemma going_off_not_on: "going_off w config \<Longrightarrow> \<not> config_flag w config ''power'' False"
  by (auto simp: going_off_def config_flag_def attribute_as_def split: option.splits)

lemma power_state_rank:
  "md_state (apply_power_state w config m) = md_state m
   \<or> rank (going_off w config) (md_state (apply_power_state w config m)) < rank (going_off w config) (md_state m)"
  using going_off_not_on [of w config]
  by (cases "going_off w config"; cases "md_state m")
    (auto simp: apply_power_state_def clock_defs Let_def drive_powering_on_def drive_at_shutdown_def
      check_power_off_state going_off_def split: option.split)

text \<open>While a state does not change, the power sequence has one more step at most.\<close>

definition power_steps :: "modem \<Rightarrow> nat" where
  "power_steps m = (if pw_state (md_power m) = PW_SHUTTING_DOWN
     \<or> md_state m = POWERING_ON \<and> pw_state (md_power m) = PW_STARTING_UP then 0 else 1)"

lemma power_enabled_state:
  "pw_state (power_enabled sense True p) \<in> {PW_SHUTTING_DOWN, PW_STARTING_UP, PW_ON}"
  "pw_state (power_enabled sense False p) \<in> {PW_SHUTTING_DOWN, PW_OFF}"
  "pw_state p = PW_SHUTTING_DOWN \<Longrightarrow> pw_state (power_enabled sense True p) = PW_SHUTTING_DOWN"
  "pw_state p = PW_STARTING_UP \<Longrightarrow> pw_state (power_enabled sense True p) \<in> {PW_STARTING_UP, PW_ON}"
  by (cases "pw_state p"; simp add: power_enabled_def read_status_def settle_results Let_def)+

lemma power_of_powering:
  "md_state m = POWERING_ON \<Longrightarrow>
    md_power (apply_power_state w config m) = power_enabled (w_sense w) True (md_power m)"
  "md_state m = POWERING_OFF \<Longrightarrow>
    md_power (apply_power_state w config m) = power_enabled (w_sense w) False (md_power m)"
  by (simp_all add: apply_power_state_def drive_powering_on_def Let_def)

lemma still_powering:
  "md_state m = POWERING_ON \<Longrightarrow> md_state (apply_power_state w config m) = POWERING_ON \<Longrightarrow>
    pw_state (power_enabled (w_sense w) True (md_power m)) \<noteq> PW_ON"
  "md_state m = POWERING_OFF \<Longrightarrow> md_state (apply_power_state w config m) = POWERING_OFF \<Longrightarrow>
    pw_state (power_enabled (w_sense w) False (md_power m)) \<noteq> PW_OFF"
  by (auto simp: apply_power_state_def drive_powering_on_def check_power_off_state pw_on_def pw_off_def Let_def
      split: option.splits if_splits)

lemma same_state_power:
  assumes "md_state (apply_power_state w config m) = md_state m" and "md_state m \<in> {POWERING_ON, POWERING_OFF}"
    and "pw_state (md_power (apply_power_state w config m)) \<noteq> pw_state (md_power m)"
  shows "power_steps (apply_power_state w config m) < power_steps m"
proof (cases "md_state m = POWERING_ON")
  case True
  let ?q = "power_enabled (w_sense w) True (md_power m)"
  have "pw_state ?q \<noteq> PW_ON" using still_powering(1) True assms(1) by simp
  then have "pw_state ?q = PW_SHUTTING_DOWN \<or> pw_state ?q = PW_STARTING_UP"
    and "pw_state (md_power m) \<noteq> PW_SHUTTING_DOWN" and "pw_state (md_power m) \<noteq> PW_STARTING_UP"
    using power_enabled_state [where sense = "w_sense w" and p = "md_power m"] assms(3)
    by (auto simp: power_of_powering(1) [OF True])
  then show ?thesis using True assms(1) by (auto simp: power_steps_def power_of_powering(1))
next
  case False
  then have off: "md_state m = POWERING_OFF" using assms(2) by simp
  let ?q = "power_enabled (w_sense w) False (md_power m)"
  have "pw_state ?q \<noteq> PW_OFF" using still_powering(2) off assms(1) by simp
  then have "pw_state ?q = PW_SHUTTING_DOWN"
    using power_enabled_state(2) [where sense = "w_sense w" and p = "md_power m"] by auto
  then show ?thesis using off assms(1,3) by (auto simp: power_steps_def power_of_powering(2))
qed

lemma same_state_frame:
  assumes "md_state (apply_power_state w config m) = md_state m"
  shows "md_driver (apply_power_state w config m) = md_driver m"
    and "md_unread (apply_power_state w config m) = md_unread m"
    and "md_received (apply_power_state w config m) = md_received m"
    and "md_state m \<notin> {POWERING_ON, POWERING_OFF} \<Longrightarrow> md_power (apply_power_state w config m) = md_power m"
  using assms
  by (cases "md_state m";
      auto simp: apply_power_state_def clock_defs Let_def drive_powering_on_def drive_at_shutdown_def
        check_power_off_def split: option.splits if_splits)+

section \<open>The loop returns\<close>

definition would_send_next :: "node \<Rightarrow> modem \<Rightarrow> bool" where
  "would_send_next config m = (case md_driver m of None \<Rightarrow> False | Some d \<Rightarrow> would_send config d)"

definition pass_order :: "world \<Rightarrow> node \<Rightarrow> nat \<Rightarrow> (modem \<times> modem) set" where
  "pass_order w config N = inv_image (less_than <*lex*> less_than <*lex*> less_than <*lex*> less_than)
     (\<lambda>m. (rank (going_off w config) (md_state m), power_steps m, pending_data w N m,
       if would_send_next config m then 1 else (0::nat)))"

lemma wf_pass_order: "wf (pass_order w config N)"
  by (simp add: pass_order_def wf_lex_prod)

lemma config_pass_decreases:
  assumes "config_pass w config m = (True, m')" and silent: "\<forall>n \<ge> N. w_arrivals w n = []"
  shows "(m', m) \<in> pass_order w config N"
proof -
  let ?m1 = "apply_power_state w config m"
  note parts = config_pass_parts [OF assms(1)]
  show ?thesis
  proof (cases "md_state ?m1 = md_state m")
    case False
    then show ?thesis using power_state_rank [of w config m] by (simp add: pass_order_def parts(2))
  next
    case same: True
    note frame = same_state_frame [OF same]
    have steps: "power_steps m' = power_steps ?m1" by (simp add: power_steps_def parts(2,3))
    have "fst (config_pass w config m) \<longleftrightarrow>
        pw_state (md_power m) \<noteq> pw_state (md_power (snd (config_pass w config m)))
        \<or> at_version m \<noteq> at_version (snd (config_pass w config m))"
      by (simp add: config_pass_def Let_def)
    then have progress: "pw_state (md_power m) \<noteq> pw_state (md_power ?m1) \<or> at_version m \<noteq> at_version m'"
      by (simp add: assms(1) parts(3))
    show ?thesis
    proof (cases "pw_state (md_power m) = pw_state (md_power ?m1)")
      case False
      then have "power_steps ?m1 < power_steps m"
        using same_state_power [OF same] frame(4) by metis
      then show ?thesis using same by (simp add: pass_order_def parts(2) steps)
    next
      case pw: True
      have moved: "md_driver m' \<noteq> md_driver ?m1" using progress pw frame(1) by (auto simp: at_version_def)
      then have m': "m' = at_apply w config ?m1" using parts(1) by (auto split: if_splits)
      then obtain d where d: "md_driver ?m1 = Some d" using moved by (cases "md_driver ?m1") auto
      obtain d' where d': "md_driver m' = Some d'" and le: "pending_data w N m' \<le> pending_data w N ?m1"
        and less: "pending_data w N m' < pending_data w N ?m1
          \<or> version (drv_status d') = version (drv_status d) \<or> (would_send config d \<and> \<not> would_send config d')"
        using at_apply_progress [OF d silent] unfolding m' by metis
      have "version (drv_status d') \<noteq> version (drv_status d)"
        using progress pw d d' frame(1) by (auto simp: at_version_def)
      moreover have "pending_data w N ?m1 = pending_data w N m" by (simp add: pending_data_def frame)
      moreover have "power_steps ?m1 = power_steps m" using same pw by (simp add: power_steps_def)
      ultimately show ?thesis
        using le less same d d' frame(1)
        by (auto simp: pass_order_def parts(2) steps would_send_next_def)
    qed
  qed
qed

text \<open>
  C30: the handler of the configuration returns, whatever the configuration, the state of the
  driver, the level of the status pin and the time are, if from some reception on the modem is
  silent. The power sequence and the AT driver do not keep each other busy.
\<close>

theorem handle_config_returns:
  assumes "\<forall>n \<ge> N. w_arrivals w n = []"
  shows "\<exists>m'. handle_config w config m = Some m'"
proof -
  have "\<exists>r. config_loop w config b p m = Some r" for b p
  proof (induction m arbitrary: p rule: wf_induct_rule [OF wf_pass_order [of w config N]])
    case (1 m)
    obtain progress m1 where pass: "config_pass w config m = (progress, m1)" by fastforce
    show ?case
    proof (cases progress)
      case True
      then have "\<exists>r. config_loop w config b True m1 = Some r"
        using config_pass_decreases [OF _ assms] pass 1 by simp
      with True pass show ?thesis by (subst config_loop.simps) auto
    qed (subst config_loop.simps, simp add: pass)
  qed
  then show ?thesis by (simp add: handle_config_def)
qed

section \<open>A modem that keeps talking\<close>

definition ring_text :: string where "ring_text = ''RING'' @ crlf"

lemma ring_received:
  "receive 256 fn [] s [ring_text] = ([], fn ''RING'' s, [])"
  by (simp add: ring_text_def receive.simps fill_def chan_read_def consume_lines.simps crlf_def end_of_line_def)

lemma ring_version_steps:
  "version (complete_command l s) = version s" "confirm_command ''RING'' s = s"
  "version (accept_call_list s) = version s" "gather_handshake ''RING'' s = s"
  "version (discard_outdated l s) = version s" "version (apply_counters ''RING'' s) = version s + 1"
  "apply_flags ''RING'' s = s" "apply_call_match scan ''RING'' s = s"
  "apply_qcfg_response scan ''RING'' s = s" "apply_attributes ''RING'' s = s"
  by (simp_all add: complete_command_def confirm_command_def accept_call_list_def gather_handshake_def
      discard_outdated_def clcc_out_of_date_def apply_counters_def apply_flags_def apply_call_match_def
      call_match_def apply_qcfg_response_def qcfg_query_response_def qcfg_assign_response_def
      apply_attributes_def line_helper_defs line_value_def line_starts_with_def Let_def split: option.split)

lemma ring_version:
  "version (apply_line scan ''RING'' s) = version s + 1"
  "busy_count (apply_line scan ''RING'' s) = busy_count s"
  by (simp_all add: apply_line_def ring_version_steps frame_simps)

definition talking :: "u32 \<Rightarrow> modem \<Rightarrow> bool" where
  "talking b m \<longleftrightarrow> md_state m = AT_PROTOCOL \<and> md_unread m = [] \<and> at_busy_count m = b
     \<and> (\<exists>d. md_driver m = Some d \<and> read_buffer d = [])"

lemma talking_pass:
  assumes "talking b m" and "w_arrivals w = (\<lambda>_. [ring_text])" and "config_flag w config ''power'' True"
  shows "fst (config_pass w config m)" and "talking b (snd (config_pass w config m))"
proof -
  obtain d where d: "md_driver m = Some d" "read_buffer d = []" "md_state m = AT_PROTOCOL" "md_unread m = []"
    using assms(1) by (auto simp: talking_def)
  have idle: "apply_power_state w config m = m"
    using d(3) assms(3) by (simp add: apply_power_state_def check_power_off_def)
  obtain d' cmd rest where a: "drv_apply (w_tokens w) 256 config [ring_text] d = (d', cmd, rest)"
    by (cases "drv_apply (w_tokens w) 256 config [ring_text] d")
  then have d': "rest = []" "read_buffer d' = []"
    "drv_status d' = filter_command cmd (apply_line (w_tokens w) ''RING'' (drv_status d))"
    by (auto elim!: drv_apply_parts simp: ring_received d(2))
  have m': "at_apply w config m = m\<lparr>md_driver := Some d', md_received := md_received m + 1, md_unread := [],
      md_sent := md_sent m @ (case cmd of None \<Rightarrow> [] | Some c \<Rightarrow> [c])\<rparr>"
    using a by (simp add: at_apply_def d assms(2) d'(1))
  have pass: "snd (config_pass w config m) = at_apply w config m"
    by (simp add: config_pass_def Let_def idle d drive_at_protocol_def)
  have "version (drv_status d') \<noteq> version (drv_status d)"
    by (cases cmd) (simp_all add: d'(3) filter_command_def command_submitted_def reset_command_def
        status_changed_def clcc_out_of_date_def ring_version Let_def add.assoc)
  then show "fst (config_pass w config m)"
    by (simp add: config_pass_def Let_def idle d drive_at_protocol_def m' at_version_def)
  have "busy_count (drv_status d') = busy_count (drv_status d)"
    by (cases cmd) (simp_all add: d'(3) filter_command_def command_submitted_def reset_command_def
        status_changed_def clcc_out_of_date_def ring_version Let_def)
  then show "talking b (snd (config_pass w config m))"
    using assms(1) unfolding pass by (simp add: talking_def m' d d'(2) at_busy_count_def drv_busy_count_def)
qed

text \<open>
  While the modem rings without a pause the handler does not return: every reception is
  progress, so the loop goes on, and with it the power button and the configuration wait.
\<close>

theorem endless_data_keeps_handler:
  assumes "talking b m" and "w_arrivals w = (\<lambda>_. [ring_text])" and "config_flag w config ''power'' True"
  shows "config_loop w config b p m = None"
proof -
  have "\<not> (talking b m \<and> w_arrivals w = (\<lambda>_. [ring_text]) \<and> config_flag w config ''power'' True)"
    if "config_loop w config b p m = Some r" for r
  proof (rule config_loop.raw_induct [where P = "\<lambda>w config b p m r.
      \<not> (talking b m \<and> w_arrivals w = (\<lambda>_. [ring_text]) \<and> config_flag w config ''power'' True)",
      OF _ that], rule notI, elim conjE)
    fix loop w config b p m r
    assume IH: "\<And>w config b p m r. loop w config b p m = Some r \<Longrightarrow>
        \<not> (talking b m \<and> w_arrivals w = (\<lambda>_. [ring_text]) \<and> config_flag w config ''power'' True)"
      and ends: "(case config_pass w config m of (progress, m) \<Rightarrow>
        if \<not> progress then Some (p, m) else if busy b m then Some (True, m) else loop w config b True m) = Some r"
      and inv: "talking b m" "w_arrivals w = (\<lambda>_. [ring_text])" "config_flag w config ''power'' True"
    have next_pass: "talking b (snd (config_pass w config m))" by (rule talking_pass(2) [OF inv])
    then have "\<not> busy b (snd (config_pass w config m))"
      by (auto simp: talking_def busy_def)
    then have "loop w config b True (snd (config_pass w config m)) = Some r"
      using ends talking_pass(1) [OF inv] by (simp add: case_prod_beta)
    with IH next_pass inv(2,3) show False by blast
  qed
  with assms show ?thesis by (cases "config_loop w config b p m") blast+
qed

text \<open>A driver that has just been started, in a calm world and with a modem that rings.\<close>

definition started_modem :: modem where
  "started_modem = (construct_driver init_modem)\<lparr>md_state := AT_PROTOCOL\<rparr>"

lemma endless_data_keeps_handler_witness:
  "config_loop ((calm_world (\<lambda>_. False) (\<lambda>_. 0))\<lparr>w_arrivals := (\<lambda>_. [ring_text])\<rparr>)
     (switch_config ''on'') 0 False started_modem = None"
  by (rule endless_data_keeps_handler)
    (simp_all add: talking_def started_modem_def init_modem_def at_busy_count_def new_at_driver_def
      init_driver_def drv_busy_count_def init_status_def construct_driver_def calm_world_def config_flag_def
      attribute_as_def attribute_def switch_config_def on_off_def)

lemma handle_config_returns_witness:
  "\<exists>m'. handle_config (calm_world (\<lambda>n. n = 0) (\<lambda>_. 0)) (switch_config ''on'') init_modem = Some m'"
  by (rule handle_config_returns [of 0]) (simp add: calm_world_def)

end
