(* ===== verification/At_Redial.thy ===== *)
theory At_Redial
  imports At_Settled At_Order
begin

text \<open>
  What the AT driver does when the other side hangs up. The configuration still asks for the
  call, and the driver remembers a rejection only for a call it has dialled itself
  (\<open>outbound_info\<close>). So it dials the number of the call that has just ended.
\<close>

text \<open>The driver at rest: the modem is set up, no operation is under way.\<close>

definition set_up :: "status \<Rightarrow> bool" where
  "set_up s \<longleftrightarrow> at_ok s \<and> echo_disabled s \<and> rdy s \<and> cpin s = Some ''READY''
     \<and> with_any_unknown_entry (st_qcfg s) = None \<and> with_any_mismatching_entry (st_qcfg s) = None
     \<and> \<not> reboot_needed (st_qcfg s)"

definition at_rest :: "driver \<Rightarrow> bool" where
  "at_rest d \<longleftrightarrow> set_up (drv_status d) \<and> read_buffer d = [] \<and> pending_command (drv_status d) = None
     \<and> slots (drv_control d) = (\<lambda>_. None) \<and> outbound_info (drv_control d) = None"

definition wants_call :: "node \<Rightarrow> string \<Rightarrow> bool" where
  "wants_call config number \<longleftrightarrow> attribute_string 16 config ''power'' [] \<noteq> ''off'' \<and> \<not> has_sub_node ''ring'' config
     \<and> (\<exists>call. sub_node ''call'' config = Some call \<and> attribute_string 50 call ''number'' [] = number
         \<and> (\<not> has_attribute call ''state'' \<or> call_has_state call ''accepted''))"

lemma nothing_constructed: "slots c = (\<lambda>_. None) \<Longrightarrow> \<not> constructed c x \<and> \<not> submitted c x"
  by (simp add: constructed_def submitted_def)

lemma prepared_at_rest:
  assumes "set_up s" and "slots c = (\<lambda>_. None)" and "outbound_info c = None"
    and "wants_call config number" and "cur_call s = None"
  shows "prepared s config c = (if clcc_up_to_date s
      then (construct Initiate_call (initiate_call_command number) (destruct Request_call_list c))
        \<lparr>outbound_info := Some \<lparr>ob_call = \<lparr>cc_number = number, cc_stat = DIALING\<rparr>,
           ob_no_carrier_count = no_carrier_count s\<rparr>\<rparr>
      else construct Request_call_list request_call_list_command c)"
proof -
  obtain call where call: "sub_node ''call'' config = Some call" "attribute_string 50 call ''number'' [] = number"
    "\<not> has_attribute call ''state'' \<or> call_has_state call ''accepted''" "sub_node ''ring'' config = None"
    "attribute_string 16 config ''power'' [] \<noteq> ''off''"
    using assms(4) by (auto simp: wants_call_def has_sub_node_def)
  have empty: "\<not> constructed c x" "\<not> submitted c x" "destruct x c = c" for x
    using nothing_constructed [OF assms(2), of x] assms(2) by (simp_all add: destruct_def)
  have "List.find (submitted c) op_order = None" by (simp add: find_None_iff_all empty)
  then have c0: "conditional (\<not> at_ok s) Check_ready check_ready_command (complete_operation s c) = c"
    using assms(1) by (simp add: conditional_def set_up_def complete_operation_def empty)
  have set_up: "at_ok s" "echo_disabled s" "rdy s" "cpin s = Some ''READY''" "ready_for_telephony s"
    "with_any_unknown_entry (st_qcfg s) = None" "with_any_mismatching_entry (st_qcfg s) = None"
    "\<not> reboot_needed (st_qcfg s)"
    using assms(1) by (simp_all add: set_up_def ready_for_telephony_def)
  have "apply_qcfg s c = c" "apply_pin s pin c = c" "apply_power s (attribute_string 16 config ''power'' []) c = c"
    "apply_hang_up s config c = c" for pin
    using set_up call(5) assms(3,5)
    by (simp_all add: apply_qcfg_def apply_pin_def apply_power_def apply_hang_up_def empty Let_def)
  then have "prepared s config c = apply_call s call (keep_call_list_up_to_date s c)"
    unfolding prepared_def c0 using set_up call(1,4) empty
    by (simp add: apply_config_ops_cases driven_ops_def conditional_def late_ops_def call_and_ring_def)
  also have "\<dots> = (if clcc_up_to_date s
      then (construct Initiate_call (initiate_call_command number) (destruct Request_call_list c))
        \<lparr>outbound_info := Some \<lparr>ob_call = \<lparr>cc_number = number, cc_stat = DIALING\<rparr>,
           ob_no_carrier_count = no_carrier_count s\<rparr>\<rparr>
      else construct Request_call_list request_call_list_command c)"
    using set_up call(2,3) assms(3,5)
    by (auto simp: keep_call_list_up_to_date_def apply_call_def empty Let_def rejected_def outbound_to_def)
  finally show ?thesis .
qed

lemma one_pending:
  assumes "\<And>y. op_pending c y \<longleftrightarrow> y = x" and "slots c x = Some \<lparr>op_state = PENDING, op_command = cmd\<rparr>"
  shows "submit_one_pending_operation c
    = (c\<lparr>slots := (slots c)(x \<mapsto> \<lparr>op_state = SUBMITTED, op_command = cmd\<rparr>)\<rparr>, Some cmd)"
proof -
  have "List.find (op_pending c) op_order = Some x"
  proof (cases "List.find (op_pending c) op_order")
    case None
    then have "\<not> op_pending c x" by (simp add: find_None_iff_all)
    then show ?thesis using assms(1) by simp
  next
    case (Some y)
    then show ?thesis using assms(1) [of y] find_SomeD [OF Some] by simp
  qed
  then show ?thesis using assms(2) by (simp add: submit_one_pending_operation_def)
qed

section \<open>The lines of a hang-up\<close>

lemma hangup_line_steps:
  "confirm_command ''NO CARRIER'' s = s" "gather_handshake ''NO CARRIER'' s = s"
  "complete_command ''NO CARRIER'' s = s" "apply_flags ''NO CARRIER'' s = s"
  "apply_call_match scan ''NO CARRIER'' s = s" "apply_qcfg_response scan ''NO CARRIER'' s = s"
  "apply_attributes ''NO CARRIER'' s = s" "discard_outdated ''NO CARRIER'' s = clcc_out_of_date s"
  "apply_counters ''NO CARRIER'' s = s\<lparr>no_carrier_count := no_carrier_count s + 1, version := version s + 1\<rparr>"
  by (simp_all add: complete_command_def confirm_command_def gather_handshake_def
      discard_outdated_def clcc_out_of_date_def apply_counters_def apply_flags_def apply_call_match_def
      call_match_def apply_qcfg_response_def qcfg_query_response_def qcfg_assign_response_def
      apply_attributes_def line_helper_defs line_value_def line_starts_with_def Let_def split: option.split)

lemma hangup_line:
  "set_up s \<Longrightarrow> set_up (apply_line scan ''NO CARRIER'' s)" "\<not> clcc_up_to_date (apply_line scan ''NO CARRIER'' s)"
  "cur_call (apply_line scan ''NO CARRIER'' s) = None"
  by (simp_all add: apply_line_def hangup_line_steps accept_call_list_def clcc_out_of_date_def set_up_def)

text \<open>The end of an empty list of calls.\<close>

lemma call_list_end_steps:
  "apply_attributes ''OK'' s = s" "apply_counters ''OK'' s = s" "discard_outdated ''OK'' s = s"
  "apply_call_match scan ''OK'' s = s" "pending_command s = Some ''AT+CLCC'' \<Longrightarrow> apply_qcfg_response scan ''OK'' s = s"
  "apply_flags ''OK'' s = s\<lparr>version := version s + 1, ok := True\<rparr>"
  "pending_command s = Some ''AT+CLCC'' \<Longrightarrow> gather_handshake ''OK'' s = s"
  "pending_command s = Some ''AT+CLCC'' \<Longrightarrow> confirm_command ''OK'' s = s\<lparr>clcc_up_to_date := True\<rparr>"
  "complete_command ''OK'' s = s\<lparr>pending_command := None\<rparr>"
  by (simp_all add: apply_attributes_def apply_counters_def discard_outdated_def apply_call_match_def call_match_def
      apply_qcfg_response_def qcfg_query_response_def qcfg_assign_response_def apply_flags_def gather_handshake_def
      confirm_command_def complete_command_def line_helper_defs line_value_def line_starts_with_def
      starts_with_def at_command_defs Let_def split: option.split)

lemma call_list_end:
  assumes "pending_command s = Some ''AT+CLCC''" and "set_up s" and "cur_call s = None"
  shows "set_up (apply_line scan ''OK'' s)" "clcc_up_to_date (apply_line scan ''OK'' s)"
    "cur_call (apply_line scan ''OK'' s) = None" "ok (apply_line scan ''OK'' s)"
  using assms by (simp_all add: apply_line_def call_list_end_steps accept_call_list_def set_up_def)

definition hangup_text :: string where "hangup_text = ''NO CARRIER'' @ crlf"
definition ok_text :: string where "ok_text = ''OK'' @ crlf"

lemma texts_received:
  "receive 256 fn [] s [hangup_text] = ([], fn ''NO CARRIER'' s, [])"
  "receive 256 fn [] s [ok_text] = ([], fn ''OK'' s, [])"
  by (simp_all add: hangup_text_def ok_text_def receive.simps fill_def chan_read_def consume_lines.simps crlf_def
      end_of_line_def)

text \<open>After the end of the call the list of calls is requested.\<close>

lemma hangup_requests_list:
  assumes "at_rest d" and "wants_call config number"
    and "drv_apply scan 256 config [hangup_text] d = (d1, cmd1, rest1)"
  shows "cmd1 = Some ''AT+CLCC''" and "drv_status d1 = command_submitted ''AT+CLCC'' (apply_line scan ''NO CARRIER'' (drv_status d))"
    and "read_buffer d1 = []"
    and "slots (drv_control d1) = (\<lambda>_. None)(Request_call_list \<mapsto>
      \<lparr>op_state = SUBMITTED, op_command = request_call_list_command\<rparr>)"
    and "outbound_info (drv_control d1) = None"
proof -
  let ?s = "apply_line scan ''NO CARRIER'' (drv_status d)" and ?c = "drv_control d"
  let ?list = "construct Request_call_list request_call_list_command ?c"
  have rest: "set_up (drv_status d)" "read_buffer d = []" "slots ?c = (\<lambda>_. None)" "outbound_info ?c = None"
    using assms(1) by (simp_all add: at_rest_def)
  have empty: "\<not> constructed ?c x" "\<not> submitted ?c x" "\<not> op_pending ?c x" for x
    using nothing_constructed [OF rest(3)] rest(3) by (simp_all add: op_pending_def)
  have "prepared ?s config ?c = ?list"
    using prepared_at_rest [OF hangup_line(1) [OF rest(1)] rest(3,4) assms(2) hangup_line(3)] hangup_line(2) by simp
  then have first: "apply_config ?s config ?c
      = (?list\<lparr>slots := (slots ?list)(Request_call_list \<mapsto>
           \<lparr>op_state = SUBMITTED, op_command = request_call_list_command\<rparr>)\<rparr>, Some request_call_list_command)"
    using one_pending [of ?list Request_call_list] empty
    by (auto simp: apply_config_prepared any_in_flight_iff)
  then show "cmd1 = Some ''AT+CLCC''" "drv_status d1 = command_submitted ''AT+CLCC'' ?s" "read_buffer d1 = []"
    and "slots (drv_control d1) = (\<lambda>_. None)(Request_call_list \<mapsto>
      \<lparr>op_state = SUBMITTED, op_command = request_call_list_command\<rparr>)"
    and "outbound_info (drv_control d1) = None"
    using assms(3) rest
    by (auto elim!: drv_apply_parts simp: texts_received filter_command_def request_call_list_command_def at_command_defs)
qed

text \<open>
  C12: when the other side ends a call that the driver did not dial itself, and the configuration
  still contains the call, the driver first requests the list of calls and, as soon as the list
  shows that there is none, dials the number: the end of the call is answered with calling back.
\<close>

theorem remote_hangup_redials:
  assumes "at_rest d" and "wants_call config number"
    and "drv_apply scan 256 config [hangup_text] d = (d1, cmd1, rest1)"
    and "drv_apply scan 256 config [ok_text] d1 = (d2, cmd2, rest2)"
  shows "cmd1 = Some ''AT+CLCC'' \<and> cmd2 = Some (initiate_call_command number)"
proof -
  note d1 = hangup_requests_list(1-3) [OF assms(1-3)] and slots1 = hangup_requests_list(4) [OF assms(1-3)]
    and info1 = hangup_requests_list(5) [OF assms(1-3)]
  have rest: "set_up (drv_status d)" using assms(1) by (simp add: at_rest_def)
  let ?s1 = "drv_status d1" and ?c1 = "drv_control d1" and ?s2 = "apply_line scan ''OK'' (drv_status d1)"
  have s1: "pending_command ?s1 = Some ''AT+CLCC''" "set_up ?s1" "cur_call ?s1 = None"
    using hangup_line(1) [OF rest]
    by (simp_all add: d1(2) command_submitted_def reset_command_def status_changed_def clcc_out_of_date_def
        at_command_defs set_up_def Let_def)
  note s2 = call_list_end [OF s1]
  have "List.find (submitted ?c1) op_order = Some Request_call_list"
    by (simp add: op_order_def submitted_def slots1)
  then have done1: "complete_operation ?s2 ?c1 = destruct Request_call_list ?c1"
    using s2(4) by (simp add: complete_operation_def)
  let ?empty = "destruct Request_call_list ?c1"
  have slots2: "slots ?empty = (\<lambda>_. None)" "outbound_info ?empty = None" by (auto simp: slots1 info1)
  have "List.find (submitted ?empty) op_order = None"
    using nothing_constructed [OF slots2(1)] by (simp add: find_None_iff_all)
  then have "prepared ?s2 config ?c1 = prepared ?s2 config ?empty"
    unfolding prepared_def done1 by (simp add: complete_operation_def)
  then have dials: "prepared ?s2 config ?c1
      = (construct Initiate_call (initiate_call_command number) (destruct Request_call_list ?empty))
        \<lparr>outbound_info := Some \<lparr>ob_call = \<lparr>cc_number = number, cc_stat = DIALING\<rparr>,
           ob_no_carrier_count = no_carrier_count ?s2\<rparr>\<rparr>"
    using prepared_at_rest [OF s2(1) slots2 assms(2) s2(3)] s2(2) by simp
  have "snd (apply_config ?s2 config ?c1) = Some (initiate_call_command number)"
    using one_pending [of "prepared ?s2 config ?c1" Initiate_call "initiate_call_command number"]
      nothing_constructed [OF slots2(1)]
    by (auto simp: apply_config_prepared any_in_flight_iff dials op_pending_def slots2(1) slots1)
  then show ?thesis
    using assms(4) d1(1,3) by (auto elim!: drv_apply_parts simp: texts_received)
qed

text \<open>A driver that has accepted a call: the state the witness starts in.\<close>

definition call_accepted :: driver where
  "call_accepted = \<lparr>drv_status = (init_status [])\<lparr>at_ok := True, echo_disabled := True, rdy := True,
       cpin := Some ''READY'', clcc_up_to_date := True,
       cur_call := Some \<lparr>cc_number = ''123'', cc_stat = ACTIVE\<rparr>\<rparr>,
     read_buffer = [], drv_control = init_control,
     current_call = Some \<lparr>cc_number = ''123'', cc_stat = ACTIVE\<rparr>\<rparr>"

definition accepting_config :: node where
  "accepting_config = Node ''config'' [] [] [Node ''call'' [(''number'', ''123'')] [] []]"

lemma remote_hangup_redials_witness:
  "let (d1, cmd1, _) = drv_apply token_scan 256 accepting_config [hangup_text] call_accepted;
       (d2, cmd2, _) = drv_apply token_scan 256 accepting_config [ok_text] d1
   in cmd1 = Some ''AT+CLCC'' \<and> cmd2 = Some ''ATD123;''"
proof -
  have "at_rest call_accepted" and "wants_call accepting_config ''123''"
    by (code_simp, simp add: wants_call_def accepting_config_def attribute_string_def attribute_def has_sub_node_def
        sub_node_def has_type_def has_attribute_def)
  moreover have "initiate_call_command ''123'' = ''ATD123;''" by (simp add: initiate_call_command_def)
  ultimately show ?thesis
    using remote_hangup_redials [of call_accepted accepting_config "''123''" token_scan]
    by (simp split: prod.split) blast
qed

text \<open>
  Accepting a call, with the responses arriving line by line. The list of calls shows the
  incoming call before its final "OK"; the driver sends "ATA" at once, takes the "OK" of the
  list for the answer to "ATA", requests the list again, and takes the "OK" that answers "ATA"
  for the end of that list: an empty one. So it dials the caller, whose call it has just
  accepted.
\<close>

definition caller_line :: string where
  "caller_line = ''+CLCC: 2,1,4,0,0,'' @ quoted ''123'' @ '',129'' @ crlf"

definition call_signalled :: driver where
  "call_signalled = call_accepted\<lparr>drv_status := (drv_status call_accepted)\<lparr>clcc_up_to_date := False,
     cur_call := None\<rparr>, current_call := None\<rparr>"

theorem accepting_dials_caller:
  "let (d1, cmd1, _) = drv_apply token_scan 256 accepting_config [] call_signalled;
       (d2, cmd2, _) = drv_apply token_scan 256 accepting_config [caller_line] d1;
       (d3, cmd3, _) = drv_apply token_scan 256 accepting_config [ok_text] d2;
       (d4, cmd4, _) = drv_apply token_scan 256 accepting_config [ok_text] d3
   in cmd1 = Some ''AT+CLCC'' \<and> cmd2 = Some ''ATA'' \<and> cmd3 = Some ''AT+CLCC'' \<and> cmd4 = Some ''ATD123;''
    \<and> pending_command (drv_status d3) = Some ''AT+CLCC''"
  by code_simp

end
