(* ===== verification/At_Modem_Sim.thy ===== *)
theory At_Modem_Sim
  imports At_Order At_Terminal
begin

text \<open>
  The simulated modem, the counterpart of the AT driver: \<^verbatim>\<open>src/test/at_protocol/modem.h\<close>. What it
  writes to the terminal is recorded with the delay before each text (\<open>sim_sent\<close>). It reads the
  commands with the read buffer of the driver, so \<open>receive\<close> is its loop as well. \<open>sim_line\<close> is
  the line in a comparison, one \<^verbatim>\<open>if\<close> of \<^verbatim>\<open>_handle_command\<close> after the other.
\<close>

record sim_modem =
  sim_buffer :: string
  check_ready_count :: u32
  pin_valid :: bool
  ringing :: bool
  call_established :: bool
  initiated_invalid_call :: bool
  initiated_valid_call :: bool
  audible_ring :: bool
  usbnet_ecm :: bool
  timeout_armed :: bool
  sim_sent :: "(nat \<times> string) list"

definition init_sim :: sim_modem where
  "init_sim = \<lparr>sim_buffer = [], check_ready_count = 0, pin_valid = False, ringing = False,
     call_established = False, initiated_invalid_call = False, initiated_valid_call = False,
     audible_ring = False, usbnet_ecm = False, timeout_armed = False, sim_sent = []\<rparr>"

definition modem_sends_delayed :: "string \<Rightarrow> nat \<Rightarrow> sim_modem \<Rightarrow> sim_modem" where
  "modem_sends_delayed s delay m = m\<lparr>sim_sent := sim_sent m @ [(delay, s @ eol)]\<rparr>"

definition modem_sends :: "string \<Rightarrow> sim_modem \<Rightarrow> sim_modem" where
  "modem_sends s m = modem_sends_delayed s 100 m"

definition sends_all :: "string list \<Rightarrow> sim_modem \<Rightarrow> sim_modem" where
  "sends_all ss m = fold modem_sends ss m"

definition schedule_timeout :: "sim_modem \<Rightarrow> sim_modem" where
  "schedule_timeout m = m\<lparr>timeout_armed := True\<rparr>"

section \<open>Commands\<close>

definition remote_commands :: "line \<Rightarrow> sim_modem \<Rightarrow> sim_modem" where
  "remote_commands l m =
     (let m = (if line_eq l ''remote: ring'' then schedule_timeout (m\<lparr>ringing := True\<rparr>) else m)
      in if line_eq l ''remote: hangup''
         then (modem_sends ''NO CARRIER'' (m\<lparr>ringing := False\<rparr>))\<lparr>call_established := False\<rparr> else m)"

definition handshake_commands :: "line \<Rightarrow> sim_modem \<Rightarrow> sim_modem" where
  "handshake_commands l m =
     (let m = (if line_eq l ''AT''
               then (let m = m\<lparr>check_ready_count := check_ready_count m + 1\<rparr>
                     in if check_ready_count m > 3 then modem_sends ''OK'' m else m) else m)
      in if line_eq l ''ATE0'' then modem_sends ''OK'' m else m)"

definition qcfg_commands :: "line \<Rightarrow> sim_modem \<Rightarrow> sim_modem" where
  "qcfg_commands l m =
     (let m = (if line_eq l (''AT+QCFG='' @ quoted ''urc/ri/smsincoming'')
               then sends_all [''+QCFG: '' @ quoted ''urc/ri/smsincoming'' @ '',pulse,120,1'', ''OK''] m else m);
          m = (if line_eq l (''AT+QCFG='' @ quoted ''usbnet'')
               then sends_all [''+QCFG: '' @ quoted ''usbnet'' @ (if usbnet_ecm m then '',1'' else '',0''), ''OK''] m
               else m);
          m = (if line_eq l (''AT+QCFG='' @ quoted ''usbnet'' @ '',1'')
               then modem_sends ''OK'' (m\<lparr>usbnet_ecm := True\<rparr>) else m)
      in if line_eq l ''AT+CFUN=1,1'' then modem_sends_delayed ''RDY'' 1000 (modem_sends ''OK'' m) else m)"

definition pin_commands :: "line \<Rightarrow> sim_modem \<Rightarrow> sim_modem" where
  "pin_commands l m =
     (let m = (if line_eq l ''AT+CPIN=4321'' then modem_sends ''+CME ERROR: 16'' m else m);
          m = (if line_eq l ''AT+CPIN?''
               then sends_all [if pin_valid m then ''+CPIN: READY'' else ''+CPIN: SIM PIN'', ''OK''] m else m);
          m = (if line_eq l ''AT+QPINC?''
               then sends_all [''+QPINC: '' @ quoted ''SC'' @ '',2,10'', ''+QPINC: '' @ quoted ''P2'' @ '',3,10'', ''OK''] m
               else m)
      in if line_eq l ''AT+CPIN=1234''
         then sends_all [''OK'', ''+CPIN: READY'', ''+QUSIM: 1'', ''+QIND: SMS DONE'', ''+QIND: PB DONE''] m else m)"

text \<open>The list of calls: the data connection, and the call that is going on.\<close>

definition call_list :: "sim_modem \<Rightarrow> string list" where
  "call_list m = (let data_call = ''+CLCC: 1,1,0,1,0,'' @ quoted [] @ '',128'' in
     if initiated_valid_call m then [data_call, ''+CLCC: 2,0,3,0,0,'' @ quoted ''+49123123123'' @ '',129'', ''OK'']
     else if initiated_invalid_call m then [data_call, ''+CLCC: 2,0,3,0,0,'' @ quoted ''03519999'' @ '',129'', ''OK'']
     else if \<not> ringing m \<and> \<not> call_established m then [data_call, ''OK'']
     else if ringing m then [data_call, ''+CLCC: 2,1,4,0,0,'' @ quoted ''+49123123123'' @ '',145'', ''OK'']
     else if call_established m then [data_call, ''+CLCC: 2,1,0,0,0,'' @ quoted ''+49123123123'' @ '',145'', ''OK'']
     else [])"

definition call_commands :: "line \<Rightarrow> sim_modem \<Rightarrow> sim_modem" where
  "call_commands l m =
     (let m = (if line_eq l ''AT+CLCC'' then sends_all (call_list m) m else m);
          m = (if line_eq l ''ATD03519999;''
               then schedule_timeout ((modem_sends ''OK'' m)\<lparr>initiated_invalid_call := True\<rparr>) else m);
          m = (if line_eq l ''ATD+49123123123;''
               then schedule_timeout ((modem_sends ''OK'' m)\<lparr>initiated_valid_call := True\<rparr>) else m);
          m = (if line_eq l ''ATA''
               then (if ringing m then (modem_sends ''OK'' m)\<lparr>call_established := True, ringing := False\<rparr>
                     else modem_sends ''NO CARRIER'' m) else m)
      in if line_eq l ''ATH'' then (modem_sends ''OK'' m)\<lparr>call_established := False\<rparr> else m)"

definition ring_tone :: string where
  "ring_tone = ''AT+QLDTMF=5,'' @ quoted ''4,3,6,#,D,3'' @ '',1''"

definition last_commands :: "line \<Rightarrow> sim_modem \<Rightarrow> sim_modem" where
  "last_commands l m =
     (let m = (if line_eq l ''AT+QPOWD'' then modem_sends_delayed ''POWERED DOWN'' 1000 m else m)
      in if line_eq l ring_tone then modem_sends ''OK'' (m\<lparr>audible_ring := True\<rparr>) else m)"

definition sim_handle_command :: "line \<Rightarrow> sim_modem \<Rightarrow> sim_modem" where
  "sim_handle_command l m = last_commands l (call_commands l (pin_commands l (qcfg_commands l
     (handshake_commands l (remote_commands l m)))))"

text \<open>The handlers: \<open>segs\<close> is what arrived from the driver.\<close>

definition handle_read_from_driver :: "string list \<Rightarrow> sim_modem \<Rightarrow> sim_modem \<times> string list" where
  "handle_read_from_driver segs m =
     (case receive 256 sim_handle_command (sim_buffer m) m segs of
        (buf, m', segs') \<Rightarrow> (m'\<lparr>sim_buffer := buf\<rparr>, segs'))"

definition sim_handle_timeout :: "string list \<Rightarrow> sim_modem \<Rightarrow> sim_modem \<times> string list" where
  "sim_handle_timeout segs m =
     (let m = m\<lparr>timeout_armed := False\<rparr>;
          m = (if initiated_invalid_call m
               then (modem_sends ''NO CARRIER'' m)\<lparr>initiated_invalid_call := False\<rparr> else m);
          m = (if initiated_valid_call m
               then m\<lparr>initiated_valid_call := False, call_established := True\<rparr> else m);
          m = (if ringing m then schedule_timeout (modem_sends ''RING'' m) else m)
      in handle_read_from_driver segs m)"

section \<open>What the modem answers\<close>

text \<open>The responses that complete a command for the driver.\<close>

definition final_response :: "nat \<times> string \<Rightarrow> bool" where
  "final_response t \<longleftrightarrow> snd t = ''OK'' @ eol \<or> snd t = ''ERROR'' @ eol \<or> line_starts_with (snd t) ''+CME ERROR:''"

definition finals :: "sim_modem \<Rightarrow> nat" where
  "finals m = length (filter final_response (sim_sent m))"

definition answered :: "sim_modem \<Rightarrow> line \<Rightarrow> bool" where
  "answered m l \<longleftrightarrow> (l = ''AT'' \<and> check_ready_count m + 1 > 3)
     \<or> l \<in> {''ATE0'', ''AT+QCFG='' @ quoted ''urc/ri/smsincoming'', ''AT+QCFG='' @ quoted ''usbnet'',
            ''AT+QCFG='' @ quoted ''usbnet'' @ '',1'', ''AT+CFUN=1,1'', ''AT+CPIN=4321'', ''AT+CPIN?'',
            ''AT+QPINC?'', ''AT+CPIN=1234'', ''AT+CLCC'', ''ATD03519999;'', ''ATD+49123123123;'', ''ATH'', ring_tone}
     \<or> (l = ''ATA'' \<and> ringing m)"

lemma finals_simps [simp]:
  "finals (m\<lparr>ringing := a\<rparr>) = finals m" "finals (m\<lparr>call_established := a\<rparr>) = finals m"
  "finals (m\<lparr>initiated_invalid_call := a\<rparr>) = finals m" "finals (m\<lparr>initiated_valid_call := a\<rparr>) = finals m"
  "finals (m\<lparr>audible_ring := a\<rparr>) = finals m" "finals (m\<lparr>usbnet_ecm := a\<rparr>) = finals m"
  "finals (m\<lparr>check_ready_count := n\<rparr>) = finals m" "finals (schedule_timeout m) = finals m"
  by (simp_all add: finals_def schedule_timeout_def)

lemma finals_sends:
  "finals (modem_sends_delayed t d m) = finals m + (if final_response (d, t @ eol) then 1 else 0)"
  "finals (modem_sends t m) = finals m + (if final_response (100, t @ eol) then 1 else 0)"
  "finals (sends_all ts m) = finals m + length (filter (\<lambda>t. final_response (100, t @ eol)) ts)"
proof -
  show d: "finals (modem_sends_delayed t d m) = finals m + (if final_response (d, t @ eol) then 1 else 0)" for t d m
    by (simp add: finals_def modem_sends_delayed_def)
  then show s: "finals (modem_sends t m) = finals m + (if final_response (100, t @ eol) then 1 else 0)" for t m
    by (simp add: modem_sends_def)
  show "finals (sends_all ts m) = finals m + length (filter (\<lambda>t. final_response (100, t @ eol)) ts)"
    by (induction ts arbitrary: m) (simp_all add: sends_all_def s)
qed

lemma final_texts:
  "final_response (d, ''OK'' @ eol)" "final_response (d, ''+CME ERROR: 16'' @ eol)"
  "\<not> final_response (d, ''NO CARRIER'' @ eol)" "\<not> final_response (d, ''RDY'' @ eol)"
  "\<not> final_response (d, ''POWERED DOWN'' @ eol)"
  "\<not> final_response (d, CHR ''+'' # CHR ''Q'' # t)" "\<not> final_response (d, CHR ''+'' # CHR ''C'' # CHR ''P'' # t)"
  "\<not> final_response (d, CHR ''+'' # CHR ''C'' # CHR ''L'' # t)"
  by (simp_all add: final_response_def line_starts_with_def eol_def)

lemma finals_groups:
  "finals (remote_commands l m) = finals m"
  "finals (handshake_commands l m) = finals m + (if l = ''AT'' \<and> check_ready_count m + 1 > 3 \<or> l = ''ATE0'' then 1 else 0)"
  "finals (qcfg_commands l m) = finals m + (if l \<in> {''AT+QCFG='' @ quoted ''urc/ri/smsincoming'',
     ''AT+QCFG='' @ quoted ''usbnet'', ''AT+QCFG='' @ quoted ''usbnet'' @ '',1'', ''AT+CFUN=1,1''} then 1 else 0)"
  "finals (pin_commands l m) = finals m
     + (if l \<in> {''AT+CPIN=4321'', ''AT+CPIN?'', ''AT+QPINC?'', ''AT+CPIN=1234''} then 1 else 0)"
  "finals (call_commands l m) = finals m + (if l \<in> {''AT+CLCC'', ''ATD03519999;'', ''ATD+49123123123;'', ''ATH''}
     \<or> l = ''ATA'' \<and> ringing m then 1 else 0)"
  "finals (last_commands l m) = finals m + (if l = ring_tone then 1 else 0)"
  by (auto simp: remote_commands_def handshake_commands_def qcfg_commands_def pin_commands_def call_commands_def
      last_commands_def call_list_def finals_sends final_texts [simplified] Let_def quoted_def ring_tone_def)

lemma sends_frame [simp]:
  "ringing (sends_all ts m) = ringing m" "check_ready_count (sends_all ts m) = check_ready_count m"
  "pin_valid (sends_all ts m) = pin_valid m" "ringing (modem_sends t m) = ringing m"
  "pin_valid (modem_sends t m) = pin_valid m" "ringing (modem_sends_delayed t d m) = ringing m"
  "pin_valid (modem_sends_delayed t d m) = pin_valid m" "pin_valid (schedule_timeout m) = pin_valid m"
  "check_ready_count (modem_sends t m) = check_ready_count m"
  "check_ready_count (schedule_timeout m) = check_ready_count m"
  by (induction ts arbitrary: m)
    (simp_all add: sends_all_def modem_sends_def modem_sends_delayed_def schedule_timeout_def)

lemma groups_frame:
  "check_ready_count (remote_commands l m) = check_ready_count m"
  "l = ''ATA'' \<Longrightarrow> ringing (remote_commands l m) = ringing m"
  "ringing (handshake_commands l m) = ringing m" "ringing (qcfg_commands l m) = ringing m"
  "ringing (pin_commands l m) = ringing m"
  by (auto simp: remote_commands_def handshake_commands_def qcfg_commands_def pin_commands_def Let_def)

text \<open>
  The modem answers a command with exactly one response that completes it for the driver,
  or with none: while it boots, for the answer to a call that does not ring, for powering off,
  and for anything it does not know.
\<close>

theorem commands_answered_once:
  "finals (sim_handle_command l m) = finals m + (if answered m l then 1 else 0)"
proof -
  consider "l = ''AT''" | "l = ''ATA''" | "l \<notin> {''AT'', ''ATA''}" by blast
  then show ?thesis
  proof cases
    case 1
    then show ?thesis
      by (simp add: sim_handle_command_def finals_groups groups_frame answered_def quoted_def ring_tone_def)
  next
    case 2
    then show ?thesis
      by (simp add: sim_handle_command_def finals_groups groups_frame answered_def quoted_def ring_tone_def)
  next
    case 3
    then show ?thesis
      by (simp add: sim_handle_command_def finals_groups answered_def quoted_def ring_tone_def)
  qed
qed

lemma pin_valid_groups:
  "pin_valid (remote_commands l m) = pin_valid m" "pin_valid (handshake_commands l m) = pin_valid m"
  "pin_valid (qcfg_commands l m) = pin_valid m" "pin_valid (pin_commands l m) = pin_valid m"
  "pin_valid (call_commands l m) = pin_valid m" "pin_valid (last_commands l m) = pin_valid m"
  by (simp_all add: remote_commands_def handshake_commands_def qcfg_commands_def pin_commands_def
      call_commands_def last_commands_def Let_def)

text \<open>
  Entering the right PIN is not remembered: nothing sets \<open>pin_valid\<close>, so the modem asks for the
  PIN whenever its state is requested.
\<close>

lemma sim_pin_never_valid:
  "pin_valid (sim_handle_command l m) = pin_valid m"
  "pin_valid (fst (handle_read_from_driver segs m)) = pin_valid m"
  "pin_valid (fst (sim_handle_timeout segs m)) = pin_valid m"
proof -
  show cmd: "pin_valid (sim_handle_command l m) = pin_valid m" for l m
    by (simp add: sim_handle_command_def pin_valid_groups)
  have "pin_valid (fold sim_handle_command ls m) = pin_valid m" for ls m
    by (induction ls arbitrary: m) (simp_all add: cmd)
  then show reads: "pin_valid (fst (handle_read_from_driver segs m)) = pin_valid m" for segs m
    using receive_fold [of 256 sim_handle_command "sim_buffer m" m segs "[]"]
    by (auto simp: handle_read_from_driver_def split: prod.split)
  show "pin_valid (fst (sim_handle_timeout segs m)) = pin_valid m"
    by (simp add: sim_handle_timeout_def reads Let_def)
qed

end
