(* ===== verification/At_Test.thy ===== *)
theory At_Test
  imports At_Modem_Sim At_Settled
begin

text \<open>
  The test of the AT protocol: \<^verbatim>\<open>src/test/at_protocol/driver.h\<close> drives the AT driver through a
  plan of steps, from entering a wrong PIN to powering down, against the simulated modem of
  \<open>At_Modem_Sim\<close>. The handlers get the time and Genode's conversion of a report's number;
  the time does not change during a handler. The report fits its buffer.
\<close>

section \<open>The read buffer\<close>

text \<open>\<^verbatim>\<open>check_small_read_buffer\<close>: the lines a buffer of 8 bytes delivers.\<close>

definition modem_sends_texts :: "string list \<Rightarrow> string \<times> string list" where
  "modem_sends_texts contents =
     fold (\<lambda>content (buf, ls). case fill 8 buf [content] of
         (_, buf', _) \<Rightarrow> consume_lines 8 collect buf' ls) contents ([], [])"

definition small_buffer_texts :: "string list" where
  "small_buffer_texts = [''abcd'' @ eol @ ''e'', ''fghijk'' @ eol @ ''x'', eol, ''abcdefghijk'', ''ok'' @ eol]"

definition expected_lines :: "string list" where
  "expected_lines = [''abcd'', ''efghijk'', ''x'', ''ok'']"

section \<open>The plan\<close>

datatype test_step = WRONG_PIN | INITIATE_DENIED_CALL | INITIATE_ACCEPTED_CALL | HANGUP | INCOMING_CALL
  | ACCEPT_INCOMING_CALL | REMOTE_HANGS_UP | POWERING_DOWN | POWERED_DOWN | TEST_DONE

record test =
  t_driver :: driver
  t_step :: test_step
  t_last_progress_ms :: u64
  t_timer :: bool
  t_unread :: "string list"
  t_sent :: "string list"

definition test_driver :: driver where
  "test_driver = init_driver [mk_entry ''usbnet'' ''1'', mk_entry ''urc/ri/smsincoming'' ''pulse,120,1'']"

definition init_test :: test where
  "init_test = \<lparr>t_driver = test_driver, t_step = WRONG_PIN, t_last_progress_ms = 0, t_timer = False,
     t_unread = [], t_sent = []\<rparr>"

text \<open>Reading the report.\<close>

definition report_text :: "string \<Rightarrow> report_item list \<Rightarrow> string" where
  "report_text a items = (case List.find (\<lambda>i. case i of Attr_str b v \<Rightarrow> a = b | _ \<Rightarrow> False) items of
     Some (Attr_str b v) \<Rightarrow> genode_string 128 v | _ \<Rightarrow> [])"

definition report_number :: "(string \<Rightarrow> u32 option) \<Rightarrow> string \<Rightarrow> report_item list \<Rightarrow> u32" where
  "report_number num_of a items =
     (case List.find (\<lambda>i. case i of Attr_str b v \<Rightarrow> a = b | Attr_num b n \<Rightarrow> a = b | _ \<Rightarrow> False) items of
        Some (Attr_str b v) \<Rightarrow> (case num_of v of None \<Rightarrow> 0 | Some n \<Rightarrow> n)
      | Some (Attr_num b n) \<Rightarrow> n | _ \<Rightarrow> 0)"

definition report_call :: "report_item list \<Rightarrow> (string \<times> string) list option" where
  "report_call items = (case List.find (\<lambda>i. case i of Call_node as \<Rightarrow> True | _ \<Rightarrow> False) items of
     Some (Call_node as) \<Rightarrow> Some as | _ \<Rightarrow> None)"

definition call_state :: "string \<Rightarrow> string \<Rightarrow> report_item list \<Rightarrow> bool" where
  "call_state number expected items = (case report_call items of None \<Rightarrow> False
     | Some as \<Rightarrow> genode_string 128 (str_of (map_of as ''number'')) = number
         \<and> genode_string 128 (str_of (map_of as ''state'')) = expected)"

text \<open>The configuration of a step.\<close>

definition call_node :: "(string \<times> string) list \<Rightarrow> node" where
  "call_node as = Node ''call'' as [] []"

definition test_config :: "(string \<times> string) list \<Rightarrow> node list \<Rightarrow> node" where
  "test_config as subs = Node ''config'' as [] subs"

definition right_pin :: "(string \<times> string) list" where "right_pin = [(''pin'', ''1234'')]"

fun step_config :: "test_step \<Rightarrow> node" where
  "step_config WRONG_PIN = test_config [(''pin'', ''4321'')] []"
| "step_config INITIATE_DENIED_CALL = test_config right_pin [call_node [(''number'', ''03519999'')]]"
| "step_config INITIATE_ACCEPTED_CALL = test_config right_pin [call_node [(''number'', ''+49123123123'')]]"
| "step_config HANGUP =
     test_config right_pin [call_node [(''number'', ''+49123123123''), (''state'', ''rejected'')]]"
| "step_config INCOMING_CALL = test_config right_pin [Node ''ring'' [] ring_tone []]"
| "step_config ACCEPT_INCOMING_CALL = test_config right_pin [call_node [(''number'', ''+49123123123'')]]"
| "step_config REMOTE_HANGS_UP = test_config right_pin [call_node [(''number'', ''+49123123123'')]]"
| "step_config POWERING_DOWN = test_config [(''power'', ''off'')] []"
| "step_config POWERED_DOWN = test_config [(''power'', ''off'')] []"
| "step_config TEST_DONE = test_config [] []"

text \<open>What a step waits for, in the report or in the driver after the configuration was applied.\<close>

fun step_reached :: "(string \<Rightarrow> u32 option) \<Rightarrow> report_item list \<Rightarrow> driver \<Rightarrow> test_step \<Rightarrow> bool" where
  "step_reached num_of state d WRONG_PIN \<longleftrightarrow> report_text ''pin'' state = ''required''
     \<and> report_number num_of ''pin_remaining_attempts'' state = 2"
| "step_reached num_of state d INITIATE_DENIED_CALL \<longleftrightarrow> report_text ''pin'' state = ''ok''
     \<and> call_state ''03519999'' ''rejected'' state"
| "step_reached num_of state d INITIATE_ACCEPTED_CALL \<longleftrightarrow> call_state ''+49123123123'' ''active'' state"
| "step_reached num_of state d HANGUP \<longleftrightarrow> report_call state = None"
| "step_reached num_of state d INCOMING_CALL \<longleftrightarrow> \<not> report_number num_of ''ring_count'' state < 3
     \<and> call_state ''+49123123123'' ''incoming'' state"
| "step_reached num_of state d ACCEPT_INCOMING_CALL \<longleftrightarrow> call_state ''+49123123123'' ''active'' state"
| "step_reached num_of state d REMOTE_HANGS_UP \<longleftrightarrow> call_state ''+49123123123'' ''rejected'' state"
| "step_reached num_of state d POWERING_DOWN \<longleftrightarrow> powering_down d"
| "step_reached num_of state d POWERED_DOWN \<longleftrightarrow> drv_powered_down d"
| "step_reached num_of state d TEST_DONE \<longleftrightarrow> False"

text \<open>The step that follows, and the command to the modem that sets it off.\<close>

fun next_step :: "test_step \<Rightarrow> test_step" where
  "next_step WRONG_PIN = INITIATE_DENIED_CALL"
| "next_step INITIATE_DENIED_CALL = INITIATE_ACCEPTED_CALL"
| "next_step INITIATE_ACCEPTED_CALL = HANGUP"
| "next_step HANGUP = INCOMING_CALL"
| "next_step INCOMING_CALL = ACCEPT_INCOMING_CALL"
| "next_step ACCEPT_INCOMING_CALL = REMOTE_HANGS_UP"
| "next_step REMOTE_HANGS_UP = POWERING_DOWN"
| "next_step POWERING_DOWN = POWERED_DOWN"
| "next_step POWERED_DOWN = TEST_DONE"
| "next_step TEST_DONE = TEST_DONE"

fun remote_command :: "test_step \<Rightarrow> string option" where
  "remote_command HANGUP = Some ''remote: ring''"
| "remote_command ACCEPT_INCOMING_CALL = Some ''remote: hangup''"
| "remote_command _ = None"

definition sent_text :: "string option \<Rightarrow> string list" where
  "sent_text cmd = (case cmd of None \<Rightarrow> [] | Some c \<Rightarrow> [command_with_eol c])"

definition test_apply :: "(string \<Rightarrow> token list) \<Rightarrow> node \<Rightarrow> test \<Rightarrow> test" where
  "test_apply scan config t =
     (let (d, cmd, rest) = drv_apply scan 256 config (t_unread t) (t_driver t)
      in t\<lparr>t_driver := d, t_unread := rest, t_sent := t_sent t @ sent_text cmd\<rparr>)"

definition apply_state_changes ::
  "(string \<Rightarrow> token list) \<Rightarrow> (string \<Rightarrow> u32 option) \<Rightarrow> report_item list \<Rightarrow> test \<Rightarrow> test" where
  "apply_state_changes scan num_of state t =
     (if t_step t = TEST_DONE then t
      else let t1 = test_apply scan (step_config (t_step t)) t
           in if \<not> step_reached num_of state (t_driver t1) (t_step t) then t1
              else let t2 = (case remote_command (t_step t) of None \<Rightarrow> t1
                     | Some c \<Rightarrow> t1\<lparr>t_driver := drv_send_command c (t_driver t1), t_sent := t_sent t1 @ sent_text (Some c)\<rparr>)
                   in t2\<lparr>t_step := next_step (t_step t)\<rparr>)"

section \<open>The handlers\<close>

definition test_version :: "test \<Rightarrow> u32" where
  "test_version t = version (drv_status (t_driver t))"

partial_function (option) change_loop ::
  "(string \<Rightarrow> token list) \<Rightarrow> (string \<Rightarrow> u32 option) \<Rightarrow> u64 \<Rightarrow> report_item list \<Rightarrow> test \<Rightarrow> test option" where
  "change_loop scan num_of now state t =
     (let t' = apply_state_changes scan num_of state t
      in if test_version t' = test_version t then Some t'
         else change_loop scan num_of now state (t'\<lparr>t_last_progress_ms := now\<rparr>))"

declare change_loop.simps [code]

definition schedule_timer_in_500ms :: "test \<Rightarrow> test" where
  "schedule_timer_in_500ms t = t\<lparr>t_timer := True\<rparr>"

definition after_changes :: "test \<Rightarrow> test" where
  "after_changes t =
     (let need_polling = (\<not> at_ok (drv_status (t_driver t)) \<or> drv_outbound (t_driver t)
             \<or> response_outstanding (t_driver t));
          t = (if drv_outbound (t_driver t) then t\<lparr>t_driver := invalidate_call_list (t_driver t)\<rparr> else t)
      in if need_polling then schedule_timer_in_500ms t else t)"

definition handle_read_from_modem ::
  "(string \<Rightarrow> token list) \<Rightarrow> (string \<Rightarrow> u32 option) \<Rightarrow> u64 \<Rightarrow> test \<Rightarrow> test option" where
  "handle_read_from_modem scan num_of now t =
     map_option after_changes (change_loop scan num_of now (generate_report (t_driver t)) t)"

definition test_handle_timer ::
  "(string \<Rightarrow> token list) \<Rightarrow> (string \<Rightarrow> u32 option) \<Rightarrow> u64 \<Rightarrow> test \<Rightarrow> test option" where
  "test_handle_timer scan num_of now t =
     (let t = t\<lparr>t_timer := False\<rparr>;
          t = (if response_outstanding (t_driver t) \<and> now - t_last_progress_ms t > 600
               then t\<lparr>t_driver := drv_cancel_command (t_driver t)\<rparr> else t)
      in handle_read_from_modem scan num_of now t)"

section \<open>Both sides\<close>

text \<open>
  The test and the modem with the terminals between them. A turn is a handler of one of the two.
  The modem sleeps before each text it writes, so the test may find any number of the texts
  under way (\<open>b_texts\<close>); the modem finds everything the test has written. \<open>Time\<close> lets time pass.
\<close>

record bench =
  b_test :: test
  b_modem :: sim_modem
  b_texts :: "string list"
  b_now :: u64

datatype turn = Test_reads nat | Test_timeout | Modem_reads | Modem_timeout | Time u64

definition init_bench :: bench where
  "init_bench = \<lparr>b_test = init_test, b_modem = init_sim, b_texts = [], b_now = 0\<rparr>"

definition take_texts :: "nat \<Rightarrow> bench \<Rightarrow> bench" where
  "take_texts n b = b\<lparr>b_test := (b_test b)\<lparr>t_unread := t_unread (b_test b) @ take n (b_texts b)\<rparr>,
     b_texts := drop n (b_texts b)\<rparr>"

definition test_turn :: "bench \<Rightarrow> test option \<Rightarrow> bench option" where
  "test_turn b r = map_option (\<lambda>t. b\<lparr>b_test := t\<rparr>) r"

definition modem_turn :: "bench \<Rightarrow> sim_modem \<times> string list \<Rightarrow> bench" where
  "modem_turn b r = b\<lparr>b_modem := (fst r)\<lparr>sim_sent := []\<rparr>, b_texts := b_texts b @ map snd (sim_sent (fst r)),
     b_test := (b_test b)\<lparr>t_sent := snd r\<rparr>\<rparr>"

fun bench_step ::
  "(string \<Rightarrow> token list) \<Rightarrow> (string \<Rightarrow> u32 option) \<Rightarrow> turn \<Rightarrow> bench \<Rightarrow> bench option" where
  "bench_step scan num_of (Test_reads n) b =
     (let b = take_texts n b
      in test_turn b (handle_read_from_modem scan num_of (b_now b) (b_test b)))"
| "bench_step scan num_of Test_timeout b = (if \<not> t_timer (b_test b) then Some b
     else test_turn b (test_handle_timer scan num_of (b_now b) (b_test b)))"
| "bench_step scan num_of Modem_reads b =
     Some (modem_turn b (handle_read_from_driver (t_sent (b_test b)) (b_modem b)))"
| "bench_step scan num_of Modem_timeout b = (if \<not> timeout_armed (b_modem b) then Some b
     else Some (modem_turn b (sim_handle_timeout (t_sent (b_test b)) (b_modem b))))"
| "bench_step scan num_of (Time ms) b = Some (b\<lparr>b_now := b_now b + ms\<rparr>)"

fun bench_run ::
  "(string \<Rightarrow> token list) \<Rightarrow> (string \<Rightarrow> u32 option) \<Rightarrow> turn list \<Rightarrow> bench \<Rightarrow> bench option" where
  "bench_run scan num_of [] b = Some b"
| "bench_run scan num_of (e # es) b = Option.bind (bench_step scan num_of e b) (bench_run scan num_of es)"

text \<open>Reading a number: the digits a text starts with.\<close>

definition leading_number :: "string \<Rightarrow> u32 option" where
  "leading_number s = (case takeWhile decimal_digit s of [] \<Rightarrow> None
     | ds \<Rightarrow> Some (foldl (\<lambda>n c. 10 * n + of_nat (of_char c - 48)) 0 ds))"

section \<open>The loop of the test returns\<close>

text \<open>The steps of the plan that are left.\<close>

fun steps_to_go :: "test_step \<Rightarrow> nat" where
  "steps_to_go WRONG_PIN = 9"
| "steps_to_go INITIATE_DENIED_CALL = 8"
| "steps_to_go INITIATE_ACCEPTED_CALL = 7"
| "steps_to_go HANGUP = 6"
| "steps_to_go INCOMING_CALL = 5"
| "steps_to_go ACCEPT_INCOMING_CALL = 4"
| "steps_to_go REMOTE_HANGS_UP = 3"
| "steps_to_go POWERING_DOWN = 2"
| "steps_to_go POWERED_DOWN = 1"
| "steps_to_go TEST_DONE = 0"

definition change_order :: "(test \<times> test) set" where
  "change_order = inv_image (less_than <*lex*> less_than <*lex*> less_than)
     (\<lambda>t. (steps_to_go (t_step t), amount (t_unread t),
       if would_send (step_config (t_step t)) (t_driver t) then 1 else (0::nat)))"

lemma wf_change_order: "wf change_order"
  by (simp add: change_order_def wf_lex_prod)

lemma apply_state_changes_decreases:
  assumes "test_version (apply_state_changes scan num_of state t) \<noteq> test_version t"
  shows "((apply_state_changes scan num_of state t)\<lparr>t_last_progress_ms := now\<rparr>, t) \<in> change_order"
proof -
  let ?config = "step_config (t_step t)"
  have going: "t_step t \<noteq> TEST_DONE" using assms by (auto simp: apply_state_changes_def)
  obtain d cmd rest where a: "drv_apply scan 256 ?config (t_unread t) (t_driver t) = (d, cmd, rest)"
    by (cases "drv_apply scan 256 ?config (t_unread t) (t_driver t)")
  define t1 where "t1 = test_apply scan ?config t"
  have t1: "t_driver t1 = d" "t_unread t1 = rest" "t_step t1 = t_step t"
    by (simp_all add: t1_def test_apply_def a)
  show ?thesis
  proof (cases "step_reached num_of state d (t_step t)")
    case True
    then have "t_step (apply_state_changes scan num_of state t) = next_step (t_step t)"
      using going by (simp add: apply_state_changes_def Let_def t1 flip: t1_def)
    moreover have "steps_to_go (next_step (t_step t)) < steps_to_go (t_step t)"
      using going by (cases "t_step t") simp_all
    ultimately show ?thesis by (simp add: change_order_def)
  next
    case False
    then have "apply_state_changes scan num_of state t = t1"
      using going by (simp add: apply_state_changes_def Let_def t1 flip: t1_def)
    then show ?thesis
      using assms drv_apply_progress [OF a] by (auto simp: change_order_def t1 test_version_def)
  qed
qed

text \<open>
  The handlers of the test return, whatever the modem has sent and however Genode converts
  the numbers of the report: applying the configuration of a step again and again comes to rest.
\<close>

theorem test_handlers_return:
  "(\<exists>t'. handle_read_from_modem scan num_of now t = Some t')
   \<and> (\<exists>t'. test_handle_timer scan num_of now t = Some t')"
proof -
  have loop: "\<exists>t'. change_loop scan num_of now state t = Some t'" for state t
  proof (induction t rule: wf_induct_rule [OF wf_change_order])
    case (1 t)
    then show ?case
      using apply_state_changes_decreases [of scan num_of state t now]
      by (subst change_loop.simps) (auto simp: Let_def)
  qed
  have "\<exists>t'. handle_read_from_modem scan num_of now t = Some t'" for t
    using loop by (simp add: handle_read_from_modem_def)
  then show ?thesis unfolding test_handle_timer_def Let_def by blast
qed

section \<open>Runs\<close>

text \<open>The read buffer delivers the lines the test expects, and drops the line that is too long.\<close>

theorem small_read_buffer_lines: "modem_sends_texts small_buffer_texts = ([], expected_lines)"
  by code_simp

text \<open>
  The start of a run: the modem ignores the first three commands, each is cancelled after more
  than 600 ms, and the fourth is answered.
\<close>

definition attempt :: "turn list" where
  "attempt = [Modem_reads, Time 701, Test_timeout]"

theorem modem_found_at_fourth_attempt:
  "case bench_run token_scan leading_number
       (Test_reads 0 # attempt @ attempt @ attempt @ [Modem_reads, Test_reads 1]) init_bench of
     None \<Rightarrow> False
   | Some b \<Rightarrow> at_ok (drv_status (t_driver (b_test b))) \<and> check_ready_count (b_modem b) = 4
       \<and> t_sent (b_test b) = [''ATE0'' @ eol] \<and> t_step (b_test b) = WRONG_PIN"
  by code_simp

end
