(* ===== verification/Gpu_Shim.thy ===== *)
theory Gpu_Shim
  imports Gpu_Instance
begin

text \<open>
  \<^verbatim>\<open>src/driver/gpu/lima/lx_emul.c\<close>, below the calls of \<open>Gpu_Drm\<close>: the objects a DRM session
  consists of, and the conversion of the pointers in the structures of an ioctl. Objects of
  Linux live in a heap; \<open>ok n\<close> tells whether the \<open>n\<close>-th allocation succeeds. A pointer is null, an
  error value (\<^verbatim>\<open>ERR_PTR\<close>), or valid. Where the code would use a pointer that is not valid, the
  result is \<open>None\<close>.
\<close>

section \<open>Objects\<close>

datatype kptr = Null | Err_ptr | Ptr nat

datatype kobj = Drm_private kptr kptr | Inode nat "nat option" | File "nat option" | Vfsmount
  | Open_file nat nat kptr kptr | Dentry

record kheap =
  kallocs :: nat
  objs :: "nat \<Rightarrow> kobj option"
  last_ino :: nat

definition kzalloc :: "(nat \<Rightarrow> bool) \<Rightarrow> kobj \<Rightarrow> kheap \<Rightarrow> kptr \<times> kheap" where
  "kzalloc ok x h = (let n = kallocs h; h = h\<lparr>kallocs := n + 1\<rparr> in
     if ok n then (Ptr n, h\<lparr>objs := (objs h)(n \<mapsto> x)\<rparr>) else (Null, h))"

definition kfree :: "kptr \<Rightarrow> kheap \<Rightarrow> kheap" where
  "kfree p h = (case p of Ptr a \<Rightarrow> h\<lparr>objs := (objs h)(a := None)\<rparr> | _ \<Rightarrow> h)"

definition kset :: "kptr \<Rightarrow> kobj \<Rightarrow> kheap \<Rightarrow> kheap option" where
  "kset p x h = (case p of Ptr a \<Rightarrow> Some (h\<lparr>objs := (objs h)(a \<mapsto> x)\<rparr>) | _ \<Rightarrow> None)"

text \<open>\<^verbatim>\<open>kern_mount\<close>, \<^verbatim>\<open>simple_pin_fs\<close>, \<^verbatim>\<open>alloc_anon_inode\<close>, \<^verbatim>\<open>alloc_file_pseudo\<close>\<close>

definition kern_mount :: "(nat \<Rightarrow> bool) \<Rightarrow> kheap \<Rightarrow> kptr \<times> kheap" where
  "kern_mount ok h = (case kzalloc ok Vfsmount h of
     (Null, h) \<Rightarrow> (Err_ptr, h) | (m, h) \<Rightarrow> (m, h))"

definition simple_pin_fs :: "(nat \<Rightarrow> bool) \<Rightarrow> kheap \<Rightarrow> int \<times> kptr \<times> kheap" where
  "simple_pin_fs ok h = (0, kzalloc ok Vfsmount h)"

definition alloc_anon_inode :: "(nat \<Rightarrow> bool) \<Rightarrow> kheap \<Rightarrow> kptr \<times> kheap" where
  "alloc_anon_inode ok h = (case kzalloc ok (Inode (last_ino h + 1) None) h of
     (Null, h) \<Rightarrow> (Err_ptr, h) | (i, h) \<Rightarrow> (i, h\<lparr>last_ino := last_ino h + 1\<rparr>))"

text \<open>An open file has a count, its operations, an inode and a directory entry.\<close>

definition alloc_file_pseudo :: "(nat \<Rightarrow> bool) \<Rightarrow> nat \<Rightarrow> kptr \<Rightarrow> kheap \<Rightarrow> kptr \<times> kheap" where
  "alloc_file_pseudo ok fops inode h = (case kzalloc ok (Open_file 0 0 Null Null) h of
     (Ptr f, h) \<Rightarrow> (case kzalloc ok Dentry h of
         (Ptr d, h) \<Rightarrow> (Ptr f, h\<lparr>objs := (objs h)(f \<mapsto> Open_file 1 fops inode (Ptr d))\<rparr>)
       | (_, h) \<Rightarrow> (Err_ptr, kfree (Ptr f) h))
   | (_, h) \<Rightarrow> (Err_ptr, h))"

text \<open>
  \<^verbatim>\<open>lx_drm_open\<close>. \<open>fops\<close> says whether the file operations are registered; the driver's own
  \<^verbatim>\<open>open\<close> is \<open>k_open\<close>, \<open>rdev\<close> the number of the DRM device. The inode is compared with null, but a failed allocation of it is an
  error value.
\<close>

definition lx_drm_open_impl ::
    "'k linux \<Rightarrow> (nat \<Rightarrow> bool) \<Rightarrow> nat \<Rightarrow> bool \<Rightarrow> kheap \<Rightarrow> 'k \<Rightarrow> (kptr \<times> kheap \<times> 'k) option" where
  "lx_drm_open_impl K ok rdev fops h k =
     (if \<not> fops then Some (Null, h, k)
      else case kzalloc ok (Drm_private Null Null) h of
        (Ptr p, h) \<Rightarrow>
          (let (inode, h) = alloc_anon_inode ok h;
               h = h\<lparr>objs := (objs h)(p \<mapsto> Drm_private Null inode)\<rparr>
           in if inode = Null then Some (Null, kfree (Ptr p) h, k)
              else case kset inode (Inode (last_ino h) (Some rdev)) h of
                None \<Rightarrow> None
              | Some h \<Rightarrow>
                 (let (file, h) = kzalloc ok (File None) h;
                      h = h\<lparr>objs := (objs h)(p \<mapsto> Drm_private file inode)\<rparr>
                  in if file = Null then Some (Null, kfree (Ptr p) (kfree inode h), k)
                     else case k_open K k of
                       (None, k) \<Rightarrow> Some (Null, kfree (Ptr p) (kfree inode (kfree file h)), k)
                     | (Some f, k) \<Rightarrow> map_option (\<lambda>h. (Ptr p, h, k)) (kset file (File (Some f)) h)))
      | (_, h) \<Rightarrow> Some (Null, h, k))"

text \<open>\<^verbatim>\<open>lx_drm_close\<close>\<close>

definition lx_drm_close_impl :: "'k linux \<Rightarrow> bool \<Rightarrow> kptr \<Rightarrow> kheap \<Rightarrow> 'k \<Rightarrow> (kheap \<times> 'k) option" where
  "lx_drm_close_impl K fops p h k =
     (if p = Null \<or> \<not> fops then Some (h, k)
      else case p of
        Ptr a \<Rightarrow> (case objs h a of
            Some (Drm_private (Ptr fl) inode) \<Rightarrow> (case objs h fl of
                Some (File (Some f)) \<Rightarrow> Some (kfree p (kfree (Ptr fl) (kfree inode h)), k_release K k f)
              | _ \<Rightarrow> None)
          | _ \<Rightarrow> None)
      | _ \<Rightarrow> None)"

lemmas shim_defs = kzalloc_def kfree_def kset_def alloc_anon_inode_def

text \<open>Objects have addresses that were allocated.\<close>

definition heap_ok :: "kheap \<Rightarrow> bool" where
  "heap_ok h \<longleftrightarrow> (\<forall>a. objs h a \<noteq> None \<longrightarrow> a < kallocs h)"

lemma heap_ok_fresh: "heap_ok h \<Longrightarrow> objs h (kallocs h) = None" "heap_ok h \<Longrightarrow> objs h (Suc (kallocs h)) = None"
    "heap_ok h \<Longrightarrow> objs h (Suc (Suc (kallocs h))) = None"
  unfolding heap_ok_def by (metis less_irrefl, metis Suc_n_not_le_n less_imp_le_nat,
      metis Suc_lessD lessI less_asym)

text \<open>
  C8: opening the DRM device either fails and leaves no object behind, or succeeds, and then
  closing it frees everything again and releases the file of Linux that was opened. There is one
  exception: if the inode cannot be allocated, the error value is taken for an inode and
  written to.
\<close>

theorem drm_open_all_or_nothing:
  assumes "heap_ok h"
  shows "case lx_drm_open_impl K ok rdev fops h k of
      None \<Rightarrow> fops \<and> ok (kallocs h) \<and> \<not> ok (kallocs h + 1)
    | Some (p, h', k') \<Rightarrow> heap_ok h' \<and> \<not> (fops \<and> ok (kallocs h) \<and> \<not> ok (kallocs h + 1))
        \<and> (if p = Null then objs h' = objs h
           else \<exists>f h''. k_open K k = (Some f, k') \<and> lx_drm_close_impl K fops p h' k' = Some (h'', k_release K k' f)
             \<and> objs h'' = objs h)"
proof -
  note fresh = heap_ok_fresh [OF assms]
  have ok: "heap_ok (h\<lparr>kallocs := n, objs := x, last_ino := i\<rparr>) \<longleftrightarrow> (\<forall>a. x a \<noteq> None \<longrightarrow> a < n)" for n x i
    by (simp add: heap_ok_def)
  show ?thesis
    using assms fresh
    by (auto simp: lx_drm_open_impl_def lx_drm_close_impl_def shim_defs heap_ok_def Let_def fun_upd_idem_iff
        fun_eq_iff less_Suc_eq split: prod.split option.split)
qed

text \<open>A device with one file, and allocations that succeed.\<close>

definition empty_heap :: kheap where
  "empty_heap = \<lparr>kallocs = 0, objs = (\<lambda>_. None), last_ino = 0\<rparr>"

lemma drm_open_all_or_nothing_witness:
  "\<exists>h k. lx_drm_open_impl dv_linux (\<lambda>_. True) 226 True empty_heap dv_init = Some (Ptr 0, h, k)
     \<and> map_option (objs \<circ> fst) (lx_drm_close_impl dv_linux True (Ptr 0) h k) = Some (\<lambda>_. None)"
proof -
  obtain h k where op: "lx_drm_open_impl dv_linux (\<lambda>_. True) 226 True empty_heap dv_init = Some (Ptr 0, h, k)"
    by (simp add: lx_drm_open_impl_def shim_defs empty_heap_def Let_def dv_open_def dv_init_def)
  moreover have "heap_ok empty_heap" by (simp add: heap_ok_def empty_heap_def)
  from drm_open_all_or_nothing [OF this, where K = dv_linux and ok = "\<lambda>_. True" and rdev = "226" and fops = True and k = dv_init]
  have "map_option (objs \<circ> fst) (lx_drm_close_impl dv_linux True (Ptr 0) h k) = Some (\<lambda>_. None)"
    unfolding op by (auto simp: empty_heap_def)
  ultimately show ?thesis by blast
qed

text \<open>With the second allocation failing the error value is written to.\<close>

lemma inode_error_dereferenced:
  "lx_drm_open_impl dv_linux (\<lambda>n. n \<noteq> 1) 226 True empty_heap dv_init = None"
  by (simp add: lx_drm_open_impl_def shim_defs empty_heap_def Let_def)

section \<open>The pointers in the structures of an ioctl\<close>

text \<open>
  The layout of \<^verbatim>\<open>drm_version\<close> and the numbers of the ioctls. The number of a command is its
  lowest byte; \<^verbatim>\<open>IOC_IN\<close> and \<^verbatim>\<open>IOC_OUT\<close> tell the direction of its data.
\<close>

record drm_numbers =
  v_name :: u64
  v_date :: u64
  v_desc :: u64
  COMMAND_BASE :: u32
  COMMAND_END :: u32
  LIMA_GEM_SUBMIT :: u32
  NR_VERSION :: u32
  IOC_IN :: u32
  IOC_OUT :: u32

definition ioctl_nr :: "u32 \<Rightarrow> u32" where "ioctl_nr cmd = cmd AND 0xff"

definition convert_pointer :: "(u64 \<Rightarrow> u64) \<Rightarrow> u64 \<Rightarrow> memory \<Rightarrow> memory" where
  "convert_pointer f a m = write64 m a (f (read64 m a))"

definition lx_drm_version_in :: "drm_numbers \<Rightarrow> u64 \<Rightarrow> memory \<Rightarrow> memory" where
  "lx_drm_version_in N p m = convert_pointer (\<lambda>x. x + p) (p + v_desc N)
     (convert_pointer (\<lambda>x. x + p) (p + v_date N) (convert_pointer (\<lambda>x. x + p) (p + v_name N) m))"

definition lx_drm_version_out :: "drm_numbers \<Rightarrow> u64 \<Rightarrow> memory \<Rightarrow> memory" where
  "lx_drm_version_out N p m = convert_pointer (\<lambda>x. x - p) (p + v_desc N)
     (convert_pointer (\<lambda>x. x - p) (p + v_date N) (convert_pointer (\<lambda>x. x - p) (p + v_name N) m))"

definition is_driver_ioctl :: "drm_numbers \<Rightarrow> u32 \<Rightarrow> bool" where
  "is_driver_ioctl N cmd \<longleftrightarrow> ioctl_nr cmd \<ge> COMMAND_BASE N \<and> ioctl_nr cmd < COMMAND_END N"

definition lx_drm_in :: "'k linux \<Rightarrow> drm_numbers \<Rightarrow> u32 \<Rightarrow> u64 \<Rightarrow> memory \<Rightarrow> memory" where
  "lx_drm_in K N cmd arg m =
     (if is_driver_ioctl N cmd
      then if ioctl_nr cmd - COMMAND_BASE N = LIMA_GEM_SUBMIT N then lx_drm_gem_submit_in K m arg else m
      else if ioctl_nr cmd = NR_VERSION N then lx_drm_version_in N arg m else m)"

definition lx_drm_out :: "drm_numbers \<Rightarrow> u32 \<Rightarrow> u64 \<Rightarrow> memory \<Rightarrow> memory" where
  "lx_drm_out N cmd arg m =
     (if is_driver_ioctl N cmd then m
      else if ioctl_nr cmd = NR_VERSION N then lx_drm_version_out N arg m else m)"

text \<open>\<^verbatim>\<open>lx_drm_ioctl\<close> around \<^verbatim>\<open>drm_ioctl\<close>, here a function on the memory.\<close>

definition drm_ioctl_converted ::
    "'k linux \<Rightarrow> drm_numbers \<Rightarrow> (memory \<Rightarrow> int \<times> memory) \<Rightarrow> u32 \<Rightarrow> u64 \<Rightarrow> memory \<Rightarrow> int \<times> memory" where
  "drm_ioctl_converted K N drm_ioctl cmd arg m =
     (let m = (if cmd AND IOC_IN N \<noteq> 0 then lx_drm_in K N cmd arg m else m);
          (res, m) = drm_ioctl m
      in (res, if cmd AND IOC_OUT N \<noteq> 0 then lx_drm_out N cmd arg m else m))"

lemma span_8: "in_span a 8 x \<longleftrightarrow> in_span a 4 x \<or> in_span (a + 4) 4 x"
proof -
  have "unat (x - a) < 8 \<longleftrightarrow> unat (x - a) < 4 \<or> unat (x - (a + 4)) < 4"
  proof (cases "unat (x - a) < 4")
    case False
    then have "(4 :: u64) \<le> x - a" by (simp add: word_le_nat_alt)
    then have "unat (x - a - 4) = unat (x - a) - 4" by (simp add: unat_sub)
    moreover have "x - (a + 4) = x - a - 4" by simp
    ultimately show ?thesis using False by (simp only:) arith
  qed simp
  then show ?thesis by (simp add: in_span_def)
qed

lemma halves_apart: "in_span a 4 x \<Longrightarrow> \<not> in_span (a + 4) 4 x"
  by (auto simp: byte_offsets add.assoc)

lemma write64_outside: "\<not> in_span a 8 x \<Longrightarrow> write64 m a v x = m x"
  by (simp add: write64_def span_8 write32_outside)

lemma read64_cong:
  assumes "\<And>x. in_span a 8 x \<Longrightarrow> m x = m' x"
  shows "read64 m a = read64 m' a"
  using assms read32_cong [of a m m'] read32_cong [of "a + 4" m m'] by (simp add: read64_def span_8)

lemma write32_read32 [simp]: "write32 m a (read32 m a) = m"
proof
  fix x
  have byte: "ucast (drop_bit (8 * i) (read32 m a)) = m (a + of_nat i)" if "i < 4" for i
  proof (rule bit_eqI)
    fix n
    assume "possible_bit TYPE(u8) n"
    then have "n < 8" by simp
    from that consider "i = 0" | "i = 1" | "i = 2" | "i = 3" by linarith
    then show "bit (ucast (drop_bit (8 * i) (read32 m a)) :: u8) n \<longleftrightarrow> bit (m (a + of_nat i)) n"
      using \<open>n < 8\<close> by cases (auto simp: read32_def bit_simps dest: bit_u8)
  qed
  show "write32 m a (read32 m a) x = m x"
    using byte [of 0] byte [of 1] byte [of 2] byte [of 3] by (auto simp: write32_def)
qed

lemma read64_halves: "ucast (read64 m a) = read32 m a" "ucast (drop_bit 32 (read64 m a)) = read32 m (a + 4)"
  by (rule bit_eqI, auto simp: read64_def bit_simps dest: bit_imp_le_length)+

lemma write64_read64 [simp]: "write64 m a (read64 m a) = m"
  by (simp add: write64_def read64_halves)

lemma write64_overwrite: "write64 (write64 m a v) a w = write64 m a w"
proof
  fix x
  show "write64 (write64 m a v) a w x = write64 m a w x"
    by (cases "in_span a 8 x")
      (auto simp: write64_outside, auto simp: write64_def write32_def span_8 byte_offsets)
qed

lemma read64_write64_same: "read64 (write64 m a v) a = v"
proof (rule bit_eqI)
  have low: "read32 (write64 m a v) a = ucast v"
    using read32_write32_apart [of a "a + 4" "write32 m a (ucast v)"] halves_apart by (simp add: write64_def)
  have high: "read32 (write64 m a v) (a + 4) = ucast (drop_bit 32 v)" by (simp add: write64_def)
  fix n
  assume "possible_bit TYPE(u64) n"
  then show "bit (read64 (write64 m a v) a) n \<longleftrightarrow> bit v n"
    by (auto simp: read64_def low high bit_simps)
qed

definition apart8 :: "u64 \<Rightarrow> u64 \<Rightarrow> bool" where
  "apart8 a b \<longleftrightarrow> (\<forall>x. \<not> (in_span a 8 x \<and> in_span b 8 x))"

lemma read64_write64_apart: "apart8 a b \<Longrightarrow> read64 (write64 m b v) a = read64 m a"
  by (rule read64_cong) (auto simp: apart8_def write64_outside)

lemma write64_commute:
  assumes "apart8 a b"
  shows "write64 (write64 m a v) b w = write64 (write64 m b w) a v"
proof
  have byte: "write64 m c u x = write64 m' c u x" if "in_span c 8 x" for m m' c u x
    using that by (auto simp: write64_def write32_def span_8 byte_offsets)
  fix x
  consider "in_span a 8 x" "\<not> in_span b 8 x" | "in_span b 8 x" "\<not> in_span a 8 x"
    | "\<not> in_span a 8 x" "\<not> in_span b 8 x"
    using assms by (auto simp: apart8_def)
  then show "write64 (write64 m a v) b w x = write64 (write64 m b w) a v x"
    by cases (auto simp: write64_outside intro: byte)
qed

lemma convert_commute:
  "apart8 a b \<Longrightarrow> convert_pointer f a (convert_pointer g b m) = convert_pointer g b (convert_pointer f a m)"
proof -
  assume ab: "apart8 a b"
  then have ba: "apart8 b a" by (auto simp: apart8_def)
  show ?thesis
    by (simp add: convert_pointer_def read64_write64_apart [OF ab] read64_write64_apart [OF ba]
        write64_commute [OF ba])
qed

lemma convert_back: "(\<And>x. f (g x) = x) \<Longrightarrow> convert_pointer f a (convert_pointer g a m) = m"
  by (simp add: convert_pointer_def read64_write64_same write64_overwrite)

text \<open>
  C9: an ioctl gives the pointers of its structure back as offsets, whatever the address of
  the structure is: after the conversion of the arguments and the conversion of the results the
  memory is what it was. The submission of a job is the exception, its structure keeps the
  pointers.
\<close>

theorem ioctl_pointers_restored:
  assumes "apart8 (p + v_name N) (p + v_date N)" and "apart8 (p + v_name N) (p + v_desc N)"
    and "apart8 (p + v_date N) (p + v_desc N)"
  shows "lx_drm_out N cmd p (lx_drm_in K N cmd p m)
    = (if is_driver_ioctl N cmd \<and> ioctl_nr cmd - COMMAND_BASE N = LIMA_GEM_SUBMIT N
       then lx_drm_gem_submit_in K m p else m)"
proof -
  let ?inc = "convert_pointer (\<lambda>x. x + p)" and ?dec = "convert_pointer (\<lambda>x. x - p)"
  let ?n = "p + v_name N" and ?d = "p + v_date N" and ?e = "p + v_desc N"
  have inverse: "?dec a (?inc a m) = m" for a m by (rule convert_back) simp
  have "?dec ?n (?inc ?e (?inc ?d (?inc ?n m))) = ?inc ?e (?inc ?d (?dec ?n (?inc ?n m)))"
    by (simp only: convert_commute [OF assms(2)] convert_commute [OF assms(1)])
  moreover have "?dec ?d (?inc ?e (?inc ?d m)) = ?inc ?e m"
    by (simp only: convert_commute [OF assms(3)] inverse)
  ultimately have "lx_drm_version_out N p (lx_drm_version_in N p m) = m"
    by (simp only: lx_drm_version_out_def lx_drm_version_in_def inverse)
  then show ?thesis by (simp add: lx_drm_in_def lx_drm_out_def)
qed

text \<open>The numbers of the kernel interface, and \<^verbatim>\<open>DRM_IOCTL_VERSION\<close> at an address.\<close>

definition drm_abi :: drm_numbers where
  "drm_abi = \<lparr>v_name = 24, v_date = 40, v_desc = 56, COMMAND_BASE = 0x40, COMMAND_END = 0xa0,
     LIMA_GEM_SUBMIT = 5, NR_VERSION = 0, IOC_IN = 0x40000000, IOC_OUT = 0x80000000\<rparr>"

lemma ioctl_pointers_restored_witness:
  "lx_drm_out drm_abi 0xc0406400 0x1000 (lx_drm_in dv_linux drm_abi 0xc0406400 0x1000 (\<lambda>a. ucast a))
    = (\<lambda>a. ucast a)"
proof -
  have apart: "apart8 a (a + 16)" "apart8 a (a + 32)" for a :: u64
    by (auto simp: apart8_def span_8 byte_offsets add.assoc)
  have "apart8 (0x1000 + v_name drm_abi) (0x1000 + v_date drm_abi)"
    "apart8 (0x1000 + v_name drm_abi) (0x1000 + v_desc drm_abi)"
    "apart8 (0x1000 + v_date drm_abi) (0x1000 + v_desc drm_abi)"
    using apart(1) [of "0x1018"] apart(2) [of "0x1018"] apart(1) [of "0x1028"]
    by (simp_all add: drm_abi_def)
  from ioctl_pointers_restored [OF this, where cmd = "0xc0406400" and K = dv_linux and m = "\<lambda>a. ucast a"]
  show ?thesis by (simp add: is_driver_ioctl_def ioctl_nr_def drm_abi_def)
qed

end
