(* ===== verification/De_Fb.thy ===== *)
theory De_Fb
  imports Prelude
begin

text \<open>
  The framebuffer driver around the Linux driver of the display engine:
  \<^verbatim>\<open>src/driver/framebuffer/de/fb.c\<close> and \<^verbatim>\<open>main.cc\<close>. Addresses are numbers; the size of
  \<^verbatim>\<open>struct fb_info\<close> is the parameter \<open>info_size\<close>, \<open>alloc\<close> is \<^verbatim>\<open>kzalloc\<close>. The memory of the
  framebuffer holds pixels of four bytes; the picture of the capture session is a function of
  the coordinates.
\<close>

section \<open>The framebuffer device of Linux\<close>

record fb_info =
  fi_addr :: nat
  fi_par :: "nat option"
  fi_device :: nat
  fbcon_rotate_hint :: int
  screen_base :: nat
  screen_size :: nat
  fi_xres :: u32
  fi_yres :: u32

definition framebuffer_alloc :: "nat \<Rightarrow> (nat \<Rightarrow> nat option) \<Rightarrow> nat \<Rightarrow> nat \<Rightarrow> fb_info option" where
  "framebuffer_alloc info_size alloc psize dev =
     (let BYTES_PER_LONG = 64 div 8;
          PADDING = BYTES_PER_LONG - info_size mod BYTES_PER_LONG;
          fb_info_size = (if psize \<noteq> 0 then info_size + PADDING else info_size)
      in case alloc (fb_info_size + psize) of
           None \<Rightarrow> None
         | Some p \<Rightarrow> Some \<lparr>fi_addr = p, fi_par = (if psize \<noteq> 0 then Some (p + fb_info_size) else None),
             fi_device = dev, fbcon_rotate_hint = -1, screen_base = 0, screen_size = 0,
             fi_xres = 0, fi_yres = 0\<rparr>)"

text \<open>The private part lies behind the structure, inside of the allocation and aligned.\<close>

lemma private_part_placed:
  assumes "framebuffer_alloc info_size alloc psize dev = Some i" and "psize \<noteq> 0"
  shows "\<exists>n par. alloc n = Some (fi_addr i) \<and> fi_par i = Some par
    \<and> fi_addr i + info_size < par \<and> par \<le> fi_addr i + info_size + 8 \<and> par + psize = fi_addr i + n
    \<and> (8 dvd fi_addr i \<longrightarrow> 8 dvd par)"
proof -
  obtain pad where pad: "8 - info_size mod 8 = pad" "0 < pad" "pad \<le> 8" "8 dvd info_size + pad"
    by (rule that [OF refl]) presburger+
  then have "alloc (info_size + pad + psize) = Some (fi_addr i)" "fi_par i = Some (fi_addr i + (info_size + pad))"
    using assms by (auto simp: framebuffer_alloc_def split: option.splits)
  moreover have "8 dvd a \<Longrightarrow> 8 dvd a + (info_size + pad)" for a using pad(4) by (rule dvd_add [rotated])
  ultimately show ?thesis using pad(2,3) by (intro exI conjI) (assumption | simp)+
qed

section \<open>The driver\<close>

record fb_screen =
  sc_base :: nat
  sc_xres :: nat
  sc_yres :: nat

record fb_driver =
  fb :: "fb_screen option"

definition fb_driver_init :: fb_driver where "fb_driver_init = \<lparr>fb = None\<rparr>"

definition lx_emul_framebuffer_ready :: "nat \<Rightarrow> nat \<Rightarrow> u32 \<Rightarrow> u32 \<Rightarrow> fb_driver \<Rightarrow> fb_driver" where
  "lx_emul_framebuffer_ready base _ xres yres d =
     d\<lparr>fb := Some \<lparr>sc_base = base, sc_xres = unat xres, sc_yres = unat yres\<rparr>\<rparr>"

definition register_framebuffer :: "fb_info \<Rightarrow> fb_driver \<Rightarrow> int \<times> fb_driver" where
  "register_framebuffer i d =
     (0, lx_emul_framebuffer_ready (screen_base i) (screen_size i) (fi_xres i) (fi_yres i) d)"

definition paint :: "fb_screen \<Rightarrow> (nat \<Rightarrow> nat \<Rightarrow> 'p) \<Rightarrow> (nat \<Rightarrow> 'p) \<Rightarrow> nat \<Rightarrow> 'p" where
  "paint f captured m = (\<lambda>a. if sc_base f \<le> a \<and> (a - sc_base f) mod 4 = 0 \<and> (a - sc_base f) div 4 < sc_xres f * sc_yres f
     then captured ((a - sc_base f) div 4 mod sc_xres f) ((a - sc_base f) div 4 div sc_xres f) else m a)"

definition fb_handle_timer :: "fb_driver \<Rightarrow> (nat \<Rightarrow> nat \<Rightarrow> 'p) \<Rightarrow> (nat \<Rightarrow> 'p) \<Rightarrow> nat \<Rightarrow> 'p" where
  "fb_handle_timer d captured m = (case fb d of None \<Rightarrow> m | Some f \<Rightarrow> paint f captured m)"

text \<open>Before Linux has registered its framebuffer, nothing is painted.\<close>

lemma nothing_painted_before: "fb_handle_timer fb_driver_init captured m = m"
  by (simp add: fb_handle_timer_def fb_driver_init_def)

text \<open>
  After that, each timer signal copies the whole captured picture to the framebuffer, line after
  line, and writes nothing outside of it, if its size covers the picture. The length of a line
  in memory is taken to be the width; that of Linux is not asked for.
\<close>

theorem picture_painted:
  assumes "unat (fi_xres i) * unat (fi_yres i) * 4 \<le> screen_size i"
    and "register_framebuffer i d = (r, d')"
  shows "x < unat (fi_xres i) \<Longrightarrow> y < unat (fi_yres i)
      \<Longrightarrow> fb_handle_timer d' captured m (screen_base i + 4 * (y * unat (fi_xres i) + x)) = captured x y"
    and "a < screen_base i \<or> screen_base i + screen_size i \<le> a \<Longrightarrow> fb_handle_timer d' captured m a = m a"
proof -
  let ?w = "unat (fi_xres i)" and ?h = "unat (fi_yres i)"
  have fb: "fb d' = Some \<lparr>sc_base = screen_base i, sc_xres = ?w, sc_yres = ?h\<rparr>"
    using assms(2) by (auto simp: register_framebuffer_def lx_emul_framebuffer_ready_def)
  show "fb_handle_timer d' captured m (screen_base i + 4 * (y * ?w + x)) = captured x y"
    if "x < ?w" "y < ?h"
  proof -
    have "y * ?w + x < Suc y * ?w" using that by simp
    also have "\<dots> \<le> ?h * ?w" using that by (intro mult_le_mono1) simp
    finally show ?thesis
      using that by (simp add: fb_handle_timer_def fb paint_def mult.commute [of ?h])
  qed
  show "fb_handle_timer d' captured m a = m a"
    if "a < screen_base i \<or> screen_base i + screen_size i \<le> a"
    using that
  proof
    assume "screen_base i + screen_size i \<le> a"
    then have "?w * ?h * 4 \<le> a - screen_base i" using assms(1) by simp
    then have "\<not> (a - screen_base i) div 4 < ?w * ?h"
      by (simp add: not_less less_eq_div_iff_mult_less_eq)
    then show ?thesis by (simp add: fb_handle_timer_def fb paint_def)
  qed (simp add: fb_handle_timer_def fb paint_def)
qed

end
