(* ===== verification/Boot_Memory.thy ===== *)
theory Boot_Memory
  imports Mmio
begin

text \<open>
  \<^verbatim>\<open>src/bootstrap/board/pine_a64lts/platform.cc\<close>: the size of the memory, computed from the
  registers of the DRAM controller, one for each rank.
\<close>

abbreviation "Dual_bank r \<equiv> Fld r 0 1"
abbreviation "Banks r \<equiv> Fld r 2 1"
abbreviation "Row_bits r \<equiv> Fld r 4 4"
abbreviation "Page_size r \<equiv> Fld r 8 4"

definition dual_bank :: "nat \<Rightarrow> regs \<Rightarrow> bool" where
  "dual_bank r m \<longleftrightarrow> reg_rd m (Dual_bank r) = 1"

definition bank_bits :: "nat \<Rightarrow> regs \<Rightarrow> u32" where
  "bank_bits r m = (if reg_rd m (Banks r) \<noteq> 0 then 3 else 2)"

definition row_bits :: "nat \<Rightarrow> regs \<Rightarrow> u32" where
  "row_bits r m = reg_rd m (Row_bits r) + 1"

definition page_size :: "nat \<Rightarrow> regs \<Rightarrow> u32" where
  "page_size r m = push_bit (unat (reg_rd m (Page_size r) + 3)) 1"

definition rank_size :: "nat \<Rightarrow> regs \<Rightarrow> u64" where
  "rank_size r m = push_bit (unat (row_bits r m + bank_bits r m)) 1 * ucast (page_size r m)"

definition detect_ram_size :: "regs \<Rightarrow> u64" where
  "detect_ram_size m = (let size = rank_size 0 m in
     if dual_bank 0 m then size + rank_size 4 m else size)"

lemma reg_rd_4: "unat (reg_rd m (Fld r s 4)) < 16"
proof -
  have "reg_rd m (Fld r s 4) = take_bit 4 (reg_rd m (Fld r s 4))"
    by (rule bit_eqI) (auto simp: bit_reg_rd bit_take_bit_iff)
  then have "unat (reg_rd m (Fld r s 4)) = take_bit 4 (unat (reg_rd m (Fld r s 4)))"
    by (metis unsigned_take_bit_eq)
  then show ?thesis by (metis take_bit_nat_less_exp power4_eq_xxxx mult_2 numeral_times_numeral semiring_norm(11,12,13))
qed

text \<open>The exponent of the size of a rank, between 6 and 37.\<close>

definition size_bits :: "nat \<Rightarrow> regs \<Rightarrow> nat" where
  "size_bits r m = unat (reg_rd m (Row_bits r)) + 1 + (if reg_rd m (Banks r) \<noteq> 0 then 3 else 2)
     + (unat (reg_rd m (Page_size r)) + 3)"

lemma rank_size_bits: "rank_size r m = push_bit (size_bits r m) 1" and size_bits_bound: "size_bits r m < 38"
proof -
  let ?row = "reg_rd m (Row_bits r)" and ?page = "reg_rd m (Page_size r)" and ?bank = "bank_bits r m"
  have row: "unat ?row < 16" and page: "unat ?page < 16" by (rule reg_rd_4)+
  have bank: "unat ?bank = (if reg_rd m (Banks r) \<noteq> 0 then 3 else 2)" by (simp add: bank_bits_def)
  have rows: "unat (row_bits r m + ?bank) = unat ?row + 1 + unat ?bank"
    using row bank by (simp add: row_bits_def unat_word_ariths)
  have pages: "unat (?page + 3) = unat ?page + 3" using page by (simp add: unat_word_ariths)
  have cast: "ucast (push_bit n 1 :: u32) = (push_bit n 1 :: u64)" if "n < 32" for n
    using that by (intro bit_eqI) (auto simp: bit_simps)
  have pagesize: "ucast (page_size r m) = (push_bit (unat ?page + 3) 1 :: u64)"
    unfolding page_size_def pages by (rule cast) (use page in simp)
  show "rank_size r m = push_bit (size_bits r m) 1"
    unfolding rank_size_def rows pagesize by (simp add: size_bits_def bank push_bit_eq_mult power_add)
  show "size_bits r m < 38" using row page by (simp add: size_bits_def)
qed

text \<open>The size is exact for every value of the registers: no shift and no sum wraps around.\<close>

theorem ram_size_exact:
  "unat (detect_ram_size m) = 2 ^ size_bits 0 m + (if dual_bank 0 m then 2 ^ size_bits 4 m else 0)"
proof -
  have rank: "unat (rank_size r m) = 2 ^ size_bits r m" "2 ^ size_bits r m < (2 ^ 38 :: nat)" for r
  proof -
    show less: "2 ^ size_bits r m < (2 ^ 38 :: nat)"
      by (rule power_strict_increasing) (simp_all add: size_bits_bound)
    then have "2 ^ size_bits r m < (2 ^ LENGTH(64) :: nat)" by simp
    from of_nat_inverse [OF refl this] show "unat (rank_size r m) = 2 ^ size_bits r m"
      by (simp add: rank_size_bits push_bit_eq_mult)
  qed
  show ?thesis
    using rank [of 0] rank [of 4] by (simp add: detect_ram_size_def Let_def unat_word_ariths)
qed

end
