(* ===== verification/Spec2Isabelle.thy ===== *)
theory Spec2Isabelle
  imports At_Order At_Pin At_Outstanding At_Reception At_Safety Scp_Props Ccu Pmic Pin_Driver
    Codec_Port Modem_Props Power_Main Gpu_Props Audio_Record Audio_Session
    Touch_Input Camera_Props Uart Button De_Clock Lx_Glue At_Terminal Pin_Pulse
    Modem_Termination At_Redial At_Test Gpu_Shim De_Fb Boot_Memory
begin

text \<open>
  Drivers of Genode for Allwinner A64 boards (PinePhone, Pine-A64-LTS).

  \<^bold>\<open>The program.\<close> The repository consists of user-level drivers. The platform driver
  (\<^verbatim>\<open>src/driver/platform/a64\<close>) owns clocks, resets, power domains and the system-control
  processor (SCP), which executes small Forth programs. The pin driver
  (\<^verbatim>\<open>src/driver/pin/a64\<close>) owns the pin controller. The power driver
  (\<^verbatim>\<open>src/driver/power/pinephone\<close>) sends programs to the SCP; the modem driver
  (\<^verbatim>\<open>src/driver/modem\<close>) uses pins to switch the modem on and off and talks to it with AT
  commands; the audio-control driver (\<^verbatim>\<open>src/driver/audio_control/pinephone\<close>) switches the
  audio codec, and the audio driver (\<^verbatim>\<open>src/driver/audio/a64\<close>) moves the samples. The UART
  and the button driver serve small devices. The GPU, camera, touch, framebuffer, network,
  SD-card and USB drivers run Linux drivers on an emulation layer (\<^verbatim>\<open>src/lib/lx_emul\<close>),
  with glue code between them and Genode's sessions.

  \<^bold>\<open>Theories.\<close>
  \<^item> \<open>Prelude\<close>: machine words, strings and registries of the Genode base library, lemmas on
    lists. \<open>Config_Node\<close>: parsed configuration nodes. \<open>Mmio\<close>: bit fields and programs of
    bit-field writes; the locale \<open>register_set\<close> is the contract of register access,
    interpreted on register files of 32-bit words.
  \<^item> \<open>At_Types\<close> (\<^verbatim>\<open>types.h\<close>, \<^verbatim>\<open>line.h\<close>), \<open>At_Read_Buffer\<close> (\<^verbatim>\<open>read_buffer.h\<close>), \<open>At_Qcfg\<close>
    (\<^verbatim>\<open>qcfg.h\<close>), \<open>At_Status\<close> (\<^verbatim>\<open>status.h\<close>), \<open>At_Control\<close> (\<^verbatim>\<open>control.h\<close>), \<open>At_Driver\<close>
    (\<^verbatim>\<open>driver.h\<close>): the AT-protocol driver of \<^verbatim>\<open>modem/at_protocol\<close>, bottom up as in the code.
    The driver's state is the record \<open>driver\<close>; \<open>drv_apply\<close> is one call of its \<^verbatim>\<open>apply\<close>.
    \<open>At_Control_Inv\<close>, \<open>At_Safety\<close>, \<open>At_Order\<close>, \<open>At_Pin\<close>, \<open>At_Outstanding\<close>, \<open>At_Reception\<close>
    hold its properties: the handshake order, the bound on PIN entries, the one outstanding
    command and the reasons for giving it up, and the independence of the status, one flag
    apart, of the segmentation of the byte stream. \<open>At_Settled\<close> shows that
    applying the same configuration again to a driver that has just sent a command, without
    new data, sends nothing; \<open>At_Redial\<close> shows two situations in which the driver dials a
    number although nobody asked for a call.
  \<^item> \<open>At_Modem_Sim\<close>, \<open>At_Test\<close> (\<^verbatim>\<open>src/test/at_protocol\<close>): the test of the AT driver, which is
    its executable specification: a simulated modem, the plan of the test, and the record
    \<open>bench\<close> with both and the texts between them.
  \<^item> \<open>Modem_Power\<close> (\<^verbatim>\<open>power.h\<close>), \<open>Modem_Main\<close> (\<^verbatim>\<open>main.cc\<close>), \<open>Modem_Props\<close>: the power-key
    state machine, its combination with the AT driver, and what goes wrong between the two.
    \<open>Modem_Termination\<close>: the configuration handler returns if the modem falls silent.
  \<^item> \<open>Scp\<close> (\<^verbatim>\<open>scp.h\<close>, \<^verbatim>\<open>scp_session.h\<close>), \<open>Scp_Props\<close>: the broker between the clients and the
    SCP. \<open>scp_byte\<close> is the SCP's own view of the shared buffer, big-endian words, against
    which the driver's order of the bytes is checked. \<open>Ccu\<close> (\<^verbatim>\<open>ccu.h\<close>, \<^verbatim>\<open>r_prcm.h\<close>): clocks and
    resets as register programs; \<open>clock_output\<close> is what the hardware delivers for the contents of
    the registers. \<open>Pmic\<close> (\<^verbatim>\<open>pmic.h\<close>): power domains, which are programs handed to \<open>Scp\<close>.
  \<^item> \<open>Pin_Types\<close> (\<^verbatim>\<open>common_types.h\<close>, \<^verbatim>\<open>types.h\<close>), \<open>Pio\<close> (\<^verbatim>\<open>pio.h\<close>), \<open>Pin_Driver\<close>
    (\<^verbatim>\<open>main.cc\<close>): the pin driver from the parsing of declarations to the registers; its
    properties are stated on the contents of the registers.
  \<^item> \<open>Power_Main\<close>: the power driver. \<open>Codec\<close>, \<open>Codec_Props\<close>, \<open>Codec_Port\<close>
    (\<^verbatim>\<open>audio_codec.h\<close>): the audio codec; \<open>Codec_Port\<close> refines the analog register accesses to
    the single port register of the hardware (locale \<open>analog_port\<close>).
  \<^item> \<open>Gpu_Drm\<close> (\<^verbatim>\<open>gpu/lima/lx_emul.c\<close>), \<open>Gpu_Worker\<close>, \<open>Gpu_Session\<close> (\<^verbatim>\<open>gpu/lima/main.cc\<close>):
    the GPU driver. The Linux driver is the parameter \<open>K\<close> of type \<open>linux\<close>, a record of the
    calls the code makes; memory is a function from addresses to bytes. A session is the
    record \<open>session\<close> with one pending request, which its worker task executes
    (\<open>worker_pass\<close>); the state shared by the sessions is the record \<open>gpu\<close>, and \<open>gpu_handle\<close> is
    one event: a session is created or closed, a call arrives, a worker runs, Linux moves on.
    \<open>Gpu_Handles\<close> states the contract of Linux (\<open>drm_contract\<close>: what the calls do to the handles
    of a file) and what every request does to the handles of its session; \<open>Gpu_Safety\<close> holds
    the locale \<open>drm_files\<close> with the invariant of all reachable states, \<open>Gpu_Instance\<close> a
    concrete device that keeps the contract, \<open>Gpu_Props\<close> allocation, waiting and sharing.
    \<open>Gpu_Shim\<close> details the objects behind an open file, and the pointers of an ioctl.
  \<^item> \<open>Audio_Dma\<close>, \<open>Audio_Main\<close> (\<^verbatim>\<open>audio/a64/main.cc\<close>), \<open>Audio_Session\<close> (\<^verbatim>\<open>session.cc\<close>): the
    audio driver. The state is the record \<open>audio\<close>: registers, the descriptors of the playback
    and the recording ring with their pages and buffers, and the two queues. \<open>Audio_Ring\<close> puts
    the DMA engine next to it (\<open>ring_step\<close>: one step of the engine or one interrupt) and shows
    that playback loses nothing; \<open>Audio_Record\<close> shows what recording delivers, and that it
    does not recover from a late interrupt. The locale \<open>dma_memory\<close> is the contract of cached
    DMA buffers, with an instance.

  \<^item> \<open>Touch_Input\<close> (\<^verbatim>\<open>touch/goodix/input.c\<close>): the events made of the frames of the touch
    screen, and the picture the client gets of the fingers that are down, compared with what the
    calls of the Linux driver report. The memory the allocator returns is the parameter \<open>room\<close>.
  \<^item> \<open>Camera_Config\<close> (\<^verbatim>\<open>camera/pinephone/main.cc\<close>, \<^verbatim>\<open>lx_user.h\<close>), \<open>Camera_Image\<close>
    (\<^verbatim>\<open>yuv_rgb.c\<close>), \<open>Camera_Gui\<close> (\<^verbatim>\<open>gui.cc\<close> and the display part of \<^verbatim>\<open>lx_user.c\<close>),
    \<open>Camera_Capture\<close> (the rest of \<^verbatim>\<open>lx_user.c\<close>, \<^verbatim>\<open>lx_emul.c\<close>): the camera driver from its
    configuration over the setup of the video devices to the pixels shown. The video drivers of
    Linux are the parameter \<open>V\<close>, a function from the calls made so far (\<open>trace\<close>) and the next
    call to its reply; the loop over the pictures runs for a given number of rounds.
    \<open>Camera_Props\<close> shows what is asked of the devices before the start, which pictures are
    shown, and that painting stays within the buffers.
  \<^item> \<open>Uart\<close> (\<^verbatim>\<open>uart/ns16550\<close>): the UART driver on the record \<open>ns16550\<close> of its device; its
    main handler forwards every byte that arrives. \<open>Button\<close> (\<^verbatim>\<open>button/pinephone/main.cc\<close>): the
    volume buttons. \<open>At_Terminal\<close> (\<^verbatim>\<open>terminal_modem.h\<close>): the AT protocol's connection to a
    terminal session. \<open>Pin_Pulse\<close> (\<^verbatim>\<open>app/pin_pulse/main.cc\<close>): dimming by pulse widths.
  \<^item> \<open>De_Clock\<close> (\<^verbatim>\<open>framebuffer/de/clock.c\<close>, \<^verbatim>\<open>reset.c\<close>) and \<open>Lx_Glue\<close>
    (\<^verbatim>\<open>lib/lx_emul/a64\<close>, the clock tables of the GPU, SD-card, Wifi and camera drivers): clocks,
    resets, pins and interrupts as the Linux drivers see them. \<open>De_Fb\<close>
    (\<^verbatim>\<open>framebuffer/de/fb.c\<close>, \<^verbatim>\<open>main.cc\<close>): the framebuffer of the display engine.
  \<^item> \<open>Boot_Memory\<close> (\<^verbatim>\<open>bootstrap/board/pine_a64lts/platform.cc\<close>): the size of the memory.

  \<^bold>\<open>Modelling.\<close> Objects are records, \<^verbatim>\<open>Constructible\<close> members are options, registries are
  lists in iteration order, exceptions are left results, machine integers are words.
  Register accesses are programs of bit-field writes. What is outside the repository is a
  parameter: the tokenizer (locale \<open>at_scanner\<close> with an instance), Genode's conversions of
  text, the level of pins, the time, the data received from the modem and the responses of
  the SCP.

  \<^bold>\<open>Termination.\<close> The loops over received data end because the data gets shorter
  (\<open>consume_lines\<close>, \<open>receive\<close>). \<open>settle\<close> of the power sequence ends by the number of power
  states left (\<open>steps_left\<close>). The loop of the modem driver's configuration handler is a
  partial function, \<open>None\<close> if it does not end. \<open>Modem_Termination\<close> proves that it returns as
  soon as the modem sends nothing more: the order of the passes is the data that is left, then
  the power states, then whether a command is to be sent. It also shows that a modem that never
  pauses keeps the handler forever. The loop of the test and that of the UART driver are partial
  functions as well, and \<open>At_Test\<close> and \<open>Uart\<close> prove that they return. Waiting for the transmitter ends because the device gets one
  step closer to being empty with each look at it. The endless loop over the camera's pictures
  runs for a given number of rounds, and every statement about it holds for all of them.

  \<^bold>\<open>Not modelled.\<close> Log output, quotas, capabilities and the session frameworks of Genode;
  the generated stubs of the Linux drivers (\<^verbatim>\<open>generated_dummies.c\<close>, \<^verbatim>\<open>dummies.c\<close>), which only
  report a missing function; the constants that boot and board support hand to the kernel;
  the tests of the SCP and the pins, and the application that logs pin events. Also left out is the code that
  does nothing but start a Linux driver or construct the parts modelled here: the main programs
  of the network, SD-card, USB, touch, platform and audio-control drivers, and the
  functions of their emulation that return constants. Of the colour conversions only the one in
  use is modelled. Of the GPU driver, the creation of the worker tasks, quotas and the start of
  Linux are left out; whether an allocation of memory succeeds is an argument.
\<close>

end
